(* ===== verification/Prelude.thy ===== *)
theory Prelude
  imports Main "HOL-Library.Word" "HOL-Library.AList"
begin

text \<open>
  Shared vocabulary of the elelem development: the collections the component theories
  put their facts into, Go's signed 64-bit arithmetic on \<open>int\<close>, the sum type used for
  \<open>(value, error)\<close> returns, and list facts about runs of elements and first-seen
  de-duplication that several components use.
\<close>

named_theorems go_defs \<open>definitions unfolded by the component proofs\<close>
named_theorems frame_simps \<open>fields an operation leaves unchanged\<close>

section \<open>Signed 64-bit integers\<close>

text \<open>
  Go's \<open>int64\<close>, \<open>int\<close> and \<open>time.Duration\<close> are two's complement 64-bit values. They are
  modelled as \<open>int\<close>, and \<open>wrap64\<close> is applied wherever the source adds, subtracts or
  multiplies such values and the result could leave the range.
\<close>

definition wrap64 :: "int \<Rightarrow> int" where
  "wrap64 x = (x + 2 ^ 63) mod 2 ^ 64 - 2 ^ 63"

definition int64 :: "int \<Rightarrow> bool" where
  "int64 x \<longleftrightarrow> - (2 ^ 63) \<le> x \<and> x < 2 ^ 63"

lemma wrap64_int64: "int64 (wrap64 x)"
  using pos_mod_bound [of "2 ^ 64" "x + 2 ^ 63"] pos_mod_sign [of "2 ^ 64" "x + 2 ^ 63"]
  by (simp add: wrap64_def int64_def)

lemma wrap64_id: "int64 x \<Longrightarrow> wrap64 x = x"
  by (simp add: wrap64_def int64_def)

text \<open>\<open>wrap64\<close> is the signed reading of a 64-bit machine word.\<close>

lemma wrap64_word: "wrap64 x = sint (word_of_int x :: 64 word)"
proof -
  have "sint (word_of_int x :: 64 word) = signed_take_bit 63 x"
    by (simp add: sint_sbintrunc')
  also have "\<dots> = wrap64 x"
    by (simp add: wrap64_def signed_take_bit_eq_take_bit_shift take_bit_eq_mod)
  finally show ?thesis by simp
qed

lemma wrap64_add_left: "wrap64 (wrap64 x + y) = wrap64 (x + y)"
proof -
  have "((x + 2 ^ 63) mod 2 ^ 64 + y) mod 2 ^ 64 = (x + 2 ^ 63 + y) mod 2 ^ (64::nat)"
    by (rule mod_add_left_eq)
  then show ?thesis by (simp add: wrap64_def algebra_simps)
qed

lemma wrap64_add_right: "wrap64 (x + wrap64 y) = wrap64 (x + y)"
  using wrap64_add_left [of y x] by (simp add: add.commute)

definition add64 :: "int \<Rightarrow> int \<Rightarrow> int" where
  "add64 a b = wrap64 (a + b)"

definition sub64 :: "int \<Rightarrow> int \<Rightarrow> int" where
  "sub64 a b = wrap64 (a - b)"

lemma add64_assoc: "add64 (add64 a b) c = add64 a (add64 b c)"
  by (simp add: add64_def wrap64_add_left wrap64_add_right add.assoc)

lemma add64_commute: "add64 a b = add64 b a"
  by (simp add: add64_def add.commute)

lemma add64_exact: "int64 (a + b) \<Longrightarrow> add64 a b = a + b"
  by (simp add: add64_def wrap64_id)

lemma sub64_exact: "int64 (a - b) \<Longrightarrow> sub64 a b = a - b"
  by (simp add: sub64_def wrap64_id)

section \<open>Lists\<close>

text \<open>First-seen de-duplication, the shape of Go's \<open>seen\<close>-map loops.\<close>

fun dedup_by :: "('a \<Rightarrow> 'k) \<Rightarrow> 'k set \<Rightarrow> 'a list \<Rightarrow> 'a list" where
  "dedup_by key seen [] = []"
| "dedup_by key seen (x # xs) =
     (if key x \<in> seen then dedup_by key seen xs
      else x # dedup_by key (insert (key x) seen) xs)"

lemma dedup_by_keys:
  "key ` set (dedup_by key seen xs) = key ` set xs - seen"
  by (induction key seen xs rule: dedup_by.induct) auto

lemma dedup_by_subset: "set (dedup_by key seen xs) \<subseteq> set xs"
  by (induction key seen xs rule: dedup_by.induct) auto

lemma dedup_by_distinct:
  "distinct (map key (dedup_by key seen xs)) \<and> key ` set (dedup_by key seen xs) \<inter> seen = {}"
proof (induction key seen xs rule: dedup_by.induct)
  case (2 key seen x xs)
  then show ?case by (auto simp: image_iff)
qed simp

lemma dedup_by_distinct_keys [simp]: "distinct (map key (dedup_by key seen xs))"
  using dedup_by_distinct by blast

lemma dedup_by_id:
  assumes "distinct (map key xs)" and "key ` set xs \<inter> seen = {}"
  shows "dedup_by key seen xs = xs"
  using assms by (induction key seen xs rule: dedup_by.induct) (auto simp: image_iff)

lemma dedup_by_length: "length (dedup_by key seen xs) \<le> length xs"
  by (induction key seen xs rule: dedup_by.induct) (auto intro: le_SucI)

lemma dedup_by_idem [simp]: "dedup_by key {} (dedup_by key {} xs) = dedup_by key {} xs"
  by (rule dedup_by_id) simp_all

text \<open>A maximal run at the front of a list.\<close>

lemma takeWhile_run_append:
  assumes "\<forall>x \<in> set xs. P x" and "ys = [] \<or> \<not> P (hd ys)"
  shows "takeWhile P (xs @ ys) = xs" and "dropWhile P (xs @ ys) = ys"
  using assms by (cases ys; simp)+

lemma dropWhile_length_less [simp]: "length (dropWhile P xs) < Suc (length xs)"
  by (simp add: length_dropWhile_le le_imp_less_Suc)

text \<open>The last element satisfying a predicate, by index from the end.\<close>

fun last_index :: "('a \<Rightarrow> bool) \<Rightarrow> 'a list \<Rightarrow> nat option" where
  "last_index P [] = None"
| "last_index P (x # xs) =
     (case last_index P xs of
        Some i \<Rightarrow> Some (Suc i)
      | None \<Rightarrow> if P x then Some 0 else None)"

lemma last_index_Some:
  "last_index P xs = Some i \<Longrightarrow> i < length xs \<and> P (xs ! i) \<and> (\<forall>j. i < j \<and> j < length xs \<longrightarrow> \<not> P (xs ! j))"
proof (induction xs arbitrary: i)
  case (Cons x xs)
  show ?case
  proof (cases "last_index P xs")
    case None
    then have "\<forall>y \<in> set xs. \<not> P y"
      by (induction xs) (auto split: option.splits if_splits)
    with None Cons.prems show ?thesis
      by (auto split: if_splits simp: nth_Cons')
  next
    case (Some k)
    with Cons.prems have "i = Suc k" by simp
    with Cons.IH [OF Some] show ?thesis
      by (auto simp: nth_Cons split: nat.splits)
  qed
qed simp

lemma last_index_None: "last_index P xs = None \<longleftrightarrow> (\<forall>x \<in> set xs. \<not> P x)"
  by (induction xs) (auto split: option.splits)

section \<open>Results\<close>

text \<open>
  A Go function returning \<open>(T, error)\<close> is a function into \<open>err + T\<close>, with \<open>Inl\<close> the
  error. A function returning only \<open>error\<close> is a function into \<open>err option\<close>, with
  \<open>None\<close> the nil error. \<open>first_error\<close> runs checks in order and stops at the first that
  fails, as a chain of \<open>if err := f(); err != nil { return err }\<close> does.
\<close>

fun first_error :: "'e option list \<Rightarrow> 'e option" where
  "first_error [] = None"
| "first_error (None # cs) = first_error cs"
| "first_error (Some e # cs) = Some e"

lemma first_error_None [simp]: "first_error cs = None \<longleftrightarrow> (\<forall>c \<in> set cs. c = None)"
  by (induction cs rule: first_error.induct) auto

lemma first_error_Some: "first_error cs = Some e \<Longrightarrow> Some e \<in> set cs"
  by (induction cs rule: first_error.induct) auto

text \<open>A map kept as an association list grows at its end.\<close>

lemma update_fresh: "k \<notin> fst ` set xs \<Longrightarrow> AList.update k v xs = xs @ [(k, v)]"
  by (induction xs) auto

end
