(* ===== verification/GoStrings.thy ===== *)
theory GoStrings
  imports Prelude
begin

text \<open>
  The parts of Go's string library the engine calls, on \<open>string\<close> read as a sequence of
  bytes: UTF-8 decoding and encoding (\<open>[]rune(s)\<close> and \<open>string(runes)\<close>),
  \<open>strings.TrimSpace\<close>, \<open>strings.Join\<close>, \<open>strings.Cut\<close>, \<open>strings.HasPrefix\<close>, decimal
  formatting (\<open>%d\<close>), quoting (\<open>%q\<close>) and \<open>strconv.ParseInt\<close>. Code points are \<open>nat\<close>.
\<close>

section \<open>UTF-8\<close>

type_synonym rune = nat

definition byte_of :: "char \<Rightarrow> nat" where
  "byte_of c = of_char c"

definition of_byte :: "nat \<Rightarrow> char" where
  "of_byte n = char_of n"

lemma byte_of_less [simp]: "byte_of c < 256"
  by (simp add: byte_of_def)

lemma of_byte_byte_of [simp]: "of_byte (byte_of c) = c"
  by (simp add: byte_of_def of_byte_def)

lemma byte_of_of_byte [simp]: "n < 256 \<Longrightarrow> byte_of (of_byte n) = n"
  by (simp add: byte_of_def of_byte_def)

definition runeError :: rune where
  "runeError = 0xFFFD"

definition cont_byte :: "nat \<Rightarrow> bool" where
  "cont_byte b \<longleftrightarrow> 0x80 \<le> b \<and> b \<le> 0xBF"

text \<open>
  \<open>utf8.DecodeRune\<close> at the front of a non-empty string: the code point and its width.
  A byte that starts no valid sequence decodes as \<open>runeError\<close> with width 1.
\<close>

definition decode2 :: "nat \<Rightarrow> char list \<Rightarrow> rune \<times> nat" where
  "decode2 b0 cs = (case cs of
       c1 # _ \<Rightarrow> if cont_byte (byte_of c1)
         then ((b0 - 0xC0) * 64 + (byte_of c1 - 0x80), 2) else (runeError, 1)
     | [] \<Rightarrow> (runeError, 1))"

definition decode3 :: "nat \<Rightarrow> char list \<Rightarrow> rune \<times> nat" where
  "decode3 b0 cs = (case cs of
       c1 # c2 # _ \<Rightarrow>
         let b1 = byte_of c1; b2 = byte_of c2 in
         if (if b0 = 0xE0 then 0xA0 else 0x80) \<le> b1
            \<and> b1 \<le> (if b0 = 0xED then 0x9F else 0xBF) \<and> cont_byte b2
         then ((b0 - 0xE0) * 4096 + (b1 - 0x80) * 64 + (b2 - 0x80), 3) else (runeError, 1)
     | _ \<Rightarrow> (runeError, 1))"

definition decode4 :: "nat \<Rightarrow> char list \<Rightarrow> rune \<times> nat" where
  "decode4 b0 cs = (case cs of
       c1 # c2 # c3 # _ \<Rightarrow>
         let b1 = byte_of c1; b2 = byte_of c2; b3 = byte_of c3 in
         if (if b0 = 0xF0 then 0x90 else 0x80) \<le> b1
            \<and> b1 \<le> (if b0 = 0xF4 then 0x8F else 0xBF) \<and> cont_byte b2 \<and> cont_byte b3
         then ((b0 - 0xF0) * 262144 + (b1 - 0x80) * 4096 + (b2 - 0x80) * 64 + (b3 - 0x80), 4)
         else (runeError, 1)
     | _ \<Rightarrow> (runeError, 1))"

definition decodeRune :: "char \<Rightarrow> char list \<Rightarrow> rune \<times> nat" where
  "decodeRune c cs =
     (let b0 = byte_of c in
      if b0 < 0x80 then (b0, 1)
      else if 0xC2 \<le> b0 \<and> b0 \<le> 0xDF then decode2 b0 cs
      else if 0xE0 \<le> b0 \<and> b0 \<le> 0xEF then decode3 b0 cs
      else if 0xF0 \<le> b0 \<and> b0 \<le> 0xF4 then decode4 b0 cs
      else (runeError, 1))"

text \<open>The segments of a string: each decoded rune with the bytes it came from.\<close>

fun utf8_segs :: "string \<Rightarrow> (rune \<times> string) list" where
  "utf8_segs [] = []"
| "utf8_segs (c # cs) =
     (let (r, n) = decodeRune c cs
      in (r, c # take (n - 1) cs) # utf8_segs (drop (n - 1) cs))"

definition runes :: "string \<Rightarrow> rune list" where
  "runes s = map fst (utf8_segs s)"

definition encodeRune :: "rune \<Rightarrow> string" where
  "encodeRune r0 =
     (let r = (if 0x10FFFF < r0 \<or> (0xD800 \<le> r0 \<and> r0 \<le> 0xDFFF) then runeError else r0) in
      if r < 0x80 then [of_byte r]
      else if r < 0x800 then [of_byte (0xC0 + r div 64), of_byte (0x80 + r mod 64)]
      else if r < 0x10000 then
        [of_byte (0xE0 + r div 4096), of_byte (0x80 + r div 64 mod 64), of_byte (0x80 + r mod 64)]
      else
        [of_byte (0xF0 + r div 262144), of_byte (0x80 + r div 4096 mod 64),
         of_byte (0x80 + r div 64 mod 64), of_byte (0x80 + r mod 64)])"

definition string_of_runes :: "rune list \<Rightarrow> string" where
  "string_of_runes rs = concat (map encodeRune rs)"

lemma utf8_segs_concat: "concat (map snd (utf8_segs s)) = s"
  by (induction s rule: utf8_segs.induct) (auto simp: Let_def split: prod.splits)

lemma utf8_segs_nonempty: "seg \<in> set (utf8_segs s) \<Longrightarrow> snd seg \<noteq> []"
  by (induction s rule: utf8_segs.induct) (auto simp: Let_def split: prod.splits)

lemma length_runes_le: "length (runes s) \<le> length s"
proof -
  have "length (utf8_segs s) \<le> length (concat (map snd (utf8_segs s)))"
  proof -
    have "\<forall>seg \<in> set segs. snd seg \<noteq> [] \<Longrightarrow> length segs \<le> length (concat (map snd segs))"
      for segs :: "(rune \<times> string) list"
    proof (induction segs)
      case (Cons a segs)
      then have "length segs \<le> length (concat (map snd segs))" and "1 \<le> length (snd a)"
        by (auto simp: Suc_le_eq)
      then show ?case by simp
    qed simp
    then show ?thesis using utf8_segs_nonempty by blast
  qed
  then show ?thesis by (simp add: runes_def utf8_segs_concat)
qed

lemma length_encodeRune_le: "length (encodeRune r) \<le> 4"
  by (simp add: encodeRune_def Let_def)

lemma encodeRune_nonempty: "encodeRune r \<noteq> []"
  by (simp add: encodeRune_def Let_def)

lemma length_string_of_runes_le: "length (string_of_runes rs) \<le> 4 * length rs"
proof (induction rs)
  case (Cons r rs)
  then show ?case using length_encodeRune_le [of r] by (simp add: string_of_runes_def)
qed (simp add: string_of_runes_def)

lemma runes_Nil [simp]: "runes [] = []"
  by (simp add: runes_def)

lemma runes_Nil_iff [simp]: "runes s = [] \<longleftrightarrow> s = []"
  by (cases s) (auto simp: runes_def Let_def split: prod.splits)

text \<open>ASCII text decodes byte by byte and encodes back to itself.\<close>

definition ascii :: "string \<Rightarrow> bool" where
  "ascii s \<longleftrightarrow> (\<forall>c \<in> set s. byte_of c < 0x80)"

lemma runes_ascii: "ascii s \<Longrightarrow> runes s = map byte_of s"
proof (induction s)
  case (Cons c s)
  then have "byte_of c < 0x80" and "ascii s" by (auto simp: ascii_def)
  with Cons.IH show ?case by (simp add: runes_def decodeRune_def Let_def)
qed simp

lemma string_of_runes_ascii: "ascii s \<Longrightarrow> string_of_runes (map byte_of s) = s"
proof (induction s)
  case (Cons c s)
  then have "byte_of c < 0x80" and "ascii s" by (auto simp: ascii_def)
  with Cons.IH show ?case by (simp add: string_of_runes_def encodeRune_def Let_def)
qed (simp add: string_of_runes_def)

section \<open>Trimming, joining, cutting\<close>

text \<open>\<open>unicode.IsSpace\<close>: a switch for Latin-1, the White_Space table beyond it.\<close>

definition isSpace :: "rune \<Rightarrow> bool" where
  "isSpace r =
     (if r \<le> 0xFF then (9 \<le> r \<and> r \<le> 13) \<or> r = 32 \<or> r = 0x85 \<or> r = 0xA0
      else r = 0x1680 \<or> (0x2000 \<le> r \<and> r \<le> 0x200A) \<or> r = 0x2028 \<or> r = 0x2029 \<or> r = 0x202F
        \<or> r = 0x205F \<or> r = 0x3000)"

definition trimSpace :: "string \<Rightarrow> string" where
  "trimSpace s =
     (let segs = dropWhile (\<lambda>seg. isSpace (fst seg)) (utf8_segs s);
          back = dropWhile (\<lambda>seg. isSpace (fst seg)) (rev segs)
      in concat (map snd (rev back)))"

definition blank :: "string \<Rightarrow> bool" where
  "blank s \<longleftrightarrow> trimSpace s = []"

lemma blank_Nil [simp]: "blank []"
  by (simp add: blank_def trimSpace_def)

lemma not_blank_Cons:
  assumes "byte_of c < 0x80" and "\<not> isSpace (byte_of c)"
  shows "\<not> blank (c # cs)"
proof -
  have s: "utf8_segs (c # cs) = (byte_of c, [c]) # utf8_segs cs"
    using assms(1) by (simp add: decodeRune_def Let_def)
  have "dropWhile (\<lambda>seg. isSpace (fst seg)) (rev (utf8_segs cs) @ [(byte_of c, [c])])
      = dropWhile (\<lambda>seg. isSpace (fst seg)) (rev (utf8_segs cs)) @ [(byte_of c, [c])]"
    using assms(2) by (intro dropWhile_append3) simp
  then show ?thesis using assms(2) by (simp add: blank_def trimSpace_def s del: utf8_segs.simps)
qed

fun join :: "string \<Rightarrow> string list \<Rightarrow> string" where
  "join sep [] = []"
| "join sep [s] = s"
| "join sep (s # t # ts) = s @ sep @ join sep (t # ts)"

definition hasPrefix :: "string \<Rightarrow> string \<Rightarrow> bool" where
  "hasPrefix s p \<longleftrightarrow> take (length p) s = p"

definition trimPrefix :: "string \<Rightarrow> string \<Rightarrow> string" where
  "trimPrefix s p = (if hasPrefix s p then drop (length p) s else s)"

lemma hasPrefix_append [simp]: "hasPrefix (p @ s) p"
  by (simp add: hasPrefix_def)

lemma trimPrefix_append [simp]: "trimPrefix (p @ s) p = s"
  by (simp add: trimPrefix_def)

text \<open>\<open>strings.Cut\<close> with a one-byte separator: before, after, found.\<close>

definition cut :: "char \<Rightarrow> string \<Rightarrow> string \<times> string \<times> bool" where
  "cut c s = (if c \<in> set s then (takeWhile (\<lambda>x. x \<noteq> c) s, tl (dropWhile (\<lambda>x. x \<noteq> c) s), True)
              else (s, [], False))"

lemma cut_found: "c \<notin> set xs \<Longrightarrow> cut c (xs @ c # ys) = (xs, ys, True)"
proof -
  assume "c \<notin> set xs"
  then have run: "\<forall>x \<in> set xs. x \<noteq> c" by auto
  have "takeWhile (\<lambda>x. x \<noteq> c) (xs @ c # ys) = xs" and "dropWhile (\<lambda>x. x \<noteq> c) (xs @ c # ys) = c # ys"
    using takeWhile_run_append [of xs "\<lambda>x. x \<noteq> c" "c # ys"] run by auto
  then show ?thesis by (simp add: cut_def)
qed

section \<open>Numbers as text\<close>

fun digits_of :: "nat \<Rightarrow> string" where
  "digits_of n = (if n < 10 then [of_byte (48 + n)] else digits_of (n div 10) @ [of_byte (48 + n mod 10)])"

declare digits_of.simps [simp del]

definition itoa :: "int \<Rightarrow> string" where
  "itoa i = (if i < 0 then CHR ''-'' # digits_of (nat (- i)) else digits_of (nat i))"

definition digit_val :: "char \<Rightarrow> nat option" where
  "digit_val c = (let b = byte_of c in if 48 \<le> b \<and> b \<le> 57 then Some (b - 48) else None)"

fun parse_digits :: "nat \<Rightarrow> string \<Rightarrow> nat option" where
  "parse_digits acc [] = Some acc"
| "parse_digits acc (c # cs) =
     (case digit_val c of None \<Rightarrow> None | Some d \<Rightarrow> parse_digits (10 * acc + d) cs)"

text \<open>
  \<open>strconv.ParseInt(value, 10, 64)\<close>: an optional sign, at least one digit, and a value
  in range; everything else is an error, which every caller only tests for.
\<close>

definition parseInt64 :: "string \<Rightarrow> int option" where
  "parseInt64 s =
     (let neg = (case s of c # _ \<Rightarrow> c = CHR ''-'' | [] \<Rightarrow> False);
          body = (case s of c # cs \<Rightarrow> if c = CHR ''-'' \<or> c = CHR ''+'' then cs else s | [] \<Rightarrow> [])
      in if body = [] then None
         else case parse_digits 0 body of
             None \<Rightarrow> None
           | Some n \<Rightarrow> let v = (if neg then - int n else int n) in if int64 v then Some v else None)"

lemma parseInt64_range: "parseInt64 s = Some v \<Longrightarrow> int64 v"
  by (auto simp: parseInt64_def Let_def split: if_splits option.splits)

lemma digit_val_of_byte: "n < 10 \<Longrightarrow> digit_val (of_byte (48 + n)) = Some n"
  by (simp add: digit_val_def Let_def)

lemma parse_digits_append:
  "parse_digits acc (xs @ ys) = (case parse_digits acc xs of None \<Rightarrow> None | Some a \<Rightarrow> parse_digits a ys)"
  by (induction acc xs rule: parse_digits.induct) (auto split: option.splits)

lemma parse_digits_of: "parse_digits 0 (digits_of n) = Some n"
proof (induction n rule: digits_of.induct)
  case (1 n)
  show ?case
  proof (cases "n < 10")
    case True
    then show ?thesis by (subst digits_of.simps) (simp add: digit_val_of_byte)
  next
    case False
    with 1 have "parse_digits 0 (digits_of (n div 10)) = Some (n div 10)" by simp
    with False show ?thesis
      by (subst digits_of.simps) (simp add: parse_digits_append digit_val_of_byte)
  qed
qed

lemma digits_of_head: "\<exists>d ds. d < 10 \<and> digits_of n = of_byte (48 + d) # ds"
proof (induction n rule: digits_of.induct)
  case (1 n)
  show ?case
  proof (cases "n < 10")
    case True
    then show ?thesis by (subst digits_of.simps) auto
  next
    case False
    with 1 obtain d ds where "d < 10" "digits_of (n div 10) = of_byte (48 + d) # ds" by blast
    with False show ?thesis by (subst digits_of.simps) auto
  qed
qed

lemma of_byte_inj: "m < 256 \<Longrightarrow> n < 256 \<Longrightarrow> of_byte m = of_byte n \<longleftrightarrow> m = n"
  by (metis byte_of_of_byte)

lemma sign_bytes: "CHR ''-'' = of_byte 45" "CHR ''+'' = of_byte 43"
  by code_simp+

lemma parseInt64_itoa: "int64 v \<Longrightarrow> parseInt64 (itoa v) = Some v"
proof (cases "v < 0")
  case True
  assume "int64 v"
  moreover have "digits_of (nat (- v)) \<noteq> []" by (metis digits_of_head list.distinct(1))
  ultimately show ?thesis using True
    by (simp add: parseInt64_def itoa_def parse_digits_of Let_def)
next
  case False
  assume r: "int64 v"
  obtain d ds where d: "d < 10" "digits_of (nat v) = of_byte (48 + d) # ds"
    using digits_of_head by blast
  have "of_byte (48 + d) \<noteq> CHR ''-''" and "of_byte (48 + d) \<noteq> CHR ''+''"
    unfolding sign_bytes using d(1) by (auto simp: of_byte_inj)
  moreover have "parse_digits 0 (of_byte (48 + d) # ds) = Some (nat v)"
    using parse_digits_of [of "nat v"] d(2) by simp
  ultimately show ?thesis using False r d(2)
    by (simp add: parseInt64_def itoa_def Let_def del: parse_digits.simps)
qed

section \<open>Quoting\<close>

text \<open>
  \<open>strconv.Quote\<close>, the text of \<open>%q\<close>. \<open>isPrint\<close> is Unicode's printable table for code
  points outside ASCII, which the model takes as an argument.
\<close>

definition hexDigit :: "nat \<Rightarrow> char" where
  "hexDigit n = (if n < 10 then of_byte (48 + n) else of_byte (87 + n))"

definition hex :: "nat \<Rightarrow> nat \<Rightarrow> string" where
  "hex width n = map (\<lambda>k. hexDigit (n div 16 ^ k mod 16)) (rev [0..<width])"

definition quoteRune :: "(rune \<Rightarrow> bool) \<Rightarrow> rune \<times> string \<Rightarrow> string" where
  "quoteRune isPrint seg =
     (let (r, bs) = seg; esc = (\<lambda>c. [CHR 0x5C, c]) in
      if r = runeError \<and> length bs = 1 then [CHR 0x5C, CHR ''x''] @ hex 2 (byte_of (hd bs))
      else if r = 34 \<or> r = 0x5C then esc (of_byte r)
      else if 32 \<le> r \<and> r \<le> 126 then bs
      else if r = 7 then esc (CHR ''a'') else if r = 8 then esc (CHR ''b'')
      else if r = 12 then esc (CHR ''f'') else if r = 10 then esc (CHR ''n'')
      else if r = 13 then esc (CHR ''r'') else if r = 9 then esc (CHR ''t'')
      else if r = 11 then esc (CHR ''v'')
      else if r < 32 \<or> r = 127 then [CHR 0x5C, CHR ''x''] @ hex 2 r
      else if isPrint r then bs
      else if r < 0x10000 then [CHR 0x5C, CHR ''u''] @ hex 4 r
      else [CHR 0x5C, CHR ''U''] @ hex 8 r)"

definition quote :: "(rune \<Rightarrow> bool) \<Rightarrow> string \<Rightarrow> string" where
  "quote isPrint s = CHR 0x22 # concat (map (quoteRune isPrint) (utf8_segs s)) @ [CHR 0x22]"

end
