(* ===== verification/Base64.thy ===== *)
theory Base64
  imports GoStrings
begin

text \<open>
  \<open>base64.StdEncoding\<close>: \<open>EncodeToString\<close> with padding, and \<open>DecodeString\<close>, which skips
  carriage returns and line feeds, wants full padded groups of four and does not look at
  the unused trailing bits of the last group. The round trip is \<open>b64_decode_encode\<close>.
\<close>

definition b64_char :: "nat \<Rightarrow> char" where
  "b64_char n = of_byte
     (if n < 26 then 65 + n else if n < 52 then 71 + n else if n < 62 then n - 4
      else if n = 62 then 43 else 47)"

definition b64_val :: "char \<Rightarrow> nat option" where
  "b64_val c =
     (let b = byte_of c in
      if 65 \<le> b \<and> b \<le> 90 then Some (b - 65)
      else if 97 \<le> b \<and> b \<le> 122 then Some (b - 71)
      else if 48 \<le> b \<and> b \<le> 57 then Some (b + 4)
      else if b = 43 then Some 62
      else if b = 47 then Some 63
      else None)"

abbreviation b64_pad :: char where
  "b64_pad \<equiv> CHR ''=''"

fun b64_encode :: "string \<Rightarrow> string" where
  "b64_encode [] = []"
| "b64_encode [a] =
     (let x = byte_of a in [b64_char (x div 4), b64_char (x mod 4 * 16), b64_pad, b64_pad])"
| "b64_encode [a, b] =
     (let x = byte_of a; y = byte_of b in
      [b64_char (x div 4), b64_char (x mod 4 * 16 + y div 16), b64_char (y mod 16 * 4), b64_pad])"
| "b64_encode (a # b # c # rest) =
     (let x = byte_of a; y = byte_of b; z = byte_of c in
      b64_char (x div 4) # b64_char (x mod 4 * 16 + y div 16)
      # b64_char (y mod 16 * 4 + z div 64) # b64_char (z mod 64) # b64_encode rest)"

definition b64_bytes2 :: "nat \<Rightarrow> nat \<Rightarrow> string" where
  "b64_bytes2 s0 s1 = [of_byte (s0 * 4 + s1 div 16)]"

definition b64_bytes3 :: "nat \<Rightarrow> nat \<Rightarrow> nat \<Rightarrow> string" where
  "b64_bytes3 s0 s1 s2 = [of_byte (s0 * 4 + s1 div 16), of_byte (s1 mod 16 * 16 + s2 div 4)]"

definition b64_bytes4 :: "nat \<Rightarrow> nat \<Rightarrow> nat \<Rightarrow> nat \<Rightarrow> string" where
  "b64_bytes4 s0 s1 s2 s3 =
     [of_byte (s0 * 4 + s1 div 16), of_byte (s1 mod 16 * 16 + s2 div 4),
      of_byte (s2 mod 4 * 64 + s3)]"

fun b64_groups :: "string \<Rightarrow> string option" where
  "b64_groups [] = Some []"
| "b64_groups (a # b # c # d # rest) =
     (case (b64_val a, b64_val b) of
        (Some s0, Some s1) \<Rightarrow>
          if c = b64_pad then
            if d = b64_pad \<and> rest = [] then Some (b64_bytes2 s0 s1) else None
          else (case b64_val c of
              None \<Rightarrow> None
            | Some s2 \<Rightarrow>
                if d = b64_pad then if rest = [] then Some (b64_bytes3 s0 s1 s2) else None
                else (case b64_val d of
                    None \<Rightarrow> None
                  | Some s3 \<Rightarrow> map_option (\<lambda>bs. b64_bytes4 s0 s1 s2 s3 @ bs) (b64_groups rest)))
      | _ \<Rightarrow> None)"
| "b64_groups _ = None"

definition b64_decode :: "string \<Rightarrow> string option" where
  "b64_decode s = b64_groups (filter (\<lambda>c. c \<noteq> CHR 0x0A \<and> c \<noteq> CHR 0x0D) s)"

lemma b64_val_char: "n < 64 \<Longrightarrow> b64_val (b64_char n) = Some n"
  unfolding b64_val_def b64_char_def Let_def by (auto split: if_splits)

lemma b64_char_byte: "n < 64 \<Longrightarrow> byte_of (b64_char n) > 42 \<and> byte_of (b64_char n) \<noteq> 61"
  unfolding b64_char_def by (auto split: if_splits)

lemma b64_char_not_pad: "n < 64 \<Longrightarrow> b64_char n \<noteq> b64_pad"
proof
  assume "n < 64" "b64_char n = b64_pad"
  then have "byte_of b64_pad \<noteq> 61" using b64_char_byte [of n] by simp
  then show False by (simp add: byte_of_def)
qed

lemma b64_char_not_newline: "n < 64 \<Longrightarrow> b64_char n \<noteq> CHR 0x0A \<and> b64_char n \<noteq> CHR 0x0D"
proof -
  assume "n < 64"
  then have "42 < byte_of (b64_char n)" using b64_char_byte [of n] by simp
  then show ?thesis by (auto simp: byte_of_def)
qed

lemmas b64_sextet = b64_val_char b64_char_not_pad b64_char_not_newline

text \<open>Reassembling a byte from the two sextets it was split over.\<close>

lemma packed: "b < k \<Longrightarrow> (a * k + b) div k = a" "b < k \<Longrightarrow> (a * k + b) mod k = b"
  for a b k :: nat
  by simp_all

lemma b64_split4: "x div 4 * 4 + (x mod 4 * 16 + y div 16) div 16 = x" if "y < 256" for x y :: nat
proof -
  have "(x mod 4 * 16 + y div 16) div 16 = x mod 4"
    by (rule packed) (use that in simp)
  then show ?thesis by simp
qed

lemma b64_split2: "(x mod 4 * 16 + y div 16) mod 16 * 16 + (y mod 16 * 4 + z div 64) div 4 = y"
  if "y < 256" "z < 256" for x y z :: nat
proof -
  have "(x mod 4 * 16 + y div 16) mod 16 = y div 16"
    by (rule packed) (use that in simp)
  moreover have "(y mod 16 * 4 + z div 64) div 4 = y mod 16"
    by (rule packed) (use that in simp)
  ultimately show ?thesis by simp
qed

lemma b64_split6: "(y mod 16 * 4 + z div 64) mod 4 * 64 + z mod 64 = z" if "z < 256" for y z :: nat
proof -
  have "(y mod 16 * 4 + z div 64) mod 4 = z div 64"
    by (rule packed) (use that in simp)
  then show ?thesis by simp
qed

lemma packed_less: "a < m \<Longrightarrow> b < k \<Longrightarrow> a * k + b < m * k" for a b k m :: nat
proof -
  assume "a < m" "b < k"
  then have "a * k + b < (a + 1) * k" by simp
  also have "\<dots> \<le> m * k" using \<open>a < m\<close> by (intro mult_right_mono) simp_all
  finally show ?thesis .
qed

lemma b64_sextet_bounds:
  fixes x y z :: nat
  assumes "x < 256" "y < 256" "z < 256"
  shows "x div 4 < 64" "x mod 4 * 16 + y div 16 < 64" "y mod 16 * 4 + z div 64 < 64" "z mod 64 < 64"
    "x mod 4 * 16 < 64" "y mod 16 * 4 < 64"
  using assms packed_less [of "x mod 4" 4 "y div 16" 16] packed_less [of "y mod 16" 16 "z div 64" 4]
    packed_less [of "x mod 4" 4 0 16] packed_less [of "y mod 16" 16 0 4]
  by simp_all

lemma b64_bytes4_split:
  "b64_bytes4 (byte_of a div 4) (byte_of a mod 4 * 16 + byte_of b div 16)
     (byte_of b mod 16 * 4 + byte_of c div 64) (byte_of c mod 64) = [a, b, c]"
  unfolding b64_bytes4_def
  by (simp only: b64_split4 [OF byte_of_less] b64_split2 [OF byte_of_less byte_of_less]
      b64_split6 [OF byte_of_less] of_byte_byte_of)

lemma b64_groups_encode: "b64_groups (b64_encode bs) = Some bs"
proof (induction bs rule: b64_encode.induct)
  case 1
  then show ?case by simp
next
  case (2 a)
  show ?case
    using b64_sextet_bounds [of "byte_of a" 0 0] b64_split4 [of 0 "byte_of a"]
    by (simp add: Let_def b64_sextet b64_bytes2_def)
next
  case (3 a b)
  have "byte_of b = (byte_of a mod 4 * 16 + byte_of b div 16) mod 16 * 16 + byte_of b mod 16 * 4 div 4"
    using b64_split2 [of "byte_of b" 0 "byte_of a"] by simp
  then show ?case
    using b64_sextet_bounds [of "byte_of a" "byte_of b" 0] b64_split4 [of "byte_of b" "byte_of a"]
    by (simp add: Let_def b64_sextet b64_bytes3_def)
next
  case (4 a b c rest)
  then show ?case
    using b64_sextet_bounds [of "byte_of a" "byte_of b" "byte_of c"]
    by (simp add: Let_def b64_sextet b64_bytes4_split)
qed

lemma b64_encode_no_newline:
  "filter (\<lambda>c. c \<noteq> CHR 0x0A \<and> c \<noteq> CHR 0x0D) (b64_encode bs) = b64_encode bs"
proof (induction bs rule: b64_encode.induct)
  case 1
  then show ?case by simp
next
  case (2 a)
  then show ?case
    using b64_sextet_bounds [of "byte_of a" 0 0] by (simp add: Let_def b64_sextet)
next
  case (3 a b)
  then show ?case
    using b64_sextet_bounds [of "byte_of a" "byte_of b" 0] by (simp add: Let_def b64_sextet)
next
  case (4 a b c rest)
  then show ?case
    using b64_sextet_bounds [of "byte_of a" "byte_of b" "byte_of c"] by (simp add: Let_def b64_sextet)
qed

lemma b64_decode_encode: "b64_decode (b64_encode bs) = Some bs"
  by (simp add: b64_decode_def b64_encode_no_newline b64_groups_encode)

end
