(* ===== verification/Errors.thy ===== *)
theory Errors
  imports GoStrings
begin

text \<open>
  Errors as values (\<open>errors.go\<close> and the error types of \<open>retry.go\<close>). A sentinel is a
  constructor; \<open>ctxerrors.Wrap\<close> and \<open>Wrapf\<close> are constructors that keep the cause and the
  message; \<open>errors.Join\<close> is \<open>Joined\<close>; \<open>*ProviderError\<close>, any other \<open>HTTPStatusError\<close> and
  \<open>net.Error\<close> are constructors carrying what the code reads from them. \<open>err_is\<close> and the
  \<open>as_\<close> functions are \<open>errors.Is\<close> and \<open>errors.As\<close>, which walk the tree in preorder.
\<close>

datatype sentinel =
    ErrInvalidTranscript
  | ErrMaxRoundsExceeded
  | ErrToolCallsAlreadyExecuted
  | ErrUserMessageQueueCapacity
  | ErrUserMessageQueueFull
  | ErrQueuedUserMessageInvalid
  | ErrResponseTruncated
  | ErrResponseSchemaMismatch
  | ErrInvalidArgument
  | ErrMaxOutputExceedsContext
  | ErrContextExceeded
  | ErrQuotaExhausted
  | ErrToolHandlerPanicked
  | ErrPartTypeUnknown
  | ErrPartPayloadMissing
  | ErrPartPayloadMismatch
  | ErrImageSourceAmbiguous
  | ErrImageMediaTypeRequired
  | ErrAudioDataRequired
  | ErrAudioFormatUnknown
  | ErrFileSourceAmbiguous
  | ErrDataURIMalformed
  | ErrUnsupportedContent
  | ErrRetryMaxAttempts
  | ErrRetryDelays
  | ErrRetryDelayOrder
  | ErrRetryLoopExhausted
  | ErrRateLimited
  | ErrNotAuthenticated
  | ErrNotFound
  | ErrUnsupportedParameter \<comment> \<open>of the OpenAI driver\<close>
  | ErrAnthropicUnsupportedParameter
  | ErrStreamingRequired
  | ErrZaiUnsupportedParameter
  | ErrSensitiveContent
  | ErrUnavailable
  | ErrInvalidServer
  | ErrConnectFailed
  | ErrServerStopped
  | ErrNoScriptedTurns
  | ContextCanceled
  | DeadlineExceeded
  | IoEOF
  | IoUnexpectedEOF

text \<open>\<open>ErrInvalidRequest\<close> is \<open>commerr.ErrInvalidArgument\<close> under another name.\<close>

abbreviation ErrInvalidRequest :: sentinel where
  "ErrInvalidRequest \<equiv> ErrInvalidArgument"

datatype fmt_arg = ArgInt int | ArgStr string

datatype err =
    Sentinel sentinel
  | Wrap err string
  | Wrapf err string "fmt_arg list"
  | Joined "err list"
  | ProviderError "err option" int int string \<comment> \<open>Cause, StatusCode, RetryAfterDelay, Code\<close>
  | StatusError int int \<comment> \<open>another \<open>HTTPStatusError\<close>: status, retry-after\<close>
  | NetError bool \<comment> \<open>a \<open>net.Error\<close>: whether it is a timeout\<close>
  | Opaque string

fun err_is :: "err \<Rightarrow> sentinel \<Rightarrow> bool" where
  "err_is (Sentinel s) t = (s = t)"
| "err_is (Wrap e m) t = err_is e t"
| "err_is (Wrapf e f as) t = err_is e t"
| "err_is (Joined es) t = list_ex (\<lambda>e. err_is e t) es"
| "err_is (ProviderError c st ra code) t = (case c of None \<Rightarrow> False | Some e \<Rightarrow> err_is e t)"
| "err_is (StatusError st ra) t = False"
| "err_is (NetError b) t = False"
| "err_is (Opaque s) t = False"

text \<open>Every \<open>*ProviderError\<close> in the tree, in the order \<open>errors.As\<close> meets them.\<close>

fun provider_errors :: "err \<Rightarrow> (int \<times> int \<times> string) list" where
  "provider_errors (Sentinel s) = []"
| "provider_errors (Wrap e m) = provider_errors e"
| "provider_errors (Wrapf e f as) = provider_errors e"
| "provider_errors (Joined es) = concat (map provider_errors es)"
| "provider_errors (ProviderError c st ra code) =
     (st, ra, code) # (case c of None \<Rightarrow> [] | Some e \<Rightarrow> provider_errors e)"
| "provider_errors (StatusError st ra) = []"
| "provider_errors (NetError b) = []"
| "provider_errors (Opaque s) = []"

fun status_errors :: "err \<Rightarrow> (int \<times> int) list" where
  "status_errors (Sentinel s) = []"
| "status_errors (Wrap e m) = status_errors e"
| "status_errors (Wrapf e f as) = status_errors e"
| "status_errors (Joined es) = concat (map status_errors es)"
| "status_errors (ProviderError c st ra code) =
     (st, ra) # (case c of None \<Rightarrow> [] | Some e \<Rightarrow> status_errors e)"
| "status_errors (StatusError st ra) = [(st, ra)]"
| "status_errors (NetError b) = []"
| "status_errors (Opaque s) = []"

text \<open>\<open>context.DeadlineExceeded\<close> implements \<open>net.Error\<close> too.\<close>

fun net_errors :: "err \<Rightarrow> bool list" where
  "net_errors (Sentinel s) = (if s = DeadlineExceeded then [True] else [])"
| "net_errors (Wrap e m) = net_errors e"
| "net_errors (Wrapf e f as) = net_errors e"
| "net_errors (Joined es) = concat (map net_errors es)"
| "net_errors (ProviderError c st ra code) = (case c of None \<Rightarrow> [] | Some e \<Rightarrow> net_errors e)"
| "net_errors (StatusError st ra) = []"
| "net_errors (NetError b) = [b]"
| "net_errors (Opaque s) = []"

definition first_of :: "'a list \<Rightarrow> 'a option" where
  "first_of xs = (case xs of [] \<Rightarrow> None | x # _ \<Rightarrow> Some x)"

definition as_provider :: "err \<Rightarrow> (int \<times> int \<times> string) option" where
  "as_provider e = first_of (provider_errors e)"

definition as_status :: "err \<Rightarrow> (int \<times> int) option" where
  "as_status e = first_of (status_errors e)"

definition as_net :: "err \<Rightarrow> bool option" where
  "as_net e = first_of (net_errors e)"

text \<open>The error values' texts the engine itself shows to the model.\<close>

definition sentinelText :: "sentinel \<Rightarrow> string" where
  "sentinelText s =
     (if s = ErrImageSourceAmbiguous then ''image source needs exactly one of URL or Data''
      else if s = ErrImageMediaTypeRequired then ''image source with Data requires MediaType''
      else [])"

section \<open>Provider codes and statuses\<close>

definition ProviderErrorCodeContextLengthExceeded :: string where
  "ProviderErrorCodeContextLengthExceeded = ''context_length_exceeded''"
definition ProviderErrorCodeOverloaded :: string where
  "ProviderErrorCodeOverloaded = ''overloaded_error''"
definition ProviderErrorCodeAPIError :: string where
  "ProviderErrorCodeAPIError = ''api_error''"
definition ProviderErrorCodeRateLimit :: string where
  "ProviderErrorCodeRateLimit = ''rate_limit_error''"
definition ProviderErrorCodeInsufficientQuota :: string where
  "ProviderErrorCodeInsufficientQuota = ''insufficient_quota''"

lemmas provider_codes =
  ProviderErrorCodeContextLengthExceeded_def ProviderErrorCodeOverloaded_def
  ProviderErrorCodeAPIError_def ProviderErrorCodeRateLimit_def
  ProviderErrorCodeInsufficientQuota_def

definition ProviderSentinel :: "int \<Rightarrow> string \<Rightarrow> sentinel option" where
  "ProviderSentinel status code =
     (if code = ProviderErrorCodeContextLengthExceeded then Some ErrContextExceeded
      else if code = ProviderErrorCodeRateLimit then Some ErrRateLimited
      else if code = ProviderErrorCodeInsufficientQuota then Some ErrQuotaExhausted
      else if status = 429 then Some ErrRateLimited
      else if status = 401 \<or> status = 403 then Some ErrNotAuthenticated
      else if status = 404 then Some ErrNotFound
      else None)"

text \<open>Wrapping never changes what an error is.\<close>

lemma as_wrap [simp]:
  "as_provider (Wrap e m) = as_provider e" "as_status (Wrap e m) = as_status e"
  "as_net (Wrap e m) = as_net e"
  by (simp_all add: as_provider_def as_status_def as_net_def)

lemma as_provider_status: "as_provider e = Some (st, ra, code) \<Longrightarrow> status_errors e \<noteq> []"
proof -
  have "provider_errors e \<noteq> [] \<Longrightarrow> status_errors e \<noteq> []"
    by (induction e rule: status_errors.induct) auto
  then show "as_provider e = Some (st, ra, code) \<Longrightarrow> ?thesis"
    by (auto simp: as_provider_def first_of_def split: list.splits)
qed

end
