(* ===== verification/Content.thy ===== *)
theory Content
  imports Base64 Errors
begin

text \<open>
  Message content (\<open>content.go\<close>): parts, their constructors, text extraction,
  structural validation, the data-URI form of an image and the accumulation of streamed
  text. Byte slices and strings are both \<open>string\<close>; a nil slice is the empty list.
\<close>

section \<open>Data\<close>

type_synonym partType = string

abbreviation PartTypeText :: partType where "PartTypeText \<equiv> ''text''"
abbreviation PartTypeImage :: partType where "PartTypeImage \<equiv> ''image''"
abbreviation PartTypeAudio :: partType where "PartTypeAudio \<equiv> ''audio''"
abbreviation PartTypeFile :: partType where "PartTypeFile \<equiv> ''file''"

abbreviation AudioFormatWAV :: string where "AudioFormatWAV \<equiv> ''wav''"
abbreviation AudioFormatMP3 :: string where "AudioFormatMP3 \<equiv> ''mp3''"

definition dataURIScheme :: string where
  "dataURIScheme = ''data:''"

record imageSource =
  imgURL :: string
  imgData :: string
  imgMediaType :: string
  imgDetail :: string

record audioSource =
  audData :: string
  audFormat :: string

record fileSource =
  filData :: string
  filMediaType :: string
  filFilename :: string
  filFileID :: string

record part =
  ptType :: partType
  ptText :: string
  ptImage :: "imageSource option"
  ptAudio :: "audioSource option"
  ptFile :: "fileSource option"

type_synonym content = "part list"

section \<open>Constructors\<close>

definition TextOf :: "string \<Rightarrow> part" where
  "TextOf t = \<lparr>ptType = PartTypeText, ptText = t, ptImage = None, ptAudio = None, ptFile = None\<rparr>"

definition Text :: "string \<Rightarrow> content" where
  "Text t = [TextOf t]"

definition imagePart :: "imageSource \<Rightarrow> part" where
  "imagePart src = \<lparr>ptType = PartTypeImage, ptText = [], ptImage = Some src, ptAudio = None, ptFile = None\<rparr>"

definition ImageURL :: "string \<Rightarrow> part" where
  "ImageURL url = imagePart \<lparr>imgURL = url, imgData = [], imgMediaType = [], imgDetail = []\<rparr>"

definition ImageBytes :: "string \<Rightarrow> string \<Rightarrow> part" where
  "ImageBytes dat mediaType = imagePart \<lparr>imgURL = [], imgData = dat, imgMediaType = mediaType, imgDetail = []\<rparr>"

definition AudioBytes :: "string \<Rightarrow> string \<Rightarrow> part" where
  "AudioBytes dat format =
     \<lparr>ptType = PartTypeAudio, ptText = [], ptImage = None,
      ptAudio = Some \<lparr>audData = dat, audFormat = format\<rparr>, ptFile = None\<rparr>"

definition FileBytes :: "string \<Rightarrow> string \<Rightarrow> string \<Rightarrow> part" where
  "FileBytes dat mediaType filename =
     \<lparr>ptType = PartTypeFile, ptText = [], ptImage = None, ptAudio = None,
      ptFile = Some \<lparr>filData = dat, filMediaType = mediaType, filFilename = filename, filFileID = []\<rparr>\<rparr>"

definition FileRef :: "string \<Rightarrow> part" where
  "FileRef fileID =
     \<lparr>ptType = PartTypeFile, ptText = [], ptImage = None, ptAudio = None,
      ptFile = Some \<lparr>filData = [], filMediaType = [], filFilename = [], filFileID = fileID\<rparr>\<rparr>"

section \<open>Reading content\<close>

definition contentString :: "content \<Rightarrow> string" where
  "contentString c =
     (case c of
        [p] \<Rightarrow> if ptType p = PartTypeText then ptText p
              else join [CHR 0x0A] (map ptText (filter (\<lambda>q. ptType q = PartTypeText \<and> ptText q \<noteq> []) c))
      | _ \<Rightarrow> join [CHR 0x0A] (map ptText (filter (\<lambda>q. ptType q = PartTypeText \<and> ptText q \<noteq> []) c)))"

fun isTextOnly :: "content \<Rightarrow> bool" where
  "isTextOnly [] = True"
| "isTextOnly (p # ps) = (if ptType p \<noteq> PartTypeText then False else isTextOnly ps)"

definition contentTypes :: "content \<Rightarrow> partType list" where
  "contentTypes c = map ptType (dedup_by ptType {} c)"

definition clonePart :: "part \<Rightarrow> part" where
  "clonePart p = p\<lparr>
     ptImage := map_option (\<lambda>s. s\<lparr>imgData := imgData s\<rparr>) (ptImage p),
     ptAudio := map_option (\<lambda>s. s\<lparr>audData := audData s\<rparr>) (ptAudio p),
     ptFile := map_option (\<lambda>s. s\<lparr>filData := filData s\<rparr>) (ptFile p)\<rparr>"

definition cloneContent :: "content \<Rightarrow> content" where
  "cloneContent c = map clonePart c"

lemma clonePart_id [simp]: "clonePart p = p"
  by (simp add: clonePart_def option.map_ident)

lemma cloneContent_id [simp]: "cloneContent c = c"
  by (simp add: cloneContent_def map_idI)

section \<open>Validation\<close>

text \<open>
  The payload check ranges over a Go map, whose order is not specified: \<open>order\<close> is the
  order of one such iteration, a permutation of \<open>payloadTypes\<close>.
\<close>

definition payloadTypes :: "partType list" where
  "payloadTypes = [PartTypeImage, PartTypeAudio, PartTypeFile]"

definition hasPayload :: "part \<Rightarrow> partType \<Rightarrow> bool" where
  "hasPayload p t =
     (if t = PartTypeImage then ptImage p \<noteq> None
      else if t = PartTypeAudio then ptAudio p \<noteq> None
      else if t = PartTypeFile then ptFile p \<noteq> None
      else False)"

fun validatePayloadPresence :: "partType list \<Rightarrow> part \<Rightarrow> err option" where
  "validatePayloadPresence [] p = None"
| "validatePayloadPresence (t # order) p =
     (if t = ptType p \<and> \<not> hasPayload p t then Some (Wrap (Sentinel ErrPartPayloadMissing) t)
      else if t \<noteq> ptType p \<and> hasPayload p t then Some (Wrap (Sentinel ErrPartPayloadMismatch) (ptType p))
      else validatePayloadPresence order p)"

definition validateImage :: "imageSource \<Rightarrow> err option" where
  "validateImage s =
     (let hasURL = imgURL s \<noteq> []; hasData = length (imgData s) > 0 in
      if hasURL = hasData then Some (Wrap (Sentinel ErrImageSourceAmbiguous) ''image source'')
      else if hasData \<and> imgMediaType s = [] then
        Some (Wrap (Sentinel ErrImageMediaTypeRequired) ''image source'')
      else None)"

definition validateAudio :: "audioSource \<Rightarrow> err option" where
  "validateAudio s =
     (if length (audData s) = 0 then Some (Wrap (Sentinel ErrAudioDataRequired) ''audio source'')
      else if audFormat s \<noteq> AudioFormatWAV \<and> audFormat s \<noteq> AudioFormatMP3 then
        Some (Wrapf (Sentinel ErrAudioFormatUnknown) ''%q'' [ArgStr (audFormat s)])
      else None)"

definition validateFile :: "fileSource \<Rightarrow> err option" where
  "validateFile s =
     (let hasData = length (filData s) > 0; hasID = filFileID s \<noteq> [] in
      if hasData = hasID then Some (Wrap (Sentinel ErrFileSourceAmbiguous) ''file source'')
      else None)"

text \<open>
  After the presence check the payload a type names is there, so the \<open>None\<close> branches,
  where Go would dereference a nil pointer, are never taken (\<open>validatePart_no_nil\<close>).
\<close>

definition validatePart :: "partType list \<Rightarrow> part \<Rightarrow> err option" where
  "validatePart order p =
     (case validatePayloadPresence order p of
        Some e \<Rightarrow> Some e
      | None \<Rightarrow>
          if ptType p = PartTypeText then None
          else if ptType p = PartTypeImage then
            (case ptImage p of Some s \<Rightarrow> validateImage s | None \<Rightarrow> Some (Opaque ''nil dereference''))
          else if ptType p = PartTypeAudio then
            (case ptAudio p of Some s \<Rightarrow> validateAudio s | None \<Rightarrow> Some (Opaque ''nil dereference''))
          else if ptType p = PartTypeFile then
            (case ptFile p of Some s \<Rightarrow> validateFile s | None \<Rightarrow> Some (Opaque ''nil dereference''))
          else Some (Wrapf (Sentinel ErrPartTypeUnknown) ''%q'' [ArgStr (ptType p)]))"

fun validateParts :: "partType list \<Rightarrow> nat \<Rightarrow> content \<Rightarrow> err option" where
  "validateParts order i [] = None"
| "validateParts order i (p # ps) =
     (case validatePart order p of
        Some e \<Rightarrow> Some (Wrapf e ''part %d'' [ArgInt (int i)])
      | None \<Rightarrow> validateParts order (Suc i) ps)"

definition validateContent :: "partType list \<Rightarrow> content \<Rightarrow> err option" where
  "validateContent order c = validateParts order 0 c"

section \<open>Data URIs\<close>

definition DataURI :: "imageSource \<Rightarrow> string" where
  "DataURI s =
     (if imgURL s \<noteq> [] then imgURL s
      else dataURIScheme @ imgMediaType s @ '';base64,'' @ b64_encode (imgData s))"

definition IsDataURI :: "imageSource \<Rightarrow> bool" where
  "IsDataURI s = hasPrefix (imgURL s) dataURIScheme"

definition DecodeDataURI :: "imageSource \<Rightarrow> err + (string \<times> string)" where
  "DecodeDataURI s =
     (if \<not> IsDataURI s then Inr (imgMediaType s, imgData s)
      else
        let rest = trimPrefix (imgURL s) dataURIScheme;
            (meta, payload, found) = cut (CHR '','') rest
        in if \<not> found then Inl (Wrap (Sentinel ErrDataURIMalformed) ''missing comma'')
           else
             let (mediaType, encoding, _) = cut (CHR '';'') meta
             in if encoding \<noteq> ''base64'' then
                  Inl (Wrapf (Sentinel ErrDataURIMalformed) ''encoding %q'' [ArgStr encoding])
                else (case b64_decode payload of
                    None \<Rightarrow> Inl (Wrap (Opaque ''illegal base64 data'') ''decode data URI payload'')
                  | Some dat \<Rightarrow> Inr (mediaType, dat)))"

section \<open>Streamed text\<close>

definition appendText :: "content \<Rightarrow> string \<Rightarrow> content" where
  "appendText c t =
     (if c \<noteq> [] \<and> ptType (last c) = PartTypeText
      then butlast c @ [(last c)\<lparr>ptText := ptText (last c) @ t\<rparr>]
      else c @ [TextOf t])"

section \<open>Lemmas\<close>

lemma contentString_Nil [simp]: "contentString [] = []"
  by (simp add: contentString_def)

lemma contentString_Text [simp]: "contentString (Text t) = t"
  by (simp add: contentString_def Text_def TextOf_def)

lemma isTextOnly_iff: "isTextOnly c \<longleftrightarrow> (\<forall>p \<in> set c. ptType p = PartTypeText)"
  by (induction c rule: isTextOnly.induct) auto

lemma contentTypes_distinct: "distinct (contentTypes c)"
  by (simp add: contentTypes_def)

lemma set_contentTypes: "set (contentTypes c) = ptType ` set c"
  by (simp add: contentTypes_def dedup_by_keys)

text \<open>What it means for a part to carry exactly the payload its type names.\<close>

definition payload_matches :: "part \<Rightarrow> bool" where
  "payload_matches p \<longleftrightarrow> (\<forall>t \<in> set payloadTypes. hasPayload p t \<longleftrightarrow> t = ptType p)"

definition well_formed_part :: "part \<Rightarrow> bool" where
  "well_formed_part p \<longleftrightarrow>
     payload_matches p
     \<and> (ptType p = PartTypeText
        \<or> (\<exists>s. ptType p = PartTypeImage \<and> ptImage p = Some s
             \<and> ((imgURL s \<noteq> []) \<noteq> (imgData s \<noteq> [])) \<and> (imgData s \<noteq> [] \<longrightarrow> imgMediaType s \<noteq> []))
        \<or> (\<exists>s. ptType p = PartTypeAudio \<and> ptAudio p = Some s
             \<and> audData s \<noteq> [] \<and> audFormat s \<in> {AudioFormatWAV, AudioFormatMP3})
        \<or> (\<exists>s. ptType p = PartTypeFile \<and> ptFile p = Some s \<and> ((filData s \<noteq> []) \<noteq> (filFileID s \<noteq> []))))"

lemma validatePayloadPresence_None:
  "validatePayloadPresence order p = None \<longleftrightarrow> (\<forall>t \<in> set order. hasPayload p t \<longleftrightarrow> t = ptType p)"
  by (induction order p rule: validatePayloadPresence.induct) auto

lemma validateImage_None:
  "validateImage s = None \<longleftrightarrow>
     ((imgURL s \<noteq> []) \<noteq> (imgData s \<noteq> [])) \<and> (imgData s \<noteq> [] \<longrightarrow> imgMediaType s \<noteq> [])"
  by (auto simp: validateImage_def Let_def)

lemma validateAudio_None:
  "validateAudio s = None \<longleftrightarrow> audData s \<noteq> [] \<and> audFormat s \<in> {AudioFormatWAV, AudioFormatMP3}"
  by (simp add: validateAudio_def)

lemma validateFile_None: "validateFile s = None \<longleftrightarrow> ((filData s \<noteq> []) \<noteq> (filFileID s \<noteq> []))"
  by (auto simp: validateFile_def Let_def)

lemmas validate_None = validatePayloadPresence_None validateImage_None validateAudio_None validateFile_None

text \<open>The presence check passing means the payload pointer is set.\<close>

lemma payload_present:
  assumes "payload_matches p"
  shows "ptType p = PartTypeImage \<Longrightarrow> ptImage p \<noteq> None"
    and "ptType p = PartTypeAudio \<Longrightarrow> ptAudio p \<noteq> None"
    and "ptType p = PartTypeFile \<Longrightarrow> ptFile p \<noteq> None"
  using assms by (auto simp: payload_matches_def payloadTypes_def hasPayload_def)

lemma validatePart_None:
  assumes "set order = set payloadTypes"
  shows "validatePart order p = None \<longleftrightarrow> well_formed_part p"
proof (cases "validatePayloadPresence order p")
  case (Some e)
  then have "\<not> payload_matches p"
    using assms validatePayloadPresence_None [of order p] by (auto simp: payload_matches_def)
  with Some show ?thesis by (simp add: validatePart_def well_formed_part_def)
next
  case None
  then have pm: "payload_matches p"
    using assms by (auto simp: payload_matches_def validate_None)
  consider "ptType p = PartTypeText" | s where "ptType p = PartTypeImage" "ptImage p = Some s"
    | s where "ptType p = PartTypeAudio" "ptAudio p = Some s"
    | s where "ptType p = PartTypeFile" "ptFile p = Some s"
    | "ptType p \<notin> {PartTypeText, PartTypeImage, PartTypeAudio, PartTypeFile}"
    using payload_present [OF pm] by blast
  then show ?thesis
    by cases (simp_all add: validatePart_def well_formed_part_def None pm validate_None)
qed

lemma validatePart_no_nil:
  assumes "set order = set payloadTypes"
  shows "validatePart order p \<noteq> Some (Opaque ''nil dereference'')"
proof (cases "validatePayloadPresence order p")
  case (Some e)
  then have "e \<noteq> Opaque msg" for msg
    by (induction order p rule: validatePayloadPresence.induct) (auto split: if_splits)
  with Some show ?thesis by (simp add: validatePart_def)
next
  case None
  then have pm: "payload_matches p"
    using assms by (auto simp: payload_matches_def validate_None)
  show ?thesis
    using None payload_present [OF pm]
    by (auto simp: validatePart_def validateImage_def validateAudio_def validateFile_def Let_def
        split: option.splits if_splits)
qed

lemma validateParts_None:
  "validateParts order i c = None \<longleftrightarrow> (\<forall>p \<in> set c. validatePart order p = None)"
  by (induction order i c rule: validateParts.induct) (auto split: option.splits)

lemma validateContent_None:
  "set order = set payloadTypes \<Longrightarrow> validateContent order c = None \<longleftrightarrow> (\<forall>p \<in> set c. well_formed_part p)"
  by (simp add: validateContent_def validateParts_None validatePart_None)

lemma well_formed_TextOf [simp]: "well_formed_part (TextOf t)"
  by (auto simp: well_formed_part_def payload_matches_def payloadTypes_def hasPayload_def TextOf_def)

lemma validateContent_Text [simp]:
  "set order = set payloadTypes \<Longrightarrow> validateContent order (Text t) = None"
  by (simp add: validateContent_None Text_def)

lemma appendText_Text: "appendText (Text s) t = Text (s @ t)"
  by (simp add: appendText_def Text_def TextOf_def)

lemma appendText_Nil: "appendText [] t = Text t"
  by (simp add: appendText_def Text_def)

lemma appendText_fold_Text: "fold (\<lambda>t c. appendText c t) ts (Text s) = Text (s @ concat ts)"
  by (induction ts arbitrary: s) (auto simp: appendText_Text)

section \<open>Properties\<close>

text \<open>
  Content.Validate accepts content exactly when every part is well formed: the part
  carries the payload its type names and no other, its type is known, an image has
  exactly one of URL and bytes (bytes with a media type), audio has bytes in a known
  format, a file has exactly one of bytes and id. The verdict does not depend on the
  order in which the payload map is ranged over.
\<close>

theorem content_validate_iff:
  assumes "set order = set payloadTypes"
  shows "validateContent order c = None \<longleftrightarrow> (\<forall>p \<in> set c. well_formed_part p)"
  using assms by (rule validateContent_None)

theorem content_validate_iff_witness:
  "set payloadTypes = set payloadTypes
   \<and> validateContent payloadTypes [TextOf ''hi'', ImageBytes ''x'' ''image/png''] = None
   \<and> well_formed_part (TextOf ''hi'') \<and> well_formed_part (ImageBytes ''x'' ''image/png'')"
proof -
  have v: "validateContent payloadTypes [TextOf ''hi'', ImageBytes ''x'' ''image/png''] = None"
    by code_simp
  then show ?thesis
    using content_validate_iff [OF refl, of "[TextOf ''hi'', ImageBytes ''x'' ''image/png'']"] by simp
qed

text \<open>
  Inline image bytes survive the packed form: rendering a bytes-carrying image as a
  data URI (DataURI) and reading it back (DecodeDataURI) returns the same media type and
  the same bytes, for every media type without a comma or semicolon.
\<close>

theorem data_uri_roundtrip:
  assumes "imgURL s = []" and "CHR '','' \<notin> set (imgMediaType s)" and "CHR '';'' \<notin> set (imgMediaType s)"
  shows "DecodeDataURI \<lparr>imgURL = DataURI s, imgData = [], imgMediaType = [], imgDetail = d\<rparr>
         = Inr (imgMediaType s, imgData s)"
proof -
  let ?m = "imgMediaType s"
  have uri: "DataURI s = dataURIScheme @ (?m @ '';base64'') @ CHR '','' # b64_encode (imgData s)"
    using assms(1) by (simp add: DataURI_def)
  have "cut (CHR '','') ((?m @ '';base64'') @ CHR '','' # b64_encode (imgData s))
        = (?m @ '';base64'', b64_encode (imgData s), True)"
    by (rule cut_found) (use assms(2) in simp)
  moreover have "cut (CHR '';'') (?m @ CHR '';'' # ''base64'') = (?m, ''base64'', True)"
    by (rule cut_found) (use assms(3) in simp)
  ultimately show ?thesis
    unfolding DecodeDataURI_def IsDataURI_def uri imageSource.simps trimPrefix_append
    by (simp add: b64_decode_encode del: append_assoc)
qed

theorem data_uri_roundtrip_witness:
  "DecodeDataURI \<lparr>imgURL = DataURI \<lparr>imgURL = [], imgData = ''Man'', imgMediaType = ''image/png'', imgDetail = []\<rparr>,
      imgData = [], imgMediaType = [], imgDetail = []\<rparr> = Inr (''image/png'', ''Man'')"
  using data_uri_roundtrip
    [of "\<lparr>imgURL = [], imgData = ''Man'', imgMediaType = ''image/png'', imgDetail = []\<rparr>" "[]"]
  by simp

end
