(* ===== verification/Messages.thy ===== *)
theory Messages
  imports Complex_Main Content
begin

text \<open>
  The vocabulary every component shares: messages and tool calls (\<open>message.go\<close>), finish
  reasons and generation parameters (\<open>params.go\<close>), token usage (\<open>usage.go\<close>), models and
  pricing (\<open>model.go\<close>), retry records (\<open>retry.go\<close>) and capabilities (\<open>driver.go\<close>).
  Go's \<open>float64\<close> prices and sampling values are exact rationals here; token counts are
  \<open>int\<close> with 64-bit wrap-around.
\<close>

section \<open>Messages\<close>

type_synonym role = string

abbreviation RoleUnknown :: role where "RoleUnknown \<equiv> ''''"
abbreviation RoleSystem :: role where "RoleSystem \<equiv> ''system''"
abbreviation RoleUser :: role where "RoleUser \<equiv> ''user''"
abbreviation RoleAssistant :: role where "RoleAssistant \<equiv> ''assistant''"
abbreviation RoleTool :: role where "RoleTool \<equiv> ''tool''"

abbreviation MessageOriginUnknown :: string where "MessageOriginUnknown \<equiv> ''''"
abbreviation MessageOriginSeed :: string where "MessageOriginSeed \<equiv> ''seed''"
abbreviation MessageOriginTurn :: string where "MessageOriginTurn \<equiv> ''turn''"
abbreviation MessageOriginInjection :: string where "MessageOriginInjection \<equiv> ''injection''"

abbreviation CacheHintNone :: string where "CacheHintNone \<equiv> ''''"
abbreviation CacheHintShort :: string where "CacheHintShort \<equiv> ''short''"
abbreviation CacheHintLong :: string where "CacheHintLong \<equiv> ''long''"

record toolCall =
  tcID :: string
  tcName :: string
  tcArguments :: string

record messageInjection =
  miType :: role
  miContent :: string
  miPhase :: string
  miTool :: string
  miCallID :: string
  miRound :: int

record message =
  mRole :: role
  mContent :: content
  mToolCalls :: "toolCall list"
  mToolCallID :: string
  mToolResultIsError :: bool
  mReasoning :: string
  mProviderReasoning :: string
  mOrigin :: string
  mInjection :: "messageInjection option"
  mCacheHint :: string

text \<open>Go's zero \<open>Message\<close>, from which literals set some fields.\<close>

definition emptyMessage :: message where
  "emptyMessage = \<lparr>mRole = [], mContent = [], mToolCalls = [], mToolCallID = [],
     mToolResultIsError = False, mReasoning = [], mProviderReasoning = [], mOrigin = [],
     mInjection = None, mCacheHint = []\<rparr>"

lemma emptyMessage_simps [simp]:
  "mRole emptyMessage = []" "mContent emptyMessage = []" "mToolCalls emptyMessage = []"
  "mToolCallID emptyMessage = []" "mToolResultIsError emptyMessage = False"
  "mReasoning emptyMessage = []" "mProviderReasoning emptyMessage = []"
  "mOrigin emptyMessage = []" "mInjection emptyMessage = None" "mCacheHint emptyMessage = []"
  by (simp_all add: emptyMessage_def)

record toolCallDelta =
  tdIndex :: int
  tdID :: string
  tdName :: string
  tdArguments :: string

record delta =
  dText :: string
  dReasoning :: string
  dProviderReasoning :: string
  dToolCall :: "toolCallDelta option"
  dFinishReason :: string

definition emptyDelta :: delta where
  "emptyDelta = \<lparr>dText = [], dReasoning = [], dProviderReasoning = [], dToolCall = None, dFinishReason = []\<rparr>"

definition jsonNull :: string where
  "jsonNull = ''null''"

definition HasProviderReasoning :: "string \<Rightarrow> bool" where
  "HasProviderReasoning raw =
     (let trimmed = trimSpace raw in length trimmed > 0 \<and> trimmed \<noteq> jsonNull)"

definition cloneToolCalls :: "toolCall list \<Rightarrow> toolCall list" where
  "cloneToolCalls calls = map (\<lambda>c. c\<lparr>tcArguments := tcArguments c\<rparr>) calls"

definition cloneMessage :: "message \<Rightarrow> message" where
  "cloneMessage m = m\<lparr>
     mContent := cloneContent (mContent m),
     mToolCalls := cloneToolCalls (mToolCalls m),
     mProviderReasoning :=
       (if HasProviderReasoning (mProviderReasoning m) then mProviderReasoning m else [])\<rparr>"

definition cloneMessages :: "message list \<Rightarrow> message list" where
  "cloneMessages ms = map cloneMessage ms"

definition messageText :: "message \<Rightarrow> string" where
  "messageText m = contentString (mContent m)"

lemma HasProviderReasoning_Nil [simp]: "\<not> HasProviderReasoning []"
  by (simp add: HasProviderReasoning_def trimSpace_def)

lemma cloneToolCalls_id [simp]: "cloneToolCalls calls = calls"
  by (simp add: cloneToolCalls_def map_idI)

lemma cloneMessage_fields [simp]:
  "mRole (cloneMessage m) = mRole m" "mContent (cloneMessage m) = mContent m"
  "mToolCalls (cloneMessage m) = mToolCalls m" "mToolCallID (cloneMessage m) = mToolCallID m"
  "mToolResultIsError (cloneMessage m) = mToolResultIsError m"
  "mReasoning (cloneMessage m) = mReasoning m" "mOrigin (cloneMessage m) = mOrigin m"
  "mInjection (cloneMessage m) = mInjection m" "mCacheHint (cloneMessage m) = mCacheHint m"
  by (simp_all add: cloneMessage_def)

lemma cloneMessage_idem [simp]: "cloneMessage (cloneMessage m) = cloneMessage m"
  by (simp add: cloneMessage_def)

lemma cloneMessages_simps [simp]:
  "cloneMessages [] = []" "cloneMessages (m # ms) = cloneMessage m # cloneMessages ms"
  "cloneMessages (ms @ ns) = cloneMessages ms @ cloneMessages ns"
  "length (cloneMessages ms) = length ms"
  by (simp_all add: cloneMessages_def)

section \<open>Finish reasons\<close>

abbreviation FinishReasonUnset :: string where "FinishReasonUnset \<equiv> ''''"
abbreviation FinishReasonStop :: string where "FinishReasonStop \<equiv> ''stop''"
abbreviation FinishReasonLength :: string where "FinishReasonLength \<equiv> ''length''"
abbreviation FinishReasonToolCalls :: string where "FinishReasonToolCalls \<equiv> ''tool_calls''"
abbreviation FinishReasonContentFilter :: string where "FinishReasonContentFilter \<equiv> ''content_filter''"
abbreviation FinishReasonStopSequence :: string where "FinishReasonStopSequence \<equiv> ''stop_sequence''"
abbreviation FinishReasonPaused :: string where "FinishReasonPaused \<equiv> ''paused''"
abbreviation FinishReasonContextExceeded :: string where "FinishReasonContextExceeded \<equiv> ''context_exceeded''"
abbreviation FinishReasonFunctionCall :: string where "FinishReasonFunctionCall \<equiv> ''function_call''"

definition IsTruncated :: "string \<Rightarrow> bool" where
  "IsTruncated f = (f = FinishReasonLength \<or> f = FinishReasonContextExceeded)"

definition IsRefusal :: "string \<Rightarrow> bool" where
  "IsRefusal f = (f = FinishReasonContentFilter)"

definition IsTerminal :: "string \<Rightarrow> bool" where
  "IsTerminal f = (f \<noteq> FinishReasonPaused \<and> f \<noteq> FinishReasonToolCalls)"

section \<open>Usage\<close>

record tokenCounts =
  tkPrompt :: int
  tkCompletion :: int
  tkTotal :: int
  tkReasoning :: int
  tkCacheRead :: int
  tkCacheWrite :: int
  tkCacheWriteLongTTL :: int

definition zeroTokens :: tokenCounts where
  "zeroTokens = \<lparr>tkPrompt = 0, tkCompletion = 0, tkTotal = 0, tkReasoning = 0,
     tkCacheRead = 0, tkCacheWrite = 0, tkCacheWriteLongTTL = 0\<rparr>"

record retryAttempt =
  raAttempt :: int
  raReason :: string
  raErr :: err
  raStatus :: int
  raDelay :: int
  raStreamed :: bool
  raTokens :: tokenCounts

record retryInfo =
  riTotalAttempts :: int
  riFailedAttempts :: "retryAttempt list"
  riWastedPromptTokens :: int
  riWastedCompletionTokens :: int
  riWastedTotalTokens :: int

definition zeroRetry :: retryInfo where
  "zeroRetry = \<lparr>riTotalAttempts = 0, riFailedAttempts = [], riWastedPromptTokens = 0,
     riWastedCompletionTokens = 0, riWastedTotalTokens = 0\<rparr>"

record usage =
  uTokens :: tokenCounts
  uModel :: string
  uFinishReason :: string
  uRetry :: retryInfo
  uResponseID :: string

definition zeroUsage :: usage where
  "zeroUsage = \<lparr>uTokens = zeroTokens, uModel = [], uFinishReason = [], uRetry = zeroRetry, uResponseID = []\<rparr>"

definition BilledTotalTokens :: "usage \<Rightarrow> int" where
  "BilledTotalTokens u = add64 (tkTotal (uTokens u)) (riWastedTotalTokens (uRetry u))"

definition addTokens :: "tokenCounts \<Rightarrow> tokenCounts \<Rightarrow> tokenCounts" where
  "addTokens a b = \<lparr>
     tkPrompt = add64 (tkPrompt a) (tkPrompt b),
     tkCompletion = add64 (tkCompletion a) (tkCompletion b),
     tkTotal = add64 (tkTotal a) (tkTotal b),
     tkReasoning = add64 (tkReasoning a) (tkReasoning b),
     tkCacheRead = add64 (tkCacheRead a) (tkCacheRead b),
     tkCacheWrite = add64 (tkCacheWrite a) (tkCacheWrite b),
     tkCacheWriteLongTTL = add64 (tkCacheWriteLongTTL a) (tkCacheWriteLongTTL b)\<rparr>"

definition addRetry :: "retryInfo \<Rightarrow> retryInfo \<Rightarrow> retryInfo" where
  "addRetry a b = \<lparr>
     riTotalAttempts = add64 (riTotalAttempts a) (riTotalAttempts b),
     riFailedAttempts = riFailedAttempts a @ riFailedAttempts b,
     riWastedPromptTokens = add64 (riWastedPromptTokens a) (riWastedPromptTokens b),
     riWastedCompletionTokens = add64 (riWastedCompletionTokens a) (riWastedCompletionTokens b),
     riWastedTotalTokens = add64 (riWastedTotalTokens a) (riWastedTotalTokens b)\<rparr>"

definition addUsage :: "usage \<Rightarrow> usage \<Rightarrow> usage" where
  "addUsage tot rnd = \<lparr>
     uTokens = addTokens (uTokens tot) (uTokens rnd),
     uModel = (if uModel rnd \<noteq> [] then uModel rnd else uModel tot),
     uFinishReason = uFinishReason rnd,
     uRetry = addRetry (uRetry tot) (uRetry rnd),
     uResponseID = (if uResponseID rnd \<noteq> [] then uResponseID rnd else uResponseID tot)\<rparr>"

section \<open>Models and pricing\<close>

type_synonym reasoningEffort = string

abbreviation ReasoningEffortUnset :: reasoningEffort where "ReasoningEffortUnset \<equiv> ''''"
abbreviation ReasoningEffortNone :: reasoningEffort where "ReasoningEffortNone \<equiv> ''none''"
abbreviation ReasoningEffortMinimal :: reasoningEffort where "ReasoningEffortMinimal \<equiv> ''minimal''"
abbreviation ReasoningEffortLow :: reasoningEffort where "ReasoningEffortLow \<equiv> ''low''"
abbreviation ReasoningEffortMedium :: reasoningEffort where "ReasoningEffortMedium \<equiv> ''medium''"
abbreviation ReasoningEffortHigh :: reasoningEffort where "ReasoningEffortHigh \<equiv> ''high''"
abbreviation ReasoningEffortXHigh :: reasoningEffort where "ReasoningEffortXHigh \<equiv> ''xhigh''"
abbreviation ReasoningEffortMax :: reasoningEffort where "ReasoningEffortMax \<equiv> ''max''"

record reasoningLevels =
  rlMin :: reasoningEffort
  rlLow :: reasoningEffort
  rlMedium :: reasoningEffort
  rlHigh :: reasoningEffort
  rlMax :: reasoningEffort

record modelPricing =
  mpInputPerToken :: rat
  mpOutputPerToken :: rat
  mpCacheReadPerToken :: rat
  mpCacheWritePerToken :: rat
  mpCacheWriteLongTTLPerToken :: rat
  mpLongContextThreshold :: int
  mpLongContextInputPerToken :: rat
  mpLongContextOutputPerToken :: rat

record model =
  mdID :: string
  mdContextSize :: int
  mdSupportsReasoning :: bool
  mdReasoningLevels :: reasoningLevels
  mdPricing :: modelPricing

definition reasoningLevel :: "reasoningEffort \<Rightarrow> reasoningEffort \<Rightarrow> reasoningEffort" where
  "reasoningLevel got fallback = (if got \<noteq> ReasoningEffortUnset then got else fallback)"

definition ReasoningLevelMin :: "model \<Rightarrow> reasoningEffort" where
  "ReasoningLevelMin m = reasoningLevel (rlMin (mdReasoningLevels m)) ReasoningEffortMinimal"
definition ReasoningLevelLow :: "model \<Rightarrow> reasoningEffort" where
  "ReasoningLevelLow m = reasoningLevel (rlLow (mdReasoningLevels m)) ReasoningEffortLow"
definition ReasoningLevelMedium :: "model \<Rightarrow> reasoningEffort" where
  "ReasoningLevelMedium m = reasoningLevel (rlMedium (mdReasoningLevels m)) ReasoningEffortMedium"
definition ReasoningLevelHigh :: "model \<Rightarrow> reasoningEffort" where
  "ReasoningLevelHigh m = reasoningLevel (rlHigh (mdReasoningLevels m)) ReasoningEffortHigh"
definition ReasoningLevelMax :: "model \<Rightarrow> reasoningEffort" where
  "ReasoningLevelMax m = reasoningLevel (rlMax (mdReasoningLevels m)) ReasoningEffortMax"

definition Cost :: "model \<Rightarrow> usage \<Rightarrow> rat" where
  "Cost m us =
     (let p = mdPricing m; u = uTokens us;
          long = mpLongContextThreshold p > 0 \<and> tkPrompt u > mpLongContextThreshold p;
          inputRate = (if long \<and> mpLongContextInputPerToken p \<noteq> 0
                       then mpLongContextInputPerToken p else mpInputPerToken p);
          outputRate = (if long \<and> mpLongContextOutputPerToken p \<noteq> 0
                        then mpLongContextOutputPerToken p else mpOutputPerToken p);
          cacheReadRate = (if mpCacheReadPerToken p = 0 then inputRate else mpCacheReadPerToken p);
          cacheWriteRate = (if mpCacheWritePerToken p = 0 then inputRate else mpCacheWritePerToken p);
          longTTLRate = (if mpCacheWriteLongTTLPerToken p = 0 then cacheWriteRate
                         else mpCacheWriteLongTTLPerToken p);
          longTTLWrite = min (tkCacheWriteLongTTL u) (tkCacheWrite u);
          shortTTLWrite = sub64 (tkCacheWrite u) longTTLWrite;
          uncached = max (sub64 (sub64 (tkPrompt u) (tkCacheRead u)) (tkCacheWrite u)) 0
      in of_int uncached * inputRate + of_int (tkCacheRead u) * cacheReadRate
         + of_int shortTTLWrite * cacheWriteRate + of_int longTTLWrite * longTTLRate
         + of_int (tkCompletion u) * outputRate)"

section \<open>Parameters and capabilities\<close>

datatype any = AnyNil | AnyBool bool | AnyInt int | AnyFloat rat | AnyNumber string | AnyString string | AnyOther string
  | AnyMap "(string \<times> any) list" \<comment> \<open>a \<open>map[string]any\<close>\<close>
  | AnyStruct "(string \<times> any) list" \<comment> \<open>a struct, by its fields\<close>

abbreviation ToolChoiceModeUnset :: string where "ToolChoiceModeUnset \<equiv> ''''"
abbreviation ToolChoiceModeAuto :: string where "ToolChoiceModeAuto \<equiv> ''auto''"
abbreviation ToolChoiceModeNone :: string where "ToolChoiceModeNone \<equiv> ''none''"
abbreviation ToolChoiceModeRequired :: string where "ToolChoiceModeRequired \<equiv> ''required''"
abbreviation ToolChoiceModeTool :: string where "ToolChoiceModeTool \<equiv> ''tool''"

abbreviation ResponseFormatTypeUnset :: string where "ResponseFormatTypeUnset \<equiv> ''''"
abbreviation ResponseFormatTypeText :: string where "ResponseFormatTypeText \<equiv> ''text''"
abbreviation ResponseFormatTypeJSONObject :: string where "ResponseFormatTypeJSONObject \<equiv> ''json_object''"
abbreviation ResponseFormatTypeJSONSchema :: string where "ResponseFormatTypeJSONSchema \<equiv> ''json_schema''"

record toolChoice =
  chMode :: string
  chName :: string

record responseFormat =
  rfType :: string
  rfName :: string
  rfSchema :: string
  rfStrictSchema :: bool

record generationParams =
  gpTemperature :: "rat option"
  gpTopP :: "rat option"
  gpReasoningEffort :: reasoningEffort
  gpMaxOutputTokens :: "int option"
  gpFrequencyPenalty :: "rat option"
  gpPresencePenalty :: "rat option"
  gpSeed :: "int option"
  gpStop :: "string list"
  gpToolChoice :: toolChoice
  gpParallelToolCalls :: "bool option"
  gpResponseFormat :: "responseFormat option"
  gpExtra :: "(string \<times> any) list"

record capabilities =
  SupportsResponseFormatJSONSchema :: bool
  SupportsResponseFormatJSONObject :: bool
  SupportsStrictToolArguments :: bool
  SupportsToolChoice :: bool
  SupportsParallelToolCalls :: bool
  SupportsSeed :: bool
  SupportsSamplingPenalties :: bool
  SupportsSamplingParams :: bool
  SupportsReasoningEffort :: bool
  SupportsDisablingReasoning :: bool
  SupportsPromptCaching :: bool
  StreamingUnsupported :: bool
  SupportsImageInput :: bool
  SupportsAudioInput :: bool
  SupportsFileInput :: bool
  MaxReasoningEffort :: reasoningEffort

text \<open>A copy of the parameters; the copied slices and maps are equal as values.\<close>

definition cloneParams :: "generationParams \<Rightarrow> generationParams" where
  "cloneParams ps = ps\<lparr>gpStop := gpStop ps, gpExtra := gpExtra ps,
     gpResponseFormat := map_option (\<lambda>f. f\<lparr>rfSchema := rfSchema f\<rparr>) (gpResponseFormat ps)\<rparr>"

lemma cloneParams_id [simp]: "cloneParams ps = ps"
  by (simp add: cloneParams_def option.map_ident)

section \<open>Properties\<close>

lemma addTokens_assoc: "addTokens (addTokens a b) c = addTokens a (addTokens b c)"
  by (simp add: addTokens_def add64_assoc)

lemma addRetry_assoc: "addRetry (addRetry a b) c = addRetry a (addRetry b c)"
  by (simp add: addRetry_def add64_assoc)

lemma addUsage_assoc: "addUsage (addUsage a b) c = addUsage a (addUsage b c)"
  by (simp add: addUsage_def addTokens_assoc addRetry_assoc)

text \<open>Folding rounds into a running total.\<close>

definition sumUsage :: "usage list \<Rightarrow> usage" where
  "sumUsage us = foldl addUsage zeroUsage us"

lemma addUsage_foldl: "foldl addUsage (addUsage t u) us = addUsage t (foldl addUsage u us)"
  by (induction us arbitrary: u) (auto simp: addUsage_assoc)

lemma addUsage_zero_absorb: "addUsage s (addUsage zeroUsage u) = addUsage s u"
  by (simp add: addUsage_def addTokens_def addRetry_def zeroUsage_def zeroTokens_def zeroRetry_def
      add64_def wrap64_add_right)

text \<open>
  Running totals do not depend on how rounds are grouped: with 64-bit wrap-around, the
  total of one run's rounds followed by a second run's rounds is the first total plus the
  second, which is what the structured-output repair relies on
  (accumulateStructuredResponses adds two runs' totals).
\<close>

theorem usage_total_concat:
  assumes "ys \<noteq> []"
  shows "sumUsage (xs @ ys) = addUsage (sumUsage xs) (sumUsage ys)"
proof -
  obtain y ys' where y: "ys = y # ys'" using assms by (cases ys) auto
  have "sumUsage (xs @ ys) = addUsage (sumUsage xs) (foldl addUsage y ys')"
    by (simp add: sumUsage_def y addUsage_foldl)
  also have "\<dots> = addUsage (sumUsage xs) (addUsage zeroUsage (foldl addUsage y ys'))"
    by (simp add: addUsage_zero_absorb)
  also have "\<dots> = addUsage (sumUsage xs) (sumUsage ys)"
    by (simp add: sumUsage_def y addUsage_foldl)
  finally show ?thesis .
qed

theorem usage_total_concat_witness:
  "[zeroUsage\<lparr>uModel := ''m''\<rparr>] \<noteq> []
   \<and> sumUsage ([zeroUsage] @ [zeroUsage\<lparr>uModel := ''m''\<rparr>])
     = addUsage (sumUsage [zeroUsage]) (sumUsage [zeroUsage\<lparr>uModel := ''m''\<rparr>])"
  using usage_total_concat [of "[zeroUsage\<lparr>uModel := ''m''\<rparr>]" "[zeroUsage]"] by simp

text \<open>Token counts as a provider reports them: cache portions are parts of the prompt.\<close>

definition sane_tokens :: "tokenCounts \<Rightarrow> bool" where
  "sane_tokens u \<longleftrightarrow>
     0 \<le> tkCacheRead u \<and> 0 \<le> tkCacheWriteLongTTL u \<and> tkCacheWriteLongTTL u \<le> tkCacheWrite u
     \<and> tkCacheRead u + tkCacheWrite u \<le> tkPrompt u \<and> tkPrompt u < 2 ^ 63"

text \<open>
  Every prompt token is priced exactly once: for counts whose cache portions lie
  inside the prompt, Cost splits the prompt into an uncached, a cache-read, a short-TTL
  and a long-TTL portion that are non-negative and add up to the prompt, and charges each
  portion at one rate of the model, plus the completion at one output rate.
\<close>

theorem cost_prices_each_token_once:
  assumes "sane_tokens (uTokens us)"
  shows "\<exists>a r w l inputRate outputRate.
     0 \<le> a \<and> 0 \<le> r \<and> 0 \<le> w \<and> 0 \<le> l \<and> a + r + w + l = tkPrompt (uTokens us)
     \<and> l = tkCacheWriteLongTTL (uTokens us) \<and> r = tkCacheRead (uTokens us)
     \<and> inputRate \<in> {mpInputPerToken (mdPricing m), mpLongContextInputPerToken (mdPricing m)}
     \<and> outputRate \<in> {mpOutputPerToken (mdPricing m), mpLongContextOutputPerToken (mdPricing m)}
     \<and> (let p = mdPricing m;
            readRate = (if mpCacheReadPerToken p = 0 then inputRate else mpCacheReadPerToken p);
            writeRate = (if mpCacheWritePerToken p = 0 then inputRate else mpCacheWritePerToken p);
            longRate = (if mpCacheWriteLongTTLPerToken p = 0 then writeRate else mpCacheWriteLongTTLPerToken p)
        in Cost m us = of_int a * inputRate + of_int r * readRate + of_int w * writeRate
             + of_int l * longRate + of_int (tkCompletion (uTokens us)) * outputRate)"
proof -
  let ?u = "uTokens us" and ?p = "mdPricing m"
  let ?long = "mpLongContextThreshold ?p > 0 \<and> tkPrompt ?u > mpLongContextThreshold ?p"
  have s: "0 \<le> tkCacheRead ?u" "0 \<le> tkCacheWriteLongTTL ?u" "tkCacheWriteLongTTL ?u \<le> tkCacheWrite ?u"
    "tkCacheRead ?u + tkCacheWrite ?u \<le> tkPrompt ?u" "tkPrompt ?u < 2 ^ 63"
    using assms by (auto simp: sane_tokens_def)
  have w: "sub64 (tkCacheWrite ?u) (tkCacheWriteLongTTL ?u) = tkCacheWrite ?u - tkCacheWriteLongTTL ?u"
    by (rule sub64_exact) (use s in \<open>simp add: int64_def\<close>)
  have q: "sub64 (tkPrompt ?u) (tkCacheRead ?u) = tkPrompt ?u - tkCacheRead ?u"
    by (rule sub64_exact) (use s in \<open>simp add: int64_def\<close>)
  have a: "sub64 (tkPrompt ?u - tkCacheRead ?u) (tkCacheWrite ?u) = tkPrompt ?u - tkCacheRead ?u - tkCacheWrite ?u"
    by (rule sub64_exact) (use s in \<open>simp add: int64_def\<close>)
  show ?thesis
    apply (rule exI [of _ "tkPrompt ?u - tkCacheRead ?u - tkCacheWrite ?u"])
    apply (rule exI [of _ "tkCacheRead ?u"])
    apply (rule exI [of _ "tkCacheWrite ?u - tkCacheWriteLongTTL ?u"])
    apply (rule exI [of _ "tkCacheWriteLongTTL ?u"])
    apply (rule exI [of _ "if ?long \<and> mpLongContextInputPerToken ?p \<noteq> 0 then mpLongContextInputPerToken ?p
        else mpInputPerToken ?p"])
    apply (rule exI [of _ "if ?long \<and> mpLongContextOutputPerToken ?p \<noteq> 0 then mpLongContextOutputPerToken ?p
        else mpOutputPerToken ?p"])
    using s by (simp add: Cost_def Let_def w q a min_absorb1 max_absorb1 del: of_int_diff)
qed

definition sampleUsage :: usage where
  "sampleUsage = zeroUsage\<lparr>uTokens := zeroTokens\<lparr>tkPrompt := 10, tkCacheRead := 4, tkCacheWrite := 3,
     tkCacheWriteLongTTL := 1, tkCompletion := 2\<rparr>\<rparr>"

theorem cost_prices_each_token_once_witness:
  "sane_tokens (uTokens sampleUsage) \<and>
   (\<exists>a r w l. 0 \<le> a \<and> 0 \<le> r \<and> 0 \<le> w \<and> 0 \<le> l \<and> a + r + w + l = tkPrompt (uTokens sampleUsage))"
proof -
  have "sane_tokens (uTokens sampleUsage)"
    by (simp add: sane_tokens_def sampleUsage_def zeroUsage_def zeroTokens_def)
  then show ?thesis using cost_prices_each_token_once [of sampleUsage] by blast
qed

end
