(* ===== verification/Tools.thy ===== *)
theory Tools
  imports Messages
begin

text \<open>
  Tools (\<open>tool.go\<close>) and the images they return (\<open>toolimages.go\<close>). Caller code (handlers,
  hooks, injectors) runs on a world of type \<open>'w\<close>, which stands for everything it can read
  and change, and returns the new world with its result. A hook receives the event by
  pointer, so it also returns the event as it leaves it; \<open>Crash\<close> is a Go panic.
\<close>

record toolInput =
  tiName :: string
  tiCallID :: string
  tiArguments :: string

record toolResult =
  trContent :: string
  trIsError :: bool
  trImages :: "imageSource list"
  trMetadata :: "(string \<times> any) list"

definition defaultToolDeniedMessage :: string where
  "defaultToolDeniedMessage = ''tool call denied''"

definition NewToolErrorResult :: "string \<Rightarrow> toolResult" where
  "NewToolErrorResult c = \<lparr>trContent = c, trIsError = True, trImages = [], trMetadata = []\<rparr>"

definition NewToolDeniedResult :: toolResult where
  "NewToolDeniedResult = NewToolErrorResult defaultToolDeniedMessage"

lemma NewToolErrorResult_simps [simp]:
  "trContent (NewToolErrorResult c) = c" "trIsError (NewToolErrorResult c)" "trImages (NewToolErrorResult c) = []"
  by (simp_all add: NewToolErrorResult_def)

abbreviation ToolPhasePreRun :: string where "ToolPhasePreRun \<equiv> ''pre_run''"
abbreviation ToolPhaseOnSuccess :: string where "ToolPhaseOnSuccess \<equiv> ''on_success''"
abbreviation ToolPhaseOnError :: string where "ToolPhaseOnError \<equiv> ''on_error''"
abbreviation ToolPhasePostRun :: string where "ToolPhasePostRun \<equiv> ''post_run''"

text \<open>The data fields of a tool; the event a hook receives carries these.\<close>

record toolDef =
  tlName :: string
  tlDescription :: string
  tlArgumentsSchema :: string
  tlStrictArguments :: bool
  tlTimeout :: int

record toolEvent =
  tePhase :: string
  teTool :: toolDef
  teCallID :: string
  teRound :: int
  teRawArguments :: string
  teMessages :: "message list"
  teResult :: "toolResult option"
  teErr :: "err option"

datatype 'a exec = Returned 'a | Crash

text \<open>
  How a handler's call ends: it returns, it panics, or the context is done first, with the
  context's error. Which channel of the select is ready first is the world's choice.
\<close>

datatype handlerEnd = HandlerReturned toolResult "err option" | HandlerPanicked | ContextDone err

type_synonym 'w toolHandler = "toolInput \<Rightarrow> 'w \<Rightarrow> 'w \<times> handlerEnd"
type_synonym 'w toolHook = "toolEvent \<Rightarrow> 'w \<Rightarrow> 'w \<times> (toolEvent \<times> err option) exec"
type_synonym 'w messageInjector =
  "toolEvent \<Rightarrow> 'w \<Rightarrow> 'w \<times> (toolEvent \<times> (err + messageInjection option)) exec"

record 'w tool = toolDef +
  tlHandler :: "'w toolHandler option"
  tlPreRun :: "'w toolHook option"
  tlOnSuccess :: "'w toolHook option"
  tlOnError :: "'w toolHook option"
  tlPostRun :: "'w toolHook option"
  tlOnSuccessMessageInjector :: "'w messageInjector option"
  tlOnErrorMessageInjector :: "'w messageInjector option"
  tlPostRunMessageInjector :: "'w messageInjector option"

section \<open>Tool sets\<close>

text \<open>A set that may be a nil pointer is a \<open>toolSet option\<close>.\<close>

record 't toolSet =
  tsTools :: "string \<Rightarrow> 't option"
  tsOrder :: "string list"

definition emptyToolSet :: "'t toolSet" where
  "emptyToolSet = \<lparr>tsTools = (\<lambda>_. None), tsOrder = []\<rparr>"

definition toolSetPut :: "'w tool toolSet \<Rightarrow> 'w tool \<Rightarrow> 'w tool toolSet" where
  "toolSetPut s t =
     (let s' = (if tsTools s (tlName t) = None then s\<lparr>tsOrder := tsOrder s @ [tlName t]\<rparr> else s)
      in s'\<lparr>tsTools := (tsTools s')(tlName t := Some t)\<rparr>)"

definition toolSetAdd :: "'w tool toolSet option \<Rightarrow> 'w tool \<Rightarrow> 'w tool toolSet option" where
  "toolSetAdd s t = map_option (\<lambda>s. toolSetPut s t) s"

definition NewToolSet :: "'w tool list \<Rightarrow> 'w tool toolSet" where
  "NewToolSet ts = foldl toolSetPut emptyToolSet ts"

definition toolSetGet :: "'w tool toolSet option \<Rightarrow> string \<Rightarrow> 'w tool option" where
  "toolSetGet s name = (case s of None \<Rightarrow> None | Some s \<Rightarrow> tsTools s name)"

text \<open>\<open>Definitions\<close> of a nil set is a nil slice, \<open>None\<close>; of any other set, a slice.\<close>

definition toolSetDefinitions :: "'w tool toolSet option \<Rightarrow> 'w tool list option" where
  "toolSetDefinitions s = map_option (\<lambda>s. map (\<lambda>n. the (tsTools s n)) (tsOrder s)) s"

definition cloneTools :: "'w tool list \<Rightarrow> 'w tool list" where
  "cloneTools ts = map (\<lambda>t. t\<lparr>tlArgumentsSchema := tlArgumentsSchema t\<rparr>) ts"

definition validToolNames :: "'w tool list \<Rightarrow> string" where
  "validToolNames ts = join '', '' (map tlName ts)"

lemma cloneTools_id [simp]: "cloneTools ts = ts"
  by (simp add: cloneTools_def map_idI)

section \<open>The interface: an insertion-ordered registry\<close>

locale tool_registry =
  fixes empty :: 's and put :: "'s \<Rightarrow> 't \<Rightarrow> 's" and get :: "'s \<Rightarrow> string \<Rightarrow> 't option"
    and listing :: "'s \<Rightarrow> 't list" and name :: "'t \<Rightarrow> string" and ok :: "'s \<Rightarrow> bool"
  assumes ok_empty: "ok empty" and ok_put: "ok s \<Longrightarrow> ok (put s t)"
    and get_empty: "get empty n = None" and listing_empty: "listing empty = []"
    and get_put: "ok s \<Longrightarrow> get (put s t) n = (if n = name t then Some t else get s n)"
    and listing_put: "ok s \<Longrightarrow> listing (put s t) =
          (if name t \<in> name ` set (listing s)
           then map (\<lambda>u. if name u = name t then t else u) (listing s) else listing s @ [t])"
    and get_listing: "ok s \<Longrightarrow> get s n = Some t \<longleftrightarrow> t \<in> set (listing s) \<and> name t = n"
begin

definition register :: "'t list \<Rightarrow> 's" where
  "register ts = foldl put empty ts"

lemma register_ok: "ok (register ts)"
  by (induction ts rule: rev_induct) (simp_all add: register_def ok_empty ok_put)

lemma register_snoc: "register (ts @ [t]) = put (register ts) t"
  by (simp add: register_def)

lemma register_get: "get (register ts) n = map_of (rev (map (\<lambda>t. (name t, t)) ts)) n"
  by (induction ts rule: rev_induct)
    (simp_all add: register_snoc get_put register_ok, simp add: register_def get_empty)

lemma register_names: "map name (listing (register ts)) = dedup_by (\<lambda>n. n) {} (map name ts)"
proof (induction ts rule: rev_induct)
  case Nil
  then show ?case by (simp add: register_def listing_empty)
next
  case (snoc t ts)
  have snoc_dedup: "dedup_by (\<lambda>n. n) A (xs @ [x]) = dedup_by (\<lambda>n. n) A xs @ (if x \<in> A \<union> set xs then [] else [x])"
    for A and xs :: "string list" and x by (induction xs arbitrary: A) auto
  have names: "name ` set (listing (register ts)) = name ` set ts"
    using snoc dedup_by_keys [of "\<lambda>n. n" "{}" "map name ts"]
    by (metis Diff_empty image_ident list.set_map)
  have "map name (map (\<lambda>u. if name u = name t then t else u) (listing (register ts)))
      = map name (listing (register ts))" by (simp add: comp_def)
  then show ?case
    using snoc names by (auto simp: register_snoc listing_put register_ok snoc_dedup comp_def)
qed

lemma listing_is_get: "t \<in> set (listing (register ts)) \<Longrightarrow> get (register ts) (name t) = Some t"
  using get_listing [OF register_ok] by blast

end

section \<open>The program's tool set implements it\<close>

definition toolSetInv :: "'w tool toolSet \<Rightarrow> bool" where
  "toolSetInv s \<longleftrightarrow> distinct (tsOrder s) \<and> set (tsOrder s) = dom (tsTools s)
     \<and> (\<forall>n t. tsTools s n = Some t \<longrightarrow> tlName t = n)"

definition toolSetListing :: "'w tool toolSet \<Rightarrow> 'w tool list" where
  "toolSetListing s = map (\<lambda>n. the (tsTools s n)) (tsOrder s)"

lemma toolSetDefinitions_listing: "toolSetDefinitions (Some s) = Some (toolSetListing s)"
  by (simp add: toolSetDefinitions_def toolSetListing_def)

lemma toolSetPut_inv: "toolSetInv s \<Longrightarrow> toolSetInv (toolSetPut s t)"
  by (auto simp: toolSetInv_def toolSetPut_def Let_def domIff)

lemma toolSetListing_names: "toolSetInv s \<Longrightarrow> map tlName (toolSetListing s) = tsOrder s"
  by (auto simp: toolSetInv_def toolSetListing_def dom_def intro!: map_idI)

lemma toolSetListing_put:
  assumes "toolSetInv s"
  shows "toolSetListing (toolSetPut s t) =
    (if tlName t \<in> tlName ` set (toolSetListing s)
     then map (\<lambda>u. if tlName u = tlName t then t else u) (toolSetListing s) else toolSetListing s @ [t])"
proof -
  have in_order: "tlName t \<in> tlName ` set (toolSetListing s) \<longleftrightarrow> tlName t \<in> set (tsOrder s)"
    using toolSetListing_names [OF assms] by (metis list.set_map)
  have name: "n \<in> set (tsOrder s) \<Longrightarrow> tlName (the (tsTools s n)) = n" for n
    using assms by (auto simp: toolSetInv_def dom_def)
  show ?thesis
  proof (cases "tlName t \<in> set (tsOrder s)")
    case True
    then have "tsTools s (tlName t) \<noteq> None" using assms by (auto simp: toolSetInv_def)
    with True in_order name show ?thesis by (auto simp: toolSetListing_def toolSetPut_def Let_def)
  next
    case False
    then have "tsTools s (tlName t) = None" using assms by (auto simp: toolSetInv_def dom_def)
    with False in_order show ?thesis by (auto simp: toolSetListing_def toolSetPut_def Let_def)
  qed
qed

interpretation ts: tool_registry emptyToolSet toolSetPut tsTools toolSetListing tlName toolSetInv
proof (unfold_locales, goal_cases)
  case (2 s t)
  then show ?case by (rule toolSetPut_inv)
next
  case (5 s t n)
  then show ?case by (simp add: toolSetPut_def Let_def)
next
  case (6 s t)
  then show ?case by (rule toolSetListing_put)
next
  case (7 s n t)
  then show ?case by (auto simp: toolSetInv_def toolSetListing_def dom_def image_iff)
qed (simp_all add: emptyToolSet_def toolSetInv_def toolSetListing_def)

lemma NewToolSet_register: "NewToolSet ts = ts.register ts"
  by (simp add: NewToolSet_def ts.register_def)

section \<open>Images in tool results\<close>

text \<open>\<open>isPrint\<close> is Go's table of printable runes, which \<open>%q\<close> consults.\<close>

definition toolImageRefusal :: "(rune \<Rightarrow> bool) \<Rightarrow> imageSource \<Rightarrow> bool \<Rightarrow> string \<Rightarrow> string" where
  "toolImageRefusal isPrint img acceptsImages modelID =
     (if \<not> acceptsImages then ''model '' @ quote isPrint modelID @ '' does not accept image input''
      else case validateImage img of
          None \<Rightarrow> []
        | Some e \<Rightarrow>
            if err_is e ErrImageSourceAmbiguous then sentinelText ErrImageSourceAmbiguous
            else if err_is e ErrImageMediaTypeRequired then sentinelText ErrImageMediaTypeRequired
            else ''the image is malformed'')"

definition toolImageNote :: "nat \<Rightarrow> nat \<Rightarrow> string \<Rightarrow> string" where
  "toolImageNote i n reason =
     ''[image '' @ itoa (int i) @ '' of '' @ itoa (int n) @ '' not shown: '' @ reason @ '']''"

fun toolImagesLoop :: "(imageSource \<Rightarrow> string) \<Rightarrow> nat \<Rightarrow> nat \<Rightarrow> imageSource list \<Rightarrow> part list \<times> string list" where
  "toolImagesLoop refusal i n [] = ([], [])"
| "toolImagesLoop refusal i n (img # images) =
     (let (parts, ns) = toolImagesLoop refusal (i + 1) n images in
      if refusal img \<noteq> [] then (parts, toolImageNote (i + 1) n (refusal img) # ns)
      else (imagePart img # parts, ns))"

definition toolResultMessageContent ::
  "(rune \<Rightarrow> bool) \<Rightarrow> string \<Rightarrow> imageSource list \<Rightarrow> bool \<Rightarrow> string \<Rightarrow> content" where
  "toolResultMessageContent isPrint t images acceptsImages modelID =
     (if images = [] then Text t
      else let (parts, ns) =
             toolImagesLoop (\<lambda>img. toolImageRefusal isPrint img acceptsImages modelID) 0 (length images) images;
             t' = (if ns \<noteq> [] then join [CHR 0x0A] (t # ns) else t)
           in TextOf t' # parts)"

definition ToolImages :: "message \<Rightarrow> imageSource list" where
  "ToolImages m =
     (if mRole m \<noteq> RoleTool then []
      else concat (map (\<lambda>p. if ptType p = PartTypeImage
             then (case ptImage p of Some i \<Rightarrow> [i] | None \<Rightarrow> []) else []) (mContent m)))"

section \<open>Properties\<close>

text \<open>
  A tool set answers for the tools it was built from: looking a name up finds the last
  tool registered under it, the definitions sent to a provider list each name once, in the
  order the names first appeared, and every definition listed is the one a call by that
  name runs.
\<close>

theorem tool_set_lookup:
  "toolSetGet (Some (NewToolSet ts)) n = map_of (rev (map (\<lambda>t. (tlName t, t)) ts)) n
   \<and> (\<exists>ds. toolSetDefinitions (Some (NewToolSet ts)) = Some ds
        \<and> map tlName ds = dedup_by (\<lambda>n. n) {} (map tlName ts)
        \<and> list_all (\<lambda>d. toolSetGet (Some (NewToolSet ts)) (tlName d) = Some d) ds)"
proof -
  have "list_all (\<lambda>d. toolSetGet (Some (NewToolSet ts)) (tlName d) = Some d) (toolSetListing (NewToolSet ts))"
    by (auto simp: list_all_iff toolSetGet_def NewToolSet_register intro: ts.listing_is_get)
  then show ?thesis
    using ts.register_get [of ts n] ts.register_names [of ts]
    by (simp add: toolSetGet_def toolSetDefinitions_listing NewToolSet_register)
qed

lemma toolImagesLoop_spec:
  "toolImagesLoop f i n imgs = (parts, ns) \<Longrightarrow>
     parts = map imagePart (filter (\<lambda>im. f im = []) imgs) \<and> length ns + length parts = length imgs"
  by (induction f i n imgs arbitrary: parts ns rule: toolImagesLoop.induct)
    (auto simp: Let_def split: prod.splits if_splits)

lemma toolImageRefusal_empty:
  "toolImageRefusal isPrint im acc mid = [] \<longleftrightarrow> acc \<and> validateImage im = None"
  by (auto simp: toolImageRefusal_def sentinelText_def split: option.splits)

lemma toolImages_of_parts:
  "concat (map (\<lambda>p. if ptType p = PartTypeImage then (case ptImage p of Some i \<Rightarrow> [i] | None \<Rightarrow> []) else [])
     (map imagePart imgs)) = imgs"
  by (induction imgs) (simp_all add: imagePart_def)

lemma validParts_text_images:
  assumes "set order = set payloadTypes" and "\<forall>im \<in> set imgs. validateImage im = None"
  shows "validateContent order (TextOf t # map imagePart imgs) = None"
proof -
  have "well_formed_part (TextOf t)"
    by (simp add: well_formed_part_def payload_matches_def hasPayload_def payloadTypes_def TextOf_def)
  moreover have "validateImage im = None \<Longrightarrow> well_formed_part (imagePart im)" for im
    by (auto simp: well_formed_part_def payload_matches_def hasPayload_def payloadTypes_def imagePart_def
        validateImage_def Let_def split: if_splits)
  ultimately show ?thesis using assms by (auto simp: validateContent_None)
qed

text \<open>
  No image a tool returned vanishes silently: the tool message starts with the result's
  text followed by one note per image left out, carries exactly the images that are valid
  when the model accepts images and none otherwise, notes and images together are as many
  as the tool returned, and the content always passes validation.
\<close>

theorem tool_images_accounted:
  assumes "set order = set payloadTypes"
  shows "let c = toolResultMessageContent isPrint t imgs acc mid;
             shown = ToolImages (emptyMessage\<lparr>mRole := RoleTool, mContent := c\<rparr>)
    in (\<exists>ns ps. c = TextOf (join [CHR 0x0A] (t # ns)) # ps \<and> length ns + length shown = length imgs)
       \<and> shown = filter (\<lambda>im. acc \<and> validateImage im = None) imgs
       \<and> validateContent order c = None"
proof -
  let ?f = "\<lambda>im. toolImageRefusal isPrint im acc mid"
  obtain parts ns where l: "toolImagesLoop ?f 0 (length imgs) imgs = (parts, ns)"
    by (cases "toolImagesLoop ?f 0 (length imgs) imgs")
  let ?shown = "filter (\<lambda>im. acc \<and> validateImage im = None) imgs"
  have p: "parts = map imagePart ?shown" and n: "length ns + length ?shown = length imgs"
    using toolImagesLoop_spec [OF l] by (auto simp: toolImageRefusal_empty)
  have c: "toolResultMessageContent isPrint t imgs acc mid
      = TextOf (join [CHR 0x0A] (t # ns)) # map imagePart ?shown"
    using l p n by (cases "imgs = []") (simp_all add: toolResultMessageContent_def Text_def Let_def)
  have "ToolImages (emptyMessage\<lparr>mRole := RoleTool,
      mContent := toolResultMessageContent isPrint t imgs acc mid\<rparr>) = ?shown"
    using toolImages_of_parts [of ?shown] by (simp add: c ToolImages_def TextOf_def)
  with n c validParts_text_images [OF assms, of ?shown] show ?thesis by (auto simp: Let_def)
qed

theorem tool_images_accounted_witness:
  "set payloadTypes = set payloadTypes \<and> validateContent payloadTypes
     (toolResultMessageContent (\<lambda>_. True) ''ok'' [\<lparr>imgURL = ''u'', imgData = [], imgMediaType = [], imgDetail = []\<rparr>]
        False ''m'') = None"
  using tool_images_accounted [OF refl] by (metis (no_types, lifting))

end
