(* ===== verification/Transcript.thy ===== *)
theory Transcript
  imports Messages
begin

text \<open>
  Transcript repair (\<open>transcript.go\<close>) and what a legal transcript is. Providers reject a
  transcript in which a tool call has no result, a result has no call, or an id is used
  twice in one exchange; \<open>legal\<close> states that contract independently of any provider,
  \<open>repairTranscript\<close> is the routine the engine runs on every transcript it did not build,
  and the locale \<open>transcript_validator\<close> is what a driver's own validation promises.
\<close>

section \<open>Repair, as the code has it\<close>

abbreviation isToolResult :: "message \<Rightarrow> bool" where
  "isToolResult m \<equiv> mRole m = RoleTool"

fun dedupeLoop :: "string set \<Rightarrow> toolCall list \<Rightarrow> toolCall list \<Rightarrow> string set \<times> toolCall list" where
  "dedupeLoop wanted calls [] = (wanted, calls)"
| "dedupeLoop wanted calls (c # cs) =
     (if tcID c \<in> wanted then dedupeLoop wanted calls cs
      else dedupeLoop (insert (tcID c) wanted) (calls @ [c]) cs)"

definition dedupeToolCalls :: "toolCall list \<Rightarrow> string set \<times> toolCall list" where
  "dedupeToolCalls toolCalls = dedupeLoop {} [] toolCalls"

fun keepResults :: "string set \<Rightarrow> string set \<Rightarrow> message list \<Rightarrow> message list" where
  "keepResults wanted seen [] = []"
| "keepResults wanted seen (r # rs) =
     (if mToolCallID r \<notin> wanted then keepResults wanted seen rs
      else if mToolCallID r \<in> seen then keepResults wanted seen rs
      else r # keepResults wanted (insert (mToolCallID r) seen) rs)"

text \<open>
  The exchange opened by \<open>m\<close>, and the messages after it: \<open>rest\<close> is the transcript from the
  returned index on.
\<close>

definition repairToolUnit :: "message \<Rightarrow> message list \<Rightarrow> message list \<times> message list" where
  "repairToolUnit m ms =
     (let (wanted, calls) = dedupeToolCalls (mToolCalls m);
          m' = (if length calls \<noteq> length (mToolCalls m) then m\<lparr>mToolCalls := calls\<rparr> else m);
          results = takeWhile isToolResult ms;
          rest = dropWhile isToolResult ms;
          answered = set (map mToolCallID results)
      in if list_ex (\<lambda>c. tcID c \<notin> answered) (mToolCalls m') then ([], rest)
         else (m' # keepResults wanted {} results, rest))"

lemma repairToolUnit_rest [simp]: "snd (repairToolUnit m ms) = dropWhile isToolResult ms"
  by (simp add: repairToolUnit_def Let_def split: prod.split)

function repairTranscript :: "message list \<Rightarrow> message list" where
  "repairTranscript [] = []"
| "repairTranscript (m # ms) =
     (if isToolResult m then repairTranscript ms
      else if mToolCalls m = [] then m # repairTranscript ms
      else fst (repairToolUnit m ms) @ repairTranscript (snd (repairToolUnit m ms)))"
  by pat_completeness auto
termination by (relation "measure length") simp_all

section \<open>Legal transcripts\<close>

definition answers :: "toolCall list \<Rightarrow> message list \<Rightarrow> bool" where
  "answers calls rs \<longleftrightarrow>
     length rs = length calls \<and> list_all isToolResult rs
     \<and> distinct (map tcID calls) \<and> tcID ` set calls = mToolCallID ` set rs"

function legal :: "message list \<Rightarrow> bool" where
  "legal [] = True"
| "legal (m # ms) =
     (\<not> isToolResult m
      \<and> answers (mToolCalls m) (take (length (mToolCalls m)) ms)
      \<and> legal (drop (length (mToolCalls m)) ms))"
  by pat_completeness auto
termination by (relation "measure length") simp_all

text \<open>Which messages may carry calls: only assistant turns of the model itself.\<close>

definition callsOnAssistant :: "message list \<Rightarrow> bool" where
  "callsOnAssistant ms \<longleftrightarrow>
     list_all (\<lambda>m. mToolCalls m \<noteq> [] \<longrightarrow> mRole m = RoleAssistant \<and> mOrigin m \<noteq> MessageOriginInjection) ms"

lemma callsOnAssistant_simps [simp]:
  "callsOnAssistant []"
  "callsOnAssistant (m # ms) \<longleftrightarrow>
     (mToolCalls m \<noteq> [] \<longrightarrow> mRole m = RoleAssistant \<and> mOrigin m \<noteq> MessageOriginInjection) \<and> callsOnAssistant ms"
  "callsOnAssistant (xs @ ys) \<longleftrightarrow> callsOnAssistant xs \<and> callsOnAssistant ys"
  by (simp_all add: callsOnAssistant_def)

lemma callsOnAssistant_drop: "callsOnAssistant ms \<Longrightarrow> callsOnAssistant (drop n ms)"
  by (auto simp: callsOnAssistant_def list_all_iff dest: in_set_dropD)

lemma answers_Nil [simp]: "answers [] rs \<longleftrightarrow> rs = []"
  by (auto simp: answers_def)

lemma answers_tools: "answers calls rs \<Longrightarrow> r \<in> set rs \<Longrightarrow> isToolResult r"
  by (auto simp: answers_def list_all_iff)

lemma answers_distinct_ids: "answers calls rs \<Longrightarrow> distinct (map mToolCallID rs)"
proof -
  assume a: "answers calls rs"
  then have "card (mToolCallID ` set rs) = length calls"
    by (metis answers_def distinct_card length_map list.set_map)
  then have "card (set (map mToolCallID rs)) = length (map mToolCallID rs)"
    using a by (simp add: answers_def)
  then show ?thesis by (rule card_distinct)
qed

lemma answers_if_distinct:
  assumes "distinct (map tcID calls)" and "distinct (map mToolCallID rs)"
    and "list_all isToolResult rs" and "tcID ` set calls = mToolCallID ` set rs"
  shows "answers calls rs"
proof -
  have "length rs = card (set (map mToolCallID rs))" using assms(2) distinct_card by fastforce
  also have "\<dots> = card (set (map tcID calls))" using assms(4) by simp
  also have "\<dots> = length calls" using distinct_card [OF assms(1)] by simp
  finally show ?thesis using assms by (simp add: answers_def)
qed

lemma legal_plain [simp]: "mToolCalls m = [] \<Longrightarrow> legal (m # ms) \<longleftrightarrow> \<not> isToolResult m \<and> legal ms"
  by simp

lemma legal_unit:
  assumes "\<not> isToolResult m" and "answers (mToolCalls m) rs"
  shows "legal (m # rs @ ms) \<longleftrightarrow> legal ms"
proof -
  have "length rs = length (mToolCalls m)" using assms(2) by (simp add: answers_def)
  with assms show ?thesis by simp
qed

lemma legal_append: "legal xs \<Longrightarrow> legal (xs @ ys) \<longleftrightarrow> legal ys"
proof (induction xs rule: legal.induct)
  case (2 m ms)
  let ?n = "length (mToolCalls m)"
  have "length (take ?n ms) = ?n" using 2(2) by (auto simp: answers_def)
  then have n: "?n \<le> length ms" by simp
  with 2 show ?case by simp
qed simp

lemma legal_hd: "legal ms \<Longrightarrow> ms = [] \<or> \<not> isToolResult (hd ms)"
  by (cases ms) auto

text \<open>In a legal transcript the run of results behind a call-bearing message is its answers.\<close>

lemma legal_run:
  assumes "legal (m # ms)"
  shows "takeWhile isToolResult ms = take (length (mToolCalls m)) ms"
    and "dropWhile isToolResult ms = drop (length (mToolCalls m)) ms"
proof -
  let ?rs = "take (length (mToolCalls m)) ms" and ?t = "drop (length (mToolCalls m)) ms"
  have a: "\<forall>x \<in> set ?rs. isToolResult x" and b: "?t = [] \<or> \<not> isToolResult (hd ?t)"
    using assms legal_hd [of ?t] by (auto simp: answers_def list_all_iff)
  have "ms = ?rs @ ?t" by simp
  with takeWhile_run_append [OF a b]
  show "takeWhile isToolResult ms = ?rs" and "dropWhile isToolResult ms = ?t" by simp_all
qed

section \<open>The repair loops against their specifications\<close>

lemma dedupeLoop_eq:
  "dedupeLoop wanted calls cs = (wanted \<union> tcID ` set cs, calls @ dedup_by tcID wanted cs)"
  by (induction wanted calls cs rule: dedupeLoop.induct) auto

lemma dedupeToolCalls_eq: "dedupeToolCalls cs = (tcID ` set cs, dedup_by tcID {} cs)"
  by (simp add: dedupeToolCalls_def dedupeLoop_eq)

lemma keepResults_eq:
  "keepResults wanted seen rs = dedup_by mToolCallID seen (filter (\<lambda>r. mToolCallID r \<in> wanted) rs)"
  by (induction wanted seen rs rule: keepResults.induct) auto

definition dedupedCalls :: "message \<Rightarrow> message" where
  "dedupedCalls m = m\<lparr>mToolCalls := dedup_by tcID {} (mToolCalls m)\<rparr>"

lemma dedup_by_same_length: "length (dedup_by key seen xs) = length xs \<Longrightarrow> dedup_by key seen xs = xs"
proof (induction key seen xs rule: dedup_by.induct)
  case (2 key seen x xs)
  then show ?case
    using dedup_by_length [of key seen xs] by (auto split: if_splits)
qed simp

lemma dedupedCalls_if:
  "(if length (dedup_by tcID {} (mToolCalls m)) \<noteq> length (mToolCalls m)
    then m\<lparr>mToolCalls := dedup_by tcID {} (mToolCalls m)\<rparr> else m) = dedupedCalls m"
  by (simp add: dedupedCalls_def dedup_by_same_length)

lemma repairToolUnit_cases:
  assumes "rs = takeWhile isToolResult ms"
  shows "fst (repairToolUnit m ms) =
    (if tcID ` set (mToolCalls m) \<subseteq> mToolCallID ` set rs
     then dedupedCalls m # dedup_by mToolCallID {} (filter (\<lambda>r. mToolCallID r \<in> tcID ` set (mToolCalls m)) rs)
     else [])"
proof -
  have k: "tcID ` set (dedup_by tcID {} (mToolCalls m)) = tcID ` set (mToolCalls m)"
    by (simp add: dedup_by_keys)
  have "list_ex (\<lambda>c. tcID c \<notin> mToolCallID ` set rs) (dedup_by tcID {} (mToolCalls m))
      \<longleftrightarrow> \<not> tcID ` set (mToolCalls m) \<subseteq> mToolCallID ` set rs"
    unfolding k [symmetric] by (auto simp: list_ex_iff)
  then show ?thesis
    by (simp add: repairToolUnit_def Let_def dedupeToolCalls_eq dedupedCalls_if keepResults_eq
        dedupedCalls_def assms)
qed

lemma image_filter_in: "K \<subseteq> f ` set xs \<Longrightarrow> f ` set (filter (\<lambda>x. f x \<in> K) xs) = K"
  by (auto simp: image_iff subset_iff)

lemma repaired_unit_legal:
  assumes "\<not> isToolResult m" and "mToolCalls m \<noteq> []"
  shows "legal (fst (repairToolUnit m ms) @ rest) \<longleftrightarrow> legal rest"
proof -
  let ?rs = "takeWhile isToolResult ms"
  let ?kept = "dedup_by mToolCallID {} (filter (\<lambda>r. mToolCallID r \<in> tcID ` set (mToolCalls m)) ?rs)"
  show ?thesis
  proof (cases "tcID ` set (mToolCalls m) \<subseteq> mToolCallID ` set ?rs")
    case True
    have ids: "mToolCallID ` set ?kept = tcID ` set (mToolCalls m)"
      by (simp only: dedup_by_keys Diff_empty image_filter_in [OF True])
    have tools: "list_all isToolResult ?kept"
      using dedup_by_subset [of mToolCallID "{}"] by (fastforce simp: list_all_iff dest: set_takeWhileD)
    have "answers (mToolCalls (dedupedCalls m)) ?kept"
      by (rule answers_if_distinct) (use ids tools in \<open>simp_all add: dedupedCalls_def dedup_by_keys\<close>)
    then show ?thesis
      using True assms legal_unit [of "dedupedCalls m" ?kept rest]
      by (simp add: repairToolUnit_cases [OF refl] dedupedCalls_def)
  qed (simp add: repairToolUnit_cases [OF refl])
qed

lemma repair_legal: "legal (repairTranscript ms)"
proof (induction ms rule: repairTranscript.induct)
  case (2 m ms)
  then show ?case by (auto simp: repaired_unit_legal simp del: legal.simps(2))
qed simp

lemma repair_legal_id: "legal ms \<Longrightarrow> repairTranscript ms = ms"
proof (induction ms rule: repairTranscript.induct)
  case (2 m ms)
  let ?n = "length (mToolCalls m)"
  show ?case
  proof (cases "mToolCalls m = []")
    case True
    with 2 show ?thesis by simp
  next
    case False
    have a: "answers (mToolCalls m) (take ?n ms)" and nt: "\<not> isToolResult m"
      and l: "legal (drop ?n ms)" using "2.prems" by auto
    have rs: "takeWhile isToolResult ms = take ?n ms" "dropWhile isToolResult ms = drop ?n ms"
      using legal_run [OF "2.prems"] by simp_all
    have all: "filter (\<lambda>r. mToolCallID r \<in> tcID ` set (mToolCalls m)) (take ?n ms) = take ?n ms"
      using a by (auto simp: answers_def filter_id_conv)
    have d: "dedupedCalls m = m"
      using a by (simp add: dedupedCalls_def answers_def dedup_by_id)
    have "fst (repairToolUnit m ms) = m # take ?n ms"
      using a answers_distinct_ids [OF a]
      by (simp add: repairToolUnit_cases [OF refl] rs all d dedup_by_id) (simp add: answers_def)
    moreover have "repairTranscript (drop ?n ms) = drop ?n ms"
      using "2.IH"(3) [OF nt False] l by (simp add: rs)
    ultimately show ?thesis using nt False by (simp add: rs)
  qed
qed simp

text \<open>What repair keeps: every message that is neither a result nor a caller, and nothing new.\<close>

lemma repair_members: "m \<in> set (repairTranscript ms) \<Longrightarrow> m \<in> set ms \<or> m \<in> dedupedCalls ` set ms"
proof (induction ms rule: repairTranscript.induct)
  case (2 m0 ms)
  have sub: "set (dropWhile isToolResult ms) \<subseteq> set ms" by (auto dest: set_dropWhileD)
  have u: "x \<in> set (fst (repairToolUnit m0 ms)) \<Longrightarrow> x = dedupedCalls m0 \<or> x \<in> set ms" for x
    using dedup_by_subset [of mToolCallID "{}"]
    by (fastforce simp: repairToolUnit_cases [OF refl] split: if_splits dest: set_takeWhileD)
  show ?case using 2 sub u by (fastforce split: if_splits)
qed simp

definition bystander :: "message \<Rightarrow> bool" where
  "bystander m \<longleftrightarrow> \<not> isToolResult m \<and> mToolCalls m = []"

lemma filter_dropWhile_none: "(\<And>x. P x \<Longrightarrow> \<not> Q x) \<Longrightarrow> filter Q (dropWhile P xs) = filter Q xs"
  by (induction xs) auto

lemma repair_bystanders: "filter bystander (repairTranscript ms) = filter bystander ms"
proof (induction ms rule: repairTranscript.induct)
  case (2 m ms)
  have nb: "dedup_by tcID {} cs = [] \<Longrightarrow> cs = []" for cs :: "toolCall list"
    by (cases cs) auto
  have "mToolCalls m \<noteq> [] \<Longrightarrow> x \<in> set (fst (repairToolUnit m ms)) \<Longrightarrow> \<not> bystander x" for x
    using dedup_by_subset [of mToolCallID "{}"]
    by (fastforce simp: repairToolUnit_cases [OF refl] bystander_def dedupedCalls_def
        split: if_splits dest: set_takeWhileD nb)
  then have f: "mToolCalls m \<noteq> [] \<Longrightarrow> filter bystander (fst (repairToolUnit m ms)) = []"
    by (auto simp: filter_empty_conv)
  have d: "filter bystander (dropWhile isToolResult ms) = filter bystander ms"
    by (rule filter_dropWhile_none) (simp add: bystander_def)
  have "isToolResult m \<Longrightarrow> \<not> bystander m" "mToolCalls m \<noteq> [] \<Longrightarrow> \<not> bystander m"
    "\<not> isToolResult m \<Longrightarrow> mToolCalls m = [] \<Longrightarrow> bystander m" by (auto simp: bystander_def)
  with 2 f d show ?case by auto
qed simp

section \<open>What a driver's validation promises\<close>

text \<open>
  A driver refuses a transcript before it is sent. Of transcripts whose calls sit on
  assistant turns it accepts exactly the legal ones that also meet its provider's own
  demands on names, roles and ids (\<open>extra\<close>).
\<close>

locale transcript_validator =
  fixes validate :: "message list \<Rightarrow> err option"
    and extra :: "message list \<Rightarrow> bool"
  assumes accepts: "callsOnAssistant ms \<Longrightarrow> validate ms = None \<longleftrightarrow> legal ms \<and> extra ms"
begin

lemma repaired_accepted:
  "callsOnAssistant (repairTranscript ms) \<Longrightarrow> extra (repairTranscript ms) \<Longrightarrow>
   validate (repairTranscript ms) = None"
  by (simp add: accepts repair_legal)

lemma accepted_not_repaired: "callsOnAssistant ms \<Longrightarrow> validate ms = None \<Longrightarrow> repairTranscript ms = ms"
  by (simp add: accepts repair_legal_id)

end

lemma repair_callsOnAssistant: "callsOnAssistant ms \<Longrightarrow> callsOnAssistant (repairTranscript ms)"
  using repair_members by (fastforce simp: callsOnAssistant_def list_all_iff dedupedCalls_def)

section \<open>Properties\<close>

text \<open>
  C3. Repair always produces a legal transcript, and does not lose conversation: every
  message that is neither a tool result nor a caller survives in place, every surviving
  message is one of the input up to the removal of repeated call ids, a legal transcript
  is returned unchanged, and repairing twice is repairing once.
\<close>

theorem repair_transcript_correct:
  "legal (repairTranscript ms)
   \<and> filter bystander (repairTranscript ms) = filter bystander ms
   \<and> set (repairTranscript ms) \<subseteq> set ms \<union> dedupedCalls ` set ms
   \<and> (legal ms \<longrightarrow> repairTranscript ms = ms)
   \<and> repairTranscript (repairTranscript ms) = repairTranscript ms"
  using repair_legal repair_bystanders repair_members repair_legal_id by blast

definition orphanSample :: "message list" where
  "orphanSample = [emptyMessage\<lparr>mRole := RoleUser\<rparr>,
     emptyMessage\<lparr>mRole := RoleAssistant, mToolCalls := [\<lparr>tcID = ''a'', tcName = ''f'', tcArguments = []\<rparr>]\<rparr>,
     emptyMessage\<lparr>mRole := RoleTool, mToolCallID := ''a''\<rparr>]"

theorem repair_transcript_correct_witness:
  "legal orphanSample \<and> repairTranscript orphanSample = orphanSample"
proof -
  have "legal orphanSample" by (simp add: orphanSample_def answers_def)
  with repair_transcript_correct [of orphanSample] show ?thesis by blast
qed

end
