(* ===== verification/Limit.thy ===== *)
theory Limit
  imports Transcript "HOL-Library.Sublist"
begin

text \<open>
  Compaction (\<open>limit.go\<close>): the default token-limit handler evicts the oldest units until
  the transcript fits its budget. Positions the code returns as an \<open>int\<close> with \<open>-1\<close> for
  "none" are \<open>nat option\<close>. The token counter is the event's interface value, a function
  from messages and tools to a count or an error.
\<close>

type_synonym 't counter = "message list \<Rightarrow> 't list \<Rightarrow> err + int"

record 't tokenLimitEvent =
  evMessages :: "message list"
  evTools :: "'t list"
  evEstimatedTokens :: int
  evBudgetTokens :: int
  evRound :: int
  evCounter :: "'t counter"

section \<open>Positions\<close>

definition conversationalUser :: "message \<Rightarrow> bool" where
  "conversationalUser m \<longleftrightarrow> mRole m = RoleUser \<and> mOrigin m \<noteq> MessageOriginInjection"

definition answeringAssistant :: "message \<Rightarrow> bool" where
  "answeringAssistant m \<longleftrightarrow> mRole m = RoleAssistant \<and> mOrigin m \<noteq> MessageOriginInjection"

abbreviation hasCalls :: "message \<Rightarrow> bool" where
  "hasCalls m \<equiv> mToolCalls m \<noteq> []"

definition lastConversationalUserIndex :: "message list \<Rightarrow> nat option" where
  "lastConversationalUserIndex ms = last_index conversationalUser ms"

definition lastAnsweringAssistantIndex :: "message list \<Rightarrow> nat option" where
  "lastAnsweringAssistantIndex ms = last_index answeringAssistant ms"

definition unitEnd :: "message list \<Rightarrow> nat \<Rightarrow> nat" where
  "unitEnd ms i =
     (if mToolCalls (ms ! i) = [] then i + 1
      else i + 1 + length (takeWhile isToolResult (drop (i + 1) ms)))"

definition isLiveToolExchange :: "message list \<Rightarrow> nat \<Rightarrow> bool" where
  "isLiveToolExchange ms i =
     (case last_index hasCalls ms of
        None \<Rightarrow> False
      | Some latestAssistant \<Rightarrow>
          (case lastConversationalUserIndex ms of
             Some latestUser \<Rightarrow> \<not> latestAssistant < latestUser
           | None \<Rightarrow> True)
          \<and> i \<ge> latestAssistant \<and> i < unitEnd ms latestAssistant)"

text \<open>The guards of the scan, in the order the loop tests them.\<close>

definition pinnedAt :: "message list \<Rightarrow> nat \<Rightarrow> bool" where
  "pinnedAt ms i =
     (let m = ms ! i in
        (i = 0 \<and> mRole m = RoleSystem \<and> mInjection m = None)
      \<or> (mOrigin m = MessageOriginInjection
         \<and> (case lastAnsweringAssistantIndex ms of Some a \<Rightarrow> i > a | None \<Rightarrow> True))
      \<or> lastConversationalUserIndex ms = Some i
      \<or> isLiveToolExchange ms i)"

definition firstDroppableUnit :: "message list \<Rightarrow> nat option" where
  "firstDroppableUnit ms = find (\<lambda>i. \<not> pinnedAt ms i) [0..<length ms]"

definition systemFront :: "message list \<Rightarrow> nat" where
  "systemFront ms =
     (if length ms > 0 \<and> mRole (ms ! 0) = RoleSystem \<and> mInjection (ms ! 0) = None then 1 else 0)"

definition startsMidExchange :: "message list \<Rightarrow> bool" where
  "startsMidExchange ms =
     (let front = systemFront ms in
      if front \<ge> length ms then False
      else if conversationalUser (ms ! front) then False
      else firstDroppableUnit ms = Some front)"

definition dropUnit :: "message list \<Rightarrow> nat \<Rightarrow> message list" where
  "dropUnit ms i = take i ms @ drop (unitEnd ms i) ms"

section \<open>The loops\<close>

definition IsOverBudget :: "'t tokenLimitEvent \<Rightarrow> 't tokenLimitEvent \<times> (err + bool)" where
  "IsOverBudget e =
     (case evCounter e (evMessages e) (evTools e) of
        Inl x \<Rightarrow> (e, Inl (Wrap x ''count token limit event''))
      | Inr n \<Rightarrow> (e\<lparr>evEstimatedTokens := n\<rparr>, Inr (n > evBudgetTokens e)))"

lemma unitEnd_gt: "i < unitEnd ms i"
  by (simp add: unitEnd_def)

lemma unitEnd_le: "i < length ms \<Longrightarrow> unitEnd ms i \<le> length ms"
proof -
  assume i: "i < length ms"
  have "length (takeWhile isToolResult (drop (Suc i) ms)) \<le> length ms - Suc i"
    using length_takeWhile_le [of isToolResult "drop (Suc i) ms"] by simp
  with i have "Suc (i + length (takeWhile isToolResult (drop (Suc i) ms))) \<le> length ms" by linarith
  with i show ?thesis by (simp add: unitEnd_def)
qed

lemma firstDroppableUnit_Some:
  "firstDroppableUnit ms = Some i \<Longrightarrow>
     i < length ms \<and> \<not> pinnedAt ms i \<and> (\<forall>j < i. pinnedAt ms j)"
  by (auto simp: firstDroppableUnit_def find_Some_iff)

lemma firstDroppableUnit_None: "firstDroppableUnit ms = None \<longleftrightarrow> (\<forall>i < length ms. pinnedAt ms i)"
  by (auto simp: firstDroppableUnit_def find_None_iff)

lemma dropUnit_length:
  "i < length ms \<Longrightarrow> length (dropUnit ms i) + (unitEnd ms i - i) = length ms"
  using unitEnd_le [of i ms] unitEnd_gt [of i ms] by (simp add: dropUnit_def)

function dropLoop :: "'t tokenLimitEvent \<Rightarrow> int \<Rightarrow> nat \<Rightarrow> 't tokenLimitEvent \<times> nat \<times> err option" where
  "dropLoop e estimate dropped =
     (if length (evMessages e) \<le> 1 then (e, dropped, None)
      else if \<not> estimate > evBudgetTokens e \<and> \<not> (dropped > 0 \<and> startsMidExchange (evMessages e))
      then (e, dropped, None)
      else case firstDroppableUnit (evMessages e) of
          None \<Rightarrow> (e, dropped, None)
        | Some i \<Rightarrow>
            let end = unitEnd (evMessages e) i in
            (case evCounter e (take (end - i) (drop i (evMessages e))) [] of
               Inl x \<Rightarrow> (e, dropped, Some (Wrap x ''count droppable unit''))
             | Inr unitTokens \<Rightarrow>
                 let e' = e\<lparr>evMessages := dropUnit (evMessages e) i\<rparr>; dropped' = dropped + (end - i)
                 in if unitTokens \<le> 0 then (e', dropped', None)
                    else dropLoop e' (sub64 estimate unitTokens) dropped'))"
  by pat_completeness auto
termination
proof (relation "measure (\<lambda>(e, _, _). length (evMessages e))", goal_cases)
  case (2 e estimate dropped i endi u e' dropped')
  then have "i < length (evMessages e)" by (auto dest: firstDroppableUnit_Some)
  with dropUnit_length [OF this] unitEnd_gt [of i "evMessages e"] 2 show ?case by simp
qed simp

declare dropLoop.simps [simp del]

definition dropUntilEstimatedToFit :: "'t tokenLimitEvent \<Rightarrow> 't tokenLimitEvent \<times> nat \<times> err option" where
  "dropUntilEstimatedToFit e = dropLoop e (evEstimatedTokens e) 0"

lemma dropLoop_step:
  assumes "length (evMessages e) > 1" and "est > evBudgetTokens e \<or> d > 0 \<and> startsMidExchange (evMessages e)"
    and "firstDroppableUnit (evMessages e) = Some i"
  shows "dropLoop e est d =
    (case evCounter e (take (unitEnd (evMessages e) i - i) (drop i (evMessages e))) [] of
       Inl x \<Rightarrow> (e, d, Some (Wrap x ''count droppable unit''))
     | Inr u \<Rightarrow>
         if u \<le> 0 then (e\<lparr>evMessages := dropUnit (evMessages e) i\<rparr>, d + (unitEnd (evMessages e) i - i), None)
         else dropLoop (e\<lparr>evMessages := dropUnit (evMessages e) i\<rparr>) (sub64 est u)
                (d + (unitEnd (evMessages e) i - i)))"
  using assms by (subst dropLoop.simps) (auto simp: Let_def split: sum.split)

lemma dropLoop_stop:
  assumes "length (evMessages e) \<le> 1 \<or> firstDroppableUnit (evMessages e) = None
    \<or> (est \<le> evBudgetTokens e \<and> \<not> (d > 0 \<and> startsMidExchange (evMessages e)))"
  shows "dropLoop e est d = (e, d, None)"
  using assms by (subst dropLoop.simps) (auto split: option.split)

text \<open>The four ways an iteration of the loop goes, as an induction rule on its result.\<close>

definition loopStops :: "'t tokenLimitEvent \<Rightarrow> int \<Rightarrow> nat \<Rightarrow> bool" where
  "loopStops e est d \<longleftrightarrow> length (evMessages e) \<le> 1 \<or> firstDroppableUnit (evMessages e) = None
     \<or> (est \<le> evBudgetTokens e \<and> \<not> (d > 0 \<and> startsMidExchange (evMessages e)))"

lemma dropLoop_induct [case_names stop fail last step]:
  assumes stop: "\<And>e est d. loopStops e est d \<Longrightarrow> P e est d (e, d, None)"
    and fail: "\<And>e est d i y. \<not> loopStops e est d \<Longrightarrow> firstDroppableUnit (evMessages e) = Some i \<Longrightarrow>
      evCounter e (take (unitEnd (evMessages e) i - i) (drop i (evMessages e))) [] = Inl y \<Longrightarrow>
      P e est d (e, d, Some (Wrap y ''count droppable unit''))"
    and last: "\<And>e est d i u. \<not> loopStops e est d \<Longrightarrow> firstDroppableUnit (evMessages e) = Some i \<Longrightarrow>
      evCounter e (take (unitEnd (evMessages e) i - i) (drop i (evMessages e))) [] = Inr u \<Longrightarrow> u \<le> 0 \<Longrightarrow>
      P e est d (e\<lparr>evMessages := dropUnit (evMessages e) i\<rparr>, d + (unitEnd (evMessages e) i - i), None)"
    and step: "\<And>e est d i u r. \<not> loopStops e est d \<Longrightarrow> firstDroppableUnit (evMessages e) = Some i \<Longrightarrow>
      evCounter e (take (unitEnd (evMessages e) i - i) (drop i (evMessages e))) [] = Inr u \<Longrightarrow> u > 0 \<Longrightarrow>
      P (e\<lparr>evMessages := dropUnit (evMessages e) i\<rparr>) (sub64 est u) (d + (unitEnd (evMessages e) i - i)) r \<Longrightarrow>
      P e est d r"
  shows "P e est d (dropLoop e est d)"
proof (induction "length (evMessages e)" arbitrary: e est d rule: less_induct)
  case less
  let ?ms = "evMessages e"
  show ?case
  proof (cases "loopStops e est d")
    case True
    with stop [OF True] show ?thesis by (simp add: dropLoop_stop loopStops_def)
  next
    case False
    then obtain i where i: "firstDroppableUnit ?ms = Some i" by (auto simp: loopStops_def)
    then have lt: "i < length ?ms" by (auto dest: firstDroppableUnit_Some)
    let ?e = "e\<lparr>evMessages := dropUnit ?ms i\<rparr>" and ?d = "d + (unitEnd ?ms i - i)"
    have shorter: "length (evMessages ?e) < length ?ms"
      using dropUnit_length [OF lt] unitEnd_gt [of i ?ms] by simp
    have eq: "dropLoop e est d =
      (case evCounter e (take (unitEnd ?ms i - i) (drop i ?ms)) [] of
         Inl x \<Rightarrow> (e, d, Some (Wrap x ''count droppable unit''))
       | Inr u \<Rightarrow> if u \<le> 0 then (?e, ?d, None) else dropLoop ?e (sub64 est u) ?d)"
      using False i by (intro dropLoop_step) (auto simp: loopStops_def)
    show ?thesis
    proof (cases "evCounter e (take (unitEnd ?ms i - i) (drop i ?ms)) []")
      case (Inl y)
      then show ?thesis using fail [OF False i Inl] by (simp add: eq)
    next
      case (Inr u)
      then show ?thesis
        using last [OF False i Inr] step [OF False i Inr _ less.hyps [OF shorter]] by (simp add: eq)
    qed
  qed
qed

lemma dropLoop_count:
  "dropLoop e est d = (e', d', x) \<Longrightarrow> length (evMessages e') + d' = length (evMessages e) + d \<and> d \<le> d'"
proof -
  have "case dropLoop e est d of (e', d', x) \<Rightarrow>
      length (evMessages e') + d' = length (evMessages e) + d \<and> d \<le> d'"
  proof (induction rule: dropLoop_induct)
    case (last e est d i u)
    then have "i < length (evMessages e)" by (auto dest: firstDroppableUnit_Some)
    from dropUnit_length [OF this] show ?case by simp
  next
    case (step e est d i u r)
    then have "i < length (evMessages e)" by (auto dest: firstDroppableUnit_Some)
    from dropUnit_length [OF this] step show ?case by (auto split: prod.splits)
  qed simp_all
  then show "dropLoop e est d = (e', d', x) \<Longrightarrow> ?thesis" by simp
qed

function dropPasses :: "'t tokenLimitEvent \<Rightarrow> 't tokenLimitEvent \<times> err option" where
  "dropPasses e =
     (if length (evMessages e) \<le> 1 then (e, None)
      else case IsOverBudget e of
          (e1, Inl x) \<Rightarrow> (e1, Some (Wrap x ''count limited transcript''))
        | (e1, Inr over) \<Rightarrow>
            if \<not> over then (e1, None)
            else case dropUntilEstimatedToFit e1 of
                (e2, n, Some x) \<Rightarrow> (e2, Some x)
              | (e2, n, None) \<Rightarrow> if n = 0 then (e2, None) else dropPasses e2)"
  by pat_completeness auto
termination
proof (relation "measure (\<lambda>e. length (evMessages e))", goal_cases)
  case 2
  then show ?case
    by (auto simp: dropUntilEstimatedToFit_def IsOverBudget_def split: sum.splits dest!: dropLoop_count [OF sym])
qed simp

declare dropPasses.simps [simp del]

text \<open>The handler: a counter that is not nil replaces the event's own.\<close>

definition DropOldestUnits :: "'t counter option \<Rightarrow> 't tokenLimitEvent \<Rightarrow> 't tokenLimitEvent \<times> err option" where
  "DropOldestUnits counter e =
     dropPasses (case counter of Some c \<Rightarrow> e\<lparr>evCounter := c\<rparr> | None \<Rightarrow> e)"

section \<open>The specification: evicting droppable units\<close>

inductive evicts :: "message list \<Rightarrow> message list \<Rightarrow> bool" where
  keep: "evicts ms ms"
| evict: "firstDroppableUnit ms = Some i \<Longrightarrow> evicts (dropUnit ms i) ms' \<Longrightarrow> evicts ms ms'"

lemma evicts_trans: "evicts a b \<Longrightarrow> evicts b c \<Longrightarrow> evicts a c"
  by (induction rule: evicts.induct) (auto intro: evicts.intros)

text \<open>Every pass of the loop evicts droppable units and touches nothing else of the event.\<close>

lemma dropLoop_evicts:
  "case dropLoop e est d of (e', d', x) \<Rightarrow>
     evicts (evMessages e) (evMessages e') \<and> e' = e\<lparr>evMessages := evMessages e'\<rparr>"
proof (induction rule: dropLoop_induct)
  case (step e est d i u r)
  then show ?case by (auto split: prod.splits intro: evicts.evict)
qed (auto intro: evicts.intros)

text \<open>With no error a pass that dropped nothing found nothing to drop.\<close>

lemma dropLoop_stuck:
  "case dropLoop e est d of (e', d', x) \<Rightarrow>
     x = None \<longrightarrow> est > evBudgetTokens e \<longrightarrow> length (evMessages e) > 1 \<longrightarrow> d' = d \<longrightarrow>
     firstDroppableUnit (evMessages e') = None"
proof (cases "loopStops e est d")
  case True
  then show ?thesis by (auto simp: dropLoop_stop loopStops_def)
next
  case False
  then obtain i where i: "firstDroppableUnit (evMessages e) = Some i" by (auto simp: loopStops_def)
  have "dropLoop e est d = (e', d', None) \<Longrightarrow> d < d'" for e' d'
    using False i unitEnd_gt [of i "evMessages e"]
    by (subst (asm) dropLoop_step)
      (auto simp: loopStops_def split: sum.splits if_splits dest!: dropLoop_count)
  then show ?thesis by (cases "dropLoop e est d") auto
qed

definition fitsBudget :: "'t tokenLimitEvent \<Rightarrow> bool" where
  "fitsBudget e = (case evCounter e (evMessages e) (evTools e) of Inr n \<Rightarrow> n \<le> evBudgetTokens e | Inl _ \<Rightarrow> False)"

lemma dropPasses_spec:
  "dropPasses e = (e', x) \<Longrightarrow>
     evicts (evMessages e) (evMessages e')
     \<and> evTools e' = evTools e \<and> evBudgetTokens e' = evBudgetTokens e \<and> evCounter e' = evCounter e
     \<and> (x = None \<longrightarrow> length (evMessages e') \<le> 1 \<or> fitsBudget e' \<or> firstDroppableUnit (evMessages e') = None)"
proof (induction e arbitrary: e' x rule: dropPasses.induct)
  case (1 e)
  show ?case
  proof (cases "length (evMessages e) \<le> 1")
    case True
    with "1.prems" show ?thesis by (auto simp: dropPasses.simps [of e] intro: evicts.intros)
  next
    case many: False
    show ?thesis
    proof (cases "evCounter e (evMessages e) (evTools e)")
      case (Inl y)
      with "1.prems" many show ?thesis
        by (auto simp: dropPasses.simps [of e] IsOverBudget_def intro: evicts.intros)
    next
      case (Inr n)
      let ?e1 = "e\<lparr>evEstimatedTokens := n\<rparr>"
      show ?thesis
      proof (cases "n > evBudgetTokens e")
        case False
        with "1.prems" many Inr show ?thesis
          by (auto simp: dropPasses.simps [of e] IsOverBudget_def fitsBudget_def intro: evicts.intros)
      next
        case over: True
        obtain e2 k y where p: "dropUntilEstimatedToFit ?e1 = (e2, k, y)"
          by (cases "dropUntilEstimatedToFit ?e1")
        have ev: "evicts (evMessages e) (evMessages e2)" and e2: "e2 = ?e1\<lparr>evMessages := evMessages e2\<rparr>"
          using p dropLoop_evicts [of ?e1 n 0] by (simp_all add: dropUntilEstimatedToFit_def)
        have fields: "evTools e2 = evTools e" "evBudgetTokens e2 = evBudgetTokens e" "evCounter e2 = evCounter e"
          by (subst e2, simp)+
        have stuck: "y = None \<Longrightarrow> k = 0 \<Longrightarrow> firstDroppableUnit (evMessages e2) = None"
          using p dropLoop_stuck [of ?e1 n 0] over many by (simp add: dropUntilEstimatedToFit_def)
        have run: "dropPasses e = (case y of Some z \<Rightarrow> (e2, Some z) | None \<Rightarrow> if k = 0 then (e2, None) else dropPasses e2)"
          using many Inr over p by (subst dropPasses.simps) (auto simp: IsOverBudget_def split: option.splits)
        show ?thesis
        proof (cases "y = None \<and> k \<noteq> 0")
          case True
          then have d2: "dropPasses e2 = (e', x)" using run "1.prems" by simp
          have over1: "IsOverBudget e = (?e1, Inr True)" using Inr over by (simp add: IsOverBudget_def)
          have "evicts (evMessages e2) (evMessages e') \<and> evTools e' = evTools e2
            \<and> evBudgetTokens e' = evBudgetTokens e2 \<and> evCounter e' = evCounter e2
            \<and> (x = None \<longrightarrow> length (evMessages e') \<le> 1 \<or> fitsBudget e' \<or> firstDroppableUnit (evMessages e') = None)"
            by (rule "1.IH" [OF many over1 [symmetric] refl _ p [symmetric] refl _ _ d2]) (use True in auto)
          with ev fields evicts_trans show ?thesis by metis
        next
          case False
          with run "1.prems" ev fields stuck show ?thesis by (auto split: option.splits)
        qed
      qed
    qed
  qed
qed

section \<open>Units of a legal transcript\<close>

lemma last_index_ge: "last_index P xs = Some a \<Longrightarrow> j < length xs \<Longrightarrow> P (xs ! j) \<Longrightarrow> j \<le> a"
  using last_index_Some [of P xs a] by (meson not_le)

lemma legal_split:
  "legal ms \<Longrightarrow> i < length ms \<Longrightarrow> \<not> isToolResult (ms ! i) \<Longrightarrow> legal (take i ms) \<and> legal (drop i ms)"
proof (induction ms arbitrary: i rule: legal.induct)
  case (2 m ms)
  let ?n = "length (mToolCalls m)"
  from "2.prems" have nt: "\<not> isToolResult m" and a: "answers (mToolCalls m) (take ?n ms)"
    and l: "legal (drop ?n ms)" by auto
  show ?case
  proof (cases i)
    case 0
    with "2.prems" show ?thesis by simp
  next
    case (Suc j)
    have "ms ! j \<in> set (take ?n ms)" if "j < ?n"
      using that "2.prems"(2) Suc nth_mem [of j "take ?n ms"] by simp
    then have jn: "\<not> j < ?n" using "2.prems" Suc answers_tools [OF a, of "ms ! j"] by auto
    with "2.prems" Suc have "legal (take (j - ?n) (drop ?n ms)) \<and> legal (drop (j - ?n) (drop ?n ms))"
      by (intro "2.IH") auto
    moreover have "take j ms = take ?n ms @ take (j - ?n) (drop ?n ms)"
      using jn by (metis le_add_diff_inverse not_less take_add)
    moreover have "drop (j - ?n) (drop ?n ms) = drop j ms" using jn by simp
    ultimately show ?thesis using Suc legal_unit [OF nt a] by (simp del: legal.simps(2))
  qed
qed simp

lemma unitEnd_shift:
  "j + k < length ms \<Longrightarrow> unitEnd ms (j + k) = unitEnd (drop k ms) j + k"
  by (simp add: unitEnd_def add.commute)

lemma legal_unitEnd:
  assumes "legal (m # ms)"
  shows "unitEnd (m # ms) 0 = Suc (length (mToolCalls m))"
proof -
  have "length (take (length (mToolCalls m)) ms) = length (mToolCalls m)"
    using assms by (auto simp: answers_def)
  then show ?thesis using legal_run(1) [OF assms] by (simp add: unitEnd_def)
qed

lemma legal_tool_head:
  "legal ms \<Longrightarrow> i < length ms \<Longrightarrow> isToolResult (ms ! i) \<Longrightarrow>
   \<exists>j < i. hasCalls (ms ! j) \<and> i < unitEnd ms j"
proof (induction ms arbitrary: i rule: legal.induct)
  case (2 m ms)
  let ?n = "length (mToolCalls m)"
  obtain k where k: "i = Suc k" using "2.prems" by (cases i) auto
  show ?case
  proof (cases "k < ?n")
    case True
    then show ?thesis using legal_unitEnd [OF "2.prems"(1)] k
      by (intro exI [of _ 0]) auto
  next
    case False
    have "k - ?n < length (drop ?n ms)" "isToolResult (drop ?n ms ! (k - ?n))" "legal (drop ?n ms)"
      using "2.prems" k False by auto
    from "2.IH" [OF this(3,1,2)] obtain j
      where j: "j < k - ?n" "hasCalls (drop ?n ms ! j)" "k - ?n < unitEnd (drop ?n ms) j" by auto
    have "unitEnd (m # ms) (j + Suc ?n) = unitEnd (drop ?n ms) j + Suc ?n"
      using unitEnd_shift [of j "Suc ?n" "m # ms"] "2.prems"(2) j(1) k False by simp
    then show ?thesis using j k False "2.prems"(2) by (intro exI [of _ "j + Suc ?n"]) (auto simp: add.commute)
  qed
qed simp

lemma droppable_not_tool:
  assumes "legal ms" and "callsOnAssistant ms" and "firstDroppableUnit ms = Some i"
  shows "\<not> isToolResult (ms ! i)"
proof
  assume t: "isToolResult (ms ! i)"
  from assms(3) have i: "i < length ms" "\<not> pinnedAt ms i" "\<And>j. j < i \<Longrightarrow> pinnedAt ms j"
    by (auto dest: firstDroppableUnit_Some)
  from legal_tool_head [OF assms(1) i(1) t] obtain j
    where j: "j < i" "hasCalls (ms ! j)" "i < unitEnd ms j" by auto
  have r: "mRole (ms ! j) = RoleAssistant" "mOrigin (ms ! j) \<noteq> MessageOriginInjection"
    using assms(2) j i by (auto simp: callsOnAssistant_def list_all_length)
  have "lastConversationalUserIndex ms \<noteq> Some j"
    using r by (auto simp: lastConversationalUserIndex_def conversationalUser_def dest: last_index_Some)
  with i(3) [OF j(1)] r have live: "isLiveToolExchange ms j" by (auto simp: pinnedAt_def Let_def)
  then obtain a where a: "last_index hasCalls ms = Some a" "a \<le> j"
    by (auto simp: isLiveToolExchange_def split: option.splits)
  have "j = a" using last_index_ge [OF a(1), of j] a(2) j i(1) by simp
  with live a j have "isLiveToolExchange ms i"
    by (auto simp: isLiveToolExchange_def split: option.splits)
  with i(2) show False by (simp add: pinnedAt_def Let_def)
qed

text \<open>A droppable unit is one message with its answers, between two legal transcripts.\<close>

lemma droppable_unit:
  assumes "legal ms" and "callsOnAssistant ms" and "firstDroppableUnit ms = Some i"
  obtains xs m rs ys where "ms = xs @ m # rs @ ys" and "length xs = i" and "legal xs" and "legal ys"
    and "\<not> isToolResult m" and "answers (mToolCalls m) rs" and "dropUnit ms i = xs @ ys"
proof -
  have i: "i < length ms" using assms(3) by (auto dest: firstDroppableUnit_Some)
  have nt: "\<not> isToolResult (ms ! i)" by (rule droppable_not_tool [OF assms])
  have l: "legal (take i ms)" "legal (drop i ms)" using legal_split [OF assms(1) i nt] by auto
  let ?t = "drop (Suc i) ms" and ?n = "length (mToolCalls (ms ! i))"
  have d: "drop i ms = ms ! i # ?t" using i by (simp add: Cons_nth_drop_Suc)
  have a: "answers (mToolCalls (ms ! i)) (take ?n ?t)" and ly: "legal (drop ?n ?t)"
    using l(2) d by simp_all
  have "unitEnd ms i = unitEnd (drop i ms) 0 + i" using unitEnd_shift [of 0 i ms] i by simp
  then have ue: "unitEnd ms i = i + Suc ?n" using legal_unitEnd l(2) d by simp
  show ?thesis
  proof (rule that)
    show "ms = take i ms @ ms ! i # take ?n ?t @ drop ?n ?t"
      using d by (metis append_take_drop_id)
    show "dropUnit ms i = take i ms @ drop ?n ?t"
      by (simp add: dropUnit_def ue add.commute)
  qed (use i l nt a ly in auto)
qed

lemma drop_keeps_legal:
  assumes "legal ms" and "callsOnAssistant ms" and "firstDroppableUnit ms = Some i"
  shows "legal (dropUnit ms i) \<and> callsOnAssistant (dropUnit ms i)"
proof -
  from assms obtain xs m rs ys where "ms = xs @ m # rs @ ys" "legal xs" "legal ys" "dropUnit ms i = xs @ ys"
    by (rule droppable_unit)
  with assms(2) show ?thesis by (simp add: legal_append)
qed

section \<open>What eviction keeps\<close>

text \<open>The newest user turn, as a list of at most one message.\<close>

definition newestUser :: "message list \<Rightarrow> message list" where
  "newestUser ms =
     (let us = filter conversationalUser ms in if us = [] then [] else [last us])"

text \<open>
  The exchange in flight: the newest message with calls and the results behind it, when no
  user turn came after it.
\<close>

fun inFlight :: "message list \<Rightarrow> message list" where
  "inFlight [] = []"
| "inFlight (m # ms) =
     (if list_ex hasCalls ms then inFlight ms
      else if hasCalls m \<and> \<not> list_ex conversationalUser ms then m # takeWhile isToolResult ms
      else [])"

definition leadingSystem :: "message list \<Rightarrow> message list" where
  "leadingSystem ms = take (systemFront ms) ms"

lemma last_index_append:
  "last_index P (xs @ ys) = (case last_index P ys of Some j \<Rightarrow> Some (length xs + j) | None \<Rightarrow> last_index P xs)"
  by (induction xs) (auto split: option.splits)

lemma answers_no_user: "answers calls rs \<Longrightarrow> r \<in> set rs \<Longrightarrow> \<not> conversationalUser r"
  using answers_tools by (fastforce simp: conversationalUser_def)

lemma newestUser_tail: "filter conversationalUser ys \<noteq> [] \<Longrightarrow> newestUser (xs @ ys) = newestUser ys"
  by (simp add: newestUser_def Let_def)

lemma inFlight_tail: "list_ex hasCalls ys \<Longrightarrow> inFlight (xs @ ys) = inFlight ys"
  by (induction xs) auto

lemma inFlight_none: "\<not> list_ex hasCalls xs \<Longrightarrow> inFlight xs = []"
  by (induction xs) auto

lemma inFlight_closed:
  "list_ex conversationalUser ys \<Longrightarrow> \<not> list_ex hasCalls ys \<Longrightarrow> inFlight (xs @ ys) = []"
  by (induction xs) (auto simp: inFlight_none)

lemma takeWhile_append_non: "zs = [] \<or> \<not> P (hd zs) \<Longrightarrow> takeWhile P (xs @ zs) = takeWhile P xs"
  by (induction xs) (cases zs, auto)

lemma inFlight_prefix:
  "\<not> list_ex conversationalUser zs \<Longrightarrow> \<not> list_ex hasCalls zs \<Longrightarrow> zs = [] \<or> \<not> isToolResult (hd zs) \<Longrightarrow>
   inFlight (xs @ zs) = inFlight xs"
  by (induction xs) (auto simp: inFlight_none takeWhile_append_non)

lemma droppable_not_newest:
  assumes "\<not> pinnedAt (xs @ m # rest) (length xs)" and "conversationalUser m"
  shows "list_ex conversationalUser rest"
proof (rule ccontr)
  assume "\<not> list_ex conversationalUser rest"
  then have "last_index conversationalUser rest = None" by (simp add: last_index_None list_ex_iff)
  then have "lastConversationalUserIndex (xs @ m # rest) = Some (length xs)"
    using assms(2) by (simp add: lastConversationalUserIndex_def last_index_append)
  with assms(1) show False by (simp add: pinnedAt_def Let_def)
qed

lemma droppable_not_live:
  assumes "\<not> pinnedAt (xs @ m # rest) (length xs)" and "hasCalls m" and "\<not> list_ex hasCalls rest"
    and "\<not> conversationalUser m"
  shows "list_ex conversationalUser rest"
proof (rule ccontr)
  let ?ms = "xs @ m # rest"
  assume "\<not> list_ex conversationalUser rest"
  then have u: "last_index conversationalUser rest = None" by (simp add: last_index_None list_ex_iff)
  have "last_index hasCalls rest = None" using assms(3) by (simp add: last_index_None list_ex_iff)
  then have a: "last_index hasCalls ?ms = Some (length xs)" using assms(2) by (simp add: last_index_append)
  have "lastConversationalUserIndex ?ms = last_index conversationalUser xs"
    using u assms(4) by (simp add: lastConversationalUserIndex_def last_index_append split: option.split)
  then have "isLiveToolExchange ?ms (length xs)"
    using a unitEnd_gt [of "length xs" ?ms]
    by (auto simp: isLiveToolExchange_def split: option.split dest: last_index_Some)
  with assms(1) show False by (simp add: pinnedAt_def Let_def)
qed

lemma list_ex_filter: "list_ex P xs \<longleftrightarrow> filter P xs \<noteq> []"
  by (induction xs) auto

lemma drop_keeps:
  assumes "legal ms" and "callsOnAssistant ms" and "firstDroppableUnit ms = Some i"
  shows "newestUser (dropUnit ms i) = newestUser ms" and "inFlight (dropUnit ms i) = inFlight ms"
    and "leadingSystem ms = take (systemFront ms) (dropUnit ms i)" and "subseq (dropUnit ms i) ms"
proof -
  from assms obtain xs m rs ys where s: "ms = xs @ m # rs @ ys" "length xs = i" "legal xs" "legal ys"
    "\<not> isToolResult m" "answers (mToolCalls m) rs" "dropUnit ms i = xs @ ys" by (rule droppable_unit)
  have np: "\<not> pinnedAt (xs @ m # rs @ ys) (length xs)"
    using assms(3) s by (auto dest: firstDroppableUnit_Some)
  have rsu: "\<not> list_ex conversationalUser rs" using answers_no_user [OF s(6)] by (auto simp: list_ex_iff)
  have rsc: "\<not> list_ex hasCalls rs"
    using answers_tools [OF s(6)] assms(2) s(1) by (fastforce simp: list_ex_iff callsOnAssistant_def list_all_iff)
  have mu: "conversationalUser m \<Longrightarrow> list_ex conversationalUser ys"
    using droppable_not_newest [OF np] rsu by simp
  have mc: "hasCalls m \<Longrightarrow> \<not> conversationalUser m"
    using assms(2) s(1) by (auto simp: conversationalUser_def)
  show "newestUser (dropUnit ms i) = newestUser ms"
  proof (cases "filter conversationalUser ys = []")
    case True
    then have "filter conversationalUser (m # rs) = []" using mu rsu by (auto simp: list_ex_filter)
    with True show ?thesis unfolding s(7) unfolding s(1) by (auto simp: newestUser_def split: if_splits)
  next
    case False
    then show ?thesis
      unfolding s(7) using newestUser_tail [OF False, of xs] newestUser_tail [OF False, of "xs @ m # rs"]
      by (simp add: s(1))
  qed
  show "inFlight (dropUnit ms i) = inFlight ms"
  proof (cases "list_ex hasCalls ys")
    case True
    then show ?thesis
      unfolding s(7) using inFlight_tail [OF True, of xs] inFlight_tail [OF True, of "xs @ m # rs"]
      by (simp add: s(1))
  next
    case noc: False
    show ?thesis
    proof (cases "list_ex conversationalUser ys")
      case True
      then show ?thesis
        unfolding s(7) using inFlight_closed [OF True noc, of xs] inFlight_closed [OF True noc, of "xs @ m # rs"]
        by (simp add: s(1))
    next
      case nou: False
      then have "\<not> hasCalls m" "\<not> conversationalUser m"
        using droppable_not_live [OF np] mc mu rsu rsc noc by auto
      moreover have "ys = [] \<or> \<not> isToolResult (hd ys)" by (rule legal_hd [OF s(4)])
      ultimately show ?thesis
        unfolding s(7) using inFlight_prefix [of ys xs] inFlight_prefix [of "m # rs @ ys" xs] noc nou rsu rsc s(5)
        by (simp add: s(1))
    qed
  qed
  show "leadingSystem ms = take (systemFront ms) (dropUnit ms i)"
  proof (cases "systemFront ms = 0")
    case False
    then have "pinnedAt ms 0" by (auto simp: systemFront_def pinnedAt_def split: if_splits)
    then have "xs \<noteq> []" using np s(1) by auto
    with False show ?thesis unfolding s(7) leadingSystem_def systemFront_def unfolding s(1)
      by (cases xs) (auto split: if_splits)
  qed (simp add: leadingSystem_def)
  show "subseq (dropUnit ms i) ms"
    unfolding s(7) using list_emb_append2 [of "(=)" ys ys "m # rs"] by (simp add: s(1) list_emb_append_mono)
qed

definition keepsEssentials :: "message list \<Rightarrow> message list \<Rightarrow> bool" where
  "keepsEssentials before after \<longleftrightarrow>
     legal after \<and> subseq after before
     \<and> newestUser after = newestUser before \<and> inFlight after = inFlight before
     \<and> leadingSystem before = take (systemFront before) after"

lemma systemFront_same:
  "leadingSystem before = take (systemFront before) after \<Longrightarrow> systemFront before \<le> systemFront after"
  by (cases before; cases after) (auto simp: leadingSystem_def systemFront_def split: if_splits)

lemma evicts_keeps:
  "evicts before after \<Longrightarrow> legal before \<Longrightarrow> callsOnAssistant before \<Longrightarrow>
   keepsEssentials before after \<and> callsOnAssistant after"
proof (induction rule: evicts.induct)
  case (keep ms)
  then show ?case by (simp add: keepsEssentials_def leadingSystem_def)
next
  case (evict ms i ms')
  note k = drop_keeps [OF evict.prems evict.hyps(1)]
  from drop_keeps_legal [OF evict.prems evict.hyps(1)] evict.IH
  have ih: "keepsEssentials (dropUnit ms i) ms'" "callsOnAssistant ms'" by auto
  have "systemFront ms \<le> systemFront (dropUnit ms i)" by (rule systemFront_same [OF k(3)])
  then have "take (systemFront ms) (take (systemFront (dropUnit ms i)) ms') = take (systemFront ms) ms'"
    by (simp add: min_absorb1)
  then have "leadingSystem ms = take (systemFront ms) ms'"
    using ih(1) k(3) by (simp add: keepsEssentials_def leadingSystem_def)
      (metis \<open>systemFront ms \<le> systemFront (dropUnit ms i)\<close> min.absorb1 take_take)
  with ih k show ?case by (auto simp: keepsEssentials_def intro: subseq_order.order_trans)
qed

text \<open>The event the handler starts from, with the counter it is given.\<close>

definition withCounter :: "'t counter option \<Rightarrow> 't tokenLimitEvent \<Rightarrow> 't tokenLimitEvent" where
  "withCounter c e = (case c of Some f \<Rightarrow> e\<lparr>evCounter := f\<rparr> | None \<Rightarrow> e)"

lemma withCounter_frame [simp]: "evMessages (withCounter c e) = evMessages e"
  by (simp add: withCounter_def split: option.split)

section \<open>Properties\<close>

text \<open>
  C4. Compaction never breaks a transcript: whatever counter it is given and wherever it
  stops (also when the counter fails half way), the messages it leaves are a legal
  subsequence of the transcript in which the leading system message, the newest user turn
  and the tool exchange in flight survive unchanged.
\<close>

theorem compaction_keeps_transcript:
  assumes "legal (evMessages e)" and "callsOnAssistant (evMessages e)"
  shows "keepsEssentials (evMessages e) (evMessages (fst (DropOldestUnits counter e)))"
proof -
  obtain e' x where r: "dropPasses (withCounter counter e) = (e', x)"
    by (cases "dropPasses (withCounter counter e)")
  then have "evicts (evMessages e) (evMessages e')" using dropPasses_spec [OF r] by simp
  with evicts_keeps assms r show ?thesis by (simp add: DropOldestUnits_def withCounter_def)
qed

definition longChat :: "message list" where
  "longChat = [emptyMessage\<lparr>mRole := RoleSystem\<rparr>, emptyMessage\<lparr>mRole := RoleUser, mOrigin := MessageOriginSeed\<rparr>]
     @ tl orphanSample @ [emptyMessage\<lparr>mRole := RoleUser, mOrigin := MessageOriginTurn\<rparr>]"

definition perMessage :: "nat counter" where
  "perMessage ms ts = Inr (int (length ms))"

definition longEvent :: "nat tokenLimitEvent" where
  "longEvent = \<lparr>evMessages = longChat, evTools = [], evEstimatedTokens = 0, evBudgetTokens = 2, evRound = 0,
     evCounter = perMessage\<rparr>"

theorem compaction_keeps_transcript_witness:
  "legal (evMessages longEvent) \<and> callsOnAssistant (evMessages longEvent)
   \<and> keepsEssentials (evMessages longEvent) (evMessages (fst (DropOldestUnits None longEvent)))"
proof -
  have "legal (evMessages longEvent)" and "callsOnAssistant (evMessages longEvent)" by code_simp+
  with compaction_keeps_transcript [of longEvent None] show ?thesis by blast
qed



text \<open>
  An exchange leaves whole: when the counter charges every unit something, a pass that
  evicted anything and met no error does not leave the transcript opening in the middle of
  an exchange whose question is gone.
\<close>

theorem compaction_drops_whole_exchanges:
  assumes "\<forall>ms u. evCounter e ms [] = Inr u \<longrightarrow> u > 0"
    and "dropUntilEstimatedToFit e = (e', dropped, None)" and "dropped > 0"
  shows "length (evMessages e') \<le> 1 \<or> \<not> startsMidExchange (evMessages e')"
proof -
  have "case dropLoop e est d of (e', d', x) \<Rightarrow>
     (\<forall>ms u. evCounter e ms [] = Inr u \<longrightarrow> u > 0) \<longrightarrow> x = None \<longrightarrow> d' > 0 \<longrightarrow>
     length (evMessages e') \<le> 1 \<or> \<not> startsMidExchange (evMessages e')" for est d
  proof (induction rule: dropLoop_induct)
    case (stop e est d)
    then show ?case by (auto simp: loopStops_def startsMidExchange_def Let_def split: if_splits)
  next
    case (last e est d i u)
    then show ?case by fastforce
  next
    case (step e est d i u r)
    then show ?case by (auto split: prod.splits)
  qed simp
  from this [of "evEstimatedTokens e" 0] assms show ?thesis by (simp add: dropUntilEstimatedToFit_def)
qed

theorem compaction_drops_whole_exchanges_witness:
  "\<exists>e' n. dropUntilEstimatedToFit (longEvent\<lparr>evEstimatedTokens := 5, evBudgetTokens := 4,
       evCounter := (\<lambda>ms ts. Inr 1)\<rparr>) = (e', n, None) \<and> n = 3
     \<and> (length (evMessages e') \<le> 1 \<or> \<not> startsMidExchange (evMessages e'))"
proof -
  let ?e = "longEvent\<lparr>evEstimatedTokens := 5, evBudgetTokens := 4, evCounter := (\<lambda>ms ts. Inr 1)\<rparr>"
  obtain e' n x where r: "dropUntilEstimatedToFit ?e = (e', n, x)" by (cases "dropUntilEstimatedToFit ?e")
  have "(case dropUntilEstimatedToFit ?e of (e', n, x) \<Rightarrow> x = None \<and> n = 3)" by code_simp
  with r have x: "x = None" "n = 3" by simp_all
  with r compaction_drops_whole_exchanges [of ?e e' n] show ?thesis by auto
qed

end
