(* ===== verification/Tokens.thy ===== *)
theory Tokens
  imports Tools Limit
begin

text \<open>
  Counting tokens (\<open>tokens.go\<close>) and bounding tool results by tokens (the truncation
  functions of \<open>engine.go\<close>). The tokenizer is a library: \<open>encode\<close> returns the token ids of
  a text or an error. Counts are sums of lengths of slices that exist in memory, so they
  stay far below \<open>2 ^ 63\<close> and are plain integers.
\<close>

type_synonym encoder = "string \<Rightarrow> err + nat list"

definition countText :: "encoder \<Rightarrow> string \<Rightarrow> err + int" where
  "countText encode t =
     (case encode t of Inl e \<Rightarrow> Inl (Wrap e ''count tokens'') | Inr ids \<Rightarrow> Inr (int (length ids)))"

definition perMessageTokenOverhead :: int where "perMessageTokenOverhead = 4"
definition perToolTokenOverhead :: int where "perToolTokenOverhead = 8"

definition messageParts :: "message \<Rightarrow> string list" where
  "messageParts m =
     [mRole m, messageText m, mToolCallID m, mReasoning m]
     @ (if HasProviderReasoning (mProviderReasoning m) then [mProviderReasoning m] else [])
     @ concat (map (\<lambda>c. [tcName c, tcArguments c]) (mToolCalls m))"

definition toolParts :: "'a toolDef_scheme \<Rightarrow> string list" where
  "toolParts t = [tlName t, tlDescription t, tlArgumentsSchema t]"

fun countParts :: "encoder \<Rightarrow> int \<Rightarrow> string list \<Rightarrow> err + int" where
  "countParts encode tot [] = Inr tot"
| "countParts encode tot (p # ps) =
     (case countText encode p of Inl e \<Rightarrow> Inl e | Inr n \<Rightarrow> countParts encode (tot + n) ps)"

fun countAll :: "encoder \<Rightarrow> int \<Rightarrow> int \<Rightarrow> string list list \<Rightarrow> err + int" where
  "countAll encode overhead tot [] = Inr tot"
| "countAll encode overhead tot (ps # pss) =
     (case countParts encode tot ps of
        Inl e \<Rightarrow> Inl e | Inr n \<Rightarrow> countAll encode overhead (n + overhead) pss)"

definition builtInCount :: "encoder \<Rightarrow> message list \<Rightarrow> 'a toolDef_scheme list \<Rightarrow> err + int" where
  "builtInCount encode ms tools =
     (case countAll encode perMessageTokenOverhead 0 (map messageParts ms) of
        Inl e \<Rightarrow> Inl e
      | Inr tot \<Rightarrow> countAll encode perToolTokenOverhead tot (map toolParts tools))"

section \<open>The interface: a counter whose cost is the sum of its parts\<close>

definition sum_counts :: "err + int \<Rightarrow> err + int \<Rightarrow> err + int" where
  "sum_counts a b =
     (case a of Inl e \<Rightarrow> Inl e | Inr m \<Rightarrow> (case b of Inl e \<Rightarrow> Inl e | Inr n \<Rightarrow> Inr (m + n)))"

lemma sum_counts_simps [simp]: "sum_counts (Inl e) b = Inl e" "sum_counts (Inr m) (Inl e) = Inl e"
  "sum_counts (Inr m) (Inr n) = Inr (m + n)"
  by (simp_all add: sum_counts_def)

lemma sum_counts_Inr:
  "sum_counts a b = Inr n \<Longrightarrow> \<exists>x y. a = Inr x \<and> b = Inr y \<and> n = x + y"
  by (cases a; cases b) auto

lemma sum_counts_assoc: "sum_counts (sum_counts a b) c = sum_counts a (sum_counts b c)"
  by (cases a; cases b; cases c) auto

locale additive_counter =
  fixes count :: "'t counter"
  assumes additive: "count (xs @ ys) tools = sum_counts (count xs []) (count ys tools)"
    and positive: "xs \<noteq> [] \<Longrightarrow> count xs [] = Inr n \<Longrightarrow> n > 0"
    and not_negative: "count xs tools = Inr n \<Longrightarrow> n \<ge> 0"
begin

lemma without_unit:
  assumes "count (xs @ us @ ys) tools = Inr n"
  shows "\<exists>u. count us [] = Inr u \<and> count (xs @ ys) tools = Inr (n - u) \<and> u \<le> n"
proof -
  from assms have e: "sum_counts (count xs []) (sum_counts (count us []) (count ys tools)) = Inr n"
    using additive [of xs "us @ ys"] additive [of us ys] by simp
  then obtain a b where a: "count xs [] = Inr a" "sum_counts (count us []) (count ys tools) = Inr b" "n = a + b"
    using sum_counts_Inr by blast
  from sum_counts_Inr [OF a(2)] obtain u c where u: "count us [] = Inr u" "count ys tools = Inr c" "b = u + c"
    by blast
  have "0 \<le> a" "0 \<le> c" using not_negative a(1) u(2) by blast+
  with a u show ?thesis by (auto simp: additive)
qed

lemma count_dropUnit:
  assumes "count ms tools = Inr n"
  shows "\<exists>u. count (take (unitEnd ms i - i) (drop i ms)) [] = Inr u
    \<and> count (dropUnit ms i) tools = Inr (n - u) \<and> u \<le> n"
proof -
  have "take i ms @ take (unitEnd ms i - i) (drop i ms) @ drop (unitEnd ms i) ms = ms"
    using unitEnd_gt [of i ms] by (metis append_take_drop_id drop_drop le_add_diff_inverse2 less_imp_le)
  with assms have "count (take i ms @ take (unitEnd ms i - i) (drop i ms) @ drop (unitEnd ms i) ms) tools = Inr n"
    by (simp only:)
  from without_unit [OF this] show ?thesis by (simp only: dropUnit_def)
qed

text \<open>The running estimate stays the exact count, so one pass decides.\<close>

lemma estimate_exact:
  "case dropLoop e est d of (e', d', x) \<Rightarrow>
     evCounter e = count \<longrightarrow> count (evMessages e) (evTools e) = Inr est \<longrightarrow> est < 2 ^ 63 \<longrightarrow>
     x = None \<and> (length (evMessages e') \<le> 1 \<or> fitsBudget e' \<or> firstDroppableUnit (evMessages e') = None)"
proof (induction rule: dropLoop_induct)
  case (stop e est d)
  then show ?case by (auto simp: loopStops_def fitsBudget_def)
next
  case (fail e est d i y)
  then show ?case using count_dropUnit [of "evMessages e" "evTools e" est i] by auto
next
  case (last e est d i u)
  have "i < length (evMessages e)" using last by (auto dest: firstDroppableUnit_Some)
  then have "take (unitEnd (evMessages e) i - i) (drop i (evMessages e)) \<noteq> []"
    using unitEnd_gt [of i "evMessages e"] by auto
  from positive [OF this, of u] last(3,4) show ?case by auto
next
  case (step e est d i u r)
  let ?ms = "evMessages e"
  show ?case
  proof (cases "evCounter e = count \<and> count ?ms (evTools e) = Inr est \<and> est < 2 ^ 63")
    case True
    with count_dropUnit [of ?ms "evTools e" est i] step(3)
    have u: "count (dropUnit ?ms i) (evTools e) = Inr (est - u)" "u \<le> est" by auto
    then have "sub64 est u = est - u" using step(4) True by (intro sub64_exact) (simp add: int64_def)
    with step u True show ?thesis by (auto split: prod.splits)
  qed (auto split: prod.splits)
qed

end

section \<open>The built-in counter is additive\<close>

lemma countText_nonneg: "countText encode t = Inr n \<Longrightarrow> n \<ge> 0"
  by (auto simp: countText_def split: sum.splits)

lemma countParts_shift:
  "countParts encode tot ps = sum_counts (Inr tot) (countParts encode 0 ps)"
proof (induction ps arbitrary: tot)
  case (Cons p ps)
  show ?case
  proof (cases "countText encode p")
    case (Inr n)
    then show ?thesis using Cons [of "tot + n"] Cons [of n] by (cases "countParts encode 0 ps") simp_all
  qed simp
qed simp

lemma countParts_nonneg: "countParts encode 0 ps = Inr n \<Longrightarrow> n \<ge> 0"
proof (induction ps arbitrary: n)
  case (Cons p ps)
  then obtain k where k: "countText encode p = Inr k" by (auto split: sum.splits)
  with Cons.prems obtain j where "countParts encode 0 ps = Inr j" "n = k + j"
    using countParts_shift [of encode k ps] by (cases "countParts encode 0 ps") auto
  with Cons.IH countText_nonneg [OF k] show ?case by fastforce
qed simp

lemma countAll_shift:
  "countAll encode o' tot pss = sum_counts (Inr tot) (countAll encode o' 0 pss)"
proof (induction pss arbitrary: tot)
  case (Cons ps pss)
  show ?case
  proof (cases "countParts encode 0 ps")
    case (Inr n)
    then show ?thesis
      using Cons [of "tot + n + o'"] Cons [of "n + o'"] countParts_shift [of encode tot ps]
      by (cases "countAll encode o' 0 pss") simp_all
  qed (simp add: countParts_shift [of encode tot ps])
qed simp

lemma countAll_append:
  "countAll encode o' 0 (xs @ ys) = sum_counts (countAll encode o' 0 xs) (countAll encode o' 0 ys)"
proof (induction xs)
  case Nil
  then show ?case by (cases "countAll encode o' 0 ys") simp_all
next
  case (Cons ps xs)
  show ?case
  proof (cases "countParts encode 0 ps")
    case (Inr n)
    then show ?thesis
      using countAll_shift [of encode o' "n + o'" "xs @ ys"] countAll_shift [of encode o' "n + o'" xs] Cons
      by (simp add: sum_counts_assoc)
  qed simp
qed

lemma countAll_bound: "countAll encode o' 0 pss = Inr n \<Longrightarrow> o' \<ge> 0 \<Longrightarrow> n \<ge> o' * int (length pss)"
proof (induction pss arbitrary: n)
  case (Cons ps pss)
  then obtain k where k: "countParts encode 0 ps = Inr k" by (auto split: sum.splits)
  with Cons.prems obtain j where j: "countAll encode o' 0 pss = Inr j" "n = k + o' + j"
    using countAll_shift [of encode o' "k + o'" pss] by (cases "countAll encode o' 0 pss") auto
  have "o' * int (length pss) \<le> j" by (rule Cons.IH [OF j(1) Cons.prems(2)])
  with j countParts_nonneg [OF k] show ?case by (simp add: algebra_simps)
qed simp

lemma builtInCount_sum:
  "builtInCount encode ms tools =
     sum_counts (countAll encode perMessageTokenOverhead 0 (map messageParts ms))
       (countAll encode perToolTokenOverhead 0 (map toolParts tools))"
proof (cases "countAll encode perMessageTokenOverhead 0 (map messageParts ms)")
  case (Inr n)
  then show ?thesis
    using countAll_shift [of encode perToolTokenOverhead n "map toolParts tools"]
    by (simp add: builtInCount_def)
qed (simp add: builtInCount_def)

lemma sum_counts_zero [simp]: "sum_counts a (Inr 0) = a"
  by (cases a) simp_all

interpretation builtin: additive_counter "builtInCount encode" for encode
proof (unfold_locales, goal_cases)
  case (1 xs ys tools)
  then show ?case by (simp add: builtInCount_sum countAll_append sum_counts_assoc)
next
  case (2 xs n)
  then have "n \<ge> perMessageTokenOverhead * int (length xs)"
    using countAll_bound [of encode perMessageTokenOverhead "map messageParts xs" n]
    by (simp add: builtInCount_sum perMessageTokenOverhead_def)
  moreover have "int (length xs) \<ge> 1" using 2(1) by (cases xs) simp_all
  ultimately show ?case unfolding perMessageTokenOverhead_def by linarith
next
  case (3 xs tools n)
  then obtain a b where "countAll encode perMessageTokenOverhead 0 (map messageParts xs) = Inr a"
    "countAll encode perToolTokenOverhead 0 (map toolParts tools) = Inr b" "n = a + b"
    using sum_counts_Inr by (metis builtInCount_sum)
  moreover from this have "a \<ge> 0" "b \<ge> 0"
    using countAll_bound [of encode perMessageTokenOverhead _ a] countAll_bound [of encode perToolTokenOverhead _ b]
    by (fastforce simp: perMessageTokenOverhead_def perToolTokenOverhead_def)+
  ultimately show ?case by simp
qed

section \<open>Properties\<close>

text \<open>
  With the built-in counter the running estimate is exact: starting from an event whose
  estimate is the count of its transcript, one pass of dropUntilEstimatedToFit meets no
  error and already ends with a transcript that fits the budget by a full recount, or with
  nothing left to drop. The repeated authoritative count only matters for other counters.
\<close>

theorem builtin_estimate_exact:
  assumes "evCounter e = builtInCount encode"
    and "builtInCount encode (evMessages e) (evTools e) = Inr (evEstimatedTokens e)"
    and "evEstimatedTokens e < 2 ^ 63"
  shows "\<exists>e' n. dropUntilEstimatedToFit e = (e', n, None)
    \<and> (length (evMessages e') \<le> 1 \<or> fitsBudget e' \<or> firstDroppableUnit (evMessages e') = None)"
  using builtin.estimate_exact [where e = e and est = "evEstimatedTokens e" and encode = encode and d = 0] assms
  by (auto simp: dropUntilEstimatedToFit_def split: prod.splits)

definition oneToken :: encoder where
  "oneToken t = Inr [0]"

definition countedEvent :: "toolDef tokenLimitEvent" where
  "countedEvent = \<lparr>evMessages = longChat, evTools = [], evEstimatedTokens = 42, evBudgetTokens = 20, evRound = 0,
     evCounter = builtInCount oneToken\<rparr>"

theorem builtin_estimate_exact_witness:
  "builtInCount oneToken (evMessages countedEvent) (evTools countedEvent) = Inr 42
   \<and> (\<exists>e' n. dropUntilEstimatedToFit countedEvent = (e', n, None)
        \<and> (length (evMessages e') \<le> 1 \<or> fitsBudget e' \<or> firstDroppableUnit (evMessages e') = None))"
proof -
  have "builtInCount oneToken (evMessages countedEvent) (evTools countedEvent) = Inr 42" by code_simp
  then show ?thesis using builtin_estimate_exact [of countedEvent oneToken]
    by (simp add: countedEvent_def)
qed

end
