(* ===== verification/Driver.thy ===== *)
theory Driver
  imports Tokens
begin

text \<open>
  The driver interface (\<open>driver.go\<close>). A driver's call runs on the world and hands deltas to
  a callback whose error it sees; the call is an interaction tree: it emits a delta and
  continues with the callback's answer, or it is done. Trees are inductive, so a call always
  ends: a provider that never answers is bounded by the caller's context, outside the model.
\<close>

record 'w driverRequest =
  drModel :: model
  drMessages :: "message list"
  drTools :: "'w tool list"
  drParams :: generationParams

datatype 'w drun =
    Done 'w usage "err option"
  | Emit 'w delta "'w \<Rightarrow> err option \<Rightarrow> 'w drun"

text \<open>A counter, and one that also binds to a model (\<open>ModelTokenCounter\<close>).\<close>

datatype 'w tokenCounter = PlainCounter "'w tool counter" | ModelCounter "'w tool counter" "model \<Rightarrow> 'w tool counter"

fun counterCount :: "'w tokenCounter \<Rightarrow> 'w tool counter" where
  "counterCount (PlainCounter c) = c"
| "counterCount (ModelCounter c _) = c"

text \<open>
  The process-wide default counter is a variable behind a lock: setting it to nil puts the
  built-in estimator back. Reading it is what a counter in an environment record stands for.
\<close>

definition SetDefaultTokenCounter :: "encoder \<Rightarrow> 'w tokenCounter option \<Rightarrow> 'w tokenCounter" where
  "SetDefaultTokenCounter encode counter =
     (case counter of None \<Rightarrow> PlainCounter (builtInCount encode) | Some c \<Rightarrow> c)"

record 'w driver =
  dvStream :: "'w driverRequest \<Rightarrow> 'w \<Rightarrow> 'w drun"
  dvComplete :: "'w driverRequest \<Rightarrow> 'w \<Rightarrow> 'w drun"
  dvListModels :: "'w \<Rightarrow> 'w \<times> (err + string list)"
  dvCapabilities :: "model \<Rightarrow> capabilities"
  dvTokenCounter :: "'w tokenCounter option"

type_synonym ('w, 'a) callback = "'a \<Rightarrow> 'w \<Rightarrow> 'w \<times> err option"

text \<open>Running a call with a consumer that keeps a state of its own.\<close>

primrec runDriver ::
  "('s \<Rightarrow> delta \<Rightarrow> 'w \<Rightarrow> 's \<times> 'w \<times> err option) \<Rightarrow> 's \<Rightarrow> 'w drun \<Rightarrow> 's \<times> 'w \<times> usage \<times> err option" where
  "runDriver f s (Done w u e) = (s, w, u, e)"
| "runDriver f s (Emit w d k) = (let (s', w', e) = f s d w in runDriver f s' (k w' e))"

definition emits :: "'w drun \<Rightarrow> bool" where
  "emits r = (case r of Done _ _ _ \<Rightarrow> False | Emit _ _ _ \<Rightarrow> True)"

end
