(* ===== verification/Prompt.thy ===== *)
theory Prompt
  imports Messages
begin

text \<open>
  The immutable prompt (\<open>prompt.go\<close>): a system message with appended fragments and an
  ordered list of messages, and every builder method. \<open>built_prompt\<close> is the set of
  prompts reachable through the builder API.
\<close>

record prompt =
  prSystem :: string
  prSystemAppends :: "string list"
  prMessages :: "message list"

definition systemSectionSeparator :: string where
  "systemSectionSeparator = [CHR 0x0A, CHR 0x0A]"

definition NewPrompt :: prompt where
  "NewPrompt = \<lparr>prSystem = [], prSystemAppends = [], prMessages = []\<rparr>"

definition clonePrompt :: "prompt \<Rightarrow> prompt" where
  "clonePrompt p = \<lparr>prSystem = prSystem p, prSystemAppends = prSystemAppends p,
     prMessages = cloneMessages (prMessages p)\<rparr>"

definition WithSystem :: "prompt \<Rightarrow> string \<Rightarrow> prompt" where
  "WithSystem p msg = (clonePrompt p)\<lparr>prSystem := msg\<rparr>"

definition AppendSystem :: "prompt \<Rightarrow> string \<Rightarrow> prompt" where
  "AppendSystem p msg = (clonePrompt p)\<lparr>prSystemAppends := prSystemAppends (clonePrompt p) @ [msg]\<rparr>"

definition ResetSystemAppends :: "prompt \<Rightarrow> prompt" where
  "ResetSystemAppends p = (clonePrompt p)\<lparr>prSystemAppends := []\<rparr>"

fun historyLoop :: "message list \<Rightarrow> message list \<Rightarrow> message list" where
  "historyLoop acc [] = acc"
| "historyLoop acc (m # ms) =
     (if mOrigin m = MessageOriginInjection then historyLoop acc ms
      else historyLoop (acc @ [cloneMessage (m\<lparr>mOrigin := MessageOriginSeed\<rparr>)]) ms)"

definition WithHistory :: "prompt \<Rightarrow> message list \<Rightarrow> prompt" where
  "WithHistory p ms = (clonePrompt p)\<lparr>prMessages := historyLoop (prMessages (clonePrompt p)) ms\<rparr>"

text \<open>The sequence form consumes the yielded messages in order.\<close>

definition WithHistoryFrom :: "prompt \<Rightarrow> message list \<Rightarrow> prompt" where
  "WithHistoryFrom p yielded =
     (clonePrompt p)\<lparr>prMessages := historyLoop (prMessages (clonePrompt p)) yielded\<rparr>"

fun addLoop :: "message list \<Rightarrow> message list \<Rightarrow> message list" where
  "addLoop acc [] = acc"
| "addLoop acc (m # ms) =
     (if mOrigin m = MessageOriginInjection then addLoop acc ms
      else let m' = (if mOrigin m = MessageOriginUnknown then m\<lparr>mOrigin := MessageOriginTurn\<rparr> else m)
           in addLoop (acc @ [cloneMessage m']) ms)"

definition promptAdd :: "prompt \<Rightarrow> message list \<Rightarrow> prompt" where
  "promptAdd p ms = (clonePrompt p)\<lparr>prMessages := addLoop (prMessages (clonePrompt p)) ms\<rparr>"

definition promptUser :: "prompt \<Rightarrow> part list \<Rightarrow> prompt" where
  "promptUser p parts = promptAdd p [emptyMessage\<lparr>mRole := RoleUser, mContent := parts\<rparr>]"

definition UserText :: "prompt \<Rightarrow> string \<Rightarrow> prompt" where
  "UserText p t = promptUser p [TextOf t]"

definition promptAssistant :: "prompt \<Rightarrow> part list \<Rightarrow> prompt" where
  "promptAssistant p parts = promptAdd p [emptyMessage\<lparr>mRole := RoleAssistant, mContent := parts\<rparr>]"

definition AssistantText :: "prompt \<Rightarrow> string \<Rightarrow> prompt" where
  "AssistantText p t = promptAssistant p [TextOf t]"

definition promptToolResult :: "prompt \<Rightarrow> string \<Rightarrow> string \<Rightarrow> bool \<Rightarrow> prompt" where
  "promptToolResult p callID result isError =
     promptAdd p [emptyMessage\<lparr>mRole := RoleTool, mContent := Text result, mToolCallID := callID,
       mToolResultIsError := isError\<rparr>]"

definition nonEmptyStrings :: "string list \<Rightarrow> string list" where
  "nonEmptyStrings values = filter (\<lambda>v. trimSpace v \<noteq> []) values"

definition SystemMessage :: "prompt \<Rightarrow> string" where
  "SystemMessage p = join systemSectionSeparator (nonEmptyStrings (prSystem p # prSystemAppends p))"

definition promptMessages :: "prompt \<Rightarrow> message list" where
  "promptMessages p =
     (let system = SystemMessage p in
      (if system \<noteq> [] then [emptyMessage\<lparr>mRole := RoleSystem, mContent := Text system,
          mOrigin := MessageOriginSeed\<rparr>] else [])
      @ cloneMessages (prMessages p))"

definition promptLen :: "prompt \<Rightarrow> nat" where
  "promptLen p = (if SystemMessage p = [] then length (prMessages p) else length (prMessages p) + 1)"

inductive built_prompt :: "prompt \<Rightarrow> bool" where
  built_new: "built_prompt NewPrompt"
| built_system: "built_prompt p \<Longrightarrow> built_prompt (WithSystem p s)"
| built_append: "built_prompt p \<Longrightarrow> built_prompt (AppendSystem p s)"
| built_reset: "built_prompt p \<Longrightarrow> built_prompt (ResetSystemAppends p)"
| built_history: "built_prompt p \<Longrightarrow> built_prompt (WithHistory p ms)"
| built_history_from: "built_prompt p \<Longrightarrow> built_prompt (WithHistoryFrom p ms)"
| built_add: "built_prompt p \<Longrightarrow> built_prompt (promptAdd p ms)"
| built_user: "built_prompt p \<Longrightarrow> built_prompt (promptUser p parts)"
| built_assistant: "built_prompt p \<Longrightarrow> built_prompt (promptAssistant p parts)"
| built_tool: "built_prompt p \<Longrightarrow> built_prompt (promptToolResult p cid r e)"

section \<open>Lemmas\<close>

text \<open>A stored message is owned by this run or seeded, and normalised by \<open>clone\<close>.\<close>

definition stored_message :: "message \<Rightarrow> bool" where
  "stored_message m \<longleftrightarrow> mOrigin m \<noteq> MessageOriginInjection \<and> mOrigin m \<noteq> MessageOriginUnknown
     \<and> cloneMessage m = m"

lemma historyLoop_append: "historyLoop acc ms = acc @ historyLoop [] ms"
proof (induction ms arbitrary: acc)
  case (Cons m ms)
  have "historyLoop (acc @ [x]) ms = acc @ historyLoop [x] ms" for x
    using Cons.IH [of "acc @ [x]"] Cons.IH [of "[x]"] by simp
  then show ?case using Cons.IH [of acc] by simp
qed simp

lemma addLoop_append: "addLoop acc ms = acc @ addLoop [] ms"
proof (induction ms arbitrary: acc)
  case (Cons m ms)
  have "addLoop (acc @ [x]) ms = acc @ addLoop [x] ms" for x
    using Cons.IH [of "acc @ [x]"] Cons.IH [of "[x]"] by simp
  then show ?case using Cons.IH [of acc] by (simp add: Let_def)
qed simp

lemma stored_origin:
  "stored_message m \<Longrightarrow> mOrigin m \<noteq> MessageOriginInjection \<and> mOrigin m \<noteq> MessageOriginUnknown"
  by (simp add: stored_message_def)

lemma stored_seed: "stored_message (cloneMessage (m\<lparr>mOrigin := MessageOriginSeed\<rparr>))"
  by (simp add: stored_message_def)

lemma stored_add:
  "mOrigin m \<noteq> MessageOriginInjection \<Longrightarrow>
   stored_message (cloneMessage (if mOrigin m = MessageOriginUnknown then m\<lparr>mOrigin := MessageOriginTurn\<rparr> else m))"
  by (simp add: stored_message_def)

lemma historyLoop_stored:
  "(\<forall>m \<in> set acc. stored_message m) \<Longrightarrow> \<forall>m \<in> set (historyLoop acc ms). stored_message m"
  by (induction acc ms rule: historyLoop.induct) (auto simp: stored_seed)

lemma addLoop_stored:
  "(\<forall>m \<in> set acc. stored_message m) \<Longrightarrow> \<forall>m \<in> set (addLoop acc ms). stored_message m"
proof (induction acc ms rule: addLoop.induct)
  case (2 acc m ms)
  then show ?case using stored_add [of m] by (auto simp: Let_def split: if_splits)
qed simp

lemma cloneMessages_stored [simp]:
  "(\<forall>m \<in> set ms. stored_message m) \<Longrightarrow> cloneMessages ms = ms"
  by (simp add: cloneMessages_def stored_message_def map_idI)

lemma promptAdd_stored:
  "(\<forall>m \<in> set (prMessages p). stored_message m) \<Longrightarrow> \<forall>m \<in> set (prMessages (promptAdd p ms)). stored_message m"
  by (simp add: promptAdd_def clonePrompt_def addLoop_stored)

lemma built_prompt_stored: "built_prompt p \<Longrightarrow> \<forall>m \<in> set (prMessages p). stored_message m"
proof (induction rule: built_prompt.induct)
  case (built_user p parts)
  then show ?case by (simp add: promptUser_def promptAdd_stored)
next
  case (built_assistant p parts)
  then show ?case by (simp add: promptAssistant_def promptAdd_stored)
next
  case (built_tool p cid r e)
  then show ?case by (simp add: promptToolResult_def promptAdd_stored)
next
  case (built_add p ms)
  then show ?case by (simp add: promptAdd_stored)
qed (simp_all add: NewPrompt_def WithSystem_def AppendSystem_def ResetSystemAppends_def
    WithHistory_def WithHistoryFrom_def clonePrompt_def historyLoop_stored)

lemma WithHistory_messages:
  "prMessages (WithHistory p ms) = cloneMessages (prMessages p)
     @ map (\<lambda>m. cloneMessage (m\<lparr>mOrigin := MessageOriginSeed\<rparr>))
         (filter (\<lambda>m. mOrigin m \<noteq> MessageOriginInjection) ms)"
proof -
  have "historyLoop [] ms = map (\<lambda>m. cloneMessage (m\<lparr>mOrigin := MessageOriginSeed\<rparr>))
      (filter (\<lambda>m. mOrigin m \<noteq> MessageOriginInjection) ms)"
    by (induction ms) (simp_all add: historyLoop_append [of "[_]"])
  then show ?thesis
    by (simp add: WithHistory_def clonePrompt_def historyLoop_append [of "cloneMessages _"])
qed

lemma promptLen_messages: "promptLen p = length (promptMessages p)"
  by (simp add: promptLen_def promptMessages_def Let_def)

definition systemTurn :: "prompt \<Rightarrow> message list" where
  "systemTurn p = (if SystemMessage p = [] then [] else
     [emptyMessage\<lparr>mRole := RoleSystem, mContent := Text (SystemMessage p), mOrigin := MessageOriginSeed\<rparr>])"

lemma systemTurn_origin: "m \<in> set (systemTurn p) \<Longrightarrow> mOrigin m = MessageOriginSeed \<and> mRole m = RoleSystem"
  by (auto simp: systemTurn_def split: if_splits)

lemma promptMessages_split: "promptMessages p = systemTurn p @ cloneMessages (prMessages p)"
  by (simp add: promptMessages_def systemTurn_def Let_def)

section \<open>Properties\<close>

text \<open>
  Whatever sequence of builder calls made it, a prompt's transcript starts with the
  assembled system message when there is one, continues with exactly the stored messages,
  carries no injection of an earlier run and no message without an origin, and Len
  reports its length.
\<close>

theorem prompt_transcript:
  assumes "built_prompt p"
  shows "promptLen p = length (promptMessages p)
     \<and> (\<forall>m \<in> set (promptMessages p). mOrigin m \<noteq> MessageOriginInjection \<and> mOrigin m \<noteq> MessageOriginUnknown)
     \<and> promptMessages p = systemTurn p @ prMessages p"
proof -
  have st: "\<forall>m \<in> set (prMessages p). stored_message m"
    using assms by (rule built_prompt_stored)
  then have split: "promptMessages p = systemTurn p @ prMessages p"
    by (simp add: promptMessages_split)
  have "mOrigin m \<noteq> MessageOriginInjection \<and> mOrigin m \<noteq> MessageOriginUnknown"
    if "m \<in> set (promptMessages p)" for m
    using that st stored_origin [of m] systemTurn_origin [of m p] by (auto simp: split)
  with promptLen_messages [of p] split show ?thesis by blast
qed

theorem prompt_transcript_witness:
  "built_prompt (UserText (AppendSystem (WithSystem NewPrompt ''base'') ''rule'') ''hi'')
   \<and> promptLen (UserText (AppendSystem (WithSystem NewPrompt ''base'') ''rule'') ''hi'') = 2"
proof -
  let ?p = "UserText (AppendSystem (WithSystem NewPrompt ''base'') ''rule'') ''hi''"
  have b: "built_prompt ?p"
    unfolding UserText_def by (intro built_prompt.intros)
  have "length (promptMessages ?p) = 2" by code_simp
  then show ?thesis using b prompt_transcript [OF b] by simp
qed

end
