(* ===== verification/UserQueue.thy ===== *)
theory UserQueue
  imports Messages
begin

text \<open>
  The bounded queue of user turns (\<open>user_message_queue.go\<close>). Each method takes the
  queue's mutex for its whole body, so concurrent producers and the draining run
  interleave whole operations: an execution is a sequence of operations.
\<close>

record userMessageQueue =
  qCapacity :: int
  qMessages :: "message list"

definition NewUserMessageQueue :: "int \<Rightarrow> err + userMessageQueue" where
  "NewUserMessageQueue capacity =
     (if capacity \<le> 0 then
        Inl (Wrapf (Sentinel ErrUserMessageQueueCapacity) ''capacity is %d'' [ArgInt capacity])
      else Inr \<lparr>qCapacity = capacity, qMessages = []\<rparr>)"

definition messageHasProtocolFields :: "message \<Rightarrow> bool" where
  "messageHasProtocolFields m \<longleftrightarrow>
     length (mToolCalls m) > 0 \<or> mToolCallID m \<noteq> [] \<or> mToolResultIsError m
     \<or> mReasoning m \<noteq> [] \<or> HasProviderReasoning (mProviderReasoning m) \<or> mInjection m \<noteq> None"

definition validateQueuedUserMessage :: "partType list \<Rightarrow> message \<Rightarrow> err option" where
  "validateQueuedUserMessage order m =
     (if mRole m \<noteq> RoleUser then
        Some (Wrapf (Sentinel ErrQueuedUserMessageInvalid) ''role %q is not user'' [ArgStr (mRole m)])
      else if messageHasProtocolFields m then
        Some (Wrap (Sentinel ErrQueuedUserMessageInvalid)
          ''message carries assistant, tool, or injection fields'')
      else case validateContent order (mContent m) of
          Some e \<Rightarrow> Some (Wrap e ''validate queued user message content'')
        | None \<Rightarrow> None)"

definition Enqueue :: "partType list \<Rightarrow> userMessageQueue \<Rightarrow> message \<Rightarrow> userMessageQueue \<times> err option" where
  "Enqueue order q m =
     (case validateQueuedUserMessage order m of
        Some e \<Rightarrow> (q, Some e)
      | None \<Rightarrow>
          if int (length (qMessages q)) \<ge> qCapacity q then
            (q, Some (Wrap (Sentinel ErrUserMessageQueueFull) ''enqueue user message''))
          else (q\<lparr>qMessages := qMessages q @ [cloneMessage (m\<lparr>mOrigin := MessageOriginTurn\<rparr>)]\<rparr>, None))"

definition EnqueueText :: "partType list \<Rightarrow> userMessageQueue \<Rightarrow> string \<Rightarrow> userMessageQueue \<times> err option" where
  "EnqueueText order q t = Enqueue order q (emptyMessage\<lparr>mRole := RoleUser, mContent := Text t\<rparr>)"

definition queueLen :: "userMessageQueue \<Rightarrow> nat" where
  "queueLen q = length (qMessages q)"

definition drain :: "userMessageQueue \<Rightarrow> userMessageQueue \<times> message list" where
  "drain q = (q\<lparr>qMessages := []\<rparr>, qMessages q)"

section \<open>The interface: a bounded first-in first-out queue\<close>

datatype 'm queue_op = Put 'm | Take_all

locale bounded_queue =
  fixes put :: "'q \<Rightarrow> 'm \<Rightarrow> 'q \<times> 'e option"
    and take_all :: "'q \<Rightarrow> 'q \<times> 'm list"
    and items :: "'q \<Rightarrow> 'm list"
    and bound :: "'q \<Rightarrow> nat"
    and stored :: "'m \<Rightarrow> 'm"
  assumes put_ok: "put q m = (q', None) \<Longrightarrow> items q' = items q @ [stored m] \<and> length (items q) < bound q"
    and put_err: "put q m = (q', Some e) \<Longrightarrow> items q' = items q"
    and put_bound: "bound (fst (put q m)) = bound q"
    and take_all_items: "items (fst (take_all q)) = []" "snd (take_all q) = items q"
    and take_all_bound: "bound (fst (take_all q)) = bound q"
begin

text \<open>One execution: what was accepted, in order, and what was handed out, in order.\<close>

fun run_ops :: "'q \<Rightarrow> 'm queue_op list \<Rightarrow> 'm list \<times> 'm list \<times> 'q" where
  "run_ops q [] = ([], [], q)"
| "run_ops q (Put m # ops) =
     (let (q', r) = put q m; (acc, out, qf) = run_ops q' ops
      in (if r = None then stored m # acc else acc, out, qf))"
| "run_ops q (Take_all # ops) =
     (let (q', ms) = take_all q; (acc, out, qf) = run_ops q' ops in (acc, ms @ out, qf))"

lemma fifo: "run_ops q ops = (acc, out, qf) \<Longrightarrow> items q @ acc = out @ items qf"
proof (induction ops arbitrary: q acc out qf)
  case Nil
  then show ?case by simp
next
  case (Cons op ops)
  show ?case
  proof (cases op)
    case (Put m)
    obtain q' r where p: "put q m = (q', r)" by (cases "put q m")
    obtain acc' out' qf' where rest: "run_ops q' ops = (acc', out', qf')" by (cases "run_ops q' ops")
    have "items q' @ acc' = out' @ items qf'" by (rule Cons.IH [OF rest])
    with Cons.prems Put p rest show ?thesis
      by (cases r) (auto dest: put_ok put_err)
  next
    case Take_all
    obtain q' ms where t: "take_all q = (q', ms)" by (cases "take_all q")
    obtain acc' out' qf' where rest: "run_ops q' ops = (acc', out', qf')" by (cases "run_ops q' ops")
    have "items q' @ acc' = out' @ items qf'" by (rule Cons.IH [OF rest])
    moreover have "items q' = []" "ms = items q" using take_all_items [of q] t by simp_all
    ultimately show ?thesis using Cons.prems Take_all t rest by auto
  qed
qed

lemma bounded: "length (items q) \<le> bound q \<Longrightarrow> run_ops q ops = (acc, out, qf) \<Longrightarrow>
  length (items qf) \<le> bound qf \<and> bound qf = bound q"
proof (induction ops arbitrary: q acc out qf)
  case Nil
  then show ?case by simp
next
  case (Cons op ops)
  show ?case
  proof (cases op)
    case (Put m)
    obtain q' r where p: "put q m = (q', r)" by (cases "put q m")
    obtain acc' out' qf' where rest: "run_ops q' ops = (acc', out', qf')" by (cases "run_ops q' ops")
    have b: "bound q' = bound q" using put_bound [of q m] p by simp
    then have "length (items q') \<le> bound q'"
      using p Cons.prems(1) by (cases r) (auto dest: put_ok put_err)
    from Cons.IH [OF this rest] b Cons.prems(2) Put p rest show ?thesis by auto
  next
    case Take_all
    obtain q' ms where t: "take_all q = (q', ms)" by (cases "take_all q")
    obtain acc' out' qf' where rest: "run_ops q' ops = (acc', out', qf')" by (cases "run_ops q' ops")
    have b: "bound q' = bound q" and "items q' = []"
      using take_all_bound [of q] take_all_items(1) [of q] t by simp_all
    then have "length (items q') \<le> bound q'" by simp
    from Cons.IH [OF this rest] b Cons.prems(2) Take_all t rest show ?thesis by auto
  qed
qed

end

section \<open>The queue of the program implements it\<close>

lemma validateQueuedUserMessage_None:
  "validateQueuedUserMessage order m = None \<longleftrightarrow>
     mRole m = RoleUser \<and> \<not> messageHasProtocolFields m \<and> validateContent order (mContent m) = None"
  by (auto simp: validateQueuedUserMessage_def split: option.splits)

lemma Enqueue_ok:
  "Enqueue order q m = (q', None) \<longleftrightarrow>
     validateQueuedUserMessage order m = None \<and> int (length (qMessages q)) < qCapacity q
     \<and> q' = q\<lparr>qMessages := qMessages q @ [cloneMessage (m\<lparr>mOrigin := MessageOriginTurn\<rparr>)]\<rparr>"
  by (auto simp: Enqueue_def split: option.splits)

lemma Enqueue_err: "Enqueue order q m = (q', Some e) \<Longrightarrow> q' = q"
  by (auto simp: Enqueue_def split: option.splits if_splits)

definition queued :: "message \<Rightarrow> message" where
  "queued m = cloneMessage (m\<lparr>mOrigin := MessageOriginTurn\<rparr>)"

interpretation umq: bounded_queue "Enqueue order" drain qMessages "\<lambda>q. nat (qCapacity q)" queued
  for order :: "partType list"
proof (unfold_locales, goal_cases)
  case (1 q m q')
  then show ?case by (auto simp: Enqueue_ok queued_def)
next
  case (2 q m q' e)
  then show ?case by (auto dest: Enqueue_err)
next
  case (3 q m)
  then show ?case by (auto simp: Enqueue_def split: option.splits)
qed (simp_all add: drain_def)

section \<open>Executions of the program's queue\<close>

fun runQueue :: "partType list \<Rightarrow> userMessageQueue \<Rightarrow> message queue_op list
    \<Rightarrow> message list \<times> message list \<times> userMessageQueue" where
  "runQueue order q [] = ([], [], q)"
| "runQueue order q (Put m # ops) =
     (let (q', r) = Enqueue order q m; (acc, out, qf) = runQueue order q' ops
      in (if r = None then queued m # acc else acc, out, qf))"
| "runQueue order q (Take_all # ops) =
     (let (q', ms) = drain q; (acc, out, qf) = runQueue order q' ops in (acc, ms @ out, qf))"

lemma runQueue_run_ops: "runQueue order q ops = umq.run_ops order q ops"
  by (induction order q ops rule: runQueue.induct) (auto simp: Let_def split: prod.splits)

text \<open>What a queued message is allowed to be.\<close>

definition plain_user :: "message \<Rightarrow> bool" where
  "plain_user m \<longleftrightarrow> mRole m = RoleUser \<and> mToolCalls m = [] \<and> mToolCallID m = [] \<and> mInjection m = None
     \<and> mOrigin m = MessageOriginTurn"

lemma runQueue_accepted_plain: "runQueue order q ops = (acc, out, qf) \<Longrightarrow> \<forall>m \<in> set acc. plain_user m"
proof (induction ops arbitrary: q acc out qf)
  case (Cons op ops)
  show ?case
  proof (cases op)
    case (Put m)
    obtain q' r where p: "Enqueue order q m = (q', r)" by (cases "Enqueue order q m")
    obtain acc' out' qf' where rest: "runQueue order q' ops = (acc', out', qf')"
      by (cases "runQueue order q' ops")
    have "r = None \<Longrightarrow> plain_user (queued m)"
      using p by (auto simp: Enqueue_ok validateQueuedUserMessage_None messageHasProtocolFields_def
          plain_user_def queued_def)
    with Cons.IH [OF rest] Cons.prems Put p rest show ?thesis by (auto split: if_splits)
  next
    case Take_all
    then show ?thesis using Cons.prems Cons.IH by (auto simp: Let_def split: prod.splits)
  qed
qed simp

section \<open>Properties\<close>

text \<open>
  C17. The user-message queue is first-in first-out, loses nothing, duplicates nothing and
  never exceeds its capacity: for every interleaving of Enqueue calls and drains on a new
  queue, the messages handed out followed by the messages still queued are exactly the
  accepted messages in the order they were accepted, at most capacity of them wait, and
  each is a plain user turn that cannot forge an assistant, tool or injection entry.
\<close>

theorem queue_fifo_bounded:
  assumes "NewUserMessageQueue cap = Inr q" and "runQueue order q ops = (acc, out, qf)"
  shows "acc = out @ qMessages qf \<and> int (queueLen qf) \<le> cap \<and> (\<forall>m \<in> set acc. plain_user m)"
proof -
  have q: "qMessages q = []" "qCapacity q = cap" "0 < cap"
    using assms(1) by (auto simp: NewUserMessageQueue_def split: if_splits)
  have r: "umq.run_ops order q ops = (acc, out, qf)" using assms(2) by (simp add: runQueue_run_ops)
  have "acc = out @ qMessages qf" using umq.fifo [OF r] q by simp
  moreover have "length (qMessages qf) \<le> nat cap" using umq.bounded [OF _ r] q by simp
  ultimately show ?thesis
    using q runQueue_accepted_plain [OF assms(2)] by (simp add: queueLen_def le_nat_iff)
qed

definition sampleTurn :: message where
  "sampleTurn = emptyMessage\<lparr>mRole := RoleUser, mContent := Text ''hi''\<rparr>"

theorem queue_fifo_bounded_witness:
  "\<exists>q acc out qf. NewUserMessageQueue 1 = Inr q
     \<and> runQueue payloadTypes q [Put sampleTurn, Put sampleTurn, Take_all, Put sampleTurn] = (acc, out, qf)
     \<and> length acc = 2 \<and> length out = 1 \<and> acc = out @ qMessages qf \<and> int (queueLen qf) \<le> 1"
proof -
  let ?q = "\<lparr>qCapacity = 1, qMessages = []\<rparr>"
  have n: "NewUserMessageQueue 1 = Inr ?q" by (simp add: NewUserMessageQueue_def)
  obtain acc out qf where r: "runQueue payloadTypes ?q
      [Put sampleTurn, Put sampleTurn, Take_all, Put sampleTurn] = (acc, out, qf)"
    by (cases "runQueue payloadTypes ?q [Put sampleTurn, Put sampleTurn, Take_all, Put sampleTurn]")
  moreover have "(let (a, b, c) = runQueue payloadTypes ?q
      [Put sampleTurn, Put sampleTurn, Take_all, Put sampleTurn] in length a = 2 \<and> length b = 1)"
    by code_simp
  ultimately show ?thesis using n queue_fifo_bounded [OF n r] by auto
qed

end
