(* ===== verification/Requests.thy ===== *)
theory Requests
  imports Driver Prompt UserQueue "HOL-Library.AList"
begin

text \<open>
  Clients (\<open>client.go\<close>), the request builder (\<open>request.go\<close>) and the events callbacks
  receive (\<open>events.go\<close>). A builder method returns the changed request. A callback that
  receives a value has type \<open>callback\<close>; one that receives a pointer also returns the value
  it leaves behind (\<open>pcallback\<close>). A nil callback, counter or provider is \<open>None\<close>. The
  queue of user messages lives in the world and is reached through a lens.
\<close>

type_synonym ('w, 'a) pcallback = "'a \<Rightarrow> 'w \<Rightarrow> 'w \<times> 'a \<times> err option"

section \<open>Clients\<close>

record 'w clientConfig =
  ccDefaultModel :: model
  ccTokenCounter :: "'w tokenCounter option"
  ccCapabilityOverride :: "(model \<Rightarrow> capabilities \<Rightarrow> capabilities) option"
  ccStreaming :: bool

record 'w client =
  clDriver :: "'w driver option"
  clConfig :: "'w clientConfig"

definition zeroModel :: model where
  "zeroModel = \<lparr>mdID = [], mdContextSize = 0, mdSupportsReasoning = False,
     mdReasoningLevels = \<lparr>rlMin = [], rlLow = [], rlMedium = [], rlHigh = [], rlMax = []\<rparr>,
     mdPricing = \<lparr>mpInputPerToken = 0, mpOutputPerToken = 0, mpCacheReadPerToken = 0, mpCacheWritePerToken = 0,
       mpCacheWriteLongTTLPerToken = 0, mpLongContextThreshold = 0, mpLongContextInputPerToken = 0,
       mpLongContextOutputPerToken = 0\<rparr>\<rparr>"

text \<open>An option is a change of the configuration; a nil option is skipped.\<close>

definition NewClient :: "'w driver option \<Rightarrow> ('w clientConfig \<Rightarrow> 'w clientConfig) option list \<Rightarrow> 'w client" where
  "NewClient d opts =
     \<lparr>clDriver = d,
      clConfig = foldl (\<lambda>c opt. case opt of None \<Rightarrow> c | Some f \<Rightarrow> f c)
        \<lparr>ccDefaultModel = zeroModel, ccTokenCounter = None, ccCapabilityOverride = None, ccStreaming = True\<rparr> opts\<rparr>"

definition WithDefaultModel :: "model \<Rightarrow> 'w clientConfig \<Rightarrow> 'w clientConfig" where
  "WithDefaultModel m c = c\<lparr>ccDefaultModel := m\<rparr>"

definition WithClientTokenCounter :: "'w tokenCounter option \<Rightarrow> 'w clientConfig \<Rightarrow> 'w clientConfig" where
  "WithClientTokenCounter t c = c\<lparr>ccTokenCounter := t\<rparr>"

definition WithCapabilityOverride ::
  "(model \<Rightarrow> capabilities \<Rightarrow> capabilities) option \<Rightarrow> 'w clientConfig \<Rightarrow> 'w clientConfig" where
  "WithCapabilityOverride f c = c\<lparr>ccCapabilityOverride := f\<rparr>"

definition WithClientStreaming :: "bool \<Rightarrow> 'w clientConfig \<Rightarrow> 'w clientConfig" where
  "WithClientStreaming b c = c\<lparr>ccStreaming := b\<rparr>"

text \<open>Every use is behind the check that the driver is not nil.\<close>

definition theDriver :: "'w client \<Rightarrow> 'w driver" where
  "theDriver c = the (clDriver c)"

definition clientCapabilities :: "'w client \<Rightarrow> model \<Rightarrow> capabilities" where
  "clientCapabilities c m =
     (let caps = dvCapabilities (theDriver c) m in
      case ccCapabilityOverride (clConfig c) of None \<Rightarrow> caps | Some f \<Rightarrow> f m caps)"

section \<open>Events and responses\<close>

record 'w runEvent =
  reModel :: model
  reMessages :: "message list"
  reTools :: "'w tool list"

record 'w roundEvent =
  roRound :: int
  roMaxRounds :: int
  roUsage :: usage
  roTotalUsage :: usage
  roToolCalls :: int
  roMessages :: "message list"
  roTools :: "'w tool list"

record toolCallEvent =
  ceCallID :: string
  ceName :: string
  ceArguments :: string
  ceIndex :: int
  ceResult :: "toolResult option"

record response =
  rsText :: string
  rsReasoning :: string
  rsToolCalls :: "toolCall list"
  rsUsage :: usage
  rsMessages :: "message list"
  rsInjections :: "messageInjection list"
  rsCost :: rat
  rsModel :: string
  rsFinishReason :: string

record toolCallDecision =
  dcCallID :: string
  dcDeny :: bool
  dcDenyResult :: string

record 'w queueRef =
  qrGet :: "'w \<Rightarrow> userMessageQueue"
  qrPut :: "userMessageQueue \<Rightarrow> 'w \<Rightarrow> 'w"

type_synonym 'w tokenLimitHandler = "('w, 'w tool tokenLimitEvent) pcallback"

section \<open>Requests\<close>

record 'w request =
  rqClient :: "'w client"
  rqModel :: model
  rqPrompt :: prompt
  rqTools :: "'w tool toolSet option"
  rqToolProvider :: "('w \<Rightarrow> 'w \<times> (err + 'w tool toolSet option)) option"
  rqParams :: generationParams
  rqMaxRounds :: int
  rqMaxConcurrentTools :: int
  rqToolTimeout :: int
  rqTimeout :: int
  rqMaxToolResultTokens :: int
  rqMaxContextTokens :: int
  rqOutputReserveTokens :: int
  rqOutputReserveSet :: bool
  rqTokenCounter :: "'w tokenCounter option"
  rqForceFinalAnswer :: bool
  rqAutoToolCalls :: bool
  rqUserMessageQueue :: "'w queueRef option"
  rqTranscriptRepair :: bool
  rqStrictResponseValidation :: bool
  rqResponseRepair :: bool
  rqStreaming :: bool
  rqPreTokenLimit :: "'w tokenLimitHandler option"
  rqPostTokenLimit :: "'w tokenLimitHandler option"
  rqOnStart :: "('w, 'w runEvent) pcallback option"
  rqOnReasoning :: "('w, string) callback option"
  rqOnText :: "('w, string) callback option"
  rqOnToolCallFragment :: "('w, toolCallDelta) callback option"
  rqOnDelta :: "('w, delta) callback option"
  rqOnRoundStart :: "('w, 'w roundEvent) pcallback option"
  rqOnRoundEnd :: "('w, 'w roundEvent) pcallback option"
  rqOnAssistantMessage :: "('w, message) callback option"
  rqOnToolCallStart :: "('w, toolCallEvent) callback option"
  rqOnToolResult :: "('w, toolCallEvent) callback option"
  rqOnMessageInjection :: "('w, messageInjection) callback option"
  rqOnRetry :: "('w, retryAttempt) callback option"
  rqOnFinish :: "('w, response) pcallback option"
  rqOnError :: "('w, err) callback option"

definition zeroParams :: generationParams where
  "zeroParams = \<lparr>gpTemperature = None, gpTopP = None, gpReasoningEffort = [], gpMaxOutputTokens = None,
     gpFrequencyPenalty = None, gpPresencePenalty = None, gpSeed = None, gpStop = [],
     gpToolChoice = \<lparr>chMode = [], chName = []\<rparr>, gpParallelToolCalls = None, gpResponseFormat = None, gpExtra = []\<rparr>"

definition defaultMaxRounds :: int where "defaultMaxRounds = 12"
definition defaultMaxConcurrentTools :: int where "defaultMaxConcurrentTools = 8"
definition defaultOutputReserveTokens :: int where "defaultOutputReserveTokens = 4096"

definition NewRequest :: "'w client \<Rightarrow> 'w request" where
  "NewRequest c = \<lparr>rqClient = c, rqModel = zeroModel, rqPrompt = NewPrompt, rqTools = None, rqToolProvider = None,
     rqParams = zeroParams, rqMaxRounds = defaultMaxRounds, rqMaxConcurrentTools = defaultMaxConcurrentTools,
     rqToolTimeout = 0, rqTimeout = 0, rqMaxToolResultTokens = 0, rqMaxContextTokens = 0,
     rqOutputReserveTokens = 0, rqOutputReserveSet = False, rqTokenCounter = None, rqForceFinalAnswer = True,
     rqAutoToolCalls = False, rqUserMessageQueue = None, rqTranscriptRepair = False,
     rqStrictResponseValidation = False, rqResponseRepair = False, rqStreaming = ccStreaming (clConfig c),
     rqPreTokenLimit = None, rqPostTokenLimit = None, rqOnStart = None, rqOnReasoning = None, rqOnText = None,
     rqOnToolCallFragment = None, rqOnDelta = None, rqOnRoundStart = None, rqOnRoundEnd = None,
     rqOnAssistantMessage = None, rqOnToolCallStart = None, rqOnToolResult = None, rqOnMessageInjection = None,
     rqOnRetry = None, rqOnFinish = None, rqOnError = None\<rparr>"

subsection \<open>Builder methods\<close>

definition WithModel :: "model \<Rightarrow> 'w request \<Rightarrow> 'w request" where
  "WithModel m r = r\<lparr>rqModel := m\<rparr>"
definition WithPrompt :: "prompt \<Rightarrow> 'w request \<Rightarrow> 'w request" where
  "WithPrompt p r = r\<lparr>rqPrompt := p\<rparr>"
definition WithTools :: "'w tool toolSet option \<Rightarrow> 'w request \<Rightarrow> 'w request" where
  "WithTools t r = r\<lparr>rqTools := t\<rparr>"
definition WithTool :: "'w tool \<Rightarrow> 'w request \<Rightarrow> 'w request" where
  "WithTool t r =
     (let r' = (if rqTools r = None then r\<lparr>rqTools := Some (NewToolSet [])\<rparr> else r)
      in r'\<lparr>rqTools := toolSetAdd (rqTools r') t\<rparr>)"
definition WithToolProvider :: "('w \<Rightarrow> 'w \<times> (err + 'w tool toolSet option)) option \<Rightarrow> 'w request \<Rightarrow> 'w request" where
  "WithToolProvider p r = r\<lparr>rqToolProvider := p\<rparr>"
definition WithGenerationParams :: "generationParams \<Rightarrow> 'w request \<Rightarrow> 'w request" where
  "WithGenerationParams p r = r\<lparr>rqParams := cloneParams p\<rparr>"
definition WithTemperature :: "rat \<Rightarrow> 'w request \<Rightarrow> 'w request" where
  "WithTemperature v r = r\<lparr>rqParams := (rqParams r)\<lparr>gpTemperature := Some v\<rparr>\<rparr>"
definition WithTopP :: "rat \<Rightarrow> 'w request \<Rightarrow> 'w request" where
  "WithTopP v r = r\<lparr>rqParams := (rqParams r)\<lparr>gpTopP := Some v\<rparr>\<rparr>"
definition WithReasoningEffort :: "reasoningEffort \<Rightarrow> 'w request \<Rightarrow> 'w request" where
  "WithReasoningEffort v r = r\<lparr>rqParams := (rqParams r)\<lparr>gpReasoningEffort := v\<rparr>\<rparr>"
definition WithMaxOutputTokens :: "int \<Rightarrow> 'w request \<Rightarrow> 'w request" where
  "WithMaxOutputTokens v r = r\<lparr>rqParams := (rqParams r)\<lparr>gpMaxOutputTokens := Some v\<rparr>\<rparr>"
definition WithSeed :: "int \<Rightarrow> 'w request \<Rightarrow> 'w request" where
  "WithSeed v r = r\<lparr>rqParams := (rqParams r)\<lparr>gpSeed := Some v\<rparr>\<rparr>"
definition WithStop :: "string list \<Rightarrow> 'w request \<Rightarrow> 'w request" where
  "WithStop vs r = r\<lparr>rqParams := (rqParams r)\<lparr>gpStop := vs\<rparr>\<rparr>"
definition WithFrequencyPenalty :: "rat \<Rightarrow> 'w request \<Rightarrow> 'w request" where
  "WithFrequencyPenalty v r = r\<lparr>rqParams := (rqParams r)\<lparr>gpFrequencyPenalty := Some v\<rparr>\<rparr>"
definition WithPresencePenalty :: "rat \<Rightarrow> 'w request \<Rightarrow> 'w request" where
  "WithPresencePenalty v r = r\<lparr>rqParams := (rqParams r)\<lparr>gpPresencePenalty := Some v\<rparr>\<rparr>"
definition WithToolChoiceMode :: "string \<Rightarrow> 'w request \<Rightarrow> 'w request" where
  "WithToolChoiceMode m r = r\<lparr>rqParams := (rqParams r)\<lparr>gpToolChoice := \<lparr>chMode = m, chName = []\<rparr>\<rparr>\<rparr>"
definition WithToolChoice :: "toolChoice \<Rightarrow> 'w request \<Rightarrow> 'w request" where
  "WithToolChoice c r = r\<lparr>rqParams := (rqParams r)\<lparr>gpToolChoice := c\<rparr>\<rparr>"
definition ToolChoiceTool :: "string \<Rightarrow> toolChoice" where
  "ToolChoiceTool n = \<lparr>chMode = ToolChoiceModeTool, chName = n\<rparr>"
definition WithParallelToolCalls :: "bool \<Rightarrow> 'w request \<Rightarrow> 'w request" where
  "WithParallelToolCalls b r = r\<lparr>rqParams := (rqParams r)\<lparr>gpParallelToolCalls := Some b\<rparr>\<rparr>"
definition WithJSONMode :: "'w request \<Rightarrow> 'w request" where
  "WithJSONMode r = r\<lparr>rqParams := (rqParams r)\<lparr>gpResponseFormat :=
     Some \<lparr>rfType = ResponseFormatTypeJSONObject, rfName = [], rfSchema = [], rfStrictSchema = False\<rparr>\<rparr>\<rparr>"
definition WithJSONSchema :: "string \<Rightarrow> string \<Rightarrow> bool \<Rightarrow> 'w request \<Rightarrow> 'w request" where
  "WithJSONSchema n schema strict r = r\<lparr>rqParams := (rqParams r)\<lparr>gpResponseFormat :=
     Some \<lparr>rfType = ResponseFormatTypeJSONSchema, rfName = n, rfSchema = schema, rfStrictSchema = strict\<rparr>\<rparr>\<rparr>"
definition WithParam :: "string \<Rightarrow> any \<Rightarrow> 'w request \<Rightarrow> 'w request" where
  "WithParam n v r = r\<lparr>rqParams := (rqParams r)\<lparr>gpExtra := AList.update n v (gpExtra (rqParams r))\<rparr>\<rparr>"
definition WithParams :: "(string \<times> any) list \<Rightarrow> 'w request \<Rightarrow> 'w request" where
  "WithParams vs r = r\<lparr>rqParams := (rqParams r)\<lparr>gpExtra :=
     foldl (\<lambda>m (n, v). AList.update n v m) (gpExtra (rqParams r)) vs\<rparr>\<rparr>"
definition WithMaxRounds :: "int \<Rightarrow> 'w request \<Rightarrow> 'w request" where
  "WithMaxRounds v r = r\<lparr>rqMaxRounds := v\<rparr>"
definition WithMaxConcurrentTools :: "int \<Rightarrow> 'w request \<Rightarrow> 'w request" where
  "WithMaxConcurrentTools v r = r\<lparr>rqMaxConcurrentTools := v\<rparr>"
definition WithToolTimeout :: "int \<Rightarrow> 'w request \<Rightarrow> 'w request" where
  "WithToolTimeout v r = r\<lparr>rqToolTimeout := v\<rparr>"
definition WithTimeout :: "int \<Rightarrow> 'w request \<Rightarrow> 'w request" where
  "WithTimeout v r = r\<lparr>rqTimeout := v\<rparr>"
definition WithMaxToolResultTokens :: "int \<Rightarrow> 'w request \<Rightarrow> 'w request" where
  "WithMaxToolResultTokens v r = r\<lparr>rqMaxToolResultTokens := v\<rparr>"
definition WithMaxContextTokens :: "int \<Rightarrow> 'w request \<Rightarrow> 'w request" where
  "WithMaxContextTokens v r = r\<lparr>rqMaxContextTokens := v\<rparr>"
definition WithOutputReserveTokens :: "int \<Rightarrow> 'w request \<Rightarrow> 'w request" where
  "WithOutputReserveTokens v r = r\<lparr>rqOutputReserveTokens := v, rqOutputReserveSet := True\<rparr>"
definition WithTokenCounter :: "'w tokenCounter option \<Rightarrow> 'w request \<Rightarrow> 'w request" where
  "WithTokenCounter c r = r\<lparr>rqTokenCounter := c\<rparr>"
definition WithForceFinalAnswer :: "bool \<Rightarrow> 'w request \<Rightarrow> 'w request" where
  "WithForceFinalAnswer b r = r\<lparr>rqForceFinalAnswer := b\<rparr>"
definition WithAutoToolCalls :: "'w request \<Rightarrow> 'w request" where
  "WithAutoToolCalls r = r\<lparr>rqAutoToolCalls := True\<rparr>"
definition WithUserMessageQueue :: "'w queueRef option \<Rightarrow> 'w request \<Rightarrow> 'w request" where
  "WithUserMessageQueue q r = r\<lparr>rqUserMessageQueue := q\<rparr>"
definition WithTranscriptRepair :: "'w request \<Rightarrow> 'w request" where
  "WithTranscriptRepair r = r\<lparr>rqTranscriptRepair := True\<rparr>"
definition WithStrictResponseValidation :: "'w request \<Rightarrow> 'w request" where
  "WithStrictResponseValidation r = r\<lparr>rqStrictResponseValidation := True\<rparr>"
definition WithResponseRepair :: "'w request \<Rightarrow> 'w request" where
  "WithResponseRepair r = r\<lparr>rqResponseRepair := True\<rparr>"
definition PreMaxTokensReached :: "'w tokenLimitHandler option \<Rightarrow> 'w request \<Rightarrow> 'w request" where
  "PreMaxTokensReached h r = r\<lparr>rqPreTokenLimit := h\<rparr>"
definition PostMaxTokensReached :: "'w tokenLimitHandler option \<Rightarrow> 'w request \<Rightarrow> 'w request" where
  "PostMaxTokensReached h r = r\<lparr>rqPostTokenLimit := h\<rparr>"
definition WithRequestStreaming :: "bool \<Rightarrow> 'w request \<Rightarrow> 'w request" where
  "WithRequestStreaming b r = r\<lparr>rqStreaming := b\<rparr>"

subsection \<open>Callback chains\<close>

definition chainCallback :: "('w, 'a) callback option \<Rightarrow> ('w, 'a) callback option \<Rightarrow> ('w, 'a) callback option" where
  "chainCallback prev nxt =
     (case prev of
        None \<Rightarrow> nxt
      | Some p \<Rightarrow>
          (case nxt of
             None \<Rightarrow> prev
           | Some n \<Rightarrow> Some (\<lambda>ev w. case p ev w of (w', Some e) \<Rightarrow> (w', Some e) | (w', None) \<Rightarrow> n ev w')))"

text \<open>The same function at a pointer type: the second handler sees what the first left.\<close>

definition chainPointerCallback ::
  "('w, 'a) pcallback option \<Rightarrow> ('w, 'a) pcallback option \<Rightarrow> ('w, 'a) pcallback option" where
  "chainPointerCallback prev nxt =
     (case prev of
        None \<Rightarrow> nxt
      | Some p \<Rightarrow>
          (case nxt of
             None \<Rightarrow> prev
           | Some n \<Rightarrow> Some (\<lambda>ev w. case p ev w of (w', ev', Some e) \<Rightarrow> (w', ev', Some e) | (w', ev', None) \<Rightarrow> n ev' w')))"

definition OnStart :: "('w, 'w runEvent) pcallback option \<Rightarrow> 'w request \<Rightarrow> 'w request" where
  "OnStart f r = r\<lparr>rqOnStart := chainPointerCallback (rqOnStart r) f\<rparr>"
definition OnReasoning :: "('w, string) callback option \<Rightarrow> 'w request \<Rightarrow> 'w request" where
  "OnReasoning f r = r\<lparr>rqOnReasoning := chainCallback (rqOnReasoning r) f\<rparr>"
definition OnText :: "('w, string) callback option \<Rightarrow> 'w request \<Rightarrow> 'w request" where
  "OnText f r = r\<lparr>rqOnText := chainCallback (rqOnText r) f\<rparr>"
definition OnToolCallFragment :: "('w, toolCallDelta) callback option \<Rightarrow> 'w request \<Rightarrow> 'w request" where
  "OnToolCallFragment f r = r\<lparr>rqOnToolCallFragment := chainCallback (rqOnToolCallFragment r) f\<rparr>"
definition OnDelta :: "('w, delta) callback option \<Rightarrow> 'w request \<Rightarrow> 'w request" where
  "OnDelta f r = r\<lparr>rqOnDelta := chainCallback (rqOnDelta r) f\<rparr>"
definition OnRoundStart :: "('w, 'w roundEvent) pcallback option \<Rightarrow> 'w request \<Rightarrow> 'w request" where
  "OnRoundStart f r = r\<lparr>rqOnRoundStart := chainPointerCallback (rqOnRoundStart r) f\<rparr>"
definition OnRoundEnd :: "('w, 'w roundEvent) pcallback option \<Rightarrow> 'w request \<Rightarrow> 'w request" where
  "OnRoundEnd f r = r\<lparr>rqOnRoundEnd := chainPointerCallback (rqOnRoundEnd r) f\<rparr>"
definition OnAssistantMessage :: "('w, message) callback option \<Rightarrow> 'w request \<Rightarrow> 'w request" where
  "OnAssistantMessage f r = r\<lparr>rqOnAssistantMessage := chainCallback (rqOnAssistantMessage r) f\<rparr>"
definition OnToolCallStart :: "('w, toolCallEvent) callback option \<Rightarrow> 'w request \<Rightarrow> 'w request" where
  "OnToolCallStart f r = r\<lparr>rqOnToolCallStart := chainCallback (rqOnToolCallStart r) f\<rparr>"
definition OnToolResult :: "('w, toolCallEvent) callback option \<Rightarrow> 'w request \<Rightarrow> 'w request" where
  "OnToolResult f r = r\<lparr>rqOnToolResult := chainCallback (rqOnToolResult r) f\<rparr>"
definition OnMessageInjection :: "('w, messageInjection) callback option \<Rightarrow> 'w request \<Rightarrow> 'w request" where
  "OnMessageInjection f r = r\<lparr>rqOnMessageInjection := chainCallback (rqOnMessageInjection r) f\<rparr>"
definition OnRetry :: "('w, retryAttempt) callback option \<Rightarrow> 'w request \<Rightarrow> 'w request" where
  "OnRetry f r = r\<lparr>rqOnRetry := chainCallback (rqOnRetry r) f\<rparr>"
definition OnFinish :: "('w, response) pcallback option \<Rightarrow> 'w request \<Rightarrow> 'w request" where
  "OnFinish f r = r\<lparr>rqOnFinish := chainPointerCallback (rqOnFinish r) f\<rparr>"
definition OnErrorHook :: "('w, err) callback option \<Rightarrow> 'w request \<Rightarrow> 'w request" where
  "OnErrorHook f r = r\<lparr>rqOnError := chainCallback (rqOnError r) f\<rparr>"

definition resetOne :: "'w request \<Rightarrow> string \<Rightarrow> 'w request" where
  "resetOne r kind =
     (if kind = ''start'' then r\<lparr>rqOnStart := None\<rparr>
      else if kind = ''reasoning'' then r\<lparr>rqOnReasoning := None\<rparr>
      else if kind = ''text'' then r\<lparr>rqOnText := None\<rparr>
      else if kind = ''tool_call_fragment'' then r\<lparr>rqOnToolCallFragment := None\<rparr>
      else if kind = ''delta'' then r\<lparr>rqOnDelta := None\<rparr>
      else if kind = ''round_start'' then r\<lparr>rqOnRoundStart := None\<rparr>
      else if kind = ''round_end'' then r\<lparr>rqOnRoundEnd := None\<rparr>
      else if kind = ''assistant_message'' then r\<lparr>rqOnAssistantMessage := None\<rparr>
      else if kind = ''tool_call_start'' then r\<lparr>rqOnToolCallStart := None\<rparr>
      else if kind = ''tool_result'' then r\<lparr>rqOnToolResult := None\<rparr>
      else if kind = ''message_injection'' then r\<lparr>rqOnMessageInjection := None\<rparr>
      else if kind = ''retry'' then r\<lparr>rqOnRetry := None\<rparr>
      else if kind = ''finish'' then r\<lparr>rqOnFinish := None\<rparr>
      else if kind = ''error'' then r\<lparr>rqOnError := None\<rparr>
      else r)"

definition ResetCallback :: "string list \<Rightarrow> 'w request \<Rightarrow> 'w request" where
  "ResetCallback kinds r = foldl resetOne r kinds"

definition ResetCallbacks :: "'w request \<Rightarrow> 'w request" where
  "ResetCallbacks r = r\<lparr>rqOnStart := None, rqOnReasoning := None, rqOnText := None, rqOnToolCallFragment := None,
     rqOnDelta := None, rqOnRoundStart := None, rqOnRoundEnd := None, rqOnAssistantMessage := None,
     rqOnToolCallStart := None, rqOnToolResult := None, rqOnMessageInjection := None, rqOnRetry := None,
     rqOnFinish := None, rqOnError := None\<rparr>"

section \<open>Handlers run in registration order\<close>

fun runHandlers :: "('w, 'a) callback list \<Rightarrow> ('w, 'a) callback" where
  "runHandlers [] ev w = (w, None)"
| "runHandlers (f # fs) ev w =
     (case f ev w of (w', Some e) \<Rightarrow> (w', Some e) | (w', None) \<Rightarrow> runHandlers fs ev w')"

definition handlerChain :: "('w, 'a) callback list \<Rightarrow> ('w, 'a) callback option" where
  "handlerChain fs = (if fs = [] then None else Some (runHandlers fs))"

lemma runHandlers_snoc:
  "runHandlers (fs @ [f]) ev w = (case runHandlers fs ev w of (w', Some e) \<Rightarrow> (w', Some e) | (w', None) \<Rightarrow> f ev w')"
  by (induction fs arbitrary: w) (auto split: prod.splits option.splits)

lemma chainCallback_snoc: "chainCallback (handlerChain fs) (Some f) = handlerChain (fs @ [f])"
proof (cases "fs = []")
  case True
  have "runHandlers [f] = f"
    by (intro ext) (auto split: prod.splits option.splits)
  with True show ?thesis by (simp add: handlerChain_def chainCallback_def)
next
  case False
  then show ?thesis
    by (simp add: handlerChain_def chainCallback_def) (intro ext, simp add: runHandlers_snoc)
qed

lemma OnText_chain:
  "rqOnText (foldl (\<lambda>r f. OnText (Some f) r) r fs) =
     foldl (\<lambda>c f. chainCallback c (Some f)) (rqOnText r) fs"
  by (induction fs arbitrary: r) (simp_all add: OnText_def)

lemma chainCallback_all: "foldl (\<lambda>c f. chainCallback c (Some f)) None fs = handlerChain fs"
  by (induction fs rule: rev_induct) (simp_all add: chainCallback_snoc, simp add: handlerChain_def)

definition callbackKinds :: "string list" where
  "callbackKinds = [''start'', ''reasoning'', ''text'', ''tool_call_fragment'', ''delta'', ''round_start'',
     ''round_end'', ''assistant_message'', ''tool_call_start'', ''tool_result'', ''message_injection'',
     ''retry'', ''finish'', ''error'']"

section \<open>Properties\<close>

text \<open>
  Registering handlers adds, never replaces: after any series of OnText calls on a
  request whose chain is empty, one text event runs all of the handlers in registration
  order up to the first that fails, whose error is returned; resetting every kind by name is
  resetting all callbacks, after which the chain is empty again.
\<close>

theorem callbacks_run_in_order:
  "rqOnText (foldl (\<lambda>r f. OnText (Some f) r) (ResetCallbacks r) fs) = handlerChain fs
   \<and> ResetCallback callbackKinds r = ResetCallbacks r"
proof
  have "rqOnText (ResetCallbacks r) = None" by (simp add: ResetCallbacks_def)
  then show "rqOnText (foldl (\<lambda>r f. OnText (Some f) r) (ResetCallbacks r) fs) = handlerChain fs"
    by (simp add: OnText_chain chainCallback_all)
  show "ResetCallback callbackKinds r = ResetCallbacks r"
    by (simp add: ResetCallback_def callbackKinds_def resetOne_def ResetCallbacks_def)
qed

end
