(* ===== verification/Json.thy ===== *)
theory Json
  imports GoStrings
begin

text \<open>
  \<open>encoding/json.Valid\<close>, which the engine uses to decide whether tool arguments are
  usable. It is the byte-at-a-time scanner of Go's library: a state, a stack of open
  objects and arrays, one step per byte, and one final space at the end of input.
\<close>

datatype jstate =
    JBeginValue | JBeginValueOrEmpty | JBeginString | JBeginStringOrEmpty
  | JEndValue | JEndTop | JInString | JInStringEsc | JInStringEscU nat
  | JNeg | J0 | J1 | JDot | JDot0 | JE | JESign | JE0 | JLit string

datatype jopen = ParseObjectKey | ParseObjectValue | ParseArrayValue

definition maxNestingDepth :: nat where
  "maxNestingDepth = 10000"

definition jspace :: "char \<Rightarrow> bool" where
  "jspace c \<longleftrightarrow> c = CHR '' '' \<or> c = CHR 0x09 \<or> c = CHR 0x0D \<or> c = CHR 0x0A"

definition jdigit :: "char \<Rightarrow> bool" where
  "jdigit c \<longleftrightarrow> digit_val c \<noteq> None"

definition jhex :: "char \<Rightarrow> bool" where
  "jhex c \<longleftrightarrow> (let b = byte_of c in
     (48 \<le> b \<and> b \<le> 57) \<or> (97 \<le> b \<and> b \<le> 102) \<or> (65 \<le> b \<and> b \<le> 70))"

type_synonym jscan = "jstate \<times> jopen list"

definition jpush :: "jopen \<Rightarrow> jstate \<Rightarrow> jopen list \<Rightarrow> jscan option" where
  "jpush p st stack = (if length stack < maxNestingDepth then Some (st, p # stack) else None)"

definition jpop :: "jopen list \<Rightarrow> jscan option" where
  "jpop stack = (case stack of [] \<Rightarrow> None | _ # rest \<Rightarrow>
     Some (if rest = [] then JEndTop else JEndValue, rest))"

definition beginValue :: "char \<Rightarrow> jopen list \<Rightarrow> jscan option" where
  "beginValue c stack =
     (if jspace c then Some (JBeginValue, stack)
      else if c = CHR ''{'' then jpush ParseObjectKey JBeginStringOrEmpty stack
      else if c = CHR ''['' then jpush ParseArrayValue JBeginValueOrEmpty stack
      else if c = CHR 0x22 then Some (JInString, stack)
      else if c = CHR ''-'' then Some (JNeg, stack)
      else if c = CHR ''0'' then Some (J0, stack)
      else if c = CHR ''t'' then Some (JLit ''rue'', stack)
      else if c = CHR ''f'' then Some (JLit ''alse'', stack)
      else if c = CHR ''n'' then Some (JLit ''ull'', stack)
      else if jdigit c then Some (J1, stack)
      else None)"

definition beginString :: "char \<Rightarrow> jopen list \<Rightarrow> jscan option" where
  "beginString c stack =
     (if jspace c then Some (JBeginString, stack)
      else if c = CHR 0x22 then Some (JInString, stack) else None)"

definition endTop :: "char \<Rightarrow> jopen list \<Rightarrow> jscan option" where
  "endTop c stack = (if jspace c then Some (JEndTop, stack) else None)"

definition endValue :: "char \<Rightarrow> jopen list \<Rightarrow> jscan option" where
  "endValue c stack = (case stack of
       [] \<Rightarrow> endTop c stack
     | p # rest \<Rightarrow>
         if jspace c then Some (JEndValue, stack)
         else (case p of
             ParseObjectKey \<Rightarrow>
               if c = CHR '':'' then Some (JBeginValue, ParseObjectValue # rest) else None
           | ParseObjectValue \<Rightarrow>
               if c = CHR '','' then Some (JBeginString, ParseObjectKey # rest)
               else if c = CHR ''}'' then jpop stack else None
           | ParseArrayValue \<Rightarrow>
               if c = CHR '','' then Some (JBeginValue, stack)
               else if c = CHR '']'' then jpop stack else None))"

definition numberEnd :: "char \<Rightarrow> jopen list \<Rightarrow> jscan option" where
  "numberEnd c stack =
     (if c = CHR ''.'' then Some (JDot, stack)
      else if c = CHR ''e'' \<or> c = CHR ''E'' then Some (JE, stack)
      else endValue c stack)"

fun jstep :: "jscan \<Rightarrow> char \<Rightarrow> jscan option" where
  "jstep (JBeginValue, k) c = beginValue c k"
| "jstep (JBeginValueOrEmpty, k) c =
     (if jspace c then Some (JBeginValueOrEmpty, k)
      else if c = CHR '']'' then endValue c k else beginValue c k)"
| "jstep (JBeginStringOrEmpty, k) c =
     (if jspace c then Some (JBeginStringOrEmpty, k)
      else if c = CHR ''}'' then endValue c (ParseObjectValue # tl k) else beginString c k)"
| "jstep (JBeginString, k) c = beginString c k"
| "jstep (JEndValue, k) c = endValue c k"
| "jstep (JEndTop, k) c = endTop c k"
| "jstep (JInString, k) c =
     (if c = CHR 0x22 then Some (JEndValue, k)
      else if c = CHR 0x5C then Some (JInStringEsc, k)
      else if byte_of c < 32 then None else Some (JInString, k))"
| "jstep (JInStringEsc, k) c =
     (if c \<in> set [CHR ''b'', CHR ''f'', CHR ''n'', CHR ''r'', CHR ''t'', CHR 0x5C, CHR ''/'', CHR 0x22]
      then Some (JInString, k)
      else if c = CHR ''u'' then Some (JInStringEscU 3, k) else None)"
| "jstep (JInStringEscU n, k) c =
     (if jhex c then Some (if n = 0 then JInString else JInStringEscU (n - 1), k) else None)"
| "jstep (JNeg, k) c =
     (if c = CHR ''0'' then Some (J0, k) else if jdigit c then Some (J1, k) else None)"
| "jstep (J1, k) c = (if jdigit c then Some (J1, k) else numberEnd c k)"
| "jstep (J0, k) c = numberEnd c k"
| "jstep (JDot, k) c = (if jdigit c then Some (JDot0, k) else None)"
| "jstep (JDot0, k) c =
     (if jdigit c then Some (JDot0, k)
      else if c = CHR ''e'' \<or> c = CHR ''E'' then Some (JE, k) else endValue c k)"
| "jstep (JE, k) c =
     (if c = CHR ''+'' \<or> c = CHR ''-'' then Some (JESign, k)
      else if jdigit c then Some (JE0, k) else None)"
| "jstep (JESign, k) c = (if jdigit c then Some (JE0, k) else None)"
| "jstep (JE0, k) c = (if jdigit c then Some (JE0, k) else endValue c k)"
| "jstep (JLit w, k) c = (case w of
       [] \<Rightarrow> None
     | x # xs \<Rightarrow> if c = x then Some (if xs = [] then JEndValue else JLit xs, k) else None)"

fun jrun :: "jscan \<Rightarrow> string \<Rightarrow> jscan option" where
  "jrun st [] = Some st"
| "jrun st (c # cs) = (case jstep st c of None \<Rightarrow> None | Some st' \<Rightarrow> jrun st' cs)"

definition json_valid :: "string \<Rightarrow> bool" where
  "json_valid s = (case jrun (JBeginValue, []) (s @ '' '') of
     Some (JEndTop, _) \<Rightarrow> True | _ \<Rightarrow> False)"

lemma jrun_append: "jrun st (xs @ ys) = (case jrun st xs of None \<Rightarrow> None | Some st' \<Rightarrow> jrun st' ys)"
  by (induction st xs rule: jrun.induct) (auto split: option.splits)

lemma json_valid_empty_object: "json_valid ''{}''"
  by code_simp

text \<open>An empty document is not JSON, and neither are two documents in a row.\<close>

lemma json_valid_Nil: "\<not> json_valid []"
  by code_simp

lemma jrun_EndTop: "jrun (JEndTop, k) s = (if list_all jspace s then Some (JEndTop, k) else None)"
  by (induction s) (auto simp: endTop_def)

lemma json_two_documents:
  assumes "jrun (JBeginValue, []) s = Some (JEndTop, [])" and "\<not> list_all jspace t"
  shows "\<not> json_valid (s @ t)"
  using assms by (simp add: json_valid_def jrun_append jrun_EndTop)

end
