(* ===== verification/Truncate.thy ===== *)
theory Truncate
  imports Tokens
begin

text \<open>
  Bounding a tool result by tokens (\<open>truncateToolResult\<close> and its helpers in
  \<open>engine.go\<close>). Go's slice expressions panic out of range and its products wrap, so the
  functions return an \<open>option\<close> whose \<open>None\<close> is the panic, and products go through \<open>wrap64\<close>.
\<close>

text \<open>Go's integer division truncates towards zero.\<close>

definition goDiv :: "int \<Rightarrow> int \<Rightarrow> int" where
  "goDiv a b = sgn a * sgn b * (\<bar>a\<bar> div \<bar>b\<bar>)"

lemma goDiv_nonneg: "0 \<le> a \<Longrightarrow> 0 < b \<Longrightarrow> goDiv a b = a div b"
  by (cases "a = 0") (simp_all add: goDiv_def)

definition goTake :: "int \<Rightarrow> 'a list \<Rightarrow> 'a list option" where
  "goTake n xs = (if 0 \<le> n \<and> n \<le> int (length xs) then Some (take (nat n) xs) else None)"

definition toolResultTruncatedMarker :: string where
  "toolResultTruncatedMarker = [CHR 0xE2, CHR 0x80, CHR 0xA6] @ ''[truncated]''"

definition maxTokenizerInputBytesPerToken :: int where
  "maxTokenizerInputBytesPerToken = 64"

definition clampToolResultBytes :: "string \<Rightarrow> int \<Rightarrow> string option" where
  "clampToolResultBytes c maxTokens =
     (let limit = wrap64 (maxTokens * maxTokenizerInputBytesPerToken) in
      if int (length c) \<le> limit then Some c
      else let rs = runes c in
           if int (length rs) > limit then map_option string_of_runes (goTake limit rs)
           else Some (string_of_runes rs))"

function fitTruncatedResult :: "encoder \<Rightarrow> rune list \<Rightarrow> int \<Rightarrow> int \<Rightarrow> string option" where
  "fitTruncatedResult encode rs keep maxTokens =
     (if keep > 0 then
        (case goTake keep rs of
           None \<Rightarrow> None
         | Some kept \<Rightarrow>
             let candidate = string_of_runes kept @ toolResultTruncatedMarker in
             (case countText encode candidate of
                Inl e \<Rightarrow> Some candidate
              | Inr count \<Rightarrow>
                  if count \<le> maxTokens then Some candidate
                  else let shrunk = goDiv (wrap64 (keep * maxTokens)) count;
                           keep' = (if shrunk \<ge> keep then keep - 1 else shrunk)
                       in fitTruncatedResult encode rs keep' maxTokens))
      else Some toolResultTruncatedMarker)"
  by pat_completeness auto
termination
  by (relation "measure (\<lambda>(_, _, keep, _). nat keep)") (auto simp: Let_def)

declare fitTruncatedResult.simps [simp del]

definition truncateToolResult :: "encoder \<Rightarrow> int \<Rightarrow> string \<Rightarrow> string option" where
  "truncateToolResult encode maxTokens c =
     (if maxTokens \<le> 0 then Some c
      else case clampToolResultBytes c maxTokens of
          None \<Rightarrow> None
        | Some c' \<Rightarrow>
            (case countText encode c' of
               Inl e \<Rightarrow> Some c'
             | Inr count \<Rightarrow>
                 if count \<le> maxTokens then Some c'
                 else let rs = runes c'; keep = goDiv (wrap64 (int (length rs) * maxTokens)) count
                      in fitTruncatedResult encode rs keep maxTokens))"

section \<open>The bound is kept\<close>

definition withinTokens :: "encoder \<Rightarrow> int \<Rightarrow> string \<Rightarrow> bool" where
  "withinTokens encode maxTokens r =
     (r = toolResultTruncatedMarker \<or> (case countText encode r of Inr n \<Rightarrow> n \<le> maxTokens | Inl _ \<Rightarrow> True))"

lemma mul_small:
  assumes "0 \<le> a" and "a \<le> 256 * m" and "0 < m" and "m \<le> 2 ^ 27"
  shows "wrap64 (a * m) = a * m"
proof (rule wrap64_id)
  have "a * m \<le> (256 * m) * m" using assms by (simp add: mult_right_mono)
  also have "\<dots> \<le> 256 * 2 ^ 27 * 2 ^ 27"
    using assms by (intro mult_mono) auto
  finally have "a * m \<le> 256 * 2 ^ 27 * 2 ^ 27" .
  moreover have "0 \<le> a * m" using assms by simp
  ultimately show "int64 (a * m)" by (simp add: int64_def)
qed

lemma shrink_less: "0 < keep \<Longrightarrow> 0 < m \<Longrightarrow> m < count \<Longrightarrow> keep * m div count \<le> (keep::int)"
proof -
  assume a: "0 < keep" "0 < m" "m < count"
  then have "keep * m div count \<le> keep * count div count"
    by (intro zdiv_mono1) (auto intro: mult_left_mono)
  with a show ?thesis by simp
qed

lemma fitTruncatedResult_ok:
  assumes "0 < m" and "m \<le> 2 ^ 27" and "int (length rs) \<le> 256 * m" and "keep \<le> int (length rs)"
  shows "\<exists>r. fitTruncatedResult encode rs keep m = Some r \<and> withinTokens encode m r"
  using assms
proof (induction encode rs keep m rule: fitTruncatedResult.induct)
  case (1 encode rs keep m)
  show ?case
  proof (cases "keep > 0")
    case False
    then show ?thesis by (subst fitTruncatedResult.simps) (simp add: withinTokens_def)
  next
    case True
    let ?cand = "string_of_runes (take (nat keep) rs) @ toolResultTruncatedMarker"
    have t: "goTake keep rs = Some (take (nat keep) rs)" using True "1.prems"(4) by (simp add: goTake_def)
    show ?thesis
    proof (cases "countText encode ?cand")
      case (Inl e)
      then show ?thesis using True t by (subst fitTruncatedResult.simps) (simp add: withinTokens_def)
    next
      case (Inr count)
      show ?thesis
      proof (cases "count \<le> m")
        case le: True
        then show ?thesis using True t Inr by (subst fitTruncatedResult.simps) (simp add: withinTokens_def)
      next
        case gt: False
        let ?s = "goDiv (wrap64 (keep * m)) count"
        let ?k = "if ?s \<ge> keep then keep - 1 else ?s"
        have "wrap64 (keep * m) = keep * m" using True "1.prems" by (intro mul_small) auto
        then have "?k \<le> int (length rs)" using "1.prems"(4) by auto
        then have "\<exists>r. fitTruncatedResult encode rs ?k m = Some r \<and> withinTokens encode m r"
          using "1.IH" [OF True t refl Inr gt refl refl] "1.prems" by simp
        moreover have "fitTruncatedResult encode rs keep m = fitTruncatedResult encode rs ?k m"
          using True t Inr gt by (subst fitTruncatedResult.simps) (simp add: Let_def)
        ultimately show ?thesis by simp
      qed
    qed
  qed
qed

lemma clamp_ok:
  assumes "0 < m" and "m \<le> 2 ^ 27"
  shows "\<exists>c'. clampToolResultBytes c m = Some c' \<and> int (length (runes c')) \<le> 256 * m
    \<and> (int (length c) \<le> 64 * m \<longrightarrow> c' = c)"
proof -
  have w: "wrap64 (m * maxTokenizerInputBytesPerToken) = 64 * m"
    using assms by (simp add: wrap64_id int64_def maxTokenizerInputBytesPerToken_def)
  show ?thesis
  proof (cases "int (length c) \<le> 64 * m")
    case True
    then show ?thesis using w length_runes_le [of c] assms(1) by (simp add: clampToolResultBytes_def Let_def)
  next
    case False
    let ?rs = "take (nat (64 * m)) (runes c)"
    have n: "clampToolResultBytes c m = Some (string_of_runes ?rs)"
      using False w assms(1) by (simp add: clampToolResultBytes_def Let_def goTake_def)
    have "length (runes (string_of_runes ?rs)) \<le> 4 * length ?rs"
      using length_runes_le [of "string_of_runes ?rs"] length_string_of_runes_le [of ?rs] by linarith
    also have "\<dots> \<le> 4 * nat (64 * m)" by simp
    finally have "int (length (runes (string_of_runes ?rs))) \<le> 256 * m" using assms(1) by linarith
    with n False show ?thesis by simp
  qed
qed

section \<open>Properties\<close>

text \<open>
  C18. A truncated tool result respects the cap: for every positive cap up to 2^27 tokens
  truncation returns (it neither panics nor loops), the text it returns is within the cap
  by the tokenizer's own count (when the tokenizer counts it) or is the bare truncation
  marker, and a result that is short and already fits is returned unchanged.
\<close>

theorem tool_result_bounded:
  assumes "0 < maxTokens" and "maxTokens \<le> 2 ^ 27"
  shows "\<exists>r. truncateToolResult encode maxTokens c = Some r \<and> withinTokens encode maxTokens r
    \<and> (int (length c) \<le> 64 * maxTokens \<longrightarrow> withinTokens encode maxTokens c \<longrightarrow> c \<noteq> toolResultTruncatedMarker \<longrightarrow> r = c)"
proof -
  obtain c' where c: "clampToolResultBytes c maxTokens = Some c'" "int (length (runes c')) \<le> 256 * maxTokens"
    "int (length c) \<le> 64 * maxTokens \<longrightarrow> c' = c" using clamp_ok [OF assms] by blast
  show ?thesis
  proof (cases "case countText encode c' of Inr n \<Rightarrow> n \<le> maxTokens | Inl _ \<Rightarrow> True")
    case True
    then have "truncateToolResult encode maxTokens c = Some c'"
      using assms c(1) by (simp add: truncateToolResult_def split: sum.splits)
    with True c(3) show ?thesis by (simp add: withinTokens_def)
  next
    case False
    then obtain n where n: "countText encode c' = Inr n" "n > maxTokens" by (auto split: sum.splits)
    let ?len = "int (length (runes c'))"
    let ?keep = "goDiv (wrap64 (?len * maxTokens)) n"
    have w: "wrap64 (?len * maxTokens) = ?len * maxTokens" using assms c(2) by (intro mul_small) auto
    have "?keep = ?len * maxTokens div n" using w n assms(1) by (simp add: goDiv_nonneg)
    also have "\<dots> \<le> ?len"
      using shrink_less [of ?len maxTokens n] n assms(1) by (cases "?len = 0") simp_all
    finally obtain r where r: "fitTruncatedResult encode (runes c') ?keep maxTokens = Some r"
      "withinTokens encode maxTokens r" using fitTruncatedResult_ok [OF assms c(2)] by blast
    have "truncateToolResult encode maxTokens c = Some r"
      using assms c(1) n r(1) by (simp add: truncateToolResult_def Let_def)
    with r(2) False c(3) show ?thesis by (auto simp: withinTokens_def)
  qed
qed

text \<open>One token per byte, as a concrete tokenizer.\<close>

definition byteTokens :: encoder where
  "byteTokens s = Inr (map byte_of s)"

theorem tool_result_bounded_witness:
  "(0::int) < 20 \<and> (20::int) \<le> 2 ^ 27
   \<and> (\<exists>r. truncateToolResult byteTokens 20 ''a tool answer of thirty bytes.'' = Some r
        \<and> withinTokens byteTokens 20 r)"
  using tool_result_bounded [of 20 byteTokens "''a tool answer of thirty bytes.''"] by auto

text \<open>
  A cap near the largest integer, which validation accepts, crashes the run: the byte
  limit is computed as 64 times the cap with 64-bit wrap-around, and for the largest cap it
  becomes -64, so slicing the runes panics for every result, however short.
\<close>

theorem tool_result_cap_overflow:
  "truncateToolResult encode (2 ^ 63 - 1) c = None"
proof -
  have w: "wrap64 ((2 ^ 63 - 1) * maxTokenizerInputBytesPerToken) = - 64"
    by (simp add: wrap64_def maxTokenizerInputBytesPerToken_def)
  have "\<not> int (length c) \<le> - 64" "int (length (runes c)) > - 64" by simp_all
  then have "clampToolResultBytes c (2 ^ 63 - 1) = None"
    unfolding clampToolResultBytes_def w by (simp add: Let_def goTake_def)
  then show ?thesis by (simp add: truncateToolResult_def)
qed

end
