(* ===== verification/Validate.thy ===== *)
theory Validate
  imports Requests Json Truncate
begin

text \<open>
  What a request resolves to and when it is refused before any provider call: the resolve
  and validate functions of \<open>request.go\<close> and the parameter checks of \<open>structured.go\<close>.
  \<open>engineEnv\<close> collects what the engine takes from Go's runtime and from the tokenizer
  library; each field says what it stands for.
\<close>

record 'w engineEnv =
  enErrText :: "err \<Rightarrow> string" \<comment> \<open>the text of an error\<close>
  enIsPrint :: "rune \<Rightarrow> bool" \<comment> \<open>\<open>strconv.IsPrint\<close>, for \<open>%q\<close>\<close>
  enPayloadOrder :: "partType list" \<comment> \<open>the order in which the payload map is ranged\<close>
  enNumbersFit :: "string \<Rightarrow> bool" \<comment> \<open>every number of the document fits a \<open>float64\<close>\<close>
  enEncode :: encoder \<comment> \<open>the tokenizer\<close>
  enDefaultCounter :: "'w tokenCounter" \<comment> \<open>\<open>DefaultTokenCounter()\<close>\<close>
  enSchedule :: "nat \<Rightarrow> 'w \<Rightarrow> nat list" \<comment> \<open>the order in which a round's tool calls finish\<close>

abbreviation invalidRequest :: "string \<Rightarrow> err" where
  "invalidRequest msg \<equiv> Wrap (Sentinel ErrInvalidRequest) msg"

section \<open>Resolution\<close>

definition resolvedModel :: "'w request \<Rightarrow> model" where
  "resolvedModel r = (if mdID (rqModel r) \<noteq> [] then rqModel r else ccDefaultModel (clConfig (rqClient r)))"

definition assembledMessages :: "'w request \<Rightarrow> message list" where
  "assembledMessages r = promptMessages (rqPrompt r)"

definition staticTools :: "'w request \<Rightarrow> 'w tool list option" where
  "staticTools r = toolSetDefinitions (rqTools r)"

definition hasTools :: "'w request \<Rightarrow> bool" where
  "hasTools r = (rqToolProvider r \<noteq> None \<or> (case staticTools r of None \<Rightarrow> False | Some ts \<Rightarrow> length ts > 0))"

definition selectedCounter :: "'w engineEnv \<Rightarrow> 'w request \<Rightarrow> 'w tokenCounter" where
  "selectedCounter env r =
     (case rqTokenCounter r of
        Some c \<Rightarrow> c
      | None \<Rightarrow>
          (case ccTokenCounter (clConfig (rqClient r)) of
             Some c \<Rightarrow> c
           | None \<Rightarrow>
               (case dvTokenCounter (theDriver (rqClient r)) of Some c \<Rightarrow> c | None \<Rightarrow> enDefaultCounter env)))"

definition resolvedCounter :: "'w engineEnv \<Rightarrow> 'w request \<Rightarrow> 'w tool counter" where
  "resolvedCounter env r =
     (case selectedCounter env r of
        ModelCounter _ forModel \<Rightarrow> forModel (resolvedModel r)
      | PlainCounter c \<Rightarrow> c)"

definition resolvedOutputReserve :: "'w request \<Rightarrow> int" where
  "resolvedOutputReserve r =
     (if rqOutputReserveSet r then rqOutputReserveTokens r
      else case gpMaxOutputTokens (rqParams r) of
          Some v \<Rightarrow> if v > 0 then v else defaultOutputReserveTokens
        | None \<Rightarrow> defaultOutputReserveTokens)"

definition resolvedBudget :: "'w request \<Rightarrow> model \<Rightarrow> int" where
  "resolvedBudget r m =
     (let limit = (if rqMaxContextTokens r \<le> 0 then mdContextSize m else rqMaxContextTokens r) in
      if limit \<le> 0 then 0
      else let reserve = resolvedOutputReserve r in
           if reserve \<ge> limit then 0 else sub64 limit reserve)"

definition resolvedStreaming :: "'w request \<Rightarrow> bool" where
  "resolvedStreaming r =
     (if StreamingUnsupported (clientCapabilities (rqClient r) (resolvedModel r)) then False else rqStreaming r)"

definition IsTokenLimitReached :: "'w engineEnv \<Rightarrow> 'w request \<Rightarrow> err + bool" where
  "IsTokenLimitReached env r =
     (let messages = assembledMessages r; tools = (case staticTools r of None \<Rightarrow> [] | Some ts \<Rightarrow> ts);
          budget = resolvedBudget r (resolvedModel r)
      in if budget \<le> 0 then Inr False
         else case resolvedCounter env r messages tools of
             Inl e \<Rightarrow> Inl (Wrap e ''count request tokens'')
           | Inr n \<Rightarrow> Inr (n > budget))"

section \<open>Limits\<close>

definition validateOutputReserve :: "'w request \<Rightarrow> err option" where
  "validateOutputReserve r =
     (let reserve = resolvedOutputReserve r in
      if rqMaxContextTokens r > 0 \<and> reserve \<ge> rqMaxContextTokens r then
        Some (Wrapf (Sentinel ErrInvalidRequest) ''output reserve %d leaves no room in max context %d''
          [ArgInt reserve, ArgInt (rqMaxContextTokens r)])
      else None)"

definition validateLimits :: "'w request \<Rightarrow> err option" where
  "validateLimits r =
     (if rqMaxRounds r \<le> 0 \<or> rqMaxConcurrentTools r \<le> 0 then
        Some (invalidRequest ''round and concurrency limits must be positive'')
      else if rqMaxContextTokens r < 0 \<or> rqOutputReserveTokens r < 0 \<or> rqMaxToolResultTokens r < 0 then
        Some (invalidRequest ''token limits must not be negative'')
      else if rqToolTimeout r < 0 \<or> rqTimeout r < 0 then
        Some (invalidRequest ''timeouts must not be negative'')
      else if (case gpMaxOutputTokens (rqParams r) of Some v \<Rightarrow> v < 0 | None \<Rightarrow> False) then
        Some (invalidRequest ''maximum output tokens must not be negative'')
      else validateOutputReserve r)"

definition validateOutputLimit :: "'w request \<Rightarrow> model \<Rightarrow> err option" where
  "validateOutputLimit r m =
     (case gpMaxOutputTokens (rqParams r) of
        Some v \<Rightarrow>
          if mdContextSize m > 0 \<and> v > mdContextSize m then
            Some (Wrapf (Sentinel ErrMaxOutputExceedsContext) ''max output %d exceeds context %d for model %q''
              [ArgInt v, ArgInt (mdContextSize m), ArgStr (mdID m)])
          else None
      | None \<Rightarrow> None)"

section \<open>Capabilities\<close>

definition validateParameterCapabilities :: "'w request \<Rightarrow> capabilities \<Rightarrow> err option" where
  "validateParameterCapabilities r caps =
     (let p = rqParams r in
      if gpSeed p \<noteq> None \<and> \<not> SupportsSeed caps then Some (invalidRequest ''seed is unsupported'')
      else if (gpTemperature p \<noteq> None \<or> gpTopP p \<noteq> None) \<and> \<not> SupportsSamplingParams caps then
        Some (invalidRequest ''sampling parameters are unsupported'')
      else if (gpFrequencyPenalty p \<noteq> None \<or> gpPresencePenalty p \<noteq> None) \<and> \<not> SupportsSamplingPenalties caps then
        Some (invalidRequest ''sampling penalties are unsupported'')
      else None)"

definition reasoningEffortRank :: "reasoningEffort \<Rightarrow> int" where
  "reasoningEffortRank e =
     (if e = ReasoningEffortMinimal then 1 else if e = ReasoningEffortLow then 2
      else if e = ReasoningEffortMedium then 3 else if e = ReasoningEffortHigh then 4
      else if e = ReasoningEffortXHigh then 5 else if e = ReasoningEffortMax then 6 else 0)"

definition isKnownReasoningEffort :: "model \<Rightarrow> reasoningEffort \<Rightarrow> bool" where
  "isKnownReasoningEffort m e =
     (if e \<in> {ReasoningEffortMinimal, ReasoningEffortLow, ReasoningEffortMedium, ReasoningEffortHigh,
              ReasoningEffortXHigh, ReasoningEffortMax} then True
      else let ls = mdReasoningLevels m in
           e = rlMin ls \<or> e = rlLow ls \<or> e = rlMedium ls \<or> e = rlHigh ls \<or> e = rlMax ls)"

definition validateReasoningConfiguration :: "model \<Rightarrow> reasoningEffort \<Rightarrow> capabilities \<Rightarrow> err option" where
  "validateReasoningConfiguration m effort caps =
     (if effort = ReasoningEffortUnset then None
      else if effort = ReasoningEffortNone then
        (if SupportsDisablingReasoning caps then None
         else Some (invalidRequest ''disabling reasoning is unsupported''))
      else if \<not> SupportsReasoningEffort caps then Some (invalidRequest ''reasoning effort is unsupported'')
      else if \<not> isKnownReasoningEffort m effort then Some (invalidRequest ''reasoning effort is invalid'')
      else let effortRank = reasoningEffortRank effort;
               maximumRank = reasoningEffortRank (MaxReasoningEffort caps)
           in if maximumRank > 0 \<and> effortRank > maximumRank then
                Some (invalidRequest ''reasoning effort exceeds the model maximum'')
              else if effortRank < reasoningEffortRank (ReasoningLevelMin m) then
                Some (invalidRequest ''reasoning effort is below the model minimum'')
              else None)"

text \<open>\<open>json.Unmarshal\<close> into a map succeeds on a valid document that is an object.\<close>

definition isJSONObject :: "'w engineEnv \<Rightarrow> string \<Rightarrow> bool" where
  "isJSONObject env v =
     (json_valid v \<and> enNumbersFit env v \<and> (case dropWhile jspace v of c # _ \<Rightarrow> c = CHR ''{'' | [] \<Rightarrow> False))"

definition validateResponseFormat :: "'w engineEnv \<Rightarrow> responseFormat option \<Rightarrow> capabilities \<Rightarrow> err option" where
  "validateResponseFormat env fmt caps =
     (case fmt of
        None \<Rightarrow> None
      | Some f \<Rightarrow>
          if rfType f = ResponseFormatTypeUnset \<or> rfType f = ResponseFormatTypeText then None
          else if rfType f = ResponseFormatTypeJSONObject then
            (if \<not> SupportsResponseFormatJSONObject caps then
               Some (invalidRequest ''JSON object responses are unsupported'') else None)
          else if rfType f = ResponseFormatTypeJSONSchema then
            (if \<not> SupportsResponseFormatJSONSchema caps then
               Some (invalidRequest ''JSON schema responses are unsupported'')
             else if trimSpace (rfName f) = [] \<or> \<not> isJSONObject env (rfSchema f) then
               Some (invalidRequest ''JSON schema responses require a name and valid schema'')
             else None)
          else Some (invalidRequest ''response format type is unsupported''))"

definition partSupported :: "capabilities \<Rightarrow> partType \<Rightarrow> bool" where
  "partSupported caps t =
     (if t = PartTypeText then True else if t = PartTypeImage then SupportsImageInput caps
      else if t = PartTypeAudio then SupportsAudioInput caps
      else if t = PartTypeFile then SupportsFileInput caps else False)"

fun validateContentLoop :: "'w engineEnv \<Rightarrow> string \<Rightarrow> capabilities \<Rightarrow> nat \<Rightarrow> message list \<Rightarrow> err option" where
  "validateContentLoop env modelID caps i [] = None"
| "validateContentLoop env modelID caps i (m # ms) =
     (case validateContent (enPayloadOrder env) (mContent m) of
        Some e \<Rightarrow> Some (Wrapf e ''message %d'' [ArgInt (int i)])
      | None \<Rightarrow>
          (case find (\<lambda>t. \<not> partSupported caps t) (contentTypes (mContent m)) of
             Some t \<Rightarrow> Some (Wrapf (Sentinel ErrUnsupportedContent)
               ''message %d carries %s content, which model %q does not accept''
               [ArgInt (int i), ArgStr t, ArgStr modelID])
           | None \<Rightarrow> validateContentLoop env modelID caps (i + 1) ms))"

definition validateMessageContentCapabilities ::
  "'w engineEnv \<Rightarrow> 'w request \<Rightarrow> message list \<Rightarrow> capabilities \<Rightarrow> err option" where
  "validateMessageContentCapabilities env r ms caps = validateContentLoop env (mdID (resolvedModel r)) caps 0 ms"

definition validateContentCapabilities :: "'w engineEnv \<Rightarrow> 'w request \<Rightarrow> capabilities \<Rightarrow> err option" where
  "validateContentCapabilities env r caps =
     validateMessageContentCapabilities env r (promptMessages (rqPrompt r)) caps"

definition validateToolChoice :: "toolChoice \<Rightarrow> 'w tool list \<Rightarrow> bool \<Rightarrow> err option" where
  "validateToolChoice choice tools supported =
     (if chMode choice = ToolChoiceModeUnset then None
      else if \<not> supported then Some (invalidRequest ''tool choice is unsupported'')
      else if chMode choice \<in> {ToolChoiceModeAuto, ToolChoiceModeNone, ToolChoiceModeRequired} then None
      else if chMode choice = ToolChoiceModeTool then
        (if list_ex (\<lambda>t. tlName t = chName choice \<and> chName choice \<noteq> []) tools then None
         else Some (invalidRequest ''tool choice names an unknown tool''))
      else Some (invalidRequest ''tool choice mode is invalid''))"

definition validateStrictToolArguments :: "'w tool list \<Rightarrow> capabilities \<Rightarrow> err option" where
  "validateStrictToolArguments tools caps =
     (if SupportsStrictToolArguments caps then None
      else if list_ex tlStrictArguments tools then
        Some (invalidRequest ''strict tool arguments are unsupported'')
      else None)"

definition parallelToolCallsEnabled :: "'w request \<Rightarrow> bool" where
  "parallelToolCallsEnabled r = (gpParallelToolCalls (rqParams r) = Some True)"

definition validateToolCapabilities :: "'w request \<Rightarrow> 'w tool list \<Rightarrow> capabilities \<Rightarrow> err option" where
  "validateToolCapabilities r tools caps =
     first_error
       [validateToolChoice (gpToolChoice (rqParams r)) tools (SupportsToolChoice caps),
        validateStrictToolArguments tools caps,
        (if gpParallelToolCalls (rqParams r) \<noteq> None \<and> \<not> SupportsParallelToolCalls caps then
           Some (invalidRequest ''parallel tool calls are unsupported'') else None),
        (if gpResponseFormat (rqParams r) \<noteq> None \<and> parallelToolCallsEnabled r then
           Some (invalidRequest ''structured output conflicts with parallel tool calls'') else None),
        (if gpReasoningEffort (rqParams r) = ReasoningEffortMinimal \<and> parallelToolCallsEnabled r then
           Some (invalidRequest ''minimal reasoning conflicts with parallel tool calls'') else None)]"

text \<open>Only a nil tool slice skips the tool checks; an empty one does not.\<close>

definition validateCapabilities ::
  "'w engineEnv \<Rightarrow> 'w request \<Rightarrow> model \<Rightarrow> 'w tool list option \<Rightarrow> err option" where
  "validateCapabilities env r m tools =
     (let caps = clientCapabilities (rqClient r) m in
      first_error
        [validateParameterCapabilities r caps,
         validateReasoningConfiguration m (gpReasoningEffort (rqParams r)) caps,
         validateResponseFormat env (gpResponseFormat (rqParams r)) caps,
         validateContentCapabilities env r caps,
         (case tools of None \<Rightarrow> None | Some ts \<Rightarrow> validateToolCapabilities r ts caps)])"

definition validateRequest :: "'w engineEnv \<Rightarrow> 'w request \<Rightarrow> bool \<Rightarrow> err option" where
  "validateRequest env r withTools =
     (if clDriver (rqClient r) = None then Some (invalidRequest ''driver is required'')
      else case validateLimits r of
          Some e \<Rightarrow> Some e
        | None \<Rightarrow>
            let m = resolvedModel r in
            if mdID m = [] then Some (invalidRequest ''model id is required'')
            else case validateOutputLimit r m of
                Some e \<Rightarrow> Some e
              | None \<Rightarrow> validateCapabilities env r m (if withTools then staticTools r else None))"

section \<open>Properties\<close>

text \<open>
  C16. An accepted request has limits the engine can honour: a driver, a model id, at least
  one round and one tool slot, no negative timeout or token limit, and an explicit context
  limit always leaves a positive budget, which together with the reply's reserve is exactly
  that limit.
\<close>

theorem accepted_request_limits:
  assumes "validateRequest env r withTools = None" and "rqMaxContextTokens r < 2 ^ 63"
  shows "clDriver (rqClient r) \<noteq> None \<and> mdID (resolvedModel r) \<noteq> []
    \<and> 1 \<le> rqMaxRounds r \<and> 1 \<le> rqMaxConcurrentTools r
    \<and> 0 \<le> rqToolTimeout r \<and> 0 \<le> rqTimeout r \<and> 0 \<le> rqMaxToolResultTokens r
    \<and> (rqMaxContextTokens r > 0 \<longrightarrow>
         0 < resolvedBudget r m \<and> resolvedBudget r m + resolvedOutputReserve r = rqMaxContextTokens r)"
proof -
  have l: "validateLimits r = None" "clDriver (rqClient r) \<noteq> None" "mdID (resolvedModel r) \<noteq> []"
    using assms(1) by (auto simp: validateRequest_def Let_def split: if_splits option.splits)
  then have lim: "1 \<le> rqMaxRounds r" "1 \<le> rqMaxConcurrentTools r" "0 \<le> rqToolTimeout r" "0 \<le> rqTimeout r"
    "0 \<le> rqMaxToolResultTokens r" "0 \<le> rqOutputReserveTokens r" "validateOutputReserve r = None"
    by (auto simp: validateLimits_def split: if_splits)
  have res: "0 \<le> resolvedOutputReserve r"
    using lim(6) by (auto simp: resolvedOutputReserve_def defaultOutputReserveTokens_def split: option.splits)
  have "0 < resolvedBudget r m \<and> resolvedBudget r m + resolvedOutputReserve r = rqMaxContextTokens r"
    if "rqMaxContextTokens r > 0"
  proof -
    have lt: "resolvedOutputReserve r < rqMaxContextTokens r"
      using lim(7) that by (auto simp: validateOutputReserve_def Let_def split: if_splits)
    then have "sub64 (rqMaxContextTokens r) (resolvedOutputReserve r) = rqMaxContextTokens r - resolvedOutputReserve r"
      using res assms(2) that by (intro sub64_exact) (simp add: int64_def)
    with lt that show ?thesis by (simp add: resolvedBudget_def Let_def)
  qed
  with l lim show ?thesis by blast
qed

lemma validateContentLoop_None:
  assumes "set (enPayloadOrder env) = set payloadTypes"
  shows "validateContentLoop env mid caps i ms = None \<longleftrightarrow>
    (\<forall>m \<in> set ms. \<forall>p \<in> set (mContent m). well_formed_part p \<and> partSupported caps (ptType p))"
proof (induction ms arbitrary: i)
  case (Cons m ms)
  have t: "find (\<lambda>t. \<not> partSupported caps t) (contentTypes c) = None \<longleftrightarrow> (\<forall>p \<in> set c. partSupported caps (ptType p))"
    for c
  proof -
    have "ptType ` set (dedup_by ptType {} c) = ptType ` set c" by (simp add: dedup_by_keys)
    then have "set (contentTypes c) = ptType ` set c" by (simp add: contentTypes_def)
    then show ?thesis by (simp add: find_None_iff)
  qed
  show ?case using Cons t [of "mContent m"] validateContent_None [OF assms, of "mContent m"]
    by (auto split: option.splits)
qed simp

text \<open>A client over a driver that answers with one delta, for the witnesses.\<close>

definition plainCapabilities :: capabilities where
  "plainCapabilities = \<lparr>SupportsResponseFormatJSONSchema = True, SupportsResponseFormatJSONObject = True,
     SupportsStrictToolArguments = True, SupportsToolChoice = True, SupportsParallelToolCalls = True,
     SupportsSeed = True, SupportsSamplingPenalties = True, SupportsSamplingParams = True,
     SupportsReasoningEffort = True, SupportsDisablingReasoning = True, SupportsPromptCaching = False,
     StreamingUnsupported = False, SupportsImageInput = False, SupportsAudioInput = False, SupportsFileInput = False,
     MaxReasoningEffort = ReasoningEffortHigh\<rparr>"

definition echoRun :: "'w driverRequest \<Rightarrow> 'w \<Rightarrow> 'w drun" where
  "echoRun q w = Emit w (emptyDelta\<lparr>dText := ''ok'', dFinishReason := FinishReasonStop\<rparr>) (\<lambda>w' e. Done w' zeroUsage e)"

definition echoDriver :: "'w driver" where
  "echoDriver = \<lparr>dvStream = echoRun, dvComplete = echoRun, dvListModels = (\<lambda>w. (w, Inr [])),
     dvCapabilities = (\<lambda>_. plainCapabilities), dvTokenCounter = None\<rparr>"

definition sampleModel :: model where
  "sampleModel = zeroModel\<lparr>mdID := ''m'', mdContextSize := 1000\<rparr>"

definition sampleRequest :: "'w request" where
  "sampleRequest = WithModel sampleModel (WithMaxContextTokens 5000
     (WithPrompt (UserText NewPrompt ''hi'') (NewRequest (NewClient (Some echoDriver) []))))"

definition sampleEnv :: "'w engineEnv" where
  "sampleEnv = \<lparr>enErrText = (\<lambda>_. ''error''), enIsPrint = (\<lambda>_. True), enPayloadOrder = payloadTypes,
     enNumbersFit = (\<lambda>_. True), enEncode = byteTokens, enDefaultCounter = PlainCounter (builtInCount byteTokens),
     enSchedule = (\<lambda>n _. [0..<n])\<rparr>"

lemma sampleRequest_valid: "validateRequest sampleEnv (sampleRequest :: unit request) False = None"
  by code_simp

theorem accepted_request_limits_witness:
  "validateRequest sampleEnv (sampleRequest :: unit request) False = None
   \<and> 0 < resolvedBudget (sampleRequest :: unit request) sampleModel"
proof -
  have "rqMaxContextTokens (sampleRequest :: unit request) = 5000"
    by (simp add: sampleRequest_def WithModel_def WithMaxContextTokens_def)
  with accepted_request_limits [OF sampleRequest_valid] sampleRequest_valid show ?thesis by simp
qed

text \<open>
  Content is refused before the network exactly when it has to be: the check of a
  transcript succeeds if and only if every part of every message is well formed and of a
  type the model's capabilities admit.
\<close>

theorem content_capabilities_iff:
  assumes "set (enPayloadOrder env) = set payloadTypes"
  shows "validateMessageContentCapabilities env r ms caps = None \<longleftrightarrow>
    (\<forall>m \<in> set ms. \<forall>p \<in> set (mContent m). well_formed_part p \<and> partSupported caps (ptType p))"
  by (simp add: validateMessageContentCapabilities_def validateContentLoop_None [OF assms])

theorem content_capabilities_iff_witness:
  "set (enPayloadOrder (sampleEnv :: unit engineEnv)) = set payloadTypes
   \<and> validateMessageContentCapabilities (sampleEnv :: unit engineEnv) sampleRequest
       [emptyMessage\<lparr>mContent := [ImageBytes ''x'' ''image/png'']\<rparr>] plainCapabilities \<noteq> None"
proof -
  have o: "set (enPayloadOrder (sampleEnv :: unit engineEnv)) = set payloadTypes" by (simp add: sampleEnv_def)
  have "\<not> partSupported plainCapabilities (ptType (ImageBytes ''x'' ''image/png''))" by code_simp
  with content_capabilities_iff [OF o, of sampleRequest
      "[emptyMessage\<lparr>mContent := [ImageBytes ''x'' ''image/png'']\<rparr>]" plainCapabilities] o
  show ?thesis by auto
qed

text \<open>
  Reasoning effort is held to the model's range: an effort the check admits is unset,
  the disabling value, or a known level whose rank is at least that of the model's lowest
  level and, when the model has a ceiling, at most that of the ceiling.
\<close>

theorem reasoning_effort_in_range:
  "validateReasoningConfiguration m effort caps = None \<longleftrightarrow>
     effort = ReasoningEffortUnset
     \<or> (effort = ReasoningEffortNone \<and> SupportsDisablingReasoning caps)
     \<or> (effort \<notin> {ReasoningEffortUnset, ReasoningEffortNone} \<and> SupportsReasoningEffort caps
        \<and> isKnownReasoningEffort m effort
        \<and> reasoningEffortRank (ReasoningLevelMin m) \<le> reasoningEffortRank effort
        \<and> (reasoningEffortRank (MaxReasoningEffort caps) = 0
           \<or> reasoningEffortRank effort \<le> reasoningEffortRank (MaxReasoningEffort caps)))"
proof -
  have "0 \<le> reasoningEffortRank e" for e by (simp add: reasoningEffortRank_def)
  from this [of "MaxReasoningEffort caps"] show ?thesis
    by (auto simp: validateReasoningConfiguration_def Let_def)
qed

text \<open>
  A model's own non-standard level is refused: a level the model declares under a name
  outside the package's vocabulary is recognised, but it ranks below every standard level, so
  whenever the model's lowest level is a standard one the effort is rejected as too low, even
  when it is the model's highest.
\<close>

theorem custom_reasoning_level_refused:
  assumes "effort \<notin> {ReasoningEffortUnset, ReasoningEffortNone, ReasoningEffortMinimal, ReasoningEffortLow,
      ReasoningEffortMedium, ReasoningEffortHigh, ReasoningEffortXHigh, ReasoningEffortMax}"
    and "reasoningEffortRank (ReasoningLevelMin m) > 0"
  shows "validateReasoningConfiguration m effort caps \<noteq> None"
proof -
  have "reasoningEffortRank effort = 0" using assms(1) by (simp add: reasoningEffortRank_def)
  with assms show ?thesis by (auto simp: validateReasoningConfiguration_def Let_def)
qed

definition customModel :: model where
  "customModel = zeroModel\<lparr>mdID := ''c'', mdReasoningLevels := \<lparr>rlMin = ''low'', rlLow = ''low'',
     rlMedium = ''medium'', rlHigh = ''high'', rlMax = ''ultra''\<rparr>\<rparr>"

theorem custom_reasoning_level_refused_witness:
  "ReasoningLevelMax customModel = ''ultra'' \<and> isKnownReasoningEffort customModel ''ultra''
   \<and> validateReasoningConfiguration customModel (ReasoningLevelMax customModel) plainCapabilities \<noteq> None"
proof -
  have u: "ReasoningLevelMax customModel = ''ultra''" and k: "isKnownReasoningEffort customModel ''ultra''"
    and r: "reasoningEffortRank (ReasoningLevelMin customModel) > 0" by code_simp+
  with custom_reasoning_level_refused [OF _ r, of "''ultra''" plainCapabilities] show ?thesis by simp
qed

end
