(* ===== verification/Assembler.thy ===== *)
theory Assembler
  imports Validate
begin

text \<open>
  Assembling an assistant turn from a driver's deltas (\<open>consumeDelta\<close> and what it calls in
  \<open>engine.go\<close>). The map of pending calls holds POINTERS, and relocating a call shares its
  pointer between two indices, so the model keeps the map from indices to addresses apart
  from the heap of calls: \<open>asCalls\<close> lists the map's entries, \<open>asHeap\<close> the calls by address.
\<close>

record assembler =
  asCalls :: "(int \<times> nat) list"
  asHeap :: "toolCall list"
  asCappedArguments :: "string set"
  asWarnedToolCallCap :: bool

definition emptyCall :: toolCall where
  "emptyCall = \<lparr>tcID = [], tcName = [], tcArguments = []\<rparr>"

definition newAssembler :: "string set \<Rightarrow> bool \<Rightarrow> assembler" where
  "newAssembler capped warned =
     \<lparr>asCalls = [], asHeap = [], asCappedArguments = capped, asWarnedToolCallCap = warned\<rparr>"

definition maxToolCallsPerRound :: int where "maxToolCallsPerRound = 512"
definition maxToolCallArgumentsBytes :: int where "maxToolCallArgumentsBytes = 1048576"

definition callAt :: "assembler \<Rightarrow> int \<Rightarrow> toolCall option" where
  "callAt a i = map_option (\<lambda>addr. asHeap a ! addr) (map_of (asCalls a) i)"

definition isDifferentCallAtSameIndex :: "toolCall option \<Rightarrow> toolCallDelta \<Rightarrow> bool" where
  "isDifferentCallAtSameIndex call d =
     (case call of None \<Rightarrow> False | Some c \<Rightarrow> tdID d \<noteq> [] \<and> tcID c \<noteq> [] \<and> tdID d \<noteq> tcID c)"

definition unusedToolCallIndex :: "(int \<times> nat) list \<Rightarrow> int" where
  "unusedToolCallIndex calls = foldl (\<lambda>nxt (i, _). if i \<ge> nxt then add64 i 1 else nxt) 0 calls"

text \<open>The first half: find or open the call this delta continues; \<open>None\<close> when the cap drops it.\<close>

definition openCall :: "assembler \<Rightarrow> toolCallDelta \<Rightarrow> assembler \<times> nat option" where
  "openCall a d =
     (let different = isDifferentCallAtSameIndex (callAt a (tdIndex d)) d;
          addr = map_of (asCalls a) (tdIndex d);
          calls = (if different then AList.update (unusedToolCallIndex (asCalls a)) (the addr) (asCalls a)
                   else asCalls a);
          found = (if different then None else addr)
      in case found of
           Some p \<Rightarrow> (a\<lparr>asCalls := calls\<rparr>, Some p)
         | None \<Rightarrow>
             if int (length calls) \<ge> maxToolCallsPerRound then
               (a\<lparr>asCalls := calls, asWarnedToolCallCap := True\<rparr>, None)
             else (a\<lparr>asCalls := AList.update (tdIndex d) (length (asHeap a)) calls,
                     asHeap := asHeap a @ [emptyCall]\<rparr>, Some (length (asHeap a))))"

definition extendCall :: "toolCall \<Rightarrow> toolCallDelta \<Rightarrow> toolCall \<times> bool" where
  "extendCall c d =
     (let c1 = (if tdID d \<noteq> [] then c\<lparr>tcID := tdID d\<rparr> else c);
          c2 = (if tdName d \<noteq> [] then c1\<lparr>tcName := tdName d\<rparr> else c1)
      in if int (length (tcArguments c2)) + int (length (tdArguments d)) > maxToolCallArgumentsBytes
         then (c2, True)
         else (c2\<lparr>tcArguments := tcArguments c2 @ tdArguments d\<rparr>, False))"

definition runCallback :: "('w, 'a) callback option \<Rightarrow> string \<Rightarrow> 'a \<Rightarrow> 'w \<Rightarrow> 'w \<times> err option" where
  "runCallback cb what ev w =
     (case cb of
        None \<Rightarrow> (w, None)
      | Some f \<Rightarrow> (case f ev w of (w', None) \<Rightarrow> (w', None) | (w', Some e) \<Rightarrow> (w', Some (Wrap e what))))"

definition consumeToolCallDelta ::
  "'w request \<Rightarrow> assembler \<Rightarrow> toolCallDelta \<Rightarrow> 'w \<Rightarrow> assembler \<times> 'w \<times> err option" where
  "consumeToolCallDelta r a d w =
     (case openCall a d of
        (a1, None) \<Rightarrow> (a1, w, None)
      | (a1, Some p) \<Rightarrow>
          let (c, capped) = extendCall (asHeap a1 ! p) d;
              a2 = a1\<lparr>asHeap := (asHeap a1)[p := c]\<rparr>;
              a3 = (if capped then a2\<lparr>asCappedArguments := insert (tcID c) (asCappedArguments a2)\<rparr> else a2);
              (w', e) = runCallback (rqOnToolCallFragment r) ''on tool call fragment'' d w
          in (a3, w', e))"

definition dispatchRawDelta :: "'w request \<Rightarrow> delta \<Rightarrow> 'w \<Rightarrow> 'w \<times> err option" where
  "dispatchRawDelta r d w = runCallback (rqOnDelta r) ''on delta'' d w"

definition dispatchReasoningDelta :: "'w request \<Rightarrow> delta \<Rightarrow> 'w \<Rightarrow> 'w \<times> err option" where
  "dispatchReasoningDelta r d w =
     (if dReasoning d \<noteq> [] then runCallback (rqOnReasoning r) ''on reasoning'' (dReasoning d) w else (w, None))"

definition dispatchTextDelta :: "'w request \<Rightarrow> delta \<Rightarrow> 'w \<Rightarrow> 'w \<times> err option" where
  "dispatchTextDelta r d w =
     (if dText d \<noteq> [] then runCallback (rqOnText r) ''on text'' (dText d) w else (w, None))"

definition dispatchDelta :: "'w request \<Rightarrow> delta \<Rightarrow> 'w \<Rightarrow> 'w \<times> err option" where
  "dispatchDelta r d w =
     (case dispatchRawDelta r d w of
        (w1, Some e) \<Rightarrow> (w1, Some e)
      | (w1, None) \<Rightarrow>
          (case dispatchReasoningDelta r d w1 of
             (w2, Some e) \<Rightarrow> (w2, Some e)
           | (w2, None) \<Rightarrow> dispatchTextDelta r d w2))"

definition absorbDelta :: "message \<Rightarrow> delta \<Rightarrow> message" where
  "absorbDelta m d =
     m\<lparr>mContent := (if dText d \<noteq> [] then appendText (mContent m) (dText d) else mContent m),
       mReasoning := mReasoning m @ dReasoning d,
       mProviderReasoning := (if length (dProviderReasoning d) > 0 then dProviderReasoning d else mProviderReasoning m)\<rparr>"

definition consumeDelta ::
  "'w request \<Rightarrow> message \<times> assembler \<Rightarrow> delta \<Rightarrow> 'w \<Rightarrow> (message \<times> assembler) \<times> 'w \<times> err option" where
  "consumeDelta r st d w =
     (let m = absorbDelta (fst st) d in
      case dToolCall d of
        None \<Rightarrow> (case dispatchDelta r d w of (w', e) \<Rightarrow> ((m, snd st), w', e))
      | Some td \<Rightarrow>
          (case consumeToolCallDelta r (snd st) td w of
             (a, w', Some e) \<Rightarrow> ((m, a), w', Some e)
           | (a, w', None) \<Rightarrow> (case dispatchDelta r d w' of (w'', e) \<Rightarrow> ((m, a), w'', e))))"

definition normalizedToolArguments :: "string \<Rightarrow> string \<times> bool" where
  "normalizedToolArguments args =
     (let args' = (if trimSpace args = [] then ''{}'' else args) in (args', json_valid args'))"

fun drainLoop :: "string set \<Rightarrow> toolCall list \<Rightarrow> toolCall list" where
  "drainLoop seen [] = []"
| "drainLoop seen (c # cs) =
     (if tcID c = [] then drainLoop seen cs
      else if tcID c \<in> seen then drainLoop seen cs
      else c\<lparr>tcArguments := fst (normalizedToolArguments (tcArguments c))\<rparr> # drainLoop (insert (tcID c) seen) cs)"

text \<open>The calls in the order of the sorted indices.\<close>

definition callsByIndex :: "assembler \<Rightarrow> toolCall list" where
  "callsByIndex a = map (\<lambda>i. the (callAt a i)) (sort (map fst (asCalls a)))"

definition drainToolCalls :: "assembler \<Rightarrow> toolCall list" where
  "drainToolCalls a = drainLoop {} (callsByIndex a)"

section \<open>Drained calls\<close>

definition callsReady :: "toolCall list \<Rightarrow> bool" where
  "callsReady cs \<longleftrightarrow> distinct (map tcID cs) \<and> (\<forall>c \<in> set cs. tcID c \<noteq> [] \<and> \<not> blank (tcArguments c))"

lemma normalized_not_blank: "\<not> blank (fst (normalizedToolArguments args))"
proof -
  have "\<not> blank ''{}''"
    by (rule not_blank_Cons) (simp_all add: byte_of_def isSpace_def)
  then show ?thesis by (simp add: normalizedToolArguments_def Let_def blank_def)
qed

definition normalizeCall :: "toolCall \<Rightarrow> toolCall" where
  "normalizeCall c = c\<lparr>tcArguments := fst (normalizedToolArguments (tcArguments c))\<rparr>"

lemma normalizeCall_simps [simp]: "tcID (normalizeCall c) = tcID c" "\<not> blank (tcArguments (normalizeCall c))"
  by (simp_all add: normalizeCall_def normalized_not_blank)

lemma drainLoop_eq: "drainLoop seen cs = map normalizeCall (dedup_by tcID seen (filter (\<lambda>c. tcID c \<noteq> []) cs))"
  by (induction seen cs rule: drainLoop.induct) (simp_all add: normalizeCall_def)

lemma callsReady_normalized:
  "distinct (map tcID cs) \<Longrightarrow> (\<forall>c \<in> set cs. tcID c \<noteq> []) \<Longrightarrow> callsReady (map normalizeCall cs)"
  by (simp add: callsReady_def comp_def)

lemma dedup_filter_all: "\<forall>c \<in> set (dedup_by key seen (filter P cs)). P c"
proof
  fix c assume "c \<in> set (dedup_by key seen (filter P cs))"
  from subsetD [OF dedup_by_subset this] show "P c" by simp
qed

lemma drainToolCalls_ready: "callsReady (drainToolCalls a)"
  unfolding drainToolCalls_def drainLoop_eq
  by (rule callsReady_normalized) (rule dedup_by_distinct_keys, rule dedup_filter_all)

section \<open>Consuming a whole stream\<close>

fun consumeAll ::
  "'w request \<Rightarrow> message \<times> assembler \<Rightarrow> delta list \<Rightarrow> 'w \<Rightarrow> (message \<times> assembler) \<times> 'w \<times> err option" where
  "consumeAll r st [] w = (st, w, None)"
| "consumeAll r st (d # ds) w =
     (case consumeDelta r st d w of
        (st', w', Some e) \<Rightarrow> (st', w', Some e)
      | (st', w', None) \<Rightarrow> consumeAll r st' ds w')"

lemma consumeDelta_message: "fst (fst (consumeDelta r st d w)) = absorbDelta (fst st) d"
  by (simp add: consumeDelta_def Let_def split: option.split prod.split)

definition assistantSoFar :: "string \<Rightarrow> content" where
  "assistantSoFar t = (if t = [] then [] else Text t)"

lemma absorbDelta_text:
  "mContent m = assistantSoFar t \<Longrightarrow> mContent (absorbDelta m d) = assistantSoFar (t @ dText d)"
  by (auto simp: absorbDelta_def assistantSoFar_def appendText_Nil appendText_Text)

fun lastEnvelope :: "string \<Rightarrow> delta list \<Rightarrow> string" where
  "lastEnvelope p [] = p"
| "lastEnvelope p (d # ds) = lastEnvelope (if dProviderReasoning d \<noteq> [] then dProviderReasoning d else p) ds"

lemma consumeAll_message:
  "consumeAll r st ds w = ((m', a'), w', None) \<Longrightarrow> mContent (fst st) = assistantSoFar t \<Longrightarrow>
   mContent m' = assistantSoFar (t @ concat (map dText ds))
   \<and> mReasoning m' = mReasoning (fst st) @ concat (map dReasoning ds)
   \<and> mProviderReasoning m' = lastEnvelope (mProviderReasoning (fst st)) ds
   \<and> mRole m' = mRole (fst st) \<and> mToolCalls m' = mToolCalls (fst st)"
proof (induction ds arbitrary: st w t)
  case (Cons d ds)
  obtain st1 w1 e1 where c: "consumeDelta r st d w = (st1, w1, e1)" by (cases "consumeDelta r st d w")
  with Cons.prems(1) have e: "e1 = None" and rest: "consumeAll r st1 ds w1 = ((m', a'), w', None)"
    by (auto split: option.splits)
  have m: "fst st1 = absorbDelta (fst st) d" using consumeDelta_message [of r st d w] c by simp
  then have "mContent (fst st1) = assistantSoFar (t @ dText d)"
    using absorbDelta_text [OF Cons.prems(2)] by simp
  from Cons.IH [OF rest this] show ?case by (simp add: m absorbDelta_def)
qed simp

text \<open>The calls' part of a stream does not depend on the callbacks.\<close>

definition addFragment :: "assembler \<Rightarrow> toolCallDelta \<Rightarrow> assembler" where
  "addFragment a d =
     (case openCall a d of
        (a1, None) \<Rightarrow> a1
      | (a1, Some p) \<Rightarrow>
          let (c, capped) = extendCall (asHeap a1 ! p) d; a2 = a1\<lparr>asHeap := (asHeap a1)[p := c]\<rparr>
          in if capped then a2\<lparr>asCappedArguments := insert (tcID c) (asCappedArguments a2)\<rparr> else a2)"

lemma consumeToolCallDelta_calls: "fst (consumeToolCallDelta r a d w) = addFragment a d"
  by (simp add: consumeToolCallDelta_def addFragment_def Let_def split: prod.split option.split)

definition fragments :: "delta list \<Rightarrow> toolCallDelta list" where
  "fragments ds = concat (map (\<lambda>d. case dToolCall d of None \<Rightarrow> [] | Some t \<Rightarrow> [t]) ds)"

lemma consumeDelta_calls:
  "snd (fst (consumeDelta r st d w)) = (case dToolCall d of None \<Rightarrow> snd st | Some t \<Rightarrow> addFragment (snd st) t)"
  using consumeToolCallDelta_calls [of r "snd st" _ w]
  by (auto simp: consumeDelta_def Let_def split: option.split prod.split) (metis fst_conv)+

lemma consumeAll_calls:
  "consumeAll r st ds w = ((m', a'), w', None) \<Longrightarrow> a' = foldl addFragment (snd st) (fragments ds)"
proof (induction ds arbitrary: st w)
  case (Cons d ds)
  obtain st1 w1 e1 where c: "consumeDelta r st d w = (st1, w1, e1)" by (cases "consumeDelta r st d w")
  with Cons.prems have "e1 = None" and rest: "consumeAll r st1 ds w1 = ((m', a'), w', None)"
    by (auto split: option.splits)
  have "snd st1 = foldl addFragment (snd st) (fragments [d])"
    using consumeDelta_calls [of r st d w] c by (simp add: fragments_def split: option.splits)
  with Cons.IH [OF rest] show ?case by (simp add: fragments_def)
qed (simp add: fragments_def)

section \<open>Argument sizes\<close>

definition argumentsCapped :: "assembler \<Rightarrow> bool" where
  "argumentsCapped a \<longleftrightarrow> (\<forall>c \<in> set (asHeap a). int (length (tcArguments c)) \<le> maxToolCallArgumentsBytes)"

lemma extendCall_capped:
  "int (length (tcArguments c)) \<le> maxToolCallArgumentsBytes \<Longrightarrow>
   int (length (tcArguments (fst (extendCall c d)))) \<le> maxToolCallArgumentsBytes"
  by (auto simp: extendCall_def Let_def)

lemma openCall_heap:
  "asHeap (fst (openCall a d)) = asHeap a \<or> asHeap (fst (openCall a d)) = asHeap a @ [emptyCall]"
  by (auto simp: openCall_def Let_def split: option.splits)

lemma addFragment_capped: "argumentsCapped a \<Longrightarrow> argumentsCapped (addFragment a d)"
proof -
  assume a: "argumentsCapped a"
  obtain a1 p where o: "openCall a d = (a1, p)" by (cases "openCall a d")
  have h: "argumentsCapped a1"
    using a openCall_heap [of a d] o
    by (auto simp: argumentsCapped_def emptyCall_def maxToolCallArgumentsBytes_def)
  show ?thesis
  proof (cases p)
    case None
    then show ?thesis using o h by (simp add: addFragment_def)
  next
    case (Some q)
    have "int (length (tcArguments (fst (extendCall (asHeap a1 ! q) d)))) \<le> maxToolCallArgumentsBytes"
      if "q < length (asHeap a1)" using that h by (intro extendCall_capped) (simp add: argumentsCapped_def)
    then have "\<forall>c \<in> set ((asHeap a1)[q := fst (extendCall (asHeap a1 ! q) d)]).
        int (length (tcArguments c)) \<le> maxToolCallArgumentsBytes"
      using h by (cases "q < length (asHeap a1)")
        (auto simp: argumentsCapped_def list_update_beyond dest!: set_update_subset_insert [THEN subsetD])
    then show ?thesis using Some o by (simp add: addFragment_def argumentsCapped_def Let_def split: prod.splits)
  qed
qed

lemma foldl_capped: "argumentsCapped a \<Longrightarrow> argumentsCapped (foldl addFragment a ds)"
  by (induction ds arbitrary: a) (auto intro: addFragment_capped)

section \<open>Fragments of one call are joined\<close>

fun lastNonEmpty :: "string list \<Rightarrow> string" where
  "lastNonEmpty [] = []"
| "lastNonEmpty (x # xs) = (if lastNonEmpty xs \<noteq> [] then lastNonEmpty xs else x)"

definition joinFragments :: "toolCallDelta list \<Rightarrow> toolCall" where
  "joinFragments fs = \<lparr>tcID = lastNonEmpty (map tdID fs), tcName = lastNonEmpty (map tdName fs),
     tcArguments = concat (map tdArguments fs)\<rparr>"

definition fragmentsAt :: "int \<Rightarrow> toolCallDelta list \<Rightarrow> toolCallDelta list" where
  "fragmentsAt i ds = filter (\<lambda>d. tdIndex d = i) ds"

text \<open>A stream that keeps one id per index and stays below both caps.\<close>

definition oneIDPerIndex :: "toolCallDelta list \<Rightarrow> bool" where
  "oneIDPerIndex ds \<longleftrightarrow> (\<forall>d \<in> set ds. \<forall>e \<in> set ds.
     tdIndex d = tdIndex e \<and> tdID d \<noteq> [] \<and> tdID e \<noteq> [] \<longrightarrow> tdID d = tdID e)"

definition fewCalls :: "toolCallDelta list \<Rightarrow> bool" where
  "fewCalls ds \<longleftrightarrow> int (card (tdIndex ` set ds)) \<le> maxToolCallsPerRound"

definition smallArguments :: "toolCallDelta list \<Rightarrow> bool" where
  "smallArguments ds \<longleftrightarrow>
     (\<forall>i \<in> tdIndex ` set ds. int (length (concat (map tdArguments (fragmentsAt i ds)))) \<le> maxToolCallArgumentsBytes)"

definition tidy :: "toolCallDelta list \<Rightarrow> bool" where
  "tidy ds \<longleftrightarrow> oneIDPerIndex ds \<and> fewCalls ds \<and> smallArguments ds"

lemma lastNonEmpty_snoc: "lastNonEmpty (xs @ [x]) = (if x \<noteq> [] then x else lastNonEmpty xs)"
  by (induction xs) auto

lemma lastNonEmpty_in: "lastNonEmpty xs \<noteq> [] \<Longrightarrow> lastNonEmpty xs \<in> set xs"
  by (induction xs) auto

lemma tidy_prefix: "tidy (ds @ [d]) \<Longrightarrow> tidy ds"
proof -
  assume t: "tidy (ds @ [d])"
  have "oneIDPerIndex ds" using t by (simp add: tidy_def oneIDPerIndex_def)
  moreover have "card (tdIndex ` set ds) \<le> card (tdIndex ` set (ds @ [d]))" by (intro card_mono) auto
  then have "fewCalls ds" using t by (simp add: tidy_def fewCalls_def)
  moreover have "smallArguments ds" unfolding smallArguments_def
  proof
    fix i assume i: "i \<in> tdIndex ` set ds"
    have "length (concat (map tdArguments (fragmentsAt i ds)))
      \<le> length (concat (map tdArguments (fragmentsAt i (ds @ [d]))))" by (simp add: fragmentsAt_def)
    also have "int \<dots> \<le> maxToolCallArgumentsBytes" using t i by (auto simp: tidy_def smallArguments_def)
    finally show "int (length (concat (map tdArguments (fragmentsAt i ds)))) \<le> maxToolCallArgumentsBytes" by simp
  qed
  ultimately show ?thesis by (simp add: tidy_def)
qed

definition assembles :: "assembler \<Rightarrow> toolCallDelta list \<Rightarrow> bool" where
  "assembles a ds \<longleftrightarrow>
     distinct (map fst (asCalls a)) \<and> distinct (map snd (asCalls a))
     \<and> (\<forall>p \<in> snd ` set (asCalls a). p < length (asHeap a))
     \<and> fst ` set (asCalls a) = tdIndex ` set ds
     \<and> (\<forall>i. callAt a i = (if fragmentsAt i ds = [] then None else Some (joinFragments (fragmentsAt i ds))))"

lemma map_of_distinct_snd:
  "distinct (map snd xs) \<Longrightarrow> map_of xs i = Some p \<Longrightarrow> map_of xs j = Some p \<Longrightarrow> i = j"
proof -
  assume d: "distinct (map snd xs)" and "map_of xs i = Some p" "map_of xs j = Some p"
  then have "(i, p) \<in> set xs" "(j, p) \<in> set xs" by (auto dest: map_of_SomeD)
  moreover have "inj_on snd (set xs)" using d by (simp add: distinct_map)
  ultimately show ?thesis using inj_onD [of snd "set xs" "(i, p)" "(j, p)"] by simp
qed

lemma extend_joins:
  assumes "int (length (concat (map tdArguments (fs @ [d])))) \<le> maxToolCallArgumentsBytes"
  shows "extendCall (joinFragments fs) d = (joinFragments (fs @ [d]), False)"
  using assms by (simp add: extendCall_def joinFragments_def lastNonEmpty_snoc Let_def)

lemma joinFragments_Nil: "joinFragments [] = emptyCall"
  by (simp add: joinFragments_def emptyCall_def)

lemma fragmentsAt_snoc: "fragmentsAt i (ds @ [d]) = (if tdIndex d = i then fragmentsAt i ds @ [d] else fragmentsAt i ds)"
  by (simp add: fragmentsAt_def)

lemma small_at: "tidy (ds @ [d]) \<Longrightarrow>
  int (length (concat (map tdArguments (fragmentsAt (tdIndex d) ds @ [d])))) \<le> maxToolCallArgumentsBytes"
  by (simp add: tidy_def smallArguments_def fragmentsAt_snoc)

lemma assembles_fresh_index:
  assumes "assembles a ds" and "fragmentsAt (tdIndex d) ds = []" and "tidy (ds @ [d])"
  shows "assembles (addFragment a d) (ds @ [d])"
proof -
  let ?i = "tdIndex d" and ?n = "length (asHeap a)"
  have none: "map_of (asCalls a) ?i = None" "callAt a ?i = None"
    using assms(1,2) by (auto simp: assembles_def callAt_def dest: spec [of _ ?i])
  have new: "?i \<notin> tdIndex ` set ds" using assms(2) by (auto simp: fragmentsAt_def filter_empty_conv)
  have "length (asCalls a) = card (tdIndex ` set ds)"
    using assms(1) by (metis assembles_def distinct_card length_map list.set_map)
  also have "int \<dots> < maxToolCallsPerRound"
    using assms(3) new by (simp add: tidy_def fewCalls_def card_insert_if)
  finally have cap: "\<not> int (length (asCalls a)) \<ge> maxToolCallsPerRound" by simp
  have fresh: "?i \<notin> fst ` set (asCalls a)" using none(1) by (simp add: map_of_eq_None_iff)
  have ext: "extendCall emptyCall d = (joinFragments [d], False)"
    using extend_joins [of "[]" d] small_at [OF assms(3)] assms(2) by (simp add: joinFragments_Nil)
  have af: "addFragment a d = a\<lparr>asCalls := asCalls a @ [(?i, ?n)], asHeap := asHeap a @ [joinFragments [d]]\<rparr>"
    using none cap ext by (simp add: addFragment_def openCall_def isDifferentCallAtSameIndex_def update_fresh [OF fresh] Let_def)
  have old: "callAt (addFragment a d) j = callAt a j" if "j \<noteq> ?i" for j
  proof (cases "map_of (asCalls a) j")
    case None
    then show ?thesis using that by (simp add: af callAt_def map_add_def)
  next
    case (Some q)
    then have "q < ?n" using assms(1) by (force simp: assembles_def dest: map_of_SomeD)
    with Some that show ?thesis by (simp add: af callAt_def map_add_def nth_append)
  qed
  have here: "callAt (addFragment a d) ?i = Some (joinFragments [d])"
    using none(1) by (simp add: af callAt_def map_add_def)
  have lt: "\<forall>p \<in> snd ` set (asCalls a). p < ?n" using assms(1) by (simp add: assembles_def)
  have "callAt (addFragment a d) j = (if fragmentsAt j (ds @ [d]) = [] then None
      else Some (joinFragments (fragmentsAt j (ds @ [d]))))" for j
    using old [of j] here assms(1,2) by (cases "j = ?i") (auto simp: fragmentsAt_snoc assembles_def)
  moreover have "distinct (map fst (asCalls (addFragment a d)))" "fst ` set (asCalls (addFragment a d)) = tdIndex ` set (ds @ [d])"
    using assms(1) fresh by (simp_all add: af assembles_def)
  moreover have "distinct (map snd (asCalls (addFragment a d)))" using assms(1) lt by (auto simp: af assembles_def)
  moreover have "\<forall>p \<in> snd ` set (asCalls (addFragment a d)). p < length (asHeap (addFragment a d))"
    using lt by (auto simp: af)
  ultimately show ?thesis unfolding assembles_def by blast
qed

lemma assembles_known_index:
  assumes "assembles a ds" and "fragmentsAt (tdIndex d) ds \<noteq> []" and "tidy (ds @ [d])"
  shows "assembles (addFragment a d) (ds @ [d])"
proof -
  let ?i = "tdIndex d" and ?fs = "fragmentsAt (tdIndex d) ds"
  have at: "callAt a ?i = Some (joinFragments ?fs)" using assms(1,2) by (simp add: assembles_def)
  then obtain p where p: "map_of (asCalls a) ?i = Some p" "asHeap a ! p = joinFragments ?fs"
    by (auto simp: callAt_def)
  have plt: "p < length (asHeap a)" using p(1) assms(1) by (force simp: assembles_def dest: map_of_SomeD)
  have same: "\<not> isDifferentCallAtSameIndex (callAt a ?i) d"
  proof
    assume "isDifferentCallAtSameIndex (callAt a ?i) d"
    then have diff: "tdID d \<noteq> []" "lastNonEmpty (map tdID ?fs) \<noteq> []" "tdID d \<noteq> lastNonEmpty (map tdID ?fs)"
      by (simp_all add: at isDifferentCallAtSameIndex_def joinFragments_def)
    then obtain e where "e \<in> set ?fs" "tdID e = lastNonEmpty (map tdID ?fs)" using lastNonEmpty_in by fastforce
    then have "e \<in> set ds" "tdIndex e = ?i" "tdID e = lastNonEmpty (map tdID ?fs)" by (simp_all add: fragmentsAt_def)
    with diff assms(3) show False unfolding tidy_def oneIDPerIndex_def by fastforce
  qed
  have ext: "extendCall (joinFragments ?fs) d = (joinFragments (?fs @ [d]), False)"
    by (rule extend_joins [OF small_at [OF assms(3)]])
  have af: "addFragment a d = a\<lparr>asHeap := (asHeap a)[p := joinFragments (?fs @ [d])]\<rparr>"
    using p same ext by (simp add: addFragment_def openCall_def Let_def)
  have "callAt (addFragment a d) j = (if fragmentsAt j (ds @ [d]) = [] then None
      else Some (joinFragments (fragmentsAt j (ds @ [d]))))" for j
  proof (cases "j = ?i")
    case True
    then show ?thesis using p(1) plt by (simp add: af callAt_def fragmentsAt_snoc)
  next
    case False
    have "map_of (asCalls a) j \<noteq> Some p"
      using False map_of_distinct_snd [OF _ p(1)] assms(1) by (auto simp: assembles_def)
    then have "callAt (addFragment a d) j = callAt a j" by (cases "map_of (asCalls a) j") (simp_all add: af callAt_def)
    with False assms(1) show ?thesis by (simp add: fragmentsAt_snoc assembles_def)
  qed
  moreover obtain e where "e \<in> set ?fs" using assms(2) by (cases ?fs) auto
  then have "e \<in> set ds" "?i = tdIndex e" by (simp_all add: fragmentsAt_def)
  then have "?i \<in> tdIndex ` set ds" by (rule rev_image_eqI)
  then have "tdIndex ` set (ds @ [d]) = tdIndex ` set ds" by auto
  ultimately show ?thesis using assms(1) by (simp add: assembles_def af)
qed

lemma tidy_assembles: "tidy ds \<Longrightarrow> assembles (foldl addFragment (newAssembler capped warned) ds) ds"
proof (induction ds rule: rev_induct)
  case Nil
  then show ?case by (simp add: assembles_def newAssembler_def callAt_def fragmentsAt_def)
next
  case (snoc d ds)
  have "assembles (foldl addFragment (newAssembler capped warned) ds) ds"
    by (rule snoc.IH [OF tidy_prefix [OF snoc.prems]])
  then show ?case using assembles_fresh_index assembles_known_index snoc.prems by fastforce
qed

section \<open>The call cap\<close>

lemma unusedToolCallIndex_fold:
  "0 \<le> nxt \<Longrightarrow> nxt \<le> K + 1 \<Longrightarrow> K + 1 < 2 ^ 63 \<Longrightarrow> \<forall>k \<in> fst ` set calls. k \<le> K \<Longrightarrow>
   (let u = foldl (\<lambda>nxt (i, _). if i \<ge> nxt then add64 i 1 else nxt) nxt calls in
    nxt \<le> u \<and> u \<le> K + 1 \<and> (\<forall>k \<in> fst ` set calls. k < u))"
proof (induction calls arbitrary: nxt)
  case (Cons c calls)
  obtain k p where c: "c = (k, p)" by (cases c)
  let ?n = "if k \<ge> nxt then add64 k 1 else nxt"
  have k: "k \<le> K" using Cons.prems(4) c by simp
  have e: "k \<ge> nxt \<Longrightarrow> add64 k 1 = k + 1" using k Cons.prems by (intro add64_exact) (simp add: int64_def)
  then have n: "nxt \<le> ?n" "?n \<le> K + 1" "k < ?n" using k Cons.prems by auto
  have "0 \<le> ?n" using n Cons.prems(1) by linarith
  from Cons.IH [OF this n(2) Cons.prems(3)] Cons.prems(4) n c show ?case by (auto simp: Let_def)
qed simp

lemma unusedToolCallIndex_above:
  assumes "\<forall>k \<in> fst ` set calls. k \<le> K" and "0 \<le> K + 1" and "K + 1 < 2 ^ 63"
  shows "unusedToolCallIndex calls \<le> K + 1" and "unusedToolCallIndex calls \<notin> fst ` set calls"
  using unusedToolCallIndex_fold [of 0 K calls] assms by (auto simp: unusedToolCallIndex_def Let_def)

definition fullAt :: "assembler \<Rightarrow> toolCallDelta \<Rightarrow> int \<Rightarrow> bool" where
  "fullAt a d K \<longleftrightarrow> int (length (asCalls a)) \<ge> maxToolCallsPerRound
     \<and> isDifferentCallAtSameIndex (callAt a (tdIndex d)) d \<and> (\<forall>k \<in> fst ` set (asCalls a). k \<le> K) \<and> 0 \<le> K"

lemma fullAt_step:
  assumes "fullAt a d K" and "K + 1 < 2 ^ 63"
  shows "fullAt (addFragment a d) d (K + 1) \<and> length (asCalls (addFragment a d)) = length (asCalls a) + 1
    \<and> asHeap (addFragment a d) = asHeap a"
proof -
  let ?u = "unusedToolCallIndex (asCalls a)"
  from assms(1) obtain p where p: "map_of (asCalls a) (tdIndex d) = Some p"
    by (auto simp: fullAt_def isDifferentCallAtSameIndex_def callAt_def split: option.splits)
  have K: "\<forall>k \<in> fst ` set (asCalls a). k \<le> K" "0 \<le> K + 1" using assms(1) by (auto simp: fullAt_def)
  note u = unusedToolCallIndex_above [OF K assms(2)]
  have af: "addFragment a d = a\<lparr>asCalls := asCalls a @ [(?u, p)], asWarnedToolCallCap := True\<rparr>"
    using assms(1) p by (simp add: addFragment_def openCall_def fullAt_def update_fresh [OF u(2)] Let_def)
  have "callAt (addFragment a d) (tdIndex d) = callAt a (tdIndex d)" using p by (simp add: af callAt_def map_add_def)
  then show ?thesis using assms(1) u(1) by (auto simp: fullAt_def af)
qed

lemma fullAt_steps:
  "fullAt a d K \<Longrightarrow> K + int n < 2 ^ 63 \<Longrightarrow>
   length (asCalls (foldl addFragment a (replicate n d))) = length (asCalls a) + n
   \<and> asHeap (foldl addFragment a (replicate n d)) = asHeap a"
proof (induction n arbitrary: a K)
  case (Suc n)
  have "K + 1 < 2 ^ 63" using Suc.prems(2) by linarith
  note s = fullAt_step [OF Suc.prems(1) this]
  from Suc.IH [of "addFragment a d" "K + 1"] s Suc.prems(2) show ?case by simp
qed simp

lemma sampleRequest_hooks:
  "rqOnToolCallFragment (sampleRequest :: unit request) = None" "rqOnDelta (sampleRequest :: unit request) = None"
  "rqOnText (sampleRequest :: unit request) = None" "rqOnReasoning (sampleRequest :: unit request) = None"
  by (simp_all add: sampleRequest_def WithModel_def WithMaxContextTokens_def WithPrompt_def NewRequest_def)

text \<open>Without callbacks no delta fails.\<close>

lemma consumeAll_quiet:
  assumes "rqOnToolCallFragment r = None" "rqOnDelta r = None" "rqOnText r = None" "rqOnReasoning r = None"
  shows "snd (snd (consumeAll r st ds w)) = None"
proof (induction ds arbitrary: st w)
  case (Cons d ds)
  have "dispatchDelta r d w' = (w', None)" for w'
    using assms by (simp add: dispatchDelta_def dispatchRawDelta_def dispatchReasoningDelta_def dispatchTextDelta_def
        runCallback_def)
  moreover have "e = None" if "consumeToolCallDelta r a td w = (a', w', e)" for a td a' w' e
    using assms that by (auto simp: consumeToolCallDelta_def runCallback_def Let_def split: prod.splits option.splits)
  ultimately have "snd (snd (consumeDelta r st d w)) = None"
    by (fastforce simp: consumeDelta_def Let_def split: option.splits prod.splits)
  with Cons.IH show ?case by (cases "consumeDelta r st d w") simp
qed simp

section \<open>Properties\<close>

text \<open>
  C9. A turn is assembled faithfully: when a stream of deltas is consumed without a callback
  error, the assistant message's text is the concatenation of the text deltas, its reasoning
  the concatenation of the reasoning deltas, its opaque envelope the last non-empty one; its
  calls have distinct non-empty ids and arguments that are never blank; and no call's
  assembled arguments exceed the size cap, however much the provider sent.
\<close>

theorem turn_assembled:
  assumes "consumeAll r (emptyMessage\<lparr>mRole := RoleAssistant\<rparr>, newAssembler capped warned) ds w = ((m, a), w', None)"
  shows "messageText m = concat (map dText ds) \<and> mReasoning m = concat (map dReasoning ds)
    \<and> mProviderReasoning m = lastEnvelope [] ds \<and> mRole m = RoleAssistant
    \<and> callsReady (drainToolCalls a) \<and> argumentsCapped a"
proof -
  have "mContent (fst (emptyMessage\<lparr>mRole := RoleAssistant\<rparr>, newAssembler capped warned)) = assistantSoFar []"
    by (simp add: assistantSoFar_def)
  from consumeAll_message [OF assms this]
  have "mContent m = assistantSoFar (concat (map dText ds))" "mReasoning m = concat (map dReasoning ds)"
    "mProviderReasoning m = lastEnvelope [] ds" "mRole m = RoleAssistant" by simp_all
  moreover have "argumentsCapped a"
  proof -
    have "argumentsCapped (newAssembler capped warned)" by (simp add: argumentsCapped_def newAssembler_def)
    from foldl_capped [OF this] consumeAll_calls [OF assms] show ?thesis by simp
  qed
  ultimately show ?thesis by (simp add: messageText_def assistantSoFar_def drainToolCalls_ready)
qed

definition callDelta :: "int \<Rightarrow> string \<Rightarrow> string \<Rightarrow> string \<Rightarrow> delta" where
  "callDelta i cid n args = emptyDelta\<lparr>dToolCall := Some \<lparr>tdIndex = i, tdID = cid, tdName = n, tdArguments = args\<rparr>\<rparr>"

definition sampleStream :: "delta list" where
  "sampleStream = [emptyDelta\<lparr>dText := ''a''\<rparr>, callDelta 0 ''x'' ''f'' [], emptyDelta\<lparr>dText := ''b''\<rparr>,
     callDelta 0 [] [] ''1'']"

theorem turn_assembled_witness:
  "\<exists>m a. consumeAll (sampleRequest :: unit request) (emptyMessage\<lparr>mRole := RoleAssistant\<rparr>, newAssembler {} False)
      sampleStream () = ((m, a), (), None)
    \<and> messageText m = ''ab'' \<and> callsReady (drainToolCalls a) \<and> map tcID (callsByIndex a) = [''x'']"
proof -
  let ?run = "consumeAll (sampleRequest :: unit request) (emptyMessage\<lparr>mRole := RoleAssistant\<rparr>, newAssembler {} False)
      sampleStream ()"
  obtain m a w e where "?run = ((m, a), w, e)" by (cases ?run) auto
  then have r: "?run = ((m, a), (), e)" by (cases w) simp
  have "(case ?run of ((m, a), w, e) \<Rightarrow> e = None \<and> map tcID (callsByIndex a) = [''x''])"
    by (simp add: sampleStream_def callDelta_def emptyDelta_def consumeDelta_def consumeToolCallDelta_def
        dispatchDelta_def dispatchRawDelta_def dispatchReasoningDelta_def dispatchTextDelta_def runCallback_def sampleRequest_hooks
        openCall_def extendCall_def callAt_def isDifferentCallAtSameIndex_def newAssembler_def emptyCall_def
        maxToolCallsPerRound_def maxToolCallArgumentsBytes_def callsByIndex_def Let_def)
  with r have e: "e = None" "map tcID (callsByIndex a) = [''x'']" by simp_all
  have "concat (map dText sampleStream) = ''ab''"
    by (simp add: sampleStream_def callDelta_def emptyDelta_def)
  with turn_assembled [OF r [unfolded e(1)]] r e show ?thesis by simp
qed

text \<open>
  C10. Streamed fragments come together in the right calls: for every stream that keeps one
  id per index and stays below the caps, in whatever order the fragments of different calls
  interleave, the assembled calls are, by increasing index, one per index the provider used,
  each with the last id and name sent for it and the concatenation of its argument fragments.
\<close>

theorem fragments_joined:
  assumes "consumeAll r (m0, newAssembler capped warned) ds w = ((m, a), w', None)" and "tidy (fragments ds)"
  shows "callsByIndex a = map (\<lambda>i. joinFragments (fragmentsAt i (fragments ds)))
    (sorted_list_of_set (tdIndex ` set (fragments ds)))"
proof -
  let ?fs = "fragments ds"
  have as: "assembles a ?fs" using tidy_assembles [OF assms(2)] consumeAll_calls [OF assms(1)] by simp
  then have d: "distinct (map fst (asCalls a))" and k: "set (map fst (asCalls a)) = tdIndex ` set ?fs"
    by (simp_all add: assembles_def)
  have s: "sort (map fst (asCalls a)) = sorted_list_of_set (tdIndex ` set ?fs)"
    using sorted_list_of_set_sort_remdups [of "map fst (asCalls a)"] d k by (simp add: distinct_remdups_id)
  have "callAt a i = Some (joinFragments (fragmentsAt i ?fs))" if i: "i \<in> tdIndex ` set ?fs" for i
  proof -
    have "fragmentsAt i ?fs \<noteq> []" using i by (auto simp: fragmentsAt_def filter_empty_conv)
    then show ?thesis using as by (simp add: assembles_def)
  qed
  then show ?thesis unfolding callsByIndex_def s by (intro map_cong) simp_all
qed

definition interleaved :: "delta list" where
  "interleaved = [callDelta 2 ''b'' ''g'' ''{'', callDelta 0 ''a'' ''f'' ''['', callDelta 2 [] [] ''}'', callDelta 0 [] [] '']'']"

lemma interleaved_fragments: "fragments interleaved =
  [\<lparr>tdIndex = 2, tdID = ''b'', tdName = ''g'', tdArguments = ''{''\<rparr>, \<lparr>tdIndex = 0, tdID = ''a'', tdName = ''f'', tdArguments = ''[''\<rparr>,
   \<lparr>tdIndex = 2, tdID = [], tdName = [], tdArguments = ''}''\<rparr>, \<lparr>tdIndex = 0, tdID = [], tdName = [], tdArguments = '']''\<rparr>]"
  by (simp add: interleaved_def fragments_def callDelta_def emptyDelta_def)

theorem fragments_joined_witness:
  "\<exists>m a. consumeAll (sampleRequest :: unit request) (emptyMessage, newAssembler {} False) interleaved () = ((m, a), (), None)
    \<and> map tcArguments (callsByIndex a) = [''[]'', ''{}'']"
proof -
  let ?run = "consumeAll (sampleRequest :: unit request) (emptyMessage, newAssembler {} False) interleaved ()"
  obtain m a w e where "?run = ((m, a), w, e)" by (cases ?run) auto
  then have r: "?run = ((m, a), (), e)" by (cases w) simp
  have e: "e = None"
    using consumeAll_quiet [OF sampleRequest_hooks, of "(emptyMessage, newAssembler {} False)" interleaved "()"] r by simp
  have "card {2, 0, 2, 0 :: int} \<le> 512" by (simp add: card_insert_if)
  then have "tidy (fragments interleaved)"
    by (simp add: interleaved_fragments tidy_def oneIDPerIndex_def fewCalls_def smallArguments_def fragmentsAt_def
        maxToolCallsPerRound_def maxToolCallArgumentsBytes_def)
  note j = fragments_joined [OF r [unfolded e] this]
  have "tdIndex ` set (fragments interleaved) = set [0, 2]" by (auto simp: interleaved_fragments)
  then have "sorted_list_of_set (tdIndex ` set (fragments interleaved)) = [0, 2]"
    using sorted_list_of_set_sort_remdups [of "[0::int, 2]"] by simp
  then have "map tcArguments (callsByIndex a) = [''[]'', ''{}'']"
    unfolding j by (simp add: interleaved_fragments fragmentsAt_def joinFragments_def)
  with r e show ?thesis by simp
qed

text \<open>
  The per-round cap on tool calls does not bound the map of calls: once it is reached,
  every further delta that announces a different id at an occupied index still adds an entry
  (a second pointer to the call already there) without opening a call, so the map grows by
  one for each such delta, as long as the provider keeps sending.
\<close>

theorem tool_call_cap_bypassed:
  assumes "fullAt a d K" and "K + int n < 2 ^ 63"
  shows "length (asCalls (foldl addFragment a (replicate n d))) = length (asCalls a) + n
    \<and> asHeap (foldl addFragment a (replicate n d)) = asHeap a"
  using fullAt_steps [OF assms] .

definition fullAssembler :: assembler where
  "fullAssembler = \<lparr>asCalls = map (\<lambda>i. (int i, i)) [0..<512],
     asHeap = replicate 512 \<lparr>tcID = ''a'', tcName = ''f'', tcArguments = []\<rparr>, asCappedArguments = {}, asWarnedToolCallCap = True\<rparr>"

theorem tool_call_cap_bypassed_witness:
  "fullAt fullAssembler \<lparr>tdIndex = 0, tdID = ''b'', tdName = [], tdArguments = []\<rparr> 511
   \<and> length (asCalls (foldl addFragment fullAssembler
        (replicate 1000 \<lparr>tdIndex = 0, tdID = ''b'', tdName = [], tdArguments = []\<rparr>))) = 1512"
proof -
  let ?d = "\<lparr>tdIndex = 0, tdID = ''b'', tdName = [], tdArguments = []\<rparr>"
  have l: "length (asCalls fullAssembler) = 512" by (simp add: fullAssembler_def)
  have "map_of (map (\<lambda>i. (int i, i)) [0..<512]) (0::int) = Some 0"
    by (subst upt_conv_Cons) simp_all
  then have c: "callAt fullAssembler 0 = Some \<lparr>tcID = ''a'', tcName = ''f'', tcArguments = []\<rparr>"
    by (simp add: callAt_def fullAssembler_def nth_replicate del: upt_rec_numeral)
  have b: "\<forall>k \<in> fst ` set (asCalls fullAssembler). k \<le> 511"
    by (auto simp: fullAssembler_def simp del: upt_rec_numeral)
  have f: "fullAt fullAssembler ?d 511"
    using c b l by (simp add: fullAt_def isDifferentCallAtSameIndex_def maxToolCallsPerRound_def)
  from tool_call_cap_bypassed [OF f, of 1000] f l show ?thesis by simp
qed

end
