(* ===== verification/ToolExec.thy ===== *)
theory ToolExec
  imports Assembler Transcript
begin

text \<open>
  Running a round's tool calls and recording what came back (\<open>executeTools\<close> and everything
  it calls in \<open>engine.go\<close>). Caller code (handlers, hooks, injectors, callbacks) acts on the
  world. Calls run concurrently; here whole calls are interleaved, in the order the
  environment's schedule says they finish. Contexts and their deadlines are part of the
  world: a handler whose context ends first reports \<open>ContextDone\<close>.
\<close>

section \<open>The state of a run\<close>

record runState =
  stModel :: model
  stMessages :: "message list"
  stUsage :: usage
  stCost :: rat
  stInjections :: "messageInjection list"
  stRound :: int
  stWithTools :: bool
  stCappedArguments :: "string set"
  stWarnedToolCallCap :: bool

definition newRunState :: "'w request \<Rightarrow> bool \<Rightarrow> runState" where
  "newRunState r withTools =
     \<lparr>stModel = resolvedModel r, stMessages = assembledMessages r, stUsage = zeroUsage, stCost = 0,
      stInjections = [], stRound = 0, stWithTools = withTools, stCappedArguments = {}, stWarnedToolCallCap = False\<rparr>"

text \<open>
  Truncation with the request's cap. A cap above \<open>2 ^ 27\<close> may make a slice expression panic,
  which ends the program; the engine is modelled for caps where truncation returns.
\<close>

definition capResult :: "'w engineEnv \<Rightarrow> 'w request \<Rightarrow> string \<Rightarrow> string" where
  "capResult env r c = the (truncateToolResult (enEncode env) (rqMaxToolResultTokens r) c)"

section \<open>One call\<close>

record toolOutcome =
  toResult :: toolResult
  toInjections :: "messageInjection list"
  toErr :: "err option"

definition zeroOutcome :: toolOutcome where
  "zeroOutcome = \<lparr>toResult = \<lparr>trContent = [], trIsError = False, trImages = [], trMetadata = []\<rparr>,
     toInjections = [], toErr = None\<rparr>"

definition resultOnly :: "toolResult \<Rightarrow> toolOutcome" where
  "resultOnly res = \<lparr>toResult = res, toInjections = [], toErr = None\<rparr>"

text \<open>Sequencing of steps that may panic.\<close>

definition andThen :: "'w \<times> 'a exec \<Rightarrow> ('a \<Rightarrow> 'w \<Rightarrow> 'w \<times> 'b exec) \<Rightarrow> 'w \<times> 'b exec" where
  "andThen m f = (case m of (w, Crash) \<Rightarrow> (w, Crash) | (w, Returned a) \<Rightarrow> f a w)"

definition runToolHook ::
  "string \<Rightarrow> 'w toolHook option \<Rightarrow> toolEvent \<Rightarrow> 'w \<Rightarrow> 'w \<times> (toolEvent \<times> err option) exec" where
  "runToolHook phase hook ev w =
     (case hook of
        None \<Rightarrow> (w, Returned (ev, None))
      | Some h \<Rightarrow> andThen (h (ev\<lparr>tePhase := phase\<rparr>) w)
          (\<lambda>(ev', e) w'. (w', Returned (ev', map_option (\<lambda>e. Wrap e ''tool hook'') e))))"

definition stampInjection :: "string \<Rightarrow> toolEvent \<Rightarrow> messageInjection \<Rightarrow> messageInjection" where
  "stampInjection phase ev mi = mi\<lparr>miPhase := phase, miTool := tlName (teTool ev), miCallID := teCallID ev,
     miRound := teRound ev\<rparr>"

definition runInjector ::
  "string \<Rightarrow> 'w messageInjector option \<Rightarrow> toolEvent \<Rightarrow> messageInjection list \<Rightarrow> err option \<Rightarrow> 'w
    \<Rightarrow> 'w \<times> (toolEvent \<times> messageInjection list \<times> err option) exec" where
  "runInjector phase injector ev injections priorErr w =
     (case (priorErr, injector) of
        (None, Some f) \<Rightarrow> andThen (f (ev\<lparr>tePhase := phase\<rparr>) w)
          (\<lambda>(ev', res) w'. (w', Returned (case res of
               Inl e \<Rightarrow> (ev', injections, Some (Wrap e ''tool message injector''))
             | Inr None \<Rightarrow> (ev', injections, None)
             | Inr (Some mi) \<Rightarrow> (ev', injections @ [stampInjection phase ev' mi], None))))
      | _ \<Rightarrow> (w, Returned (ev, injections, priorErr)))"

definition executeToolHandler ::
  "'w toolHandler \<Rightarrow> 'w tool \<Rightarrow> toolCall \<Rightarrow> string \<Rightarrow> 'w \<Rightarrow> 'w \<times> toolResult \<times> err option" where
  "executeToolHandler handler tool call args w =
     (case handler \<lparr>tiName = tlName tool, tiCallID = tcID call, tiArguments = args\<rparr> w of
        (w', HandlerReturned res e) \<Rightarrow> (w', res, e)
      | (w', HandlerPanicked) \<Rightarrow> (w', toResult zeroOutcome, Some (Wrap (Sentinel ErrToolHandlerPanicked) ''recovered''))
      | (w', ContextDone e) \<Rightarrow> (w', toResult zeroOutcome, Some (Wrap e ''tool handler'')))"

definition runPrimaryToolHooks ::
  "'w tool \<Rightarrow> toolEvent \<Rightarrow> bool \<Rightarrow> 'w \<Rightarrow> 'w \<times> (toolEvent \<times> messageInjection list \<times> err option) exec" where
  "runPrimaryToolHooks tool ev handlerFailed w =
     (let failed = (handlerFailed \<or> trIsError (the (teResult ev)));
          phase = (if failed then ToolPhaseOnError else ToolPhaseOnSuccess);
          hook = (if failed then tlOnError tool else tlOnSuccess tool);
          injector = (if failed then tlOnErrorMessageInjector tool else tlOnSuccessMessageInjector tool)
      in andThen (runToolHook phase hook ev w) (\<lambda>(ev', e) w'. runInjector phase injector ev' [] e w'))"

definition finishToolRun :: "'w engineEnv \<Rightarrow> 'w request \<Rightarrow> toolEvent \<Rightarrow> messageInjection list \<Rightarrow> err option \<Rightarrow> toolOutcome" where
  "finishToolRun env r ev injections e =
     (let res = (case teResult ev of Some res \<Rightarrow> res | None \<Rightarrow> NewToolErrorResult ''tool hook removed result'')
      in \<lparr>toResult = res\<lparr>trContent := capResult env r (trContent res)\<rparr>, toInjections = injections, toErr = e\<rparr>)"

definition runToolLifecycle ::
  "'w engineEnv \<Rightarrow> 'w request \<Rightarrow> 'w tool \<Rightarrow> toolCall \<Rightarrow> string \<Rightarrow> toolEvent \<Rightarrow> 'w \<Rightarrow> 'w \<times> toolOutcome exec" where
  "runToolLifecycle env r tool call args ev w =
     (case tlHandler tool of
        None \<Rightarrow> (w, Returned (resultOnly (NewToolErrorResult ''tool has no handler'')))
      | Some handler \<Rightarrow>
          (case executeToolHandler handler tool call args w of
             (w1, res, handlerErr) \<Rightarrow>
               let res' = (case handlerErr of Some e \<Rightarrow> NewToolErrorResult (enErrText env e) | None \<Rightarrow> res);
                   ev1 = ev\<lparr>teErr := (case handlerErr of Some e \<Rightarrow> Some e | None \<Rightarrow> teErr ev), teResult := Some res'\<rparr>
               in andThen (runPrimaryToolHooks tool ev1 (handlerErr \<noteq> None) w1)
                    (\<lambda>(ev2, injections, e) w2.
                       andThen (if e = None then runToolHook ToolPhasePostRun (tlPostRun tool) ev2 w2
                                else (w2, Returned (ev2, e)))
                         (\<lambda>(ev3, e') w3.
                            andThen (runInjector ToolPhasePostRun (tlPostRunMessageInjector tool) ev3 injections e' w3)
                              (\<lambda>(ev4, injections', e'') w4. (w4, Returned (finishToolRun env r ev4 injections' e'')))))))"

definition prepareToolRun ::
  "runState \<Rightarrow> 'w tool \<Rightarrow> toolCall \<Rightarrow> string \<Rightarrow> 'w \<Rightarrow> 'w \<times> (toolEvent \<times> err option) exec" where
  "prepareToolRun s tool call args w =
     runToolHook ToolPhasePreRun (tlPreRun tool)
       \<lparr>tePhase = [], teTool = toolDef.truncate tool, teCallID = tcID call, teRound = stRound s - 1,
        teRawArguments = args, teMessages = cloneMessages (stMessages s), teResult = None, teErr = None\<rparr> w"

definition runTool ::
  "'w engineEnv \<Rightarrow> 'w request \<Rightarrow> runState \<Rightarrow> 'w tool \<Rightarrow> toolCall \<Rightarrow> 'w \<Rightarrow> 'w \<times> toolOutcome exec" where
  "runTool env r s tool call w =
     (let (args, valid) = normalizedToolArguments (tcArguments call) in
      if \<not> valid then (w, Returned (resultOnly (NewToolErrorResult ''tool arguments are not valid JSON'')))
      else andThen (prepareToolRun s tool call args w)
        (\<lambda>(ev, e) w'. case e of
             Some x \<Rightarrow> (w', Returned \<lparr>toResult = NewToolErrorResult (enErrText env x), toInjections = [], toErr = Some x\<rparr>)
           | None \<Rightarrow> runToolLifecycle env r tool call args ev w'))"

definition runToolSafely ::
  "'w engineEnv \<Rightarrow> 'w request \<Rightarrow> runState \<Rightarrow> 'w tool \<Rightarrow> toolCall \<Rightarrow> 'w \<Rightarrow> 'w \<times> toolOutcome" where
  "runToolSafely env r s tool call w =
     (case runTool env r s tool call w of
        (w', Returned out) \<Rightarrow> (w', out)
      | (w', Crash) \<Rightarrow> (w', resultOnly (NewToolErrorResult (''tool '' @ quote (enIsPrint env) (tlName tool) @ '' panicked''))))"

definition unknownTool :: "'w engineEnv \<Rightarrow> 'w tool list \<Rightarrow> toolCall \<Rightarrow> toolOutcome" where
  "unknownTool env tools call = resultOnly (NewToolErrorResult
     (''unknown tool '' @ quote (enIsPrint env) (tcName call) @ ''; valid tools: '' @ validToolNames tools))"

definition isDenied :: "(string \<Rightarrow> toolCallDecision option) \<Rightarrow> toolCall \<Rightarrow> bool" where
  "isDenied decisions call = (case decisions (tcID call) of Some d \<Rightarrow> dcDeny d | None \<Rightarrow> False)"

definition deniedResult :: "toolCallDecision \<Rightarrow> toolResult" where
  "deniedResult d = (if dcDenyResult d \<noteq> [] then NewToolDeniedResult\<lparr>trContent := dcDenyResult d\<rparr> else NewToolDeniedResult)"

definition runToolCall ::
  "'w engineEnv \<Rightarrow> 'w request \<Rightarrow> runState \<Rightarrow> 'w tool list \<Rightarrow> (string \<Rightarrow> toolCallDecision option)
    \<Rightarrow> toolCall \<Rightarrow> 'w \<Rightarrow> 'w \<times> toolOutcome" where
  "runToolCall env r s tools decisions call w =
     (if isDenied decisions call then
        let res = deniedResult (the (decisions (tcID call)))
        in (w, resultOnly (res\<lparr>trContent := capResult env r (trContent res)\<rparr>))
      else case toolSetGet (Some (NewToolSet tools)) (tcName call) of
          None \<Rightarrow> (w, unknownTool env tools call)
        | Some tool \<Rightarrow> runToolSafely env r s tool call w)"

section \<open>A round's calls\<close>

definition toolDecisionsByCallID :: "toolCall list \<Rightarrow> toolCallDecision list \<Rightarrow> string \<Rightarrow> toolCallDecision option" where
  "toolDecisionsByCallID calls decisions =
     foldl (\<lambda>m d. if dcCallID d \<in> tcID ` set calls then m(dcCallID d := Some d) else m) (\<lambda>_. None) decisions"

definition callEvent :: "toolCall \<Rightarrow> nat \<Rightarrow> toolResult option \<Rightarrow> toolCallEvent" where
  "callEvent call i res =
     \<lparr>ceCallID = tcID call, ceName = tcName call, ceArguments = tcArguments call, ceIndex = int i, ceResult = res\<rparr>"

definition fireToolCallStart :: "'w request \<Rightarrow> toolCall \<Rightarrow> nat \<Rightarrow> 'w \<Rightarrow> 'w \<times> err option" where
  "fireToolCallStart r call i w = runCallback (rqOnToolCallStart r) ''on tool call start'' (callEvent call i None) w"

fun fireToolCallStarts :: "'w request \<Rightarrow> nat \<Rightarrow> toolCall list \<Rightarrow> 'w \<Rightarrow> 'w \<times> err option" where
  "fireToolCallStarts r i [] w = (w, None)"
| "fireToolCallStarts r i (c # cs) w =
     (case fireToolCallStart r c i w of
        (w', Some e) \<Rightarrow> (w', Some e) | (w', None) \<Rightarrow> fireToolCallStarts r (i + 1) cs w')"

fun runScheduled :: "(nat \<Rightarrow> 'w \<Rightarrow> 'w \<times> toolOutcome) \<Rightarrow> nat list \<Rightarrow> 'w \<Rightarrow> toolOutcome list \<Rightarrow> 'w \<times> toolOutcome list" where
  "runScheduled f [] w outs = (w, outs)"
| "runScheduled f (i # is) w outs = (case f i w of (w', out) \<Rightarrow> runScheduled f is w' (outs[i := out]))"

definition runToolCalls ::
  "'w engineEnv \<Rightarrow> 'w request \<Rightarrow> runState \<Rightarrow> 'w tool list \<Rightarrow> toolCall list \<Rightarrow> (string \<Rightarrow> toolCallDecision option)
    \<Rightarrow> 'w \<Rightarrow> 'w \<times> (err + toolOutcome list)" where
  "runToolCalls env r s tools calls decisions w =
     (case fireToolCallStarts r 0 calls w of
        (w1, Some e) \<Rightarrow> (w1, Inl e)
      | (w1, None) \<Rightarrow>
          (case runScheduled (\<lambda>i. runToolCall env r s tools decisions (calls ! i))
                 (enSchedule env (length calls) w1) w1 (replicate (length calls) zeroOutcome) of
             (w2, outs) \<Rightarrow> (w2, Inr outs)))"

section \<open>Recording\<close>

definition toolResultMessage :: "'w engineEnv \<Rightarrow> 'w request \<Rightarrow> runState \<Rightarrow> toolCall \<Rightarrow> toolResult \<Rightarrow> message" where
  "toolResultMessage env r s call res = emptyMessage\<lparr>mRole := RoleTool,
     mContent := toolResultMessageContent (enIsPrint env) (capResult env r (trContent res)) (trImages res)
       (SupportsImageInput (clientCapabilities (rqClient r) (stModel s))) (mdID (stModel s)),
     mToolCallID := tcID call, mToolResultIsError := trIsError res, mOrigin := MessageOriginTurn\<rparr>"

definition recordToolResultMessage :: "'w engineEnv \<Rightarrow> 'w request \<Rightarrow> runState \<Rightarrow> toolCall \<Rightarrow> toolResult \<Rightarrow> runState" where
  "recordToolResultMessage env r s call res = s\<lparr>stMessages := stMessages s @ [toolResultMessage env r s call res]\<rparr>"

definition fireToolResult ::
  "'w request \<Rightarrow> toolCall \<Rightarrow> nat \<Rightarrow> toolOutcome \<Rightarrow> err option \<Rightarrow> 'w \<Rightarrow> 'w \<times> err option" where
  "fireToolResult r call i out priorErr w =
     (case rqOnToolResult r of
        None \<Rightarrow> (w, priorErr)
      | Some f \<Rightarrow>
          (case f (callEvent call i (Some (toResult out))) w of
             (w', None) \<Rightarrow> (w', priorErr)
           | (w', Some e) \<Rightarrow>
               (case priorErr of None \<Rightarrow> (w', Some (Wrap e ''on tool result'')) | Some p \<Rightarrow> (w', Some p))))"

definition injectionMessage :: "messageInjection \<Rightarrow> message" where
  "injectionMessage mi = emptyMessage\<lparr>mRole := miType mi, mContent := Text (miContent mi),
     mOrigin := MessageOriginInjection, mInjection := Some mi\<rparr>"

definition usableInjection :: "messageInjection \<Rightarrow> bool" where
  "usableInjection mi \<longleftrightarrow> miType mi = RoleUser \<or> miType mi = RoleAssistant \<or> miType mi = RoleSystem"

fun recordInjections ::
  "'w request \<Rightarrow> runState \<Rightarrow> messageInjection list \<Rightarrow> err option \<Rightarrow> 'w \<Rightarrow> runState \<times> 'w \<times> err option" where
  "recordInjections r s [] priorErr w = (s, w, priorErr)"
| "recordInjections r s (mi # mis) priorErr w =
     (if \<not> usableInjection mi then recordInjections r s mis priorErr w
      else
        let s' = s\<lparr>stMessages := stMessages s @ [injectionMessage mi], stInjections := stInjections s @ [mi]\<rparr>
        in case rqOnMessageInjection r of
             None \<Rightarrow> recordInjections r s' mis priorErr w
           | Some f \<Rightarrow>
               (case f mi w of
                  (w', Some e) \<Rightarrow> recordInjections r s' mis
                    (if priorErr = None then Some (Wrap e ''on message injection'') else priorErr) w'
                | (w', None) \<Rightarrow> recordInjections r s' mis priorErr w'))"

fun recordOutcomes ::
  "'w engineEnv \<Rightarrow> 'w request \<Rightarrow> nat \<Rightarrow> (toolCall \<times> toolOutcome) list \<Rightarrow> runState \<Rightarrow> messageInjection list
    \<Rightarrow> err option \<Rightarrow> 'w \<Rightarrow> runState \<times> messageInjection list \<times> err option \<times> 'w" where
  "recordOutcomes env r i [] s injections firstErr w = (s, injections, firstErr, w)"
| "recordOutcomes env r i ((call, out) # rest) s injections firstErr w =
     (let s' = recordToolResultMessage env r s call (toResult out);
          (w', e) = fireToolResult r call i out firstErr w
      in recordOutcomes env r (i + 1) rest s' (injections @ toInjections out)
           (if toErr out \<noteq> None \<and> e = None then toErr out else e) w')"

definition recordToolOutcomes ::
  "'w engineEnv \<Rightarrow> 'w request \<Rightarrow> runState \<Rightarrow> toolCall list \<Rightarrow> toolOutcome list \<Rightarrow> 'w \<Rightarrow> runState \<times> 'w \<times> err option" where
  "recordToolOutcomes env r s calls outs w =
     (case recordOutcomes env r 0 (zip calls outs) s [] None w of
        (s', injections, firstErr, w') \<Rightarrow> recordInjections r s' injections firstErr w')"

definition dropUnansweredToolCalls :: "runState \<Rightarrow> runState" where
  "dropUnansweredToolCalls s =
     (if stMessages s = [] then s
      else let m = last (stMessages s) in
           if mRole m \<noteq> RoleAssistant \<or> length (mToolCalls m) = 0 then s
           else s\<lparr>stMessages := butlast (stMessages s) @ [m\<lparr>mToolCalls := []\<rparr>]\<rparr>)"

definition executeTools ::
  "'w engineEnv \<Rightarrow> 'w request \<Rightarrow> runState \<Rightarrow> 'w tool list \<Rightarrow> toolCall list \<Rightarrow> toolCallDecision list
    \<Rightarrow> 'w \<Rightarrow> runState \<times> 'w \<times> err option" where
  "executeTools env r s tools calls decisions w =
     (case runToolCalls env r s tools calls (toolDecisionsByCallID calls decisions) w of
        (w', Inl e) \<Rightarrow> (dropUnansweredToolCalls s, w', Some e)
      | (w', Inr outs) \<Rightarrow> recordToolOutcomes env r s calls outs w')"

section \<open>What recording writes\<close>

lemma toolResultMessage_simps [simp]:
  "mRole (toolResultMessage env r s c res) = RoleTool" "mToolCallID (toolResultMessage env r s c res) = tcID c"
  "mToolCalls (toolResultMessage env r s c res) = []" "mOrigin (toolResultMessage env r s c res) = MessageOriginTurn"
  "mToolResultIsError (toolResultMessage env r s c res) = trIsError res"
  by (simp_all add: toolResultMessage_def)

lemma injectionMessage_simps [simp]:
  "mToolCalls (injectionMessage mi) = []" "mOrigin (injectionMessage mi) = MessageOriginInjection"
  "mRole (injectionMessage mi) = miType mi" "mInjection (injectionMessage mi) = Some mi"
  by (simp_all add: injectionMessage_def)

definition resultMessages :: "'w engineEnv \<Rightarrow> 'w request \<Rightarrow> runState \<Rightarrow> toolCall list \<Rightarrow> toolOutcome list \<Rightarrow> message list" where
  "resultMessages env r s calls outs = map (\<lambda>(c, out). toolResultMessage env r s c (toResult out)) (zip calls outs)"

lemma recordOutcomes_eq:
  "recordOutcomes env r i (zip calls outs) s mis e w = (s', mis', e', w') \<Longrightarrow> length outs = length calls \<Longrightarrow>
   s' = s\<lparr>stMessages := stMessages s @ resultMessages env r s calls outs\<rparr>
   \<and> mis' = mis @ concat (map toInjections outs)"
proof (induction calls outs arbitrary: i s mis e w rule: list_induct2')
  case (4 c cs out outs)
  let ?s = "recordToolResultMessage env r s c (toResult out)"
  obtain w1 e1 where f: "fireToolResult r c i out e w = (w1, e1)" by fastforce
  have h: "s' = ?s\<lparr>stMessages := stMessages ?s @ resultMessages env r ?s cs outs\<rparr>
     \<and> mis' = (mis @ toInjections out) @ concat (map toInjections outs)"
    by (rule "4.IH") (use "4.prems" f in \<open>auto simp: Let_def\<close>)
  have m: "resultMessages env r ?s cs outs = resultMessages env r s cs outs"
    by (simp add: resultMessages_def toolResultMessage_def recordToolResultMessage_def)
  show ?case using h m by (simp add: recordToolResultMessage_def) (simp add: resultMessages_def)
qed (simp_all add: resultMessages_def)

lemma recordInjections_eq:
  "recordInjections r s mis e w = (s', w', e') \<Longrightarrow>
   s' = s\<lparr>stMessages := stMessages s @ map injectionMessage (filter usableInjection mis),
          stInjections := stInjections s @ filter usableInjection mis\<rparr>"
  by (induction r s mis e w rule: recordInjections.induct)
    (auto simp: Let_def split: if_splits option.splits prod.splits)

lemma runScheduled_length: "runScheduled f is w outs = (w', outs') \<Longrightarrow> length outs' = length outs"
  by (induction f "is" w outs rule: runScheduled.induct) (auto split: prod.splits)

lemma runScheduled_untouched:
  "runScheduled f is w outs = (w', outs') \<Longrightarrow> i \<notin> set is \<Longrightarrow> outs' ! i = outs ! i"
  by (induction f "is" w outs rule: runScheduled.induct) (auto split: prod.splits)

text \<open>Each slot holds the outcome of running its own call once, in some world.\<close>

lemma runScheduled_slot:
  "runScheduled f is w outs = (w', outs') \<Longrightarrow> distinct is \<Longrightarrow> i \<in> set is \<Longrightarrow> i < length outs \<Longrightarrow>
   \<exists>wi. outs' ! i = snd (f i wi)"
proof (induction f "is" w outs rule: runScheduled.induct)
  case (2 f j js w outs)
  obtain w1 out where s: "f j w = (w1, out)" by fastforce
  show ?case
  proof (cases "i = j")
    case True
    then have "outs' ! i = outs[j := out] ! i"
      using 2 s by (intro runScheduled_untouched [of f js w1 _ w']) auto
    then have "outs' ! i = snd (f i w)" using True 2 s by simp
    then show ?thesis by blast
  next
    case False
    then show ?thesis using 2 s by auto
  qed
qed simp

text \<open>A call that leaves the world alone can be taken out of the schedule.\<close>

lemma runScheduled_pure:
  "\<forall>i \<in> set is. pure i \<longrightarrow> (\<forall>w. fst (f i w) = w) \<Longrightarrow>
   fst (runScheduled f is w outs) = fst (runScheduled f (filter (\<lambda>i. \<not> pure i) is) w outs2)"
proof (induction "is" arbitrary: w outs outs2)
  case (Cons i "is")
  obtain w1 out where s: "f i w = (w1, out)" by fastforce
  have "pure i \<Longrightarrow> w1 = w" using Cons.prems s by (metis fst_conv list.set_intros(1))
  then show ?case using Cons s by auto
qed simp

lemma recorded_results:
  assumes "length outs = length calls"
  shows "map mToolCallID (resultMessages env r s calls outs) = map tcID calls"
    and "list_all isToolResult (resultMessages env r s calls outs)"
    and "length (resultMessages env r s calls outs) = length calls"
proof -
  have "map mToolCallID (resultMessages env r s calls outs) = map tcID (map fst (zip calls outs))"
    by (auto simp: resultMessages_def)
  then show "map mToolCallID (resultMessages env r s calls outs) = map tcID calls" using assms by simp
qed (use assms in \<open>auto simp: resultMessages_def list_all_iff\<close>)

lemma recorded_answers:
  assumes "distinct (map tcID calls)" and "length outs = length calls"
  shows "answers calls (resultMessages env r s calls outs)"
proof -
  have "tcID ` set calls = mToolCallID ` set (resultMessages env r s calls outs)"
    using recorded_results(1) [OF assms(2), of env r s] by (metis list.set_map)
  then show ?thesis using assms recorded_results [OF assms(2), of env r s] by (simp add: answers_def)
qed

lemma usable_not_tool: "usableInjection mi \<Longrightarrow> \<not> isToolResult (injectionMessage mi)"
  by (auto simp: usableInjection_def)

lemma injections_legal: "list_all usableInjection mis \<Longrightarrow> legal (map injectionMessage mis)"
  by (induction mis) (auto dest: usable_not_tool)

lemma runToolCalls_Inr:
  "runToolCalls env r s tools calls ds w = (w', Inr outs) \<Longrightarrow> length outs = length calls"
  by (auto simp: runToolCalls_def split: prod.splits option.splits dest: runScheduled_length)

lemma executeTools_started:
  assumes "fireToolCallStarts r 0 calls w = (w1, None)"
    and "executeTools env r s tools calls ds w = (s', w', e)"
  shows "\<exists>outs. length outs = length calls
    \<and> snd (runToolCalls env r s tools calls (toolDecisionsByCallID calls ds) w) = Inr outs
    \<and> s' = s\<lparr>stMessages := stMessages s @ resultMessages env r s calls outs
              @ map injectionMessage (filter usableInjection (concat (map toInjections outs))),
             stInjections := stInjections s @ filter usableInjection (concat (map toInjections outs))\<rparr>"
proof -
  obtain w2 outs where run: "runToolCalls env r s tools calls (toolDecisionsByCallID calls ds) w = (w2, Inr outs)"
    using assms(1) by (fastforce simp: runToolCalls_def split: prod.splits)
  have len: "length outs = length calls" by (rule runToolCalls_Inr [OF run])
  obtain s1 mis e1 w3 where rec: "recordOutcomes env r 0 (zip calls outs) s [] None w2 = (s1, mis, e1, w3)"
    using prod_cases4 by blast
  have "recordInjections r s1 mis e1 w3 = (s', w', e)"
    using assms(2) run rec by (simp add: executeTools_def recordToolOutcomes_def)
  from recordInjections_eq [OF this] recordOutcomes_eq [OF rec len] len run
  show ?thesis by auto
qed

lemma executeTools_aborted:
  assumes "fireToolCallStarts r 0 calls w = (w1, Some x)"
  shows "executeTools env r s tools calls ds w = (dropUnansweredToolCalls s, w1, Some x)"
  using assms by (simp add: executeTools_def runToolCalls_def)

text \<open>The decisions that count: for each pending call the last one that names it.\<close>

lemma toolDecisionsByCallID_eq:
  "toolDecisionsByCallID calls ds cid =
     (if cid \<in> tcID ` set calls then map_of (rev (map (\<lambda>d. (dcCallID d, d)) ds)) cid else None)"
  by (induction ds rule: rev_induct) (auto simp: toolDecisionsByCallID_def)

lemma denied_outcome:
  "isDenied D c \<Longrightarrow> runToolCall env r s tools D c w =
     (w, resultOnly ((deniedResult (the (D (tcID c))))\<lparr>trContent := capResult env r (trContent (deniedResult (the (D (tcID c)))))\<rparr>))"
  by (simp add: runToolCall_def Let_def)

lemma runToolCalls_world:
  assumes "fireToolCallStarts r 0 calls w = (w1, None)"
  shows "fst (runToolCalls env r s tools calls D w) =
    fst (runScheduled (\<lambda>i. runToolCall env r s tools D (calls ! i))
      (filter (\<lambda>i. \<not> isDenied D (calls ! i)) (enSchedule env (length calls) w1)) w1 outs)"
proof -
  let ?f = "\<lambda>i. runToolCall env r s tools D (calls ! i)" and ?is = "enSchedule env (length calls) w1"
  have "fst (runScheduled ?f ?is w1 (replicate (length calls) zeroOutcome))
      = fst (runScheduled ?f (filter (\<lambda>i. \<not> isDenied D (calls ! i)) ?is) w1 outs)"
    by (rule runScheduled_pure) (simp add: denied_outcome)
  then show ?thesis using assms by (simp add: runToolCalls_def case_prod_beta)
qed

lemma runToolCalls_slots:
  assumes "snd (runToolCalls env r s tools calls D w) = Inr outs"
    and "\<And>w n. distinct (enSchedule env n w) \<and> set (enSchedule env n w) = {..<n}" and "i < length calls"
  shows "\<exists>wi. outs ! i = snd (runToolCall env r s tools D (calls ! i) wi)"
proof -
  obtain w1 w2 where f: "fireToolCallStarts r 0 calls w = (w1, None)"
    and run: "runScheduled (\<lambda>i. runToolCall env r s tools D (calls ! i)) (enSchedule env (length calls) w1) w1
      (replicate (length calls) zeroOutcome) = (w2, outs)"
    using assms(1) by (auto simp: runToolCalls_def split: prod.splits option.splits)
  show ?thesis using runScheduled_slot [OF run, of i] assms(2,3) by simp
qed

section \<open>The phases of a run, as a trace\<close>

text \<open>
  A tool whose handler and hooks write their phase into the world, which is a log; each hook
  returns the answer it is given: nothing, an error, or a panic.
\<close>

definition tracedHook :: "err option exec \<Rightarrow> string list toolHook" where
  "tracedHook a ev w = (w @ [tePhase ev], case a of Crash \<Rightarrow> Crash | Returned e \<Rightarrow> Returned (ev, e))"

definition tracedInjector :: "messageInjection \<Rightarrow> string list messageInjector" where
  "tracedInjector mi ev w = (w @ [''inject '' @ tePhase ev], Returned (ev, Inr (Some mi)))"

definition tracedTool ::
  "toolDef \<Rightarrow> handlerEnd \<Rightarrow> err option exec \<Rightarrow> err option exec \<Rightarrow> err option exec \<Rightarrow> messageInjection \<Rightarrow> string list tool" where
  "tracedTool d h pre main post mi = toolDef.extend d
     \<lparr>tlHandler = Some (\<lambda>_ w. (w @ [''handler''], h)), tlPreRun = Some (tracedHook pre),
      tlOnSuccess = Some (tracedHook main), tlOnError = Some (tracedHook main), tlPostRun = Some (tracedHook post),
      tlOnSuccessMessageInjector = Some (tracedInjector mi), tlOnErrorMessageInjector = Some (tracedInjector mi),
      tlPostRunMessageInjector = Some (tracedInjector mi)\<rparr>"

fun uptoFailure :: "(string \<times> err option exec) list \<Rightarrow> string list" where
  "uptoFailure [] = []"
| "uptoFailure ((n, Returned None) # ps) = n # uptoFailure ps"
| "uptoFailure ((n, _) # ps) = [n]"

fun firstFailure :: "(string \<times> err option exec) list \<Rightarrow> err option exec" where
  "firstFailure [] = Returned None"
| "firstFailure ((n, Returned None) # ps) = firstFailure ps"
| "firstFailure ((n, a) # ps) = a"

definition handlerFails :: "handlerEnd \<Rightarrow> bool" where
  "handlerFails h = (case h of HandlerReturned res e \<Rightarrow> trIsError res \<or> e \<noteq> None | _ \<Rightarrow> True)"

definition phaseSteps ::
  "handlerEnd \<Rightarrow> err option exec \<Rightarrow> err option exec \<Rightarrow> err option exec \<Rightarrow> (string \<times> err option exec) list" where
  "phaseSteps h pre main post =
     (let p = (if handlerFails h then ToolPhaseOnError else ToolPhaseOnSuccess) in
      [(ToolPhasePreRun, pre), (''handler'', Returned None), (p, main), (''inject '' @ p, Returned None),
       (ToolPhasePostRun, post), (''inject '' @ ToolPhasePostRun, Returned None)])"

text \<open>What each traced step adds to the log, and what it hands on.\<close>

lemma traced_hook: "runToolHook phase (Some (tracedHook a)) ev w =
    (w @ [phase], case a of Crash \<Rightarrow> Crash
       | Returned e \<Rightarrow> Returned (ev\<lparr>tePhase := phase\<rparr>, map_option (\<lambda>e. Wrap e ''tool hook'') e))"
  by (simp add: runToolHook_def tracedHook_def andThen_def split: exec.split)

lemma traced_injector: "runInjector phase (Some (tracedInjector mi)) ev mis None w =
    (w @ [''inject '' @ phase],
     Returned (ev\<lparr>tePhase := phase\<rparr>, mis @ [stampInjection phase (ev\<lparr>tePhase := phase\<rparr>) mi], None))"
  by (simp add: runInjector_def tracedInjector_def andThen_def)

lemma injector_after_error: "runInjector phase f ev mis (Some x) w = (w, Returned (ev, mis, Some x))"
  by (simp add: runInjector_def)

lemma tracedTool_simps:
  "tlName (tracedTool d h pre main post mi) = tlName d"
  "tlHandler (tracedTool d h pre main post mi) = Some (\<lambda>_ w. (w @ [''handler''], h))"
  "tlPreRun (tracedTool d h pre main post mi) = Some (tracedHook pre)"
  "tlOnSuccess (tracedTool d h pre main post mi) = Some (tracedHook main)"
  "tlOnError (tracedTool d h pre main post mi) = Some (tracedHook main)"
  "tlPostRun (tracedTool d h pre main post mi) = Some (tracedHook post)"
  "tlOnSuccessMessageInjector (tracedTool d h pre main post mi) = Some (tracedInjector mi)"
  "tlOnErrorMessageInjector (tracedTool d h pre main post mi) = Some (tracedInjector mi)"
  "tlPostRunMessageInjector (tracedTool d h pre main post mi) = Some (tracedInjector mi)"
  by (simp_all add: tracedTool_def toolDef.defs)

lemma traced_handler:
  obtains res he where "\<And>tool call args w. executeToolHandler (\<lambda>_ w. (w @ [''handler''], h)) tool call args w =
      (w @ [''handler''], res, he)" and "handlerFails h \<longleftrightarrow> he \<noteq> None \<or> trIsError res"
  by (cases h) (auto simp: executeToolHandler_def handlerFails_def)

lemma outcome_errors [simp]:
  "toErr (finishToolRun env r ev mis e) = e" "toErr (resultOnly res) = None" "trIsError (NewToolErrorResult c)"
  by (simp_all add: finishToolRun_def Let_def resultOnly_def NewToolErrorResult_def)

lemma traced_primary:
  assumes "p = (if failed \<or> trIsError (the (teResult ev)) then ToolPhaseOnError else ToolPhaseOnSuccess)"
  shows "runPrimaryToolHooks (tracedTool d h pre main post mi) ev failed w =
    andThen (runToolHook p (Some (tracedHook main)) ev w)
      (\<lambda>(ev', e) w'. runInjector p (Some (tracedInjector mi)) ev' [] e w')"
  by (simp add: runPrimaryToolHooks_def Let_def assms tracedTool_simps)

lemma andThen_simps [simp]: "andThen (w, Crash) f = (w, Crash)" "andThen (w, Returned a) f = f a w"
  by (simp_all add: andThen_def)

lemma executeTools_recorded:
  assumes "stMessages s = pre @ [a]" and "legal pre" and "mRole a = RoleAssistant"
    and "mToolCalls a = calls" and "calls \<noteq> []" and "callsReady calls"
  shows "legal (stMessages (fst (executeTools env r s tools calls ds w)))
    \<and> (case fireToolCallStarts r 0 calls w of
         (w1, Some x) \<Rightarrow>
           executeTools env r s tools calls ds w = (s\<lparr>stMessages := pre @ [a\<lparr>mToolCalls := []\<rparr>]\<rparr>, w1, Some x)
       | (w1, None) \<Rightarrow>
           (\<exists>rs mis. stMessages (fst (executeTools env r s tools calls ds w)) = pre @ a # rs @ map injectionMessage mis
              \<and> map mToolCallID rs = map tcID calls \<and> list_all isToolResult rs \<and> list_all usableInjection mis
              \<and> stInjections (fst (executeTools env r s tools calls ds w)) = stInjections s @ mis))"
proof (cases "fireToolCallStarts r 0 calls w")
  case (Pair w1 fail)
  show ?thesis
  proof (cases fail)
    case (Some x)
    have "dropUnansweredToolCalls s = s\<lparr>stMessages := pre @ [a\<lparr>mToolCalls := []\<rparr>]\<rparr>"
      using assms(1,3,4,5) by (simp add: dropUnansweredToolCalls_def Let_def)
    then show ?thesis
      using executeTools_aborted [of r calls w w1 x] Pair Some assms(2,3) by (simp add: legal_append)
  next
    case None
    obtain s' w' e where ex: "executeTools env r s tools calls ds w = (s', w', e)" using prod_cases3 by blast
    obtain outs where o: "length outs = length calls"
      "s' = s\<lparr>stMessages := stMessages s @ resultMessages env r s calls outs
              @ map injectionMessage (filter usableInjection (concat (map toInjections outs))),
             stInjections := stInjections s @ filter usableInjection (concat (map toInjections outs))\<rparr>"
      using executeTools_started [OF Pair [unfolded None] ex] by blast
    define mis where "mis = filter usableInjection (concat (map toInjections outs))"
    have u: "list_all usableInjection mis" by (simp add: mis_def list_all_iff)
    have ms: "stMessages s' = pre @ a # resultMessages env r s calls outs @ map injectionMessage mis"
      using o(2) assms(1) by (simp add: mis_def)
    have "answers (mToolCalls a) (resultMessages env r s calls outs)"
      using recorded_answers [OF _ o(1)] assms(4,6) by (simp add: callsReady_def)
    then have "legal (stMessages s')"
      unfolding ms using assms(2,3) injections_legal [OF u] legal_unit [of a]
      by (simp add: legal_append del: legal.simps)
    then show ?thesis
      using ex Pair None ms u recorded_results [OF o(1), of env r s] o(2) by (auto simp: mis_def)
  qed
qed

lemmas executeTools_legal = executeTools_recorded [THEN conjunct1]

section \<open>Properties\<close>

text \<open>
  C2. Executing a round's tool calls leaves a legal transcript, whatever the handlers, the
  hooks and the caller's decisions do. If a start hook fails nothing runs: the assistant's
  words stay, its calls are withdrawn and the hook's error is returned. Otherwise the
  assistant turn is followed by one result per call, in the order of the calls, and only then by
  the injected messages, all of them with a usable role and all of them in the audit trail.
\<close>

theorem tool_round_recorded:
  assumes "stMessages s = pre @ [a]" and "legal pre" and "mRole a = RoleAssistant"
    and "mToolCalls a = calls" and "calls \<noteq> []" and "callsReady calls"
  shows "legal (stMessages (fst (executeTools env r s tools calls ds w)))
    \<and> (case fireToolCallStarts r 0 calls w of
         (w1, Some x) \<Rightarrow>
           executeTools env r s tools calls ds w = (s\<lparr>stMessages := pre @ [a\<lparr>mToolCalls := []\<rparr>]\<rparr>, w1, Some x)
       | (w1, None) \<Rightarrow>
           (\<exists>rs mis. stMessages (fst (executeTools env r s tools calls ds w)) = pre @ a # rs @ map injectionMessage mis
              \<and> map mToolCallID rs = map tcID calls \<and> list_all isToolResult rs \<and> list_all usableInjection mis
              \<and> stInjections (fst (executeTools env r s tools calls ds w)) = stInjections s @ mis))"
  by (rule executeTools_recorded [OF assms])

definition weatherCall :: toolCall where
  "weatherCall = \<lparr>tcID = ''call_1'', tcName = ''weather'', tcArguments = ''{}''\<rparr>"

definition weatherTurn :: message where
  "weatherTurn = emptyMessage\<lparr>mRole := RoleAssistant, mToolCalls := [weatherCall]\<rparr>"

definition askedWeather :: runState where
  "askedWeather = (newRunState (sampleRequest :: unit request) True)\<lparr>
     stMessages := [emptyMessage\<lparr>mRole := RoleUser\<rparr>, weatherTurn]\<rparr>"

theorem tool_round_recorded_witness:
  "stMessages askedWeather = [emptyMessage\<lparr>mRole := RoleUser\<rparr>] @ [weatherTurn]
   \<and> legal (stMessages (fst (executeTools sampleEnv (sampleRequest :: unit request) askedWeather [] [weatherCall] [] ())))"
proof -
  have b: "\<not> blank ''{}''" by code_simp
  have m: "stMessages askedWeather = [emptyMessage\<lparr>mRole := RoleUser\<rparr>] @ [weatherTurn]"
    by (simp add: askedWeather_def)
  moreover have "callsReady [weatherCall]" using b by (simp add: callsReady_def weatherCall_def)
  ultimately show ?thesis
    by (intro conjI tool_round_recorded [OF m, THEN conjunct1]) (simp_all add: weatherTurn_def)
qed

text \<open>
  C7. A caller's veto holds: of several decisions naming a pending call the last one counts
  and decisions naming no pending call are ignored; a denied call is answered with an error
  result carrying the caller's text, and the round's effect on the world is exactly that of
  running the calls that were not denied, in the order they finish. Every other call's slot
  holds the outcome of running that very call.
\<close>

theorem denied_calls_never_run:
  assumes "fireToolCallStarts r 0 calls w = (w1, None)"
    and "\<And>w n. distinct (enSchedule env n w) \<and> set (enSchedule env n w) = {..<n}"
    and "D = toolDecisionsByCallID calls ds"
    and "snd (runToolCalls env r s tools calls D w) = Inr outs" and "i < length calls"
  shows "D (tcID (calls ! i)) = map_of (rev (map (\<lambda>d. (dcCallID d, d)) ds)) (tcID (calls ! i))
    \<and> (cid \<notin> tcID ` set calls \<longrightarrow> D cid = None)
    \<and> fst (runToolCalls env r s tools calls D w) =
        fst (runScheduled (\<lambda>i. runToolCall env r s tools D (calls ! i))
          (filter (\<lambda>i. \<not> isDenied D (calls ! i)) (enSchedule env (length calls) w1)) w1 [])
    \<and> (if isDenied D (calls ! i)
       then toResult (outs ! i) = NewToolErrorResult (capResult env r
              (if dcDenyResult (the (D (tcID (calls ! i)))) \<noteq> [] then dcDenyResult (the (D (tcID (calls ! i))))
               else ''tool call denied''))
       else \<exists>wi. outs ! i = snd (runToolCall env r s tools D (calls ! i) wi))"
proof -
  obtain wi where o: "outs ! i = snd (runToolCall env r s tools D (calls ! i) wi)"
    using runToolCalls_slots [OF assms(4,2,5)] by blast
  have "isDenied D (calls ! i) \<Longrightarrow> toResult (outs ! i) = NewToolErrorResult (capResult env r
              (if dcDenyResult (the (D (tcID (calls ! i)))) \<noteq> [] then dcDenyResult (the (D (tcID (calls ! i))))
               else ''tool call denied''))"
    by (simp add: o denied_outcome resultOnly_def deniedResult_def NewToolDeniedResult_def
        NewToolErrorResult_def defaultToolDeniedMessage_def)
  then show ?thesis
    using o runToolCalls_world [OF assms(1), of env s tools D "[]"] assms(3,5)
    by (auto simp: toolDecisionsByCallID_eq)
qed

definition inOrder :: "'w engineEnv \<Rightarrow> 'w engineEnv" where
  "inOrder env = env\<lparr>enSchedule := \<lambda>n _. [0..<n]\<rparr>"

lemma inOrder_schedule: "distinct (enSchedule (inOrder env) n w) \<and> set (enSchedule (inOrder env) n w) = {..<n}"
  by (auto simp: inOrder_def)

theorem denied_calls_never_run_witness:
  "toolDecisionsByCallID [weatherCall] [\<lparr>dcCallID = ''call_1'', dcDeny = True, dcDenyResult = []\<rparr>] ''call_1''
     = Some \<lparr>dcCallID = ''call_1'', dcDeny = True, dcDenyResult = []\<rparr>"
proof -
  let ?ds = "[\<lparr>dcCallID = ''call_1'', dcDeny = True, dcDenyResult = []\<rparr>]"
  let ?run = "runToolCalls (inOrder sampleEnv) (sampleRequest :: unit request) askedWeather [] [weatherCall]
     (toolDecisionsByCallID [weatherCall] ?ds) ()"
  have f: "fireToolCallStarts (sampleRequest :: unit request) 0 [weatherCall] () = ((), None)"
    by (simp add: fireToolCallStart_def runCallback_def sampleRequest_def WithModel_def WithMaxContextTokens_def
        WithPrompt_def NewRequest_def)
  obtain outs where o: "snd ?run = Inr outs"
    using f by (fastforce simp: runToolCalls_def split: prod.splits)
  show ?thesis
    using denied_calls_never_run [OF f inOrder_schedule refl o, of 0] by (simp add: weatherCall_def)
qed

text \<open>
  C8. The phases of a tool run: PreRun, then the handler, then OnSuccess or OnError (never
  both; OnError also when the handler panics, times out, or returns a result flagged as an
  error), its injector, PostRun and its injector; the first hook that fails or panics ends
  the sequence, its error is reported, and a panic becomes an error result for the model.
\<close>

theorem tool_phases_in_order:
  assumes "json_valid (tcArguments call)" and "trimSpace (tcArguments call) \<noteq> []"
  shows "fst (runToolSafely env r s (tracedTool d h pre main post mi) call w)
      = w @ uptoFailure (phaseSteps h pre main post)
    \<and> (case firstFailure (phaseSteps h pre main post) of
         Crash \<Rightarrow> snd (runToolSafely env r s (tracedTool d h pre main post mi) call w)
           = resultOnly (NewToolErrorResult (''tool '' @ quote (enIsPrint env) (tlName d) @ '' panicked''))
       | Returned e \<Rightarrow> toErr (snd (runToolSafely env r s (tracedTool d h pre main post mi) call w))
           = map_option (\<lambda>e. Wrap e ''tool hook'') e)"
proof -
  have na: "normalizedToolArguments (tcArguments call) = (tcArguments call, True)" using assms by (simp add: normalizedToolArguments_def)
  have cases: "P pre main post"
    if "\<And>m p. P Crash m p" "\<And>x m p. P (Returned (Some x)) m p" "\<And>p. P (Returned None) Crash p"
      "\<And>x p. P (Returned None) (Returned (Some x)) p" "P (Returned None) (Returned None) Crash"
      "\<And>x. P (Returned None) (Returned None) (Returned (Some x))" "P (Returned None) (Returned None) (Returned None)"
    for P :: "err option exec \<Rightarrow> err option exec \<Rightarrow> err option exec \<Rightarrow> bool"
    using that by (metis exec.exhaust option.exhaust)
  obtain res he where h: "\<And>tool call args w. executeToolHandler (\<lambda>_ w. (w @ [''handler''], h)) tool call args w =
      (w @ [''handler''], res, he)" and f: "handlerFails h \<longleftrightarrow> he \<noteq> None \<or> trIsError res"
    using traced_handler [of h thesis] by blast
  define p where "p = (if handlerFails h then ToolPhaseOnError else ToolPhaseOnSuccess)"
  define out where "out = (case he of Some x \<Rightarrow> NewToolErrorResult (enErrText env x) | None \<Rightarrow> res)"
  have "p = (if he \<noteq> None \<or> trIsError (the (teResult (ev\<lparr>teErr := x, teResult := Some out\<rparr>)))
      then ToolPhaseOnError else ToolPhaseOnSuccess)" for ev x
    by (cases he) (simp_all add: p_def f out_def)
  note primary = traced_primary [OF this]
  show ?thesis
    unfolding runToolSafely_def runTool_def na prepareToolRun_def runToolLifecycle_def phaseSteps_def Let_def
      tracedTool_simps option.case prod.case h p_def [symmetric] out_def [symmetric] primary
    by (rule cases) (simp_all add: traced_hook traced_injector injector_after_error)
qed

definition echoDef :: toolDef where
  "echoDef = \<lparr>tlName = ''echo'', tlDescription = [], tlArgumentsSchema = ''{}'', tlStrictArguments = False, tlTimeout = 0\<rparr>"

definition echoInjection :: messageInjection where
  "echoInjection = \<lparr>miType = RoleUser, miContent = ''hi'', miPhase = [], miTool = [], miCallID = [], miRound = 0\<rparr>"

theorem tool_phases_in_order_witness:
  "json_valid (tcArguments weatherCall) \<and> trimSpace (tcArguments weatherCall) \<noteq> []
   \<and> fst (runToolSafely sampleEnv sampleRequest askedWeather
       (tracedTool echoDef HandlerPanicked (Returned None) (Returned None) Crash echoInjection) weatherCall [])
      = [''pre_run'', ''handler'', ''on_error'', ''inject on_error'', ''post_run'']"
proof -
  have v: "json_valid (tcArguments weatherCall)" "trimSpace (tcArguments weatherCall) \<noteq> []" by code_simp+
  have "uptoFailure (phaseSteps HandlerPanicked (Returned None) (Returned None) Crash) =
      [''pre_run'', ''handler'', ''on_error'', ''inject on_error'', ''post_run'']"
    by (simp add: phaseSteps_def handlerFails_def Let_def)
  with tool_phases_in_order [OF v, of sampleEnv sampleRequest askedWeather echoDef HandlerPanicked
      "Returned None" "Returned None" Crash echoInjection "[]"] v
  show ?thesis by simp
qed

end
