(* ===== verification/Engine.thy ===== *)
theory Engine
  imports ToolExec
begin

text \<open>
  The engine: one provider round, the tool loop around it and the run of a request
  (\<open>runOne\<close> and what it calls in \<open>engine.go\<close>, \<open>run\<close> in \<open>request.go\<close>). The run state is a
  pointer shared by everything a run hands out; here each function takes it and returns it.
  A response's \<open>ExecuteToolCalls\<close> closure is an \<open>executor\<close>: what it captured and whether it
  has run. Log lines are left out, contexts and their deadlines belong to the world.
\<close>

record 'w executor =
  exTools :: "'w tool list"
  exCalls :: "toolCall list"
  exExecuted :: bool

section \<open>Responses\<close>

definition reportedModel :: "runState \<Rightarrow> string \<Rightarrow> string" where
  "reportedModel s served = (if served \<noteq> [] then served else mdID (stModel s))"

definition responseFromAssistant :: "runState \<Rightarrow> message \<Rightarrow> response" where
  "responseFromAssistant s a =
     \<lparr>rsText = messageText a, rsReasoning = mReasoning a, rsToolCalls = cloneToolCalls (mToolCalls a),
      rsUsage = stUsage s, rsMessages = cloneMessages (stMessages s), rsInjections = stInjections s,
      rsCost = stCost s, rsModel = reportedModel s (uModel (stUsage s)), rsFinishReason = uFinishReason (stUsage s)\<rparr>"

definition partialResponse :: "runState \<Rightarrow> response" where
  "partialResponse s =
     \<lparr>rsText = [], rsReasoning = [], rsToolCalls = [], rsUsage = stUsage s, rsMessages = cloneMessages (stMessages s),
      rsInjections = stInjections s, rsCost = stCost s, rsModel = reportedModel s (uModel (stUsage s)),
      rsFinishReason = []\<rparr>"

definition hasAssistantOutput :: "message \<Rightarrow> bool" where
  "hasAssistantOutput a \<longleftrightarrow>
     messageText a \<noteq> [] \<or> mReasoning a \<noteq> [] \<or> length (mToolCalls a) > 0 \<or> HasProviderReasoning (mProviderReasoning a)"

definition partialResponseWithAssistant :: "runState \<Rightarrow> message \<Rightarrow> usage \<Rightarrow> response" where
  "partialResponseWithAssistant s a u =
     (let messages = cloneMessages (stMessages s);
          messages' = (if hasAssistantOutput a
            then messages @ [a\<lparr>mOrigin := MessageOriginTurn, mToolCalls := cloneToolCalls (mToolCalls a)\<rparr>]
            else messages);
          totalUsage = addUsage (stUsage s) u
      in \<lparr>rsText = messageText a, rsReasoning = mReasoning a, rsToolCalls = cloneToolCalls (mToolCalls a),
          rsUsage = totalUsage, rsMessages = messages', rsInjections = stInjections s,
          rsCost = stCost s + Cost (stModel s) u, rsModel = reportedModel s (uModel totalUsage),
          rsFinishReason = uFinishReason totalUsage\<rparr>)"

section \<open>The token budget\<close>

definition runPostTokenLimit ::
  "'w request \<Rightarrow> 'w tool tokenLimitEvent \<Rightarrow> 'w \<Rightarrow> 'w \<times> 'w tool tokenLimitEvent \<times> err option" where
  "runPostTokenLimit r ev w =
     (case rqPostTokenLimit r of
        None \<Rightarrow> (w, ev, None)
      | Some h \<Rightarrow> (case h ev w of (w', ev', e) \<Rightarrow> (w', ev', map_option (\<lambda>x. Wrap x ''post token limit'') e)))"

definition limitHandler :: "'w request \<Rightarrow> 'w tool counter \<Rightarrow> 'w tokenLimitHandler" where
  "limitHandler r counter =
     (case rqPreTokenLimit r of
        Some h \<Rightarrow> h
      | None \<Rightarrow> (\<lambda>ev w. case DropOldestUnits (Some counter) ev of (ev', e) \<Rightarrow> (w, ev', e)))"

definition compactToBudget ::
  "'w request \<Rightarrow> runState \<Rightarrow> 'w tool tokenLimitEvent \<Rightarrow> 'w tool counter \<Rightarrow> 'w \<Rightarrow> runState \<times> 'w \<times> err option" where
  "compactToBudget r s ev counter w =
     (case limitHandler r counter ev w of
        (w1, ev1, Some e) \<Rightarrow> (s, w1, Some (Wrap e ''pre token limit''))
      | (w1, ev1, None) \<Rightarrow>
          (case IsOverBudget ev1 of
             (ev2, Inl e) \<Rightarrow> (s, w1, Some (Wrap e ''recount token budget after pre handler''))
           | (ev2, Inr _) \<Rightarrow>
               (case runPostTokenLimit r ev2 w1 of
                  (w2, ev3, Some e) \<Rightarrow> (s, w2, Some e)
                | (w2, ev3, None) \<Rightarrow>
                    let s' = s\<lparr>stMessages := evMessages ev3\<rparr> in
                    (case IsOverBudget ev3 of
                       (ev4, Inl e) \<Rightarrow> (s', w2, Some (Wrap e ''recount token budget''))
                     | (ev4, Inr _) \<Rightarrow> (s', w2, None)))))"

definition enforceBudget ::
  "'w engineEnv \<Rightarrow> 'w request \<Rightarrow> runState \<Rightarrow> 'w tool list \<Rightarrow> 'w \<Rightarrow> runState \<times> 'w \<times> err option" where
  "enforceBudget env r s tools w =
     (let budget = resolvedBudget r (stModel s) in
      if budget \<le> 0 then (s, w, None)
      else let counter = resolvedCounter env r in
           case counter (stMessages s) tools of
             Inl e \<Rightarrow> (s, w, Some (Wrap e ''count token budget''))
           | Inr count \<Rightarrow>
               if count \<le> budget then (s, w, None)
               else compactToBudget r s
                      \<lparr>evMessages = cloneMessages (stMessages s), evTools = tools, evEstimatedTokens = count,
                       evBudgetTokens = budget, evRound = stRound s, evCounter = counter\<rparr> counter w)"

section \<open>Before the provider is called\<close>

definition resolveTools ::
  "'w request \<Rightarrow> runState \<Rightarrow> bool \<Rightarrow> 'w \<Rightarrow> 'w \<times> (err + 'w tool list option)" where
  "resolveTools r s withhold w =
     (if \<not> stWithTools s \<or> withhold then (w, Inr None)
      else case rqToolProvider r of
          None \<Rightarrow> (w, Inr (staticTools r))
        | Some f \<Rightarrow>
            (case f w of
               (w', Inl e) \<Rightarrow> (w', Inl (Wrap e ''provide tools''))
             | (w', Inr None) \<Rightarrow> (w', Inr None)
             | (w', Inr (Some st)) \<Rightarrow> (w', Inr (toolSetDefinitions (Some st)))))"

definition toolSlice :: "'w tool list option \<Rightarrow> 'w tool list" where
  "toolSlice ts = (case ts of None \<Rightarrow> [] | Some l \<Rightarrow> l)"

definition prepareTools ::
  "'w engineEnv \<Rightarrow> 'w request \<Rightarrow> runState \<Rightarrow> bool \<Rightarrow> 'w \<Rightarrow> runState \<times> 'w \<times> (err + 'w tool list)" where
  "prepareTools env r s withhold w =
     (case resolveTools r s withhold w of
        (w1, Inl e) \<Rightarrow> (s, w1, Inl e)
      | (w1, Inr tools) \<Rightarrow>
          (case first_error
                  [validateMessageContentCapabilities env r (stMessages s) (clientCapabilities (rqClient r) (stModel s)),
                   validateCapabilities env r (stModel s) tools] of
             Some e \<Rightarrow> (s, w1, Inl e)
           | None \<Rightarrow>
               (case enforceBudget env r s (toolSlice tools) w1 of
                  (s', w2, Some e) \<Rightarrow> (s', w2, Inl e)
                | (s', w2, None) \<Rightarrow> (s', w2, Inr (toolSlice tools)))))"

definition repairIfAsked :: "'w request \<Rightarrow> runState \<Rightarrow> runState" where
  "repairIfAsked r s =
     (if rqTranscriptRepair r then s\<lparr>stMessages := repairTranscript (stMessages s)\<rparr> else s)"

definition fireStart :: "'w request \<Rightarrow> runState \<Rightarrow> 'w tool list \<Rightarrow> 'w \<Rightarrow> 'w \<times> err option" where
  "fireStart r s tools w =
     (case rqOnStart r of
        Some f \<Rightarrow>
          if stRound s = 0 then
            (case f \<lparr>reModel = stModel s, reMessages = cloneMessages (stMessages s), reTools = cloneTools tools\<rparr> w of
               (w', _, e) \<Rightarrow> (w', map_option (\<lambda>x. Wrap x ''on start'') e))
          else (w, None)
      | None \<Rightarrow> (w, None))"

definition prepareRound ::
  "'w request \<Rightarrow> runState \<Rightarrow> 'w tool list \<Rightarrow> 'w \<Rightarrow> runState \<times> 'w \<times> (err + 'w roundEvent)" where
  "prepareRound r s tools w =
     (let s' = repairIfAsked r s in
      case fireStart r s' tools w of
        (w1, Some e) \<Rightarrow> (s', w1, Inl e)
      | (w1, None) \<Rightarrow>
          let ev = \<lparr>roRound = stRound s', roMaxRounds = rqMaxRounds r, roUsage = zeroUsage, roTotalUsage = zeroUsage,
                    roToolCalls = 0, roMessages = cloneMessages (stMessages s'), roTools = cloneTools tools\<rparr> in
          (case rqOnRoundStart r of
             None \<Rightarrow> (s', w1, Inr ev)
           | Some f \<Rightarrow>
               (case f ev w1 of
                  (w2, ev', Some e) \<Rightarrow> (s', w2, Inl (Wrap e ''on round start''))
                | (w2, ev', None) \<Rightarrow> (s', w2, Inr ev'))))"

section \<open>The provider call\<close>

definition driverParams :: "'w request \<Rightarrow> runState \<Rightarrow> 'w tool list \<Rightarrow> generationParams" where
  "driverParams r s tools =
     (let params = cloneParams (rqParams r);
          caps = clientCapabilities (rqClient r) (stModel s);
          params1 = (if \<not> SupportsReasoningEffort caps \<and> \<not> SupportsDisablingReasoning caps
            then params\<lparr>gpReasoningEffort := ReasoningEffortUnset\<rparr> else params)
      in if length tools = 0
         then params1\<lparr>gpToolChoice := \<lparr>chMode = [], chName = []\<rparr>, gpParallelToolCalls := None\<rparr> else params1)"

definition roundRequest :: "'w request \<Rightarrow> runState \<Rightarrow> 'w tool list \<Rightarrow> 'w driverRequest" where
  "roundRequest r s tools =
     \<lparr>drModel = stModel s, drMessages = cloneMessages (stMessages s), drTools = cloneTools tools,
      drParams = driverParams r s tools\<rparr>"

definition streamAssistant ::
  "'w request \<Rightarrow> runState \<Rightarrow> 'w tool list \<Rightarrow> 'w \<Rightarrow> runState \<times> 'w \<times> message \<times> usage \<times> err option" where
  "streamAssistant r s tools w =
     (let driver = theDriver (rqClient r);
          call = (if resolvedStreaming r then dvStream driver else dvComplete driver)
      in case runDriver (consumeDelta r)
                (emptyMessage\<lparr>mRole := RoleAssistant\<rparr>, newAssembler (stCappedArguments s) (stWarnedToolCallCap s))
                (call (roundRequest r s tools) w) of
           ((assistant, asm), w', usage, e) \<Rightarrow>
             (s\<lparr>stCappedArguments := asCappedArguments asm, stWarnedToolCallCap := asWarnedToolCallCap asm\<rparr>,
              w', assistant\<lparr>mToolCalls := drainToolCalls asm\<rparr>, usage,
              map_option (\<lambda>x. Wrap x ''stream completion'') e))"

definition recordAssistant ::
  "'w request \<Rightarrow> runState \<Rightarrow> message \<Rightarrow> usage \<Rightarrow> 'w roundEvent \<Rightarrow> 'w \<Rightarrow> runState \<times> 'w \<times> err option" where
  "recordAssistant r s a u ev w =
     (let a' = a\<lparr>mOrigin := MessageOriginTurn\<rparr>;
          s' = s\<lparr>stMessages := stMessages s @ [a'], stUsage := addUsage (stUsage s) u,
                 stCost := stCost s + Cost (stModel s) u, stRound := stRound s + 1\<rparr>
      in case runCallback (rqOnAssistantMessage r) ''on assistant message'' a' w of
           (w1, Some e) \<Rightarrow> (s', w1, Some e)
         | (w1, None) \<Rightarrow>
             (case rqOnRoundEnd r of
                None \<Rightarrow> (s', w1, None)
              | Some f \<Rightarrow>
                  (case f (ev\<lparr>roUsage := u, roTotalUsage := stUsage s', roToolCalls := int (length (mToolCalls a))\<rparr>) w1 of
                     (w2, _, e) \<Rightarrow> (s', w2, map_option (\<lambda>x. Wrap x ''on round end'') e))))"

definition finish :: "'w request \<Rightarrow> response \<Rightarrow> 'w \<Rightarrow> 'w \<times> response \<times> err option" where
  "finish r resp w =
     (case rqOnFinish r of
        None \<Rightarrow> (w, resp, None)
      | Some f \<Rightarrow> (case f resp w of (w', resp', e) \<Rightarrow> (w', resp', map_option (\<lambda>x. Wrap x ''on finish'') e)))"

section \<open>The loop\<close>

definition acceptQueuedUserMessages :: "'w request \<Rightarrow> runState \<Rightarrow> 'w \<Rightarrow> runState \<times> 'w \<times> bool" where
  "acceptQueuedUserMessages r s w =
     (case rqUserMessageQueue r of
        None \<Rightarrow> (s, w, False)
      | Some q \<Rightarrow>
          if stRound s \<ge> rqMaxRounds r then (s, w, False)
          else case drain (qrGet q w) of
              (q', ms) \<Rightarrow>
                if length ms = 0 then (s, qrPut q q' w, False)
                else (s\<lparr>stMessages := stMessages s @ ms\<rparr>, qrPut q q' w, True))"

definition shouldWithholdTools :: "'w request \<Rightarrow> int \<Rightarrow> bool" where
  "shouldWithholdTools r round_no = (rqForceFinalAnswer r \<and> round_no = rqMaxRounds r)"

text \<open>One round up to the recorded assistant turn: a failure with its response, or the turn.\<close>

definition runRound ::
  "'w engineEnv \<Rightarrow> 'w request \<Rightarrow> runState \<Rightarrow> bool \<Rightarrow> 'w
    \<Rightarrow> runState \<times> 'w \<times> (response \<times> err + message \<times> 'w tool list)" where
  "runRound env r s withhold w =
     (case prepareTools env r s withhold w of
        (s1, w1, Inl e) \<Rightarrow> (s1, w1, Inl (partialResponse s1, e))
      | (s1, w1, Inr tools) \<Rightarrow>
          (case prepareRound r s1 tools w1 of
             (s2, w2, Inl e) \<Rightarrow> (s2, w2, Inl (partialResponse s2, e))
           | (s2, w2, Inr ev) \<Rightarrow>
               (case streamAssistant r s2 tools w2 of
                  (s3, w3, a, u, Some e) \<Rightarrow> (s3, w3, Inl (partialResponseWithAssistant s3 a u, e))
                | (s3, w3, a, u, None) \<Rightarrow>
                    (case recordAssistant r s3 a u ev w3 of
                       (s4, w4, Some e) \<Rightarrow> (s4, w4, Inl (responseFromAssistant s4 a, e))
                     | (s4, w4, None) \<Rightarrow> (s4, w4, Inr (a, tools))))))"

subsection \<open>What each step leaves alone\<close>

definition sameLedger :: "runState \<Rightarrow> runState \<Rightarrow> bool" where
  "sameLedger s s' \<longleftrightarrow> stRound s' = stRound s \<and> stUsage s' = stUsage s \<and> stCost s' = stCost s
     \<and> stModel s' = stModel s \<and> stInjections s' = stInjections s \<and> stWithTools s' = stWithTools s"

lemma sameLedger_refl [simp]: "sameLedger s s"
  by (simp add: sameLedger_def)

lemma sameLedger_trans: "sameLedger a b \<Longrightarrow> sameLedger b c \<Longrightarrow> sameLedger a c"
  by (simp add: sameLedger_def)

lemma sameLedger_messages [simp]: "sameLedger s (s\<lparr>stMessages := ms\<rparr>)"
  by (simp add: sameLedger_def)

lemma compactToBudget_frame: "compactToBudget r s ev c w = (s', w', e) \<Longrightarrow> sameLedger s s'"
  by (auto simp: compactToBudget_def Let_def split: prod.splits option.splits sum.splits)

lemma enforceBudget_frame: "enforceBudget env r s tools w = (s', w', e) \<Longrightarrow> sameLedger s s'"
  by (auto simp: enforceBudget_def Let_def split: if_splits sum.splits dest: compactToBudget_frame)

lemma prepareTools_frame: "prepareTools env r s h w = (s', w', x) \<Longrightarrow> sameLedger s s'"
  by (auto simp: prepareTools_def split: prod.splits option.splits sum.splits dest: enforceBudget_frame)

lemma prepareRound_frame: "prepareRound r s tools w = (s', w', x) \<Longrightarrow> sameLedger s s' \<and> s' = repairIfAsked r s"
  by (auto simp: prepareRound_def repairIfAsked_def Let_def split: prod.splits option.splits sum.splits if_splits)

lemma streamAssistant_frame:
  "streamAssistant r s tools w = (s', w', a, u, e) \<Longrightarrow> sameLedger s s' \<and> stMessages s' = stMessages s"
  by (auto simp: streamAssistant_def sameLedger_def Let_def split: prod.splits)

lemma recordAssistant_state:
  "recordAssistant r s a u ev w = (s', w', e) \<Longrightarrow>
   s' = s\<lparr>stMessages := stMessages s @ [a\<lparr>mOrigin := MessageOriginTurn\<rparr>], stUsage := addUsage (stUsage s) u,
          stCost := stCost s + Cost (stModel s) u, stRound := stRound s + 1\<rparr>"
  by (auto simp: recordAssistant_def Let_def split: prod.splits option.splits)

text \<open>A round that gets as far as its assistant turn, with the state it was prepared from.\<close>

lemma runRound_Inr:
  assumes "runRound env r s h w = (s', w', Inr (a, tools))"
  obtains s1 w1 s2 w2 ev s3 w3 u where
    "prepareTools env r s h w = (s1, w1, Inr tools)" "prepareRound r s1 tools w1 = (s2, w2, Inr ev)"
    "streamAssistant r s2 tools w2 = (s3, w3, a, u, None)" "recordAssistant r s3 a u ev w3 = (s', w', None)"
  using assms by (auto simp: runRound_def split: prod.splits option.splits sum.splits)

lemma runRound_counts:
  assumes "runRound env r s h w = (s', w', Inr (a, tools))"
  shows "\<exists>u. stRound s' = stRound s + 1 \<and> stUsage s' = addUsage (stUsage s) u
    \<and> stCost s' = stCost s + Cost (stModel s) u \<and> stModel s' = stModel s \<and> stInjections s' = stInjections s
    \<and> stWithTools s' = stWithTools s"
  using assms
  by (elim runRound_Inr)
    (auto dest!: prepareTools_frame prepareRound_frame streamAssistant_frame recordAssistant_state simp: sameLedger_def)

lemma acceptQueued_frame: "acceptQueuedUserMessages r s w = (s', w', b) \<Longrightarrow> sameLedger s s'"
  by (auto simp: acceptQueuedUserMessages_def split: option.splits if_splits prod.splits)

lemma acceptQueued_room: "acceptQueuedUserMessages r s w = (s', w', True) \<Longrightarrow> stRound s < rqMaxRounds r"
  by (auto simp: acceptQueuedUserMessages_def split: option.splits if_splits prod.splits)

text \<open>
  The recursion ends: each call records one round, and it recurs only while rounds are left.
\<close>

function runOne ::
  "'w engineEnv \<Rightarrow> 'w request \<Rightarrow> runState \<Rightarrow> bool \<Rightarrow> 'w
    \<Rightarrow> runState \<times> 'w \<times> response \<times> 'w executor option \<times> err option" where
  "runOne env r s withhold w =
     (case runRound env r s withhold w of
        (s1, w1, Inl (resp, e)) \<Rightarrow> (s1, w1, resp, None, Some e)
      | (s1, w1, Inr (a, tools)) \<Rightarrow>
          let resp = responseFromAssistant s1 a in
          if length (mToolCalls a) = 0 then
            (case (if rqAutoToolCalls r then acceptQueuedUserMessages r s1 w1 else (s1, w1, False)) of
               (s2, w2, True) \<Rightarrow> runOne env r s2 (shouldWithholdTools r (stRound s2 + 1)) w2
             | (s2, w2, False) \<Rightarrow> (case finish r resp w2 of (w3, resp', e) \<Rightarrow> (s2, w3, resp', None, e)))
          else if stRound s1 \<ge> rqMaxRounds r then (s1, w1, resp, None, Some (Sentinel ErrMaxRoundsExceeded))
          else (s1, w1, resp, Some \<lparr>exTools = tools, exCalls = mToolCalls a, exExecuted = False\<rparr>, None))"
  by pat_completeness auto
termination
proof (relation "measure (\<lambda>(env, r, s, h, w). nat (rqMaxRounds r - stRound s))", goal_cases)
  case (2 env r s h w s1 p w1 x y a tools resp s2 p2 w2 b)
  then have "runRound env r s h w = (s1, w1, Inr (a, tools))" by simp
  then have "stRound s1 = stRound s + 1" by (auto dest: runRound_counts)
  moreover from 2 have acc: "acceptQueuedUserMessages r s1 w1 = (s2, w2, True)" by (simp split: if_splits)
  ultimately show ?case
    using acceptQueued_room [OF acc] acceptQueued_frame [OF acc] by (simp add: sameLedger_def)
qed simp

declare runOne.simps [simp del]

definition fireError :: "'w request \<Rightarrow> err \<Rightarrow> 'w \<Rightarrow> 'w" where
  "fireError r e w = (case rqOnError r of None \<Rightarrow> w | Some f \<Rightarrow> fst (f e w))"

definition fireIfError :: "'w request \<Rightarrow> err option \<Rightarrow> 'w \<Rightarrow> 'w" where
  "fireIfError r e w = (case e of None \<Rightarrow> w | Some x \<Rightarrow> fireError r x w)"

definition ExecuteToolCalls ::
  "'w engineEnv \<Rightarrow> 'w request \<Rightarrow> 'w executor \<Rightarrow> runState \<Rightarrow> toolCallDecision list \<Rightarrow> 'w
    \<Rightarrow> 'w executor \<times> runState \<times> 'w \<times> response option \<times> 'w executor option \<times> err option" where
  "ExecuteToolCalls env r ex s ds w =
     (if exExecuted ex then (ex, s, w, None, None, Some (Sentinel ErrToolCallsAlreadyExecuted))
      else
        let ex' = ex\<lparr>exExecuted := True\<rparr> in
        if stRound s \<ge> rqMaxRounds r then
          (ex', s, fireError r (Sentinel ErrMaxRoundsExceeded) w, Some (partialResponse s), None,
           Some (Sentinel ErrMaxRoundsExceeded))
        else case executeTools env r s (exTools ex) (exCalls ex) ds w of
            (s1, w1, Some e) \<Rightarrow> (ex', s1, fireError r e w1, Some (partialResponse s1), None, Some e)
          | (s1, w1, None) \<Rightarrow>
              (case acceptQueuedUserMessages r s1 w1 of
                 (s2, w2, _) \<Rightarrow>
                   (case runOne env r s2 (shouldWithholdTools r (stRound s2 + 1)) w2 of
                      (s3, w3, resp, nxt, e) \<Rightarrow> (ex', s3, fireIfError r e w3, Some resp, nxt, e))))"

subsection \<open>The ledger of rounds\<close>

text \<open>\<open>us\<close> lists what the driver reported for each round recorded between two states.\<close>

definition ledger :: "runState \<Rightarrow> usage list \<Rightarrow> runState \<Rightarrow> bool" where
  "ledger s us s' \<longleftrightarrow> stRound s' = stRound s + int (length us) \<and> stUsage s' = foldl addUsage (stUsage s) us
     \<and> stCost s' = stCost s + sum_list (map (Cost (stModel s)) us) \<and> stModel s' = stModel s
     \<and> stWithTools s' = stWithTools s"

lemma ledger_same: "sameLedger s s' \<Longrightarrow> ledger s [] s'"
  by (simp add: ledger_def sameLedger_def)

lemma ledger_trans: "ledger a us b \<Longrightarrow> ledger b vs c \<Longrightarrow> ledger a (us @ vs) c"
  by (simp add: ledger_def)

lemma recordAssistant_ledger: "recordAssistant r s a u ev w = (s', w', e) \<Longrightarrow> ledger s [u] s'"
  by (drule recordAssistant_state) (simp add: ledger_def)

lemma runRound_ledger:
  assumes "runRound env r s h w = (s', w', x)"
  shows "\<exists>us. ledger s us s' \<and> length us \<le> 1 \<and> ((\<exists>y. x = Inr y) \<longrightarrow> length us = 1)"
proof -
  obtain s1 w1 x1 where p: "prepareTools env r s h w = (s1, w1, x1)" using prod_cases3 by blast
  have l1: "ledger s [] s1" using prepareTools_frame [OF p] by (rule ledger_same)
  show ?thesis
  proof (cases x1)
    case (Inl e)
    then show ?thesis using assms p l1 by (auto simp: runRound_def intro!: exI [of _ "[]"])
  next
    case (Inr tools)
    obtain s2 w2 x2 where q: "prepareRound r s1 tools w1 = (s2, w2, x2)" using prod_cases3 by blast
    have l2: "ledger s [] s2" using ledger_trans [OF l1 ledger_same] prepareRound_frame [OF q] by auto
    show ?thesis
    proof (cases x2)
      case (Inl e)
      then show ?thesis using assms p q l2 Inr by (auto simp: runRound_def intro!: exI [of _ "[]"])
    next
      case (Inr ev)
      obtain s3 w3 a u e where st: "streamAssistant r s2 tools w2 = (s3, w3, a, u, e)" using prod_cases5 by blast
      have l3: "ledger s [] s3" using ledger_trans [OF l2 ledger_same] streamAssistant_frame [OF st] by auto
      show ?thesis
      proof (cases e)
        case (Some y)
        then show ?thesis using assms p q st l3 Inr \<open>x1 = Inr tools\<close>
          by (auto simp: runRound_def intro!: exI [of _ "[]"])
      next
        case None
        obtain s4 w4 e4 where rc: "recordAssistant r s3 a u ev w3 = (s4, w4, e4)" using prod_cases3 by blast
        have "ledger s [u] s4" using ledger_trans [OF l3 recordAssistant_ledger [OF rc]] by simp
        then show ?thesis using assms p q st rc None Inr \<open>x1 = Inr tools\<close>
          by (auto simp: runRound_def split: option.splits intro!: exI [of _ "[u]"])
      qed
    qed
  qed
qed

lemma executeTools_frame:
  assumes "executeTools env r s tools calls ds w = (s', w', e)"
  shows "ledger s [] s'"
proof (cases "fireToolCallStarts r 0 calls w")
  case (Pair w1 f)
  show ?thesis
  proof (cases f)
    case None
    then show ?thesis using executeTools_started [OF Pair [unfolded None] assms] by (auto simp: ledger_def)
  next
    case (Some x)
    then have "s' = dropUnansweredToolCalls s" using executeTools_aborted [of r calls w w1 x] Pair assms by simp
    then show ?thesis by (auto simp: ledger_def dropUnansweredToolCalls_def Let_def)
  qed
qed

definition runOneOutcome :: "'w request \<Rightarrow> runState \<Rightarrow> runState \<Rightarrow> err option \<Rightarrow> bool" where
  "runOneOutcome r s s' e \<longleftrightarrow> (\<exists>us. ledger s us s' \<and> (e = None \<longrightarrow> us \<noteq> []))
     \<and> (stRound s < rqMaxRounds r \<longrightarrow> stRound s' \<le> rqMaxRounds r)"

lemma runOne_ledger:
  "runOne env r s h w = (s', w', resp, nxt, e) \<Longrightarrow> runOneOutcome r s s' e"
proof (induction env r s h w arbitrary: s' w' resp nxt e rule: runOne.induct)
  case (1 env r s h w)
  obtain s1 w1 x where rr: "runRound env r s h w = (s1, w1, x)" using prod_cases3 by blast
  obtain us where us: "ledger s us s1" "length us \<le> 1" "(\<exists>y. x = Inr y) \<Longrightarrow> length us = 1"
    using runRound_ledger [OF rr] by blast
  show ?case
  proof (cases x)
    case (Inl y)
    then show ?thesis
      using "1.prems" rr us by (cases y) (auto simp: runOne.simps [of env r s] runOneOutcome_def ledger_def)
  next
    case (Inr y)
    obtain a tools where y: "y = (a, tools)" by fastforce
    have one: "length us = 1" "stRound s1 = stRound s + 1" using us Inr by (auto simp: ledger_def)
    show ?thesis
    proof (cases "mToolCalls a = [] \<and> rqAutoToolCalls r")
      case False
      then have "s' = s1" using "1.prems" rr Inr y
        by (auto simp: runOne.simps [of env r s] Let_def split: if_splits prod.splits)
      then show ?thesis using us one by (auto simp: runOneOutcome_def)
    next
      case auto: True
      obtain s2 w2 b where acc: "acceptQueuedUserMessages r s1 w1 = (s2, w2, b)" using prod_cases3 by blast
      have l2: "ledger s us s2" using ledger_trans [OF us(1) ledger_same [OF acceptQueued_frame [OF acc]]] by simp
      show ?thesis
      proof (cases b)
        case False
        then have "s' = s2" using "1.prems" rr Inr y auto acc
          by (auto simp: runOne.simps [of env r s] Let_def split: prod.splits)
        then show ?thesis using l2 one by (auto simp: runOneOutcome_def ledger_def)
      next
        case True
        have run: "runOne env r s2 (shouldWithholdTools r (stRound s2 + 1)) w2 = (s', w', resp, nxt, e)"
          using "1.prems" rr Inr y auto acc True by (simp add: runOne.simps [of env r s] Let_def)
        have ih: "runOneOutcome r s2 s' e"
          by (rule "1.IH" [OF rr [symmetric] refl, OF Inr y [symmetric] refl]) (use auto acc True run in simp_all)
        have "stRound s2 < rqMaxRounds r"
          using acceptQueued_room [of r s1 w1 s2 w2] acceptQueued_frame [OF acc] acc True by (simp add: sameLedger_def)
        with ih obtain vs where "ledger s2 vs s'" "stRound s' \<le> rqMaxRounds r" by (auto simp: runOneOutcome_def)
        with ledger_trans [OF l2] one show ?thesis
          by (auto simp: runOneOutcome_def intro!: exI [of _ "us @ vs"])
      qed
    qed
  qed
qed

lemma ExecuteToolCalls_ledger:
  assumes "ExecuteToolCalls env r ex s ds w = (ex', s', w', resp, nxt, e)"
  shows "runOneOutcome r s s' e"
proof (cases "exExecuted ex \<or> stRound s \<ge> rqMaxRounds r")
  case True
  then have "s' = s \<and> e \<noteq> None" using assms by (auto simp: ExecuteToolCalls_def Let_def split: if_splits)
  then show ?thesis by (auto simp: runOneOutcome_def intro!: exI [of _ "[]"] ledger_same)
next
  case False
  obtain s1 w1 e1 where ex: "executeTools env r s (exTools ex) (exCalls ex) ds w = (s1, w1, e1)"
    using prod_cases3 by blast
  note l1 = executeTools_frame [OF ex]
  show ?thesis
  proof (cases e1)
    case (Some x)
    then have "s' = s1 \<and> e \<noteq> None" using assms ex False by (auto simp: ExecuteToolCalls_def Let_def)
    then show ?thesis using l1 by (auto simp: runOneOutcome_def ledger_def intro!: exI [of _ "[]"])
  next
    case None
    obtain s2 w2 b where acc: "acceptQueuedUserMessages r s1 w1 = (s2, w2, b)" using prod_cases3 by blast
    have l2: "ledger s [] s2" using ledger_trans [OF l1 ledger_same [OF acceptQueued_frame [OF acc]]] by simp
    obtain w3 resp' where run: "runOne env r s2 (shouldWithholdTools r (stRound s2 + 1)) w2 = (s', w3, resp', nxt, e)"
      using assms ex acc None False by (auto simp: ExecuteToolCalls_def Let_def split: prod.splits)
    obtain us where us: "ledger s2 us s'" "e = None \<Longrightarrow> us \<noteq> []"
        "stRound s2 < rqMaxRounds r \<Longrightarrow> stRound s' \<le> rqMaxRounds r"
      using runOne_ledger [OF run] by (auto simp: runOneOutcome_def)
    have "stRound s2 = stRound s" using l2 by (simp add: ledger_def)
    with us ledger_trans [OF l2 us(1)] show ?thesis
      by (auto simp: runOneOutcome_def intro!: exI [of _ us])
  qed
qed

lemma ExecuteToolCalls_room:
  "ExecuteToolCalls env r ex s ds w = (ex', s', w', resp, nxt, None) \<Longrightarrow>
   \<not> exExecuted ex \<and> stRound s < rqMaxRounds r \<and> stRound s < stRound s' \<and> resp \<noteq> None \<and> exExecuted ex'"
proof -
  assume a: "ExecuteToolCalls env r ex s ds w = (ex', s', w', resp, nxt, None)"
  then have "\<not> exExecuted ex \<and> stRound s < rqMaxRounds r"
    by (auto simp: ExecuteToolCalls_def Let_def split: if_splits)
  moreover from this a have "resp \<noteq> None \<and> exExecuted ex'"
    by (auto simp: ExecuteToolCalls_def Let_def split: prod.splits option.splits)
  moreover have "stRound s < stRound s'"
    using ExecuteToolCalls_ledger [OF a] by (auto simp: runOneOutcome_def ledger_def)
  ultimately show ?thesis by blast
qed

subsection \<open>Running a request\<close>

text \<open>The loop of automatic mode; it too ends, because every turn of it uses up a round.\<close>

function autoLoop ::
  "'w engineEnv \<Rightarrow> 'w request \<Rightarrow> runState \<Rightarrow> 'w \<Rightarrow> response option \<Rightarrow> 'w executor option
    \<Rightarrow> runState \<times> 'w \<times> response option \<times> 'w executor option \<times> err option" where
  "autoLoop env r s w resp ex =
     (case ex of
        None \<Rightarrow> (s, w, resp, None, None)
      | Some x \<Rightarrow>
          (case ExecuteToolCalls env r x s [] w of
             (x', s', w', resp', nxt, Some e) \<Rightarrow> (s', w', resp', nxt, Some e)
           | (x', s', w', resp', nxt, None) \<Rightarrow> autoLoop env r s' w' resp' nxt))"
  by pat_completeness auto
termination
proof (relation "measure (\<lambda>(env, r, s, w, resp, ex). nat (rqMaxRounds r - stRound s))", goal_cases)
  case (2 env r s w resp ex x x' y s' z w' u resp' v nxt e)
  then have "ExecuteToolCalls env r x s [] w = (x', s', w', resp', nxt, None)" by simp
  then show ?case using ExecuteToolCalls_room by fastforce
qed simp

declare autoLoop.simps [simp del]

text \<open>
  \<open>run\<close>: the state is a result too, because the executor a manual run returns shares it;
  \<open>None\<close> for the state when validation refused the request.
\<close>

definition run ::
  "'w engineEnv \<Rightarrow> 'w request \<Rightarrow> 'w
    \<Rightarrow> runState option \<times> 'w \<times> response option \<times> 'w executor option \<times> err option" where
  "run env r w =
     (let withTools = hasTools r in
      case validateRequest env r withTools of
        Some e \<Rightarrow> (None, w, None, None, Some e)
      | None \<Rightarrow>
          let s = newRunState r withTools;
              (s1, w1) = (if rqAutoToolCalls r
                then (case acceptQueuedUserMessages r s w of (s', w', _) \<Rightarrow> (s', w')) else (s, w));
              withholdTools = (withTools \<and> shouldWithholdTools r 1)
          in case runOne env r s1 withholdTools w1 of
               (s2, w2, resp, ex, Some e) \<Rightarrow> (Some s2, fireError r e w2, Some resp, ex, Some e)
             | (s2, w2, resp, ex, None) \<Rightarrow>
                 if \<not> rqAutoToolCalls r \<or> \<not> withTools then (Some s2, w2, Some resp, ex, None)
                 else (case autoLoop env r s2 w2 (Some resp) ex of
                         (s3, w3, resp', ex', e) \<Rightarrow> (Some s3, w3, resp', ex', e)))"

lemma autoLoop_ledger:
  "autoLoop env r s w resp ex = (s', w', resp', ex', e) \<Longrightarrow>
   stRound s \<le> rqMaxRounds r \<Longrightarrow> \<exists>us. ledger s us s' \<and> stRound s' \<le> rqMaxRounds r"
proof (induction env r s w resp ex arbitrary: s' w' resp' ex' e rule: autoLoop.induct)
  case (1 env r s w resp ex)
  show ?case
  proof (cases ex)
    case None
    then have "s' = s" using "1.prems" by (auto simp: autoLoop.simps [of env r s])
    then show ?thesis using "1.prems"(2) by (auto intro!: exI [of _ "[]"] ledger_same)
  next
    case (Some x)
    obtain x1 s1 w1 r1 n1 e1 where ex: "ExecuteToolCalls env r x s [] w = (x1, s1, w1, r1, n1, e1)"
      using prod_cases6 by blast
    obtain us where us: "ledger s us s1" and b: "stRound s1 \<le> rqMaxRounds r"
    proof -
      from ExecuteToolCalls_ledger [OF ex] obtain us where "ledger s us s1"
        and "stRound s < rqMaxRounds r \<Longrightarrow> stRound s1 \<le> rqMaxRounds r" by (auto simp: runOneOutcome_def)
      moreover have "stRound s \<ge> rqMaxRounds r \<Longrightarrow> s1 = s"
        using ex by (auto simp: ExecuteToolCalls_def Let_def split: if_splits)
      ultimately show thesis using that "1.prems"(2) by force
    qed
    show ?thesis
    proof (cases e1)
      case None
      then have "autoLoop env r s1 w1 r1 n1 = (s', w', resp', ex', e)"
        using "1.prems"(1) Some ex by (simp add: autoLoop.simps [of env r s])
      from "1.IH" [OF Some ex [symmetric] refl refl refl refl None this b] ledger_trans [OF us] show ?thesis by blast
    next
      case (Some y)
      then have "s' = s1" using "1.prems"(1) \<open>ex = Some x\<close> ex by (simp add: autoLoop.simps [of env r s])
      then show ?thesis using us b by blast
    qed
  qed
qed

section \<open>Transcripts stay sound\<close>

definition sound :: "message list \<Rightarrow> bool" where
  "sound ms \<longleftrightarrow> legal ms \<and> callsOnAssistant ms"

text \<open>What a round may start from: a legal transcript, or any transcript when repair is on.\<close>

definition ready :: "'w request \<Rightarrow> message list \<Rightarrow> bool" where
  "ready r ms \<longleftrightarrow> callsOnAssistant ms \<and> (rqTranscriptRepair r \<or> legal ms)"

definition keepsTranscript :: "'w tokenLimitHandler option \<Rightarrow> bool" where
  "keepsTranscript h \<longleftrightarrow>
     (\<forall>f ev w. h = Some f \<longrightarrow> callsOnAssistant (evMessages ev) \<longrightarrow>
        (let ms = evMessages (fst (snd (f ev w))) in callsOnAssistant ms \<and> (legal (evMessages ev) \<longrightarrow> legal ms)))"

text \<open>Caller code that respects the protocol: limit handlers keep a transcript sound, the queue holds what
  \<open>Enqueue\<close> accepts.\<close>

definition wellBehaved :: "'w request \<Rightarrow> bool" where
  "wellBehaved r \<longleftrightarrow> keepsTranscript (rqPreTokenLimit r) \<and> keepsTranscript (rqPostTokenLimit r)
     \<and> (\<forall>q w. rqUserMessageQueue r = Some q \<longrightarrow> list_all plain_user (qMessages (qrGet q w)))"

lemma sound_ready: "sound ms \<Longrightarrow> ready r ms"
  by (simp add: sound_def ready_def)

lemma legal_clone [simp]: "legal (cloneMessages ms) = legal ms"
proof (induction ms rule: legal.induct)
  case (2 m ms)
  have "answers cs (cloneMessages rs) = answers cs rs" for cs rs
    by (simp add: answers_def cloneMessages_def list_all_iff image_image)
  then show ?case using 2 by (simp add: cloneMessages_def take_map drop_map)
qed (simp add: cloneMessages_def)

lemma callsOnAssistant_clone [simp]: "callsOnAssistant (cloneMessages ms) = callsOnAssistant ms"
  by (simp add: callsOnAssistant_def cloneMessages_def list_all_iff)

lemma evicts_subset: "evicts a b \<Longrightarrow> set b \<subseteq> set a"
proof (induction rule: evicts.induct)
  case (evict ms i ms')
  then show ?case by (auto simp: dropUnit_def dest: in_set_takeD in_set_dropD)
qed simp

lemma DropOldestUnits_ready:
  assumes "DropOldestUnits c ev = (ev', e)" and "callsOnAssistant (evMessages ev)"
  shows "callsOnAssistant (evMessages ev')" and "legal (evMessages ev) \<Longrightarrow> legal (evMessages ev')"
proof -
  have "dropPasses (withCounter c ev) = (ev', e)" using assms(1) by (simp add: DropOldestUnits_def withCounter_def)
  then have ev: "evicts (evMessages ev) (evMessages ev')" using dropPasses_spec by fastforce
  show "callsOnAssistant (evMessages ev')"
    using evicts_subset [OF ev] assms(2) by (auto simp: callsOnAssistant_def list_all_iff)
  show "legal (evMessages ev) \<Longrightarrow> legal (evMessages ev')"
    using evicts_keeps [OF ev] assms(2) by (simp add: keepsEssentials_def)
qed

lemma limitHandler_keeps:
  assumes "keepsTranscript (rqPreTokenLimit r)" and "limitHandler r c ev w = (w', ev', e)" and "ready r (evMessages ev)"
  shows "ready r (evMessages ev')"
proof (cases "rqPreTokenLimit r")
  case None
  then have "DropOldestUnits (Some c) ev = (ev', e)" using assms(2) by (auto simp: limitHandler_def split: prod.splits)
  with DropOldestUnits_ready [OF this] assms(3) show ?thesis by (auto simp: ready_def)
next
  case (Some f)
  then have f: "f ev w = (w', ev', e)" using assms(2) by (simp add: limitHandler_def)
  have "let ms = evMessages (fst (snd (f ev w))) in callsOnAssistant ms \<and> (legal (evMessages ev) \<longrightarrow> legal ms)"
    using assms(1,3) Some by (simp add: keepsTranscript_def ready_def)
  with f assms(3) show ?thesis by (auto simp: ready_def Let_def)
qed

lemma runPostTokenLimit_keeps:
  assumes "keepsTranscript (rqPostTokenLimit r)" and "runPostTokenLimit r ev w = (w', ev', e)" and "ready r (evMessages ev)"
  shows "ready r (evMessages ev')"
proof (cases "rqPostTokenLimit r")
  case None
  then show ?thesis using assms by (simp add: runPostTokenLimit_def)
next
  case (Some f)
  have "let ms = evMessages (fst (snd (f ev w))) in callsOnAssistant ms \<and> (legal (evMessages ev) \<longrightarrow> legal ms)"
    using assms(1,3) Some by (simp add: keepsTranscript_def ready_def)
  with assms(2,3) Some show ?thesis by (auto simp: ready_def Let_def runPostTokenLimit_def split: prod.splits)
qed

lemma IsOverBudget_messages: "IsOverBudget ev = (ev', x) \<Longrightarrow> evMessages ev' = evMessages ev"
  by (auto simp: IsOverBudget_def split: sum.splits)

lemma compactToBudget_cases:
  assumes "compactToBudget r s ev c w = (s', w', e)"
  obtains "s' = s"
  | w1 ev1 ev2 over ev3 where "limitHandler r c ev w = (w1, ev1, None)" "IsOverBudget ev1 = (ev2, Inr over)"
      "runPostTokenLimit r ev2 w1 = (w', ev3, None)" "s' = s\<lparr>stMessages := evMessages ev3\<rparr>"
  using assms by (auto simp: compactToBudget_def Let_def split: prod.splits option.splits sum.splits)

lemma compactToBudget_ready:
  assumes "wellBehaved r" and "compactToBudget r s ev c w = (s', w', e)" and "ready r (evMessages ev)" and "ready r (stMessages s)"
  shows "ready r (stMessages s')"
  using assms(2)
proof (cases rule: compactToBudget_cases)
  case 1
  then show ?thesis using assms(4) by simp
next
  case (2 w1 ev1 ev2 over ev3)
  have "ready r (evMessages ev1)"
    using limitHandler_keeps [OF _ 2(1) assms(3)] assms(1) by (simp add: wellBehaved_def)
  then have "ready r (evMessages ev2)" using IsOverBudget_messages [OF 2(2)] by simp
  then have "ready r (evMessages ev3)"
    using runPostTokenLimit_keeps [OF _ 2(3)] assms(1) by (simp add: wellBehaved_def)
  with 2(4) show ?thesis by simp
qed

lemma enforceBudget_ready:
  assumes "wellBehaved r" and "enforceBudget env r s tools w = (s', w', e)" and "ready r (stMessages s)"
  shows "ready r (stMessages s')"
proof -
  have "s' = s \<or> (\<exists>ev c. compactToBudget r s ev c w = (s', w', e) \<and> evMessages ev = cloneMessages (stMessages s))"
    using assms(2) by (force simp: enforceBudget_def Let_def split: if_splits sum.splits)
  moreover have "ready r (cloneMessages (stMessages s))" using assms(3) by (simp add: ready_def)
  ultimately show ?thesis using compactToBudget_ready [OF assms(1)] assms(3) by metis
qed

lemma prepareTools_ready:
  assumes "wellBehaved r" and "prepareTools env r s h w = (s', w', x)" and "ready r (stMessages s)"
  shows "ready r (stMessages s')"
  using assms(2,3) enforceBudget_ready [OF assms(1)]
  by (fastforce simp: prepareTools_def split: prod.splits option.splits sum.splits)

lemma prepareRound_sound:
  assumes "prepareRound r s tools w = (s', w', x)" and "ready r (stMessages s)"
  shows "sound (stMessages s')"
  using prepareRound_frame [OF assms(1)] assms(2)
  by (auto simp: repairIfAsked_def ready_def sound_def repair_legal repair_callsOnAssistant split: if_splits)

text \<open>Whatever deltas arrive and whatever the callbacks say, the turn is an assistant message.\<close>

lemma runDriver_role:
  "runDriver (consumeDelta r) st t = ((m', a'), w', u, e) \<Longrightarrow> mRole m' = mRole (fst st)"
proof (induction t arbitrary: st)
  case (Emit w d k)
  obtain st1 w1 e1 where c: "consumeDelta r st d w = (st1, w1, e1)" using prod_cases3 by blast
  have "mRole (fst st1) = mRole (fst st)"
    using consumeDelta_message [of r st d w] c by (simp add: absorbDelta_def)
  moreover have "mRole m' = mRole (fst st1)"
    by (rule Emit.IH [of "k w1" "k w1 e1"]) (use Emit.prems c in simp_all)
  ultimately show ?case by simp
qed auto

lemma streamAssistant_turn:
  assumes "streamAssistant r s tools w = (s', w', a, u, e)"
  shows "mRole a = RoleAssistant \<and> callsReady (mToolCalls a)"
  using assms
  by (auto simp: streamAssistant_def Let_def drainToolCalls_ready split: prod.splits dest!: runDriver_role)

text \<open>A turn that waits for its calls to be answered.\<close>

definition pending :: "runState \<Rightarrow> toolCall list \<Rightarrow> bool" where
  "pending s calls \<longleftrightarrow> calls \<noteq> [] \<and> callsReady calls
     \<and> (\<exists>pre a. stMessages s = pre @ [a] \<and> sound pre \<and> mRole a = RoleAssistant \<and> mOrigin a = MessageOriginTurn
         \<and> mToolCalls a = calls)"

lemma runRound_turn:
  assumes "wellBehaved r" and "ready r (stMessages s)" and "runRound env r s h w = (s', w', Inr (a, tools))"
  shows "if mToolCalls a = [] then sound (stMessages s') else pending s' (mToolCalls a)"
proof -
  obtain s1 w1 s2 w2 ev s3 w3 u where
    p: "prepareTools env r s h w = (s1, w1, Inr tools)" and q: "prepareRound r s1 tools w1 = (s2, w2, Inr ev)"
    and st: "streamAssistant r s2 tools w2 = (s3, w3, a, u, None)"
    and rc: "recordAssistant r s3 a u ev w3 = (s', w', None)" using runRound_Inr [OF assms(3)] by blast
  have s2: "sound (stMessages s2)" by (rule prepareRound_sound [OF q prepareTools_ready [OF assms(1) p assms(2)]])
  have m: "stMessages s' = stMessages s2 @ [a\<lparr>mOrigin := MessageOriginTurn\<rparr>]"
    using recordAssistant_state [OF rc] streamAssistant_frame [OF st] by simp
  show ?thesis
    using s2 m streamAssistant_turn [OF st] by (auto simp: sound_def pending_def legal_append)
qed

lemma plain_users_sound: "list_all plain_user ms \<Longrightarrow> sound ms"
  by (induction ms) (auto simp: sound_def plain_user_def)

lemma sound_append: "sound xs \<Longrightarrow> sound ys \<Longrightarrow> sound (xs @ ys)"
  by (simp add: sound_def legal_append)

lemma acceptQueued_messages:
  assumes "wellBehaved r" and "acceptQueuedUserMessages r s w = (s', w', b)"
  shows "\<exists>ms. stMessages s' = stMessages s @ ms \<and> list_all plain_user ms"
  using assms
  by (auto simp: acceptQueuedUserMessages_def wellBehaved_def drain_def split: option.splits if_splits)

lemma acceptQueued_sound:
  assumes "wellBehaved r" and "acceptQueuedUserMessages r s w = (s', w', b)" and "sound (stMessages s)"
  shows "sound (stMessages s')"
  using acceptQueued_messages [OF assms(1,2)] assms(3) sound_append plain_users_sound by metis

lemma legal_snoc_plain: "legal ms \<Longrightarrow> list_all plain_user us \<Longrightarrow> legal (ms @ us)"
  using plain_users_sound by (simp add: legal_append sound_def)

lemma acceptQueued_ready:
  assumes "wellBehaved r" and "acceptQueuedUserMessages r s w = (s', w', b)" and "ready r (stMessages s)"
  shows "ready r (stMessages s')"
  using acceptQueued_messages [OF assms(1,2)] assms(3) plain_users_sound
  by (auto simp: ready_def sound_def legal_snoc_plain)

text \<open>After a call that succeeds: a sound transcript, or a pending turn and its fresh executor.\<close>

definition settled :: "runState \<Rightarrow> 'w executor option \<Rightarrow> bool" where
  "settled s nxt = (case nxt of None \<Rightarrow> sound (stMessages s)
     | Some x \<Rightarrow> pending s (exCalls x) \<and> \<not> exExecuted x)"

lemma runOne_settled:
  "wellBehaved r \<Longrightarrow> ready r (stMessages s) \<Longrightarrow> runOne env r s h w = (s', w', resp, nxt, None) \<Longrightarrow>
   settled s' nxt \<and> (nxt \<noteq> None \<longrightarrow> stRound s' < rqMaxRounds r)"
proof (induction env r s h w arbitrary: s' w' resp nxt rule: runOne.induct)
  case (1 env r s h w)
  obtain s1 w1 x where rr: "runRound env r s h w = (s1, w1, x)" using prod_cases3 by blast
  from "1.prems"(3) rr obtain y where y: "x = Inr y" by (cases x) (auto simp: runOne.simps [of env r s])
  obtain a tools where at: "y = (a, tools)" by fastforce
  note turn = runRound_turn [OF "1.prems"(1,2) rr [unfolded y at]]
  show ?case
  proof (cases "mToolCalls a = []")
    case False
    then show ?thesis
      using "1.prems"(3) rr y at turn by (auto simp: runOne.simps [of env r s] Let_def settled_def split: if_splits)
  next
    case True
    obtain s2 w2 b where acc: "(if rqAutoToolCalls r then acceptQueuedUserMessages r s1 w1 else (s1, w1, False)) = (s2, w2, b)"
      using prod_cases3 by blast
    have s2: "sound (stMessages s2)"
      using acc turn True acceptQueued_sound [OF "1.prems"(1)] by (auto split: if_splits)
    show ?thesis
    proof (cases b)
      case False
      then show ?thesis using "1.prems"(3) rr y at True acc s2
        by (auto simp: runOne.simps [of env r s] Let_def settled_def split: prod.splits)
    next
      case b: True
      have run: "runOne env r s2 (shouldWithholdTools r (stRound s2 + 1)) w2 = (s', w', resp, nxt, None)"
        using "1.prems"(3) rr y at True acc b by (simp add: runOne.simps [of env r s] Let_def)
      show ?thesis
        by (rule "1.IH" [OF rr [symmetric] refl y at [symmetric] refl _ acc [symmetric] refl _ "1.prems"(1)
              sound_ready [OF s2] run]) (use True b in simp_all)
    qed
  qed
qed

lemma executeTools_sound:
  assumes "pending s calls" and "executeTools env r s tools calls ds w = (s', w', e)"
  shows "sound (stMessages s')"
proof -
  obtain pre a where a: "stMessages s = pre @ [a]" "sound pre" "mRole a = RoleAssistant" "mOrigin a = MessageOriginTurn"
    "mToolCalls a = calls" and c: "calls \<noteq> []" "callsReady calls" using assms(1) by (auto simp: pending_def)
  have "legal pre" using a(2) by (simp add: sound_def)
  note rec = executeTools_legal [OF a(1) this a(3,5) c, of env r tools ds w]
  have "callsOnAssistant (stMessages s')"
  proof (cases "fireToolCallStarts r 0 calls w")
    case (Pair w1 f)
    show ?thesis
    proof (cases f)
      case (Some x)
      then have "s' = dropUnansweredToolCalls s" using executeTools_aborted [of r calls w w1 x] Pair assms(2) by simp
      then show ?thesis using a c(1) by (auto simp: dropUnansweredToolCalls_def Let_def sound_def)
    next
      case None
      obtain outs mis where "stMessages s' = stMessages s @ resultMessages env r s calls outs @ map injectionMessage mis"
        using executeTools_started [OF Pair [unfolded None] assms(2)] by auto
      moreover have "callsOnAssistant (resultMessages env r s calls outs)" "callsOnAssistant (map injectionMessage mis)"
        by (auto simp: callsOnAssistant_def list_all_iff resultMessages_def)
      ultimately show ?thesis using a by (simp add: sound_def)
    qed
  qed
  with rec assms(2) show ?thesis by (simp add: sound_def)
qed

lemma ExecuteToolCalls_settled:
  assumes "wellBehaved r" and "pending s (exCalls ex)"
    and "ExecuteToolCalls env r ex s ds w = (ex', s', w', resp, nxt, None)"
  shows "settled s' nxt \<and> (nxt \<noteq> None \<longrightarrow> stRound s' < rqMaxRounds r)"
proof -
  obtain s1 w1 where e: "executeTools env r s (exTools ex) (exCalls ex) ds w = (s1, w1, None)"
    using assms(3) by (auto simp: ExecuteToolCalls_def Let_def split: if_splits prod.splits option.splits)
  obtain s2 w2 b where acc: "acceptQueuedUserMessages r s1 w1 = (s2, w2, b)" using prod_cases3 by blast
  obtain w3 resp' where run: "runOne env r s2 (shouldWithholdTools r (stRound s2 + 1)) w2 = (s', w3, resp', nxt, None)"
    using assms(3) e acc by (auto simp: ExecuteToolCalls_def Let_def split: if_splits prod.splits)
  have "sound (stMessages s2)"
    by (rule acceptQueued_sound [OF assms(1) acc executeTools_sound [OF assms(2) e]])
  from runOne_settled [OF assms(1) sound_ready [OF this] run] show ?thesis .
qed

lemma autoLoop_settled:
  "wellBehaved r \<Longrightarrow> settled s ex \<Longrightarrow> autoLoop env r s w resp ex = (s', w', resp', ex', None) \<Longrightarrow>
   ex' = None \<and> sound (stMessages s')"
proof (induction env r s w resp ex arbitrary: s' w' resp' ex' rule: autoLoop.induct)
  case (1 env r s w resp ex)
  show ?case
  proof (cases ex)
    case None
    then show ?thesis using "1.prems" by (auto simp: autoLoop.simps [of env r s] settled_def)
  next
    case (Some x)
    obtain x1 s1 w1 r1 n1 e1 where ex: "ExecuteToolCalls env r x s [] w = (x1, s1, w1, r1, n1, e1)"
      using prod_cases6 by blast
    have e1: "e1 = None" using "1.prems"(3) Some ex by (auto simp: autoLoop.simps [of env r s] split: option.splits)
    have "settled s1 n1"
      using ExecuteToolCalls_settled [OF "1.prems"(1) _ ex [unfolded e1]] "1.prems"(2) Some by (simp add: settled_def)
    moreover have "autoLoop env r s1 w1 r1 n1 = (s', w', resp', ex', None)"
      using "1.prems"(3) Some ex e1 by (simp add: autoLoop.simps [of env r s])
    ultimately show ?thesis
      using "1.IH" [OF Some ex [symmetric] refl refl refl refl e1 "1.prems"(1)] by simp
  qed
qed

text \<open>What a run comes down to: one call of the round function, then the loop in automatic mode.\<close>

lemma run_Some:
  assumes "run env r w = (Some s, w', resp, ex, e)"
  obtains s1 w1 h s2 w2 resp2 ex2 e2 where
    "validateRequest env r (hasTools r) = None"
    "(if rqAutoToolCalls r then (case acceptQueuedUserMessages r (newRunState r (hasTools r)) w of (s', w', _) \<Rightarrow> (s', w'))
      else (newRunState r (hasTools r), w)) = (s1, w1)"
    "runOne env r s1 h w1 = (s2, w2, resp2, ex2, e2)"
    "if e2 \<noteq> None \<or> \<not> rqAutoToolCalls r \<or> \<not> hasTools r then s = s2 \<and> ex = ex2 \<and> e = e2 \<and> resp = Some resp2
     else autoLoop env r s2 w2 (Some resp2) ex2 = (s, w', resp, ex, e)"
proof -
  obtain s1 w1 where i: "(if rqAutoToolCalls r then (case acceptQueuedUserMessages r (newRunState r (hasTools r)) w of (s', w', _) \<Rightarrow> (s', w'))
      else (newRunState r (hasTools r), w)) = (s1, w1)" by fastforce
  obtain s2 w2 resp2 ex2 e2 where o: "runOne env r s1 (hasTools r \<and> shouldWithholdTools r 1) w1 = (s2, w2, resp2, ex2, e2)"
    using prod_cases5 by blast
  have v: "validateRequest env r (hasTools r) = None"
    using assms by (auto simp: run_def Let_def split: option.splits)
  show thesis
    by (rule that [OF v i o])
      (use assms v i o in \<open>auto simp: run_def Let_def split: option.splits if_splits prod.splits\<close>)
qed

lemma run_start_frame:
  assumes "(if rqAutoToolCalls r then (case acceptQueuedUserMessages r s w of (s', w', _) \<Rightarrow> (s', w')) else (s, w)) = (s1, w1)"
  shows "sameLedger s s1" and "wellBehaved r \<Longrightarrow> ready r (stMessages s) \<Longrightarrow> ready r (stMessages s1)"
  using assms
  by (auto split: if_splits prod.splits dest: acceptQueued_frame acceptQueued_ready [rotated])

text \<open>
  A request that needs nothing but its driver: no hooks, no budget, no tools, one answer. It
  gives the witnesses a run that can be followed by hand.
\<close>

definition quiet :: "unit request \<Rightarrow> bool" where
  "quiet r \<longleftrightarrow> rqOnStart r = None \<and> rqOnRoundStart r = None \<and> rqOnRoundEnd r = None \<and> rqOnAssistantMessage r = None
     \<and> rqOnFinish r = None \<and> \<not> rqAutoToolCalls r \<and> \<not> rqTranscriptRepair r \<and> rqOnDelta r = None \<and> rqOnText r = None
     \<and> rqOnReasoning r = None \<and> resolvedBudget r (resolvedModel r) = 0 \<and> \<not> hasTools r
     \<and> theDriver (rqClient r) = echoDriver \<and> validateRequest sampleEnv r False = None
     \<and> validateCapabilities sampleEnv r (resolvedModel r) None = None
     \<and> validateMessageContentCapabilities sampleEnv r (assembledMessages r)
          (clientCapabilities (rqClient r) (resolvedModel r)) = None"

lemma quiet_run:
  assumes "quiet r"
  shows "\<exists>s a. run sampleEnv r () = (Some s, (), Some (responseFromAssistant s a), None, None) \<and> stRound s = 1
    \<and> stUsage s = addUsage zeroUsage zeroUsage \<and> mRole a = RoleAssistant \<and> mToolCalls a = []
    \<and> stMessages s = assembledMessages r @ [a\<lparr>mOrigin := MessageOriginTurn\<rparr>]"
proof -
  let ?s = "newRunState r False"
  have p: "prepareTools sampleEnv r ?s False () = (?s, (), Inr [])"
    using assms by (simp add: quiet_def prepareTools_def resolveTools_def newRunState_def enforceBudget_def toolSlice_def)
  obtain ev where q: "prepareRound r ?s [] () = (?s, (), Inr ev)"
    using assms by (simp add: quiet_def prepareRound_def fireStart_def repairIfAsked_def Let_def)
  have d: "runDriver (consumeDelta r) st (echoRun q w) =
      ((absorbDelta (fst st) (emptyDelta\<lparr>dText := ''ok'', dFinishReason := FinishReasonStop\<rparr>), snd st), w, zeroUsage, None)"
    for st q w using assms
    by (simp add: quiet_def echoRun_def consumeDelta_def emptyDelta_def dispatchDelta_def dispatchRawDelta_def
        dispatchTextDelta_def dispatchReasoningDelta_def runCallback_def)
  obtain s3 a where st: "streamAssistant r ?s [] () = (s3, (), a, zeroUsage, None)" "mToolCalls a = []"
    using assms by (simp add: quiet_def streamAssistant_def Let_def echoDriver_def d newAssembler_def drainToolCalls_def
        callsByIndex_def)
  obtain s4 where rc: "recordAssistant r s3 a zeroUsage ev () = (s4, (), None)"
    using assms by (simp add: quiet_def recordAssistant_def runCallback_def Let_def)
  have "runRound sampleEnv r ?s False () = (s4, (), Inr (a, []))"
    by (simp add: runRound_def p q st rc)
  then have "runOne sampleEnv r ?s False () = (s4, (), responseFromAssistant s4 a, None, None)"
    using assms by (simp add: quiet_def runOne.simps [of sampleEnv r] st finish_def)
  then have "run sampleEnv r () = (Some s4, (), Some (responseFromAssistant s4 a), None, None)"
    using assms by (simp add: quiet_def run_def)
  moreover have "stRound s4 = 1" "stUsage s4 = addUsage zeroUsage zeroUsage"
    "stMessages s4 = assembledMessages r @ [a\<lparr>mOrigin := MessageOriginTurn\<rparr>]"
    using recordAssistant_state [OF rc] streamAssistant_frame [OF st(1)] by (simp_all add: sameLedger_def newRunState_def)
  ultimately show ?thesis using streamAssistant_turn [OF st(1)] st(2) by blast
qed

definition plainRequest :: "unit request" where
  "plainRequest = WithModel (zeroModel\<lparr>mdID := ''m''\<rparr>)
     (WithPrompt (UserText NewPrompt ''hi'') (NewRequest (NewClient (Some echoDriver) [])))"

lemma plainRequest_messages:
  "assembledMessages plainRequest = [emptyMessage\<lparr>mRole := RoleUser, mContent := Text ''hi'', mOrigin := MessageOriginTurn\<rparr>]"
  by code_simp

lemma plainRequest_checks:
  "validateRequest sampleEnv plainRequest False = None"
  "validateCapabilities sampleEnv plainRequest (resolvedModel plainRequest) None = None"
  "validateMessageContentCapabilities sampleEnv plainRequest (assembledMessages plainRequest)
     (clientCapabilities (rqClient plainRequest) (resolvedModel plainRequest)) = None"
  by code_simp+

lemmas plainRequest_defs = plainRequest_def WithModel_def WithPrompt_def NewRequest_def NewClient_def theDriver_def
  hasTools_def staticTools_def toolSetDefinitions_def resolvedBudget_def resolvedModel_def zeroModel_def

lemma plainRequest_quiet: "quiet plainRequest"
  using plainRequest_checks by (simp add: quiet_def) (simp add: plainRequest_defs)

lemma plainRequest_behaves: "wellBehaved plainRequest" "ready plainRequest (assembledMessages plainRequest)"
  by (simp add: wellBehaved_def keepsTranscript_def plainRequest_defs) (simp add: ready_def plainRequest_messages)

lemma plainRequest_run:
  "\<exists>s resp. run sampleEnv plainRequest () = (Some s, (), Some resp, None, None) \<and> stRound s = 1"
  using quiet_run [OF plainRequest_quiet] by blast

section \<open>Properties\<close>



text \<open>
  C1. The conversation a run leaves can be continued: with caller code that respects the
  protocol, and a prompt that is legal or whose repair was asked for, a run that returns no
  error leaves a legal transcript, or one whose last turn asks for tools and comes with the
  executor that answers exactly those calls; in automatic mode with tools it is always the former.
\<close>

theorem run_transcript_sound:
  assumes "wellBehaved r" and "ready r (assembledMessages r)" and "run env r w = (Some s, w', resp, ex, None)"
  shows "settled s ex \<and> (rqAutoToolCalls r \<and> hasTools r \<longrightarrow> ex = None \<and> sound (stMessages s))"
  using assms(3)
proof (rule run_Some)
  fix s1 w1 h s2 w2 resp2 ex2 e2
  let ?s0 = "newRunState r (hasTools r)"
  assume i: "(if rqAutoToolCalls r then (case acceptQueuedUserMessages r ?s0 w of (s', w', _) \<Rightarrow> (s', w')) else (?s0, w)) = (s1, w1)"
    and o: "runOne env r s1 h w1 = (s2, w2, resp2, ex2, e2)"
    and t: "if e2 \<noteq> None \<or> \<not> rqAutoToolCalls r \<or> \<not> hasTools r then s = s2 \<and> ex = ex2 \<and> None = e2 \<and> resp = Some resp2
     else autoLoop env r s2 w2 (Some resp2) ex2 = (s, w', resp, ex, None)"
  have e2: "e2 = None" using t by (auto split: if_splits)
  have "ready r (stMessages s1)"
    using run_start_frame(2) [OF i assms(1)] assms(2) by (simp add: newRunState_def)
  then have s2: "settled s2 ex2" using runOne_settled [OF assms(1) _ o [unfolded e2]] by blast
  show ?thesis
  proof (cases "rqAutoToolCalls r \<and> hasTools r")
    case True
    then have "ex = None \<and> sound (stMessages s)" using autoLoop_settled [OF assms(1) s2] t e2 by auto
    then show ?thesis by (simp add: settled_def)
  next
    case False
    then show ?thesis using t e2 s2 by auto
  qed
qed

theorem run_transcript_sound_witness:
  "wellBehaved plainRequest \<and> ready plainRequest (assembledMessages plainRequest)
   \<and> (\<exists>s resp. run sampleEnv plainRequest () = (Some s, (), Some resp, None, None) \<and> sound (stMessages s))"
proof -
  note wb = plainRequest_behaves(1) and rd = plainRequest_behaves(2)
  obtain s resp where r: "run sampleEnv plainRequest () = (Some s, (), Some resp, None, None)"
    using plainRequest_run by blast
  have "sound (stMessages s)" using run_transcript_sound [OF wb rd r] by (simp add: settled_def)
  with wb rd r show ?thesis by blast
qed

end
