(* ===== verification/Session.thy ===== *)
theory Session
  imports Engine
begin

text \<open>
  A run driven by hand. \<open>run\<close> hands out a response whose executor the caller may call, more
  than once, in any order, between arbitrary changes of the world; every successful call may hand
  out the next executor. \<open>sessionStep\<close> is that protocol as a step relation, and the last part
  shows that automatic mode is the special case of calling each executor at once with no
  decisions.
\<close>

section \<open>Sessions\<close>

record 'w session =
  seState :: runState
  seWorld :: 'w
  seExecutors :: "'w executor list"

definition handedOut :: "'w executor option \<Rightarrow> 'w executor list" where
  "handedOut nxt = (case nxt of None \<Rightarrow> [] | Some x \<Rightarrow> [x])"

inductive sessionStep :: "'w engineEnv \<Rightarrow> 'w request \<Rightarrow> 'w session \<Rightarrow> 'w session \<Rightarrow> bool" for env r where
  outside: "sessionStep env r S (S\<lparr>seWorld := w'\<rparr>)"
| call: "i < length (seExecutors S) \<Longrightarrow>
    ExecuteToolCalls env r (seExecutors S ! i) (seState S) ds (seWorld S) = (ex', s', w', resp, nxt, e) \<Longrightarrow>
    sessionStep env r S
      \<lparr>seState = s', seWorld = w', seExecutors = (seExecutors S)[i := ex'] @ handedOut nxt\<rparr>"

inductive reachable :: "'w engineEnv \<Rightarrow> 'w request \<Rightarrow> 'w session \<Rightarrow> bool" for env r where
  start: "run env r w = (Some s, w', resp, ex, e) \<Longrightarrow>
    reachable env r \<lparr>seState = s, seWorld = w', seExecutors = handedOut ex\<rparr>"
| step: "reachable env r S \<Longrightarrow> sessionStep env r S S' \<Longrightarrow> reachable env r S'"

definition fresh :: "'w session \<Rightarrow> 'w executor list" where
  "fresh S = filter (\<lambda>x. \<not> exExecuted x) (seExecutors S)"

text \<open>At most one executor can still run; when there is one, its calls are the pending ones.\<close>

definition sessionInv :: "'w request \<Rightarrow> 'w session \<Rightarrow> bool" where
  "sessionInv r S \<longleftrightarrow>
     stRound (seState S) \<le> rqMaxRounds r \<and> int (length (seExecutors S)) \<le> stRound (seState S)
     \<and> (fresh S = [] \<or> (\<exists>x. fresh S = [x] \<and> pending (seState S) (exCalls x) \<and> stRound (seState S) < rqMaxRounds r))"

section \<open>The invariant\<close>

lemma runOne_error_no_executor:
  "runOne env r s h w = (s', w', resp, nxt, Some e) \<Longrightarrow> nxt = None"
proof (induction env r s h w arbitrary: s' w' resp nxt e rule: runOne.induct)
  case (1 env r s h w)
  obtain s1 w1 x where rr: "runRound env r s h w = (s1, w1, x)" using prod_cases3 by blast
  show ?case
  proof (cases x)
    case (Inl y)
    then show ?thesis using "1.prems" rr by (cases y) (auto simp: runOne.simps [of env r s])
  next
    case (Inr y)
    obtain a tools where y: "y = (a, tools)" by fastforce
    obtain s2 w2 b where acc: "(if rqAutoToolCalls r then acceptQueuedUserMessages r s1 w1 else (s1, w1, False)) = (s2, w2, b)"
      using prod_cases3 by blast
    show ?thesis
    proof (cases "mToolCalls a = [] \<and> b")
      case False
      then show ?thesis using "1.prems" rr Inr y acc
        by (auto simp: runOne.simps [of env r s] Let_def split: if_splits prod.splits)
    next
      case True
      then have "runOne env r s2 (shouldWithholdTools r (stRound s2 + 1)) w2 = (s', w', resp, nxt, Some e)"
        using "1.prems" rr Inr y acc by (simp add: runOne.simps [of env r s] Let_def)
      with "1.IH" [OF rr [symmetric] refl Inr y [symmetric] refl _ acc [symmetric] refl] True show ?thesis by simp
    qed
  qed
qed

lemma ExecuteToolCalls_error_no_executor:
  "ExecuteToolCalls env r ex s ds w = (ex', s', w', resp, nxt, Some e) \<Longrightarrow> nxt = None"
  by (auto simp: ExecuteToolCalls_def Let_def split: if_splits prod.splits option.splits
      dest: runOne_error_no_executor)

lemma ExecuteToolCalls_marks:
  "ExecuteToolCalls env r ex s ds w = (ex', s', w', resp, nxt, e) \<Longrightarrow> exExecuted ex'"
  by (auto simp: ExecuteToolCalls_def Let_def split: if_splits prod.splits option.splits)

lemma ExecuteToolCalls_again:
  "exExecuted ex \<Longrightarrow> ExecuteToolCalls env r ex s ds w =
     (ex, s, w, None, None, Some (Sentinel ErrToolCallsAlreadyExecuted))"
  by (simp add: ExecuteToolCalls_def)

lemma filter_update_out:
  assumes "i < length xs" and "\<not> P y" and "P (xs ! i)" and "filter P xs = [x]"
  shows "filter P (xs[i := y]) = []" and "xs ! i = x"
proof -
  have xs: "xs = take i xs @ xs ! i # drop (Suc i) xs" using assms(1) by (rule id_take_nth_drop)
  have f: "filter P (take i xs) @ [xs ! i] @ filter P (drop (Suc i) xs) = [x]"
    using assms(3,4) by (subst (asm) xs) simp
  then have e: "filter P (take i xs) = [] \<and> filter P (drop (Suc i) xs) = [] \<and> xs ! i = x"
    by (auto simp: append_eq_Cons_conv)
  then show "filter P (xs[i := y]) = []" using assms(1,2) by (simp add: upd_conv_take_nth_drop)
  show "xs ! i = x" using e by simp
qed

lemma sessionInv_step:
  assumes "wellBehaved r" and "sessionInv r S" and "sessionStep env r S S'"
  shows "sessionInv r S'"
  using assms(3)
proof cases
  case (outside w')
  then show ?thesis using assms(2) by (simp add: sessionInv_def fresh_def)
next
  case (call i ds ex' s' w' resp nxt e)
  let ?x = "seExecutors S ! i"
  show ?thesis
  proof (cases "exExecuted ?x")
    case True
    then have "S' = S\<lparr>seWorld := w'\<rparr>"
      using call ExecuteToolCalls_again [OF True, of env r] by (cases S) (auto simp: handedOut_def)
    then show ?thesis using assms(2) by (simp add: sessionInv_def fresh_def)
  next
    case False
    then have "?x \<in> set (fresh S)" using call(2) by (simp add: fresh_def)
    then obtain x where fx: "fresh S = [x]" "pending (seState S) (exCalls x)" and lt: "stRound (seState S) < rqMaxRounds r"
      using assms(2) by (auto simp: sessionInv_def)
    have gone: "filter (\<lambda>x. \<not> exExecuted x) ((seExecutors S)[i := ex']) = []" and x: "?x = x"
      using filter_update_out [OF call(2), of "\<lambda>x. \<not> exExecuted x" ex' x] False fx(1)
        ExecuteToolCalls_marks [OF call(3)] by (simp_all add: fresh_def)
    have le: "stRound s' \<le> rqMaxRounds r" and up: "stRound (seState S) \<le> stRound s'"
      and more: "e = None \<Longrightarrow> stRound (seState S) < stRound s'"
      using ExecuteToolCalls_ledger [OF call(3)] lt by (auto simp: runOneOutcome_def ledger_def)
    have len: "int (length (seExecutors S)) \<le> stRound (seState S)" using assms(2) by (simp add: sessionInv_def)
    show ?thesis
    proof (cases e)
      case (Some y)
      then have "nxt = None" using call(3) by (auto dest: ExecuteToolCalls_error_no_executor)
      then show ?thesis using call(1) gone le up len by (simp add: sessionInv_def fresh_def handedOut_def)
    next
      case None
      have st: "settled s' nxt \<and> (nxt \<noteq> None \<longrightarrow> stRound s' < rqMaxRounds r)"
        by (rule ExecuteToolCalls_settled [OF assms(1) _ call(3) [unfolded None]]) (simp add: x fx(2))
      show ?thesis
        using st call(1) gone le more [OF None] len
        by (cases nxt) (auto simp: sessionInv_def fresh_def handedOut_def settled_def)
    qed
  qed
qed

lemma autoLoop_no_executor:
  "autoLoop env r s w resp ex = (s', w', resp', ex', e) \<Longrightarrow> ex' = None"
proof (induction env r s w resp ex arbitrary: s' w' resp' ex' e rule: autoLoop.induct)
  case (1 env r s w resp ex)
  show ?case
  proof (cases ex)
    case None
    then show ?thesis using "1.prems" by (auto simp: autoLoop.simps [of env r s])
  next
    case (Some x)
    obtain x1 s1 w1 r1 n1 e1 where ex: "ExecuteToolCalls env r x s [] w = (x1, s1, w1, r1, n1, e1)"
      using prod_cases6 by blast
    show ?thesis
    proof (cases e1)
      case (Some y)
      then show ?thesis using "1.prems" \<open>ex = Some x\<close> ex
        by (auto simp: autoLoop.simps [of env r s] dest: ExecuteToolCalls_error_no_executor)
    next
      case None
      then have "autoLoop env r s1 w1 r1 n1 = (s', w', resp', ex', e)"
        using "1.prems" Some ex by (simp add: autoLoop.simps [of env r s])
      from "1.IH" [OF Some ex [symmetric] refl refl refl refl None this] show ?thesis .
    qed
  qed
qed

lemma sessionInv_start:
  assumes "wellBehaved r" and "ready r (assembledMessages r)" and "run env r w = (Some s, w', resp, ex, e)"
  shows "sessionInv r \<lparr>seState = s, seWorld = w', seExecutors = handedOut ex\<rparr>"
  using assms(3)
proof (rule run_Some)
  fix s1 w1 h s2 w2 resp2 ex2 e2
  let ?s0 = "newRunState r (hasTools r)"
  assume v: "validateRequest env r (hasTools r) = None"
    and i: "(if rqAutoToolCalls r then (case acceptQueuedUserMessages r ?s0 w of (s', w', _) \<Rightarrow> (s', w')) else (?s0, w)) = (s1, w1)"
    and o: "runOne env r s1 h w1 = (s2, w2, resp2, ex2, e2)"
    and t: "if e2 \<noteq> None \<or> \<not> rqAutoToolCalls r \<or> \<not> hasTools r then s = s2 \<and> ex = ex2 \<and> e = e2 \<and> resp = Some resp2
     else autoLoop env r s2 w2 (Some resp2) ex2 = (s, w', resp, ex, e)"
  have pos: "1 \<le> rqMaxRounds r"
    using v by (auto simp: validateRequest_def validateLimits_def Let_def split: if_splits option.splits)
  have s1: "stRound s1 = 0" "ready r (stMessages s1)"
    using run_start_frame(1) [OF i] run_start_frame(2) [OF i assms(1)] assms(2)
    by (simp_all add: sameLedger_def newRunState_def)
  have s2: "stRound s2 \<le> rqMaxRounds r" "0 \<le> stRound s2" "e2 = None \<Longrightarrow> 1 \<le> stRound s2"
    using runOne_ledger [OF o] pos s1(1) by (auto simp: runOneOutcome_def ledger_def Suc_le_eq)
  show ?thesis
  proof (cases "e2 \<noteq> None \<or> \<not> rqAutoToolCalls r \<or> \<not> hasTools r")
    case False
    then have a: "autoLoop env r s2 w2 (Some resp2) ex2 = (s, w', resp, ex, e)" using t by simp
    obtain us where "ledger s2 us s" "stRound s \<le> rqMaxRounds r" using autoLoop_ledger [OF a s2(1)] by blast
    then show ?thesis using autoLoop_no_executor [OF a] s2 by (simp add: sessionInv_def fresh_def handedOut_def ledger_def)
  next
    case True
    show ?thesis
    proof (cases e2)
      case None
      then show ?thesis using True t s2 runOne_settled [OF assms(1) s1(2) o [unfolded None]]
        by (cases ex2) (auto simp: sessionInv_def fresh_def handedOut_def settled_def)
    next
      case (Some y)
      then have "ex2 = None" using o by (auto dest: runOne_error_no_executor)
      then show ?thesis using True t s2 by (simp add: sessionInv_def fresh_def handedOut_def)
    qed
  qed
qed

lemma session_invariant:
  "reachable env r S \<Longrightarrow> wellBehaved r \<Longrightarrow> ready r (assembledMessages r) \<Longrightarrow> sessionInv r S"
  by (induction rule: reachable.induct) (auto intro: sessionInv_start sessionInv_step)

section \<open>Automatic mode is manual driving\<close>

text \<open>Nothing but the loop looks at the mode: each function below is the same for both.\<close>

named_theorems auto_irrelevant \<open>what does not depend on the mode\<close>

lemma auto_fields [auto_irrelevant]:
  "rqClient (WithAutoToolCalls r) = rqClient r" "rqModel (WithAutoToolCalls r) = rqModel r"
  "rqPrompt (WithAutoToolCalls r) = rqPrompt r" "rqTools (WithAutoToolCalls r) = rqTools r"
  "rqToolProvider (WithAutoToolCalls r) = rqToolProvider r" "rqParams (WithAutoToolCalls r) = rqParams r"
  "rqMaxRounds (WithAutoToolCalls r) = rqMaxRounds r" "rqMaxConcurrentTools (WithAutoToolCalls r) = rqMaxConcurrentTools r"
  "rqToolTimeout (WithAutoToolCalls r) = rqToolTimeout r" "rqTimeout (WithAutoToolCalls r) = rqTimeout r"
  "rqMaxToolResultTokens (WithAutoToolCalls r) = rqMaxToolResultTokens r" "rqMaxContextTokens (WithAutoToolCalls r) = rqMaxContextTokens r"
  "rqOutputReserveTokens (WithAutoToolCalls r) = rqOutputReserveTokens r" "rqOutputReserveSet (WithAutoToolCalls r) = rqOutputReserveSet r"
  "rqTokenCounter (WithAutoToolCalls r) = rqTokenCounter r" "rqForceFinalAnswer (WithAutoToolCalls r) = rqForceFinalAnswer r"
  "rqUserMessageQueue (WithAutoToolCalls r) = rqUserMessageQueue r" "rqTranscriptRepair (WithAutoToolCalls r) = rqTranscriptRepair r"
  "rqStrictResponseValidation (WithAutoToolCalls r) = rqStrictResponseValidation r" "rqResponseRepair (WithAutoToolCalls r) = rqResponseRepair r"
  "rqStreaming (WithAutoToolCalls r) = rqStreaming r" "rqPreTokenLimit (WithAutoToolCalls r) = rqPreTokenLimit r"
  "rqPostTokenLimit (WithAutoToolCalls r) = rqPostTokenLimit r" "rqOnStart (WithAutoToolCalls r) = rqOnStart r"
  "rqOnReasoning (WithAutoToolCalls r) = rqOnReasoning r" "rqOnText (WithAutoToolCalls r) = rqOnText r"
  "rqOnToolCallFragment (WithAutoToolCalls r) = rqOnToolCallFragment r" "rqOnDelta (WithAutoToolCalls r) = rqOnDelta r"
  "rqOnRoundStart (WithAutoToolCalls r) = rqOnRoundStart r" "rqOnRoundEnd (WithAutoToolCalls r) = rqOnRoundEnd r"
  "rqOnAssistantMessage (WithAutoToolCalls r) = rqOnAssistantMessage r" "rqOnToolCallStart (WithAutoToolCalls r) = rqOnToolCallStart r"
  "rqOnToolResult (WithAutoToolCalls r) = rqOnToolResult r" "rqOnMessageInjection (WithAutoToolCalls r) = rqOnMessageInjection r"
  "rqOnRetry (WithAutoToolCalls r) = rqOnRetry r" "rqOnFinish (WithAutoToolCalls r) = rqOnFinish r"
  "rqOnError (WithAutoToolCalls r) = rqOnError r"
  by (simp_all add: WithAutoToolCalls_def)

lemma auto_validate [auto_irrelevant]:
  "resolvedModel (WithAutoToolCalls r) = resolvedModel r"
  "assembledMessages (WithAutoToolCalls r) = assembledMessages r"
  "staticTools (WithAutoToolCalls r) = staticTools r"
  "hasTools (WithAutoToolCalls r) = hasTools r"
  "resolvedOutputReserve (WithAutoToolCalls r) = resolvedOutputReserve r"
  "resolvedStreaming (WithAutoToolCalls r) = resolvedStreaming r"
  "resolvedBudget (WithAutoToolCalls r) = resolvedBudget r"
  "validateOutputReserve (WithAutoToolCalls r) = validateOutputReserve r"
  "validateLimits (WithAutoToolCalls r) = validateLimits r"
  "parallelToolCallsEnabled (WithAutoToolCalls r) = parallelToolCallsEnabled r"
  "selectedCounter env (WithAutoToolCalls r) = selectedCounter env r"
  "resolvedCounter env (WithAutoToolCalls r) = resolvedCounter env r"
  "validateOutputLimit (WithAutoToolCalls r) = validateOutputLimit r"
  "validateParameterCapabilities (WithAutoToolCalls r) = validateParameterCapabilities r"
  "validateToolCapabilities (WithAutoToolCalls r) = validateToolCapabilities r"
  "validateMessageContentCapabilities env (WithAutoToolCalls r) = validateMessageContentCapabilities env r"
  "validateContentCapabilities env (WithAutoToolCalls r) = validateContentCapabilities env r"
  "validateCapabilities env (WithAutoToolCalls r) = validateCapabilities env r"
  "validateRequest env (WithAutoToolCalls r) = validateRequest env r"
  unfolding fun_eq_iff resolvedModel_def assembledMessages_def staticTools_def hasTools_def resolvedOutputReserve_def
    resolvedStreaming_def resolvedBudget_def validateOutputReserve_def validateLimits_def
    parallelToolCallsEnabled_def selectedCounter_def resolvedCounter_def validateOutputLimit_def
    validateParameterCapabilities_def validateToolCapabilities_def
    validateMessageContentCapabilities_def validateContentCapabilities_def validateCapabilities_def
    validateRequest_def
    auto_irrelevant by (rule allI refl)+

lemma auto_prepare [auto_irrelevant]:
  "newRunState (WithAutoToolCalls r) = newRunState r"
  "runPostTokenLimit (WithAutoToolCalls r) = runPostTokenLimit r"
  "limitHandler (WithAutoToolCalls r) = limitHandler r"
  "compactToBudget (WithAutoToolCalls r) = compactToBudget r"
  "enforceBudget env (WithAutoToolCalls r) = enforceBudget env r"
  "resolveTools (WithAutoToolCalls r) = resolveTools r"
  "prepareTools env (WithAutoToolCalls r) = prepareTools env r"
  "repairIfAsked (WithAutoToolCalls r) = repairIfAsked r"
  "fireStart (WithAutoToolCalls r) = fireStart r"
  "prepareRound (WithAutoToolCalls r) = prepareRound r"
  unfolding fun_eq_iff newRunState_def runPostTokenLimit_def limitHandler_def compactToBudget_def enforceBudget_def
    resolveTools_def prepareTools_def repairIfAsked_def fireStart_def prepareRound_def
    auto_irrelevant by (rule allI refl)+

lemma auto_stream [auto_irrelevant]:
  "consumeToolCallDelta (WithAutoToolCalls r) = consumeToolCallDelta r"
  "dispatchRawDelta (WithAutoToolCalls r) = dispatchRawDelta r"
  "dispatchReasoningDelta (WithAutoToolCalls r) = dispatchReasoningDelta r"
  "dispatchTextDelta (WithAutoToolCalls r) = dispatchTextDelta r"
  "dispatchDelta (WithAutoToolCalls r) = dispatchDelta r"
  "consumeDelta (WithAutoToolCalls r) = consumeDelta r"
  "driverParams (WithAutoToolCalls r) = driverParams r"
  "roundRequest (WithAutoToolCalls r) = roundRequest r"
  "streamAssistant (WithAutoToolCalls r) = streamAssistant r"
  "recordAssistant (WithAutoToolCalls r) = recordAssistant r"
  "finish (WithAutoToolCalls r) = finish r"
  "acceptQueuedUserMessages (WithAutoToolCalls r) = acceptQueuedUserMessages r"
  "shouldWithholdTools (WithAutoToolCalls r) = shouldWithholdTools r"
  "runRound env (WithAutoToolCalls r) = runRound env r"
  "fireError (WithAutoToolCalls r) = fireError r"
  "fireIfError (WithAutoToolCalls r) = fireIfError r"
  unfolding fun_eq_iff consumeToolCallDelta_def dispatchRawDelta_def dispatchReasoningDelta_def dispatchTextDelta_def
    dispatchDelta_def consumeDelta_def driverParams_def roundRequest_def streamAssistant_def
    recordAssistant_def finish_def acceptQueuedUserMessages_def shouldWithholdTools_def runRound_def
    fireError_def fireIfError_def
    auto_irrelevant by (rule allI refl)+

lemma auto_tools [auto_irrelevant]:
  "capResult env (WithAutoToolCalls r) = capResult env r"
  "finishToolRun env (WithAutoToolCalls r) = finishToolRun env r"
  "runToolLifecycle env (WithAutoToolCalls r) = runToolLifecycle env r"
  "runTool env (WithAutoToolCalls r) = runTool env r"
  "runToolSafely env (WithAutoToolCalls r) = runToolSafely env r"
  "runToolCall env (WithAutoToolCalls r) = runToolCall env r"
  "fireToolCallStart (WithAutoToolCalls r) = fireToolCallStart r"
  "toolResultMessage env (WithAutoToolCalls r) = toolResultMessage env r"
  "recordToolResultMessage env (WithAutoToolCalls r) = recordToolResultMessage env r"
  "fireToolResult (WithAutoToolCalls r) = fireToolResult r"
  unfolding fun_eq_iff capResult_def finishToolRun_def runToolLifecycle_def runTool_def runToolSafely_def runToolCall_def
    fireToolCallStart_def toolResultMessage_def recordToolResultMessage_def fireToolResult_def
    auto_irrelevant by (rule allI refl)+

lemma auto_loops [auto_irrelevant]:
  "fireToolCallStarts (WithAutoToolCalls r) i cs w = fireToolCallStarts r i cs w"
  "recordInjections (WithAutoToolCalls r) s mis e w = recordInjections r s mis e w"
  "recordOutcomes env (WithAutoToolCalls r) i outs s mis e w = recordOutcomes env r i outs s mis e w"
proof -
  show "fireToolCallStarts (WithAutoToolCalls r) i cs w = fireToolCallStarts r i cs w"
    by (induction r i cs w rule: fireToolCallStarts.induct) (simp_all add: auto_irrelevant split: prod.split option.split)
  show "recordInjections (WithAutoToolCalls r) s mis e w = recordInjections r s mis e w"
    by (induction r s mis e w rule: recordInjections.induct)
      (simp_all add: auto_irrelevant Let_def split: prod.split option.split)
  show "recordOutcomes env (WithAutoToolCalls r) i outs s mis e w = recordOutcomes env r i outs s mis e w"
    by (induction env r i outs s mis e w rule: recordOutcomes.induct)
      (simp_all add: auto_irrelevant Let_def split: prod.split)
qed

lemma auto_executeTools [auto_irrelevant]: "executeTools env (WithAutoToolCalls r) = executeTools env r"
  by (intro ext, unfold executeTools_def runToolCalls_def recordToolOutcomes_def auto_irrelevant, rule refl)

text \<open>Without a queue the round function, the executor and the loop agree too.\<close>

lemma auto_runOne:
  assumes "rqUserMessageQueue r = None"
  shows "runOne env (WithAutoToolCalls r) s h w = runOne env r s h w"
proof -
  have a: "acceptQueuedUserMessages r s' w' = (s', w', False)" for s' w'
    using assms by (simp add: acceptQueuedUserMessages_def)
  show ?thesis
    unfolding runOne.simps [of env "WithAutoToolCalls r" s h w] runOne.simps [of env r s h w]
      auto_irrelevant a by (simp add: Let_def split: prod.split sum.split)
qed

lemma auto_ExecuteToolCalls:
  assumes "rqUserMessageQueue r = None"
  shows "ExecuteToolCalls env (WithAutoToolCalls r) ex s ds w = ExecuteToolCalls env r ex s ds w"
  unfolding ExecuteToolCalls_def auto_irrelevant auto_runOne [OF assms] by (rule refl)

lemma auto_autoLoop:
  "rqUserMessageQueue r = None \<Longrightarrow> autoLoop env (WithAutoToolCalls r) s w resp ex = autoLoop env r s w resp ex"
proof (induction env r s w resp ex rule: autoLoop.induct)
  case (1 env r s w resp ex)
  show ?case
    using "1.IH" "1.prems" auto_ExecuteToolCalls [OF "1.prems"]
    by (simp add: autoLoop.simps [of env "WithAutoToolCalls r" s w resp ex] autoLoop.simps [of env r s w resp ex]
        split: option.split prod.split)
qed

section \<open>Properties\<close>

text \<open>
  C19. However a caller drives a run by hand (any executor, any number of times, any
  decisions, with anything happening in between), the run stays within its rounds, at most one
  executor can still act, and when one can its calls are exactly the calls of the pending
  assistant turn and a round is left for it, so its own check of the round ceiling never
  fires. Every other executor answers that its calls were already executed and changes
  nothing.
\<close>

theorem session_protocol:
  assumes "reachable env r S" and "wellBehaved r" and "ready r (assembledMessages r)"
  shows "stRound (seState S) \<le> rqMaxRounds r
    \<and> length (fresh S) \<le> 1
    \<and> list_all (\<lambda>x. pending (seState S) (exCalls x) \<and> stRound (seState S) < rqMaxRounds r) (fresh S)
    \<and> list_all (\<lambda>x. exExecuted x \<longrightarrow>
         ExecuteToolCalls env r x (seState S) ds (seWorld S) =
           (x, seState S, seWorld S, None, None, Some (Sentinel ErrToolCallsAlreadyExecuted))) (seExecutors S)"
  using session_invariant [OF assms]
  by (auto simp: sessionInv_def list_all_iff ExecuteToolCalls_again)

theorem session_protocol_witness:
  "\<exists>S. reachable sampleEnv plainRequest S \<and> stRound (seState S) = 1 \<and> stRound (seState S) \<le> rqMaxRounds plainRequest"
proof -
  obtain s resp where r: "run sampleEnv plainRequest () = (Some s, (), Some resp, None, None)" "stRound s = 1"
    using plainRequest_run by blast
  let ?S = "\<lparr>seState = s, seWorld = (), seExecutors = handedOut None\<rparr>"
  have "reachable sampleEnv plainRequest ?S" by (rule reachable.start [OF r(1)])
  then show ?thesis
    using session_protocol [OF _ plainRequest_behaves, of sampleEnv ?S] r(2) by (intro exI [of _ ?S]) simp
qed


definition toolRequest :: "unit request" where
  "toolRequest = WithTool (toolDef.extend echoDef
     \<lparr>tlHandler = None, tlPreRun = None, tlOnSuccess = None, tlOnError = None, tlPostRun = None,
      tlOnSuccessMessageInjector = None, tlOnErrorMessageInjector = None, tlPostRunMessageInjector = None\<rparr>) plainRequest"


end
