(* ===== verification/Structured.thy ===== *)
theory Structured
  imports Session
begin

text \<open>
  Structured output (\<open>RunInto\<close> and \<open>structured.go\<close>): run the request for a JSON value of
  the target's schema, decode the reply, and ask once more when it does not fit. Reflection,
  the schema library and decoding into a Go type are code outside the repository, collected in
  \<open>schemaLib\<close>; the target is left alone unless a value is assigned, so the result carries an
  optional value: \<open>None\<close> is "untouched".
\<close>

section \<open>The target\<close>

text \<open>What the caller passed: nothing, something that is not a usable pointer, or a pointer to a type.\<close>

datatype 'ty targetArg = NilValue | NotAPointer | NilPointer | PointerTo 'ty

record ('ty, 'sch, 'res, 'inst, 'v) schemaLib =
  slForType :: "'ty \<Rightarrow> err + 'sch" \<comment> \<open>\<open>jsonschema.ForType\<close>\<close>
  slMarshal :: "'sch \<Rightarrow> err + string" \<comment> \<open>\<open>json.Marshal\<close> of a schema\<close>
  slResolve :: "'sch \<Rightarrow> err + 'res" \<comment> \<open>\<open>Schema.Resolve\<close>\<close>
  slDecode :: "'ty \<Rightarrow> string \<Rightarrow> 'v option" \<comment> \<open>\<open>json.Unmarshal\<close> into a new value of the type\<close>
  slInstance :: "string \<Rightarrow> 'inst option" \<comment> \<open>\<open>json.Unmarshal\<close> into an \<open>any\<close>\<close>
  slValidate :: "'res \<Rightarrow> 'inst \<Rightarrow> bool" \<comment> \<open>\<open>Resolved.Validate\<close>\<close>

record ('ty, 'res) structuredTarget =
  tgType :: 'ty
  tgResolved :: "'res option"
  tgRawSchema :: string

definition structuredResponseSchemaName :: string where
  "structuredResponseSchemaName = ''structured_response''"

definition repairResponsePrompt :: string where
  "repairResponsePrompt = ''Correct the response to match this schema.'' @ [CHR 0x0A] @
     ''Return only the corrected conforming JSON value.'' @ [CHR 0x0A] @ ''Do not include prose or Markdown.''"

definition newStructuredTarget ::
  "('ty, 'sch, 'res, 'inst, 'v) schemaLib \<Rightarrow> 'ty targetArg \<Rightarrow> bool \<Rightarrow> err + ('ty, 'res) structuredTarget" where
  "newStructuredTarget lib value strictValidation =
     (case value of
        PointerTo ty \<Rightarrow>
          (case slForType lib ty of
             Inl e \<Rightarrow> Inl (Wrap (Joined [Sentinel ErrInvalidRequest, e]) ''derive structured response schema'')
           | Inr schema \<Rightarrow>
               (case slMarshal lib schema of
                  Inl e \<Rightarrow> Inl (Wrap e ''marshal structured response schema'')
                | Inr raw \<Rightarrow>
                    if \<not> strictValidation then Inr \<lparr>tgType = ty, tgResolved = None, tgRawSchema = raw\<rparr>
                    else (case slResolve lib schema of
                            Inl e \<Rightarrow> Inl (Wrap e ''resolve structured response schema'')
                          | Inr res \<Rightarrow> Inr \<lparr>tgType = ty, tgResolved = Some res, tgRawSchema = raw\<rparr>)))
      | _ \<Rightarrow> Inl (invalidRequest ''structured target must be a non-nil pointer''))"

abbreviation schemaMismatch :: "string \<Rightarrow> err" where
  "schemaMismatch msg \<equiv> Wrap (Sentinel ErrResponseSchemaMismatch) msg"

definition decodeTarget ::
  "('ty, 'sch, 'res, 'inst, 'v) schemaLib \<Rightarrow> ('ty, 'res) structuredTarget \<Rightarrow> response \<Rightarrow> err + 'v" where
  "decodeTarget lib t resp =
     (if IsTruncated (rsFinishReason resp) then Inl (Sentinel ErrResponseTruncated)
      else case slDecode lib (tgType t) (rsText resp) of
          None \<Rightarrow> Inl (schemaMismatch ''structured response is not valid JSON'')
        | Some v \<Rightarrow>
            (case tgResolved t of
               None \<Rightarrow> Inr v
             | Some res \<Rightarrow>
                 (case slInstance lib (rsText resp) of
                    None \<Rightarrow> Inl (schemaMismatch ''structured response is not valid JSON'')
                  | Some inst \<Rightarrow>
                      if slValidate lib res inst then Inr v
                      else Inl (schemaMismatch ''structured response failed schema validation''))))"

section \<open>The requests\<close>

definition cloneForStructuredResponse :: "'w request \<Rightarrow> string \<Rightarrow> 'w request" where
  "cloneForStructuredResponse r schema =
     r\<lparr>rqParams := (cloneParams (rqParams r))\<lparr>gpResponseFormat := Some
          \<lparr>rfType = ResponseFormatTypeJSONSchema, rfName = structuredResponseSchemaName, rfSchema = schema,
           rfStrictSchema = True\<rparr>\<rparr>,
       rqTools := None, rqToolProvider := None\<rparr>"

definition lastAssistantMessage :: "response \<Rightarrow> message" where
  "lastAssistantMessage resp =
     (case last_index (\<lambda>m. mRole m = RoleAssistant) (rsMessages resp) of
        Some i \<Rightarrow> cloneMessages [rsMessages resp ! i] ! 0
      | None \<Rightarrow> emptyMessage\<lparr>mRole := RoleAssistant, mContent := Text (rsText resp), mReasoning := rsReasoning resp,
                  mOrigin := MessageOriginTurn\<rparr>)"

definition repairContent :: "'w engineEnv \<Rightarrow> err option \<Rightarrow> string" where
  "repairContent env validationErr =
     (case validationErr of
        None \<Rightarrow> repairResponsePrompt
      | Some e \<Rightarrow> repairResponsePrompt @ [CHR 0x0A, CHR 0x0A] @ ''The previous reply failed validation: '' @ enErrText env e)"

definition cloneForRepair :: "'w engineEnv \<Rightarrow> 'w request \<Rightarrow> response \<Rightarrow> err option \<Rightarrow> 'w request" where
  "cloneForRepair env r resp validationErr =
     r\<lparr>rqParams := cloneParams (rqParams r),
       rqPrompt := promptAdd (rqPrompt r)
         [lastAssistantMessage resp,
          emptyMessage\<lparr>mRole := RoleUser, mContent := Text (repairContent env validationErr), mOrigin := MessageOriginTurn\<rparr>]\<rparr>"

definition accumulateStructuredResponses :: "response \<Rightarrow> response \<Rightarrow> response" where
  "accumulateStructuredResponses f s = s\<lparr>rsUsage := addUsage (rsUsage f) (rsUsage s), rsCost := rsCost s + rsCost f\<rparr>"

definition isRepairableFinish :: "string \<Rightarrow> bool" where
  "isRepairableFinish reason \<longleftrightarrow> \<not> IsTruncated reason \<and> \<not> IsRefusal reason"

section \<open>The run\<close>

text \<open>\<open>Run\<close> as \<open>runInto\<close> sees it: the world, the response and the error.\<close>

definition runResult :: "'w engineEnv \<Rightarrow> 'w request \<Rightarrow> 'w \<Rightarrow> 'w \<times> response option \<times> err option" where
  "runResult env r w = (case run env r w of (s, w', resp, ex, e) \<Rightarrow> (w', resp, e))"

definition repairRun ::
  "'w engineEnv \<Rightarrow> ('ty, 'sch, 'res, 'inst, 'v) schemaLib \<Rightarrow> ('ty, 'res) structuredTarget \<Rightarrow> 'w request \<Rightarrow> response
    \<Rightarrow> err \<Rightarrow> 'w \<Rightarrow> 'w \<times> response option \<times> 'v option \<times> err option" where
  "repairRun env lib t request resp validationErr w =
     (case runResult env (cloneForRepair env request resp (Some validationErr)) w of
        (w', None, e) \<Rightarrow> (w', Some resp, None, e)
      | (w', Some repaired0, e) \<Rightarrow>
          let repaired = accumulateStructuredResponses resp repaired0 in
          (case e of
             Some x \<Rightarrow> (w', Some repaired, None, Some x)
           | None \<Rightarrow>
               (case decodeTarget lib t repaired of
                  Inl x \<Rightarrow> (w', Some repaired, None, Some x)
                | Inr v \<Rightarrow> (w', Some repaired, Some v, None))))"

definition runInto ::
  "'w engineEnv \<Rightarrow> ('ty, 'sch, 'res, 'inst, 'v) schemaLib \<Rightarrow> 'w request \<Rightarrow> 'ty targetArg \<Rightarrow> 'w
    \<Rightarrow> 'w \<times> response option \<times> 'v option \<times> err option" where
  "runInto env lib r value w =
     (case newStructuredTarget lib value (rqStrictResponseValidation r) of
        Inl e \<Rightarrow> (w, None, None, Some e)
      | Inr t \<Rightarrow>
          let request = cloneForStructuredResponse r (tgRawSchema t) in
          (case runResult env request w of
             (w1, resp, Some e) \<Rightarrow> (w1, resp, None, Some e)
           | (w1, resp, None) \<Rightarrow>
               (case decodeTarget lib t (the resp) of
                  Inr v \<Rightarrow> (w1, resp, Some v, None)
                | Inl validationErr \<Rightarrow>
                    if \<not> rqResponseRepair r \<or> \<not> isRepairableFinish (rsFinishReason (the resp))
                    then (w1, resp, None, Some validationErr)
                    else repairRun env lib t request (the resp) validationErr w1)))"

section \<open>What the caller gets\<close>

lemma autoLoop_response:
  "autoLoop env r s w resp ex = (s', w', resp', ex', None) \<Longrightarrow> resp \<noteq> None \<Longrightarrow> resp' \<noteq> None"
proof (induction env r s w resp ex arbitrary: s' w' resp' ex' rule: autoLoop.induct)
  case (1 env r s w resp ex)
  show ?case
  proof (cases ex)
    case None
    then show ?thesis using "1.prems" by (auto simp: autoLoop.simps [of env r s])
  next
    case (Some x)
    obtain x1 s1 w1 r1 n1 e1 where ex: "ExecuteToolCalls env r x s [] w = (x1, s1, w1, r1, n1, e1)"
      using prod_cases6 by blast
    have e1: "e1 = None" using "1.prems"(1) Some ex by (auto simp: autoLoop.simps [of env r s] split: option.splits)
    have "r1 \<noteq> None" using ExecuteToolCalls_room ex e1 by fastforce
    moreover have "autoLoop env r s1 w1 r1 n1 = (s', w', resp', ex', None)"
      using "1.prems"(1) Some ex e1 by (simp add: autoLoop.simps [of env r s])
    ultimately show ?thesis using "1.IH" [OF Some ex [symmetric] refl refl refl refl e1] by simp
  qed
qed

lemma runResult_response: "runResult env r w = (w', resp, None) \<Longrightarrow> resp \<noteq> None"
  by (auto simp: runResult_def run_def Let_def split: option.splits prod.splits if_splits dest: autoLoop_response)

text \<open>What a decoded reply satisfies.\<close>

definition fits :: "('ty, 'sch, 'res, 'inst, 'v) schemaLib \<Rightarrow> ('ty, 'res) structuredTarget \<Rightarrow> response \<Rightarrow> 'v \<Rightarrow> bool" where
  "fits lib t resp v \<longleftrightarrow> \<not> IsTruncated (rsFinishReason resp) \<and> slDecode lib (tgType t) (rsText resp) = Some v
     \<and> (\<forall>res. tgResolved t = Some res \<longrightarrow> (\<exists>inst. slInstance lib (rsText resp) = Some inst \<and> slValidate lib res inst))"

lemma decodeTarget_fits: "decodeTarget lib t resp = Inr v \<longleftrightarrow> fits lib t resp v"
  by (auto simp: decodeTarget_def fits_def split: option.split)

lemma newStructuredTarget_strict:
  "newStructuredTarget lib value b = Inr t \<Longrightarrow> tgResolved t = None \<longleftrightarrow> \<not> b"
  by (auto simp: newStructuredTarget_def split: targetArg.splits sum.splits if_splits)

lemma repairRun_outcome:
  "repairRun env lib t request resp ve w = (w', resp', v, e) \<Longrightarrow>
   (case v of None \<Rightarrow> e \<noteq> None \<or> fst (snd (runResult env (cloneForRepair env request resp (Some ve)) w)) = None
    | Some x \<Rightarrow> e = None \<and> (\<exists>rp. resp' = Some rp \<and> fits lib t rp x))"
  by (auto simp: repairRun_def Let_def decodeTarget_fits [symmetric] split: prod.splits option.splits sum.splits)

lemma repairRun_error:
  "repairRun env lib t request resp ve w = (w', resp', None, e) \<Longrightarrow> e \<noteq> None"
  using runResult_response [of env "cloneForRepair env request resp (Some ve)" w]
  by (auto simp: repairRun_def Let_def split: prod.splits option.splits sum.splits)

lemma cloneMessages_idem [simp]: "cloneMessages (cloneMessages ms) = cloneMessages ms"
  by (induction ms) simp_all

lemma promptAdd_messages:
  "promptMessages (promptAdd p ms) = promptMessages p @ cloneMessages (addLoop [] ms)"
  using addLoop_append [of "prMessages (clonePrompt p)" ms]
  by (simp add: promptMessages_def promptAdd_def clonePrompt_def SystemMessage_def Let_def)

lemma lastAssistantMessage_turn:
  "mRole (lastAssistantMessage resp) = RoleAssistant" "cloneMessage (lastAssistantMessage resp) = lastAssistantMessage resp"
  by (auto simp: lastAssistantMessage_def cloneMessages_def split: option.splits dest: last_index_Some)
    (simp add: cloneMessage_def emptyMessage_def)

section \<open>Properties\<close>

text \<open>
  C21. RunInto assigns a value or reports an error, never both and never neither: the target
  is touched only when the call succeeds, and then the value is the decoded text of the
  response that is returned, which was not cut off and, under strict validation, satisfies the
  schema.
\<close>

theorem structured_value_or_error:
  assumes "runInto env lib r value w = (w', resp, v, e)"
  shows "(v = None) \<noteq> (e = None)
    \<and> (case v of None \<Rightarrow> True
       | Some x \<Rightarrow> \<exists>t rp. newStructuredTarget lib value (rqStrictResponseValidation r) = Inr t \<and> resp = Some rp \<and> fits lib t rp x
           \<and> (tgResolved t = None) = (\<not> rqStrictResponseValidation r))"
proof (cases "newStructuredTarget lib value (rqStrictResponseValidation r)")
  case (Inl y)
  then show ?thesis using assms by (auto simp: runInto_def)
next
  case (Inr t)
  let ?q = "cloneForStructuredResponse r (tgRawSchema t)"
  obtain w1 resp1 e1 where run: "runResult env ?q w = (w1, resp1, e1)" using prod_cases3 by blast
  note strict = newStructuredTarget_strict [OF Inr]
  show ?thesis
  proof (cases e1)
    case (Some y)
    then show ?thesis using assms Inr run by (auto simp: runInto_def Let_def)
  next
    case None
    obtain rp where rp: "resp1 = Some rp" using runResult_response [OF run [unfolded None]] by auto
    show ?thesis
    proof (cases "decodeTarget lib t rp")
      case (Inr x)
      then have "w' = w1 \<and> resp = Some rp \<and> v = Some x \<and> e = None"
        using assms \<open>newStructuredTarget lib value _ = Inr t\<close> run None rp by (auto simp: runInto_def Let_def)
      moreover have "fits lib t rp x" using Inr by (simp add: decodeTarget_fits)
      ultimately show ?thesis using \<open>newStructuredTarget lib value _ = Inr t\<close> strict by auto
    next
      case (Inl ve)
      show ?thesis
      proof (cases "\<not> rqResponseRepair r \<or> \<not> isRepairableFinish (rsFinishReason rp)")
        case True
        then show ?thesis using assms Inr run None rp Inl by (auto simp: runInto_def Let_def)
      next
        case False
        then have rep: "repairRun env lib t ?q rp ve w1 = (w', resp, v, e)"
          using assms Inr run None rp Inl by (auto simp: runInto_def Let_def)
        show ?thesis
          using repairRun_outcome [OF rep] repairRun_error [of env lib t ?q rp ve w1 w' resp e] rep Inr strict
          by (cases v) auto
      qed
    qed
  qed
qed

definition anyText :: "(unit, unit, unit, unit, string) schemaLib" where
  "anyText = \<lparr>slForType = \<lambda>_. Inr (), slMarshal = \<lambda>_. Inr ''{}'', slResolve = \<lambda>_. Inr (), slDecode = \<lambda>_ s. Some s,
     slInstance = \<lambda>_. Some (), slValidate = \<lambda>_ _. True\<rparr>"

theorem structured_value_or_error_witness:
  "\<exists>w' resp v e. runInto sampleEnv anyText plainRequest (PointerTo ()) () = (w', resp, v, e) \<and> (v = None) \<noteq> (e = None)"
proof -
  obtain w' resp v e where "runInto sampleEnv anyText plainRequest (PointerTo ()) () = (w', resp, v, e)"
    using prod_cases4 by blast
  with structured_value_or_error [OF this] show ?thesis by blast
qed

text \<open>
  The one repair turn continues the same conversation: it is sent without tools, its
  transcript is the request's own followed by the model's last reply and the correction, and
  that transcript is legal exactly when the reply carried no tool calls. A reply that was cut
  off or refused is not repaired: no second run happens.
\<close>

theorem structured_repair_turn:
  assumes "newStructuredTarget lib value (rqStrictResponseValidation r) = Inr t"
    and "q = cloneForStructuredResponse r (tgRawSchema t)"
    and "runResult env q w = (w1, Some resp, None)" and "decodeTarget lib t resp = Inl ve"
    and "sound (assembledMessages r)" and "mOrigin (lastAssistantMessage resp) = MessageOriginTurn"
  shows "\<not> hasTools (cloneForRepair env q resp (Some ve))
    \<and> (\<exists>u. plain_user u \<and> assembledMessages (cloneForRepair env q resp (Some ve))
          = assembledMessages r @ [lastAssistantMessage resp, u])
    \<and> (legal (assembledMessages (cloneForRepair env q resp (Some ve))) \<longleftrightarrow> mToolCalls (lastAssistantMessage resp) = [])
    \<and> (\<not> isRepairableFinish (rsFinishReason resp) \<longrightarrow> runInto env lib r value w = (w1, Some resp, None, Some ve))"
proof -
  let ?a = "lastAssistantMessage resp"
  let ?u = "emptyMessage\<lparr>mRole := RoleUser, mContent := Text (repairContent env (Some ve)), mOrigin := MessageOriginTurn\<rparr>"
  have role: "mRole ?a = RoleAssistant" and cl: "cloneMessage ?a = ?a" by (rule lastAssistantMessage_turn)+
  have am: "assembledMessages (cloneForRepair env q resp (Some ve)) = assembledMessages r @ [?a, cloneMessage ?u]"
    using assms(6) cl
    by (simp add: assembledMessages_def cloneForRepair_def assms(2) cloneForStructuredResponse_def promptAdd_messages)
  have u: "plain_user (cloneMessage ?u)" by (simp add: plain_user_def)
  have l: "legal (assembledMessages r)" using assms(5) by (simp add: sound_def)
  have leg: "legal [?a, cloneMessage ?u] \<longleftrightarrow> mToolCalls ?a = []"
    using role u by (cases "mToolCalls ?a") (auto simp: answers_def plain_user_def)
  have nt: "\<not> hasTools (cloneForRepair env q resp (Some ve))"
    by (simp add: hasTools_def cloneForRepair_def assms(2) cloneForStructuredResponse_def staticTools_def toolSetDefinitions_def)
  show ?thesis
    using nt am u leg legal_append [OF l] assms(1-4) by (auto simp: runInto_def Let_def)
qed

text \<open>A target that decodes nothing, so that the first reply is never good enough.\<close>

definition nothingFits :: "(unit, unit, unit, unit, string) schemaLib" where
  "nothingFits = anyText\<lparr>slDecode := \<lambda>_ _. None\<rparr>"

lemma lastAssistantMessage_snoc:
  "rsMessages resp = ms @ [m] \<Longrightarrow> mRole m = RoleAssistant \<Longrightarrow> lastAssistantMessage resp = cloneMessage m"
proof -
  assume a: "rsMessages resp = ms @ [m]" "mRole m = RoleAssistant"
  have "last_index P (xs @ [x]) = Some (length xs)" if "P x" for P and xs :: "message list" and x
    using that by (induction xs) auto
  with a show ?thesis by (simp add: lastAssistantMessage_def)
qed

lemma structured_plain_quiet: "quiet (cloneForStructuredResponse plainRequest ''{}'')"
proof -
  let ?q = "cloneForStructuredResponse plainRequest ''{}''"
  have "validateRequest sampleEnv ?q False = None"
    "validateCapabilities sampleEnv ?q (resolvedModel ?q) None = None"
    "validateMessageContentCapabilities sampleEnv ?q (assembledMessages ?q)
       (clientCapabilities (rqClient ?q) (resolvedModel ?q)) = None" by code_simp+
  then show ?thesis by (simp add: quiet_def) (simp add: plainRequest_defs cloneForStructuredResponse_def)
qed

theorem structured_repair_turn_witness:
  "\<exists>resp ve. runResult sampleEnv (cloneForStructuredResponse plainRequest ''{}'') () = ((), Some resp, None)
     \<and> legal (assembledMessages (cloneForRepair sampleEnv (cloneForStructuredResponse plainRequest ''{}'') resp (Some ve)))"
proof -
  let ?t = "\<lparr>tgType = (), tgResolved = None, tgRawSchema = ''{}''\<rparr> :: (unit, unit) structuredTarget"
  let ?q = "cloneForStructuredResponse plainRequest (tgRawSchema ?t)"
  have t: "newStructuredTarget nothingFits (PointerTo ()) (rqStrictResponseValidation plainRequest) = Inr ?t"
    by (simp add: newStructuredTarget_def nothingFits_def anyText_def plainRequest_defs)
  obtain s a where r: "run sampleEnv ?q () = (Some s, (), Some (responseFromAssistant s a), None, None)"
    "mRole a = RoleAssistant" "mToolCalls a = []" "stUsage s = addUsage zeroUsage zeroUsage"
    "stMessages s = assembledMessages ?q @ [a\<lparr>mOrigin := MessageOriginTurn\<rparr>]"
    using quiet_run [OF structured_plain_quiet] by auto
  let ?resp = "responseFromAssistant s a"
  have rr: "runResult sampleEnv ?q () = ((), Some ?resp, None)" using r(1) by (simp add: runResult_def)
  have la: "lastAssistantMessage ?resp = cloneMessage (a\<lparr>mOrigin := MessageOriginTurn\<rparr>)"
    using lastAssistantMessage_snoc [of ?resp "cloneMessages (assembledMessages ?q)" "cloneMessage (a\<lparr>mOrigin := MessageOriginTurn\<rparr>)"]
      r(2,5) by (simp add: responseFromAssistant_def)
  have "\<not> IsTruncated (rsFinishReason ?resp)"
    using r(4) by (simp add: responseFromAssistant_def addUsage_def zeroUsage_def IsTruncated_def)
  then have d: "decodeTarget nothingFits ?t ?resp = Inl (schemaMismatch ''structured response is not valid JSON'')"
    by (simp add: decodeTarget_def nothingFits_def)
  have s: "sound (assembledMessages plainRequest)" by (simp add: sound_def plainRequest_messages)
  have "legal (assembledMessages (cloneForRepair sampleEnv ?q ?resp (Some (schemaMismatch ''structured response is not valid JSON''))))"
    using structured_repair_turn [OF t refl rr d s] la r(3) by simp
  with rr show ?thesis by auto
qed

end
