(* ===== verification/DriverTranscripts.thy ===== *)
theory DriverTranscripts
  imports Transcript
begin

text \<open>
  The transcript checks the two drivers run before they send a request:
  \<open>validateTranscript\<close> of \<open>drivers/openai/translate.go\<close> and of
  \<open>drivers/anthropic/translate.go\<close>, with the helpers they call. Both implement the
  interface \<open>transcript_validator\<close>, with different demands beyond legality.
\<close>

definition invalidTranscript :: "string \<Rightarrow> err" where
  "invalidTranscript msg = Wrap (Sentinel ErrInvalidTranscript) msg"

section \<open>OpenAI\<close>

fun openaiCallIDs :: "string set \<Rightarrow> toolCall list \<Rightarrow> err + string set" where
  "openaiCallIDs seen [] = Inr seen"
| "openaiCallIDs seen (c # cs) =
     (if trimSpace (tcID c) = [] \<or> trimSpace (tcName c) = [] then
        Inl (invalidTranscript ''tool call requires id and name'')
      else if tcID c \<in> seen then Inl (invalidTranscript ''duplicate tool call id'')
      else openaiCallIDs (insert (tcID c) seen) cs)"

fun openaiResults :: "string set \<Rightarrow> string set \<Rightarrow> message list \<Rightarrow> err option" where
  "openaiResults seen answered [] = None"
| "openaiResults seen answered (r # rs) =
     (if mRole r \<noteq> RoleTool then
        Some (invalidTranscript ''tool results must immediately follow calls'')
      else if mToolCallID r \<notin> seen then
        Some (invalidTranscript ''tool result references an unknown call'')
      else if mToolCallID r \<in> answered then Some (invalidTranscript ''duplicate tool result'')
      else openaiResults seen (insert (mToolCallID r) answered) rs)"

definition openai_validateToolCallUnit :: "message \<Rightarrow> message list \<Rightarrow> err option" where
  "openai_validateToolCallUnit m rest =
     (let calls = mToolCalls m in
      if length calls \<ge> 1 + length rest then Some (invalidTranscript ''tool calls are missing results'')
      else case openaiCallIDs {} calls of
          Inl e \<Rightarrow> Some e
        | Inr seen \<Rightarrow> openaiResults seen {} (take (length calls) rest))"

function openai_validateTranscript :: "message list \<Rightarrow> err option" where
  "openai_validateTranscript [] = None"
| "openai_validateTranscript (m # ms) =
     (if mRole m = RoleUnknown then Some (invalidTranscript ''message role is empty'')
      else if mRole m = RoleTool then Some (invalidTranscript ''orphaned tool result'')
      else if mRole m \<noteq> RoleAssistant \<or> length (mToolCalls m) = 0 then openai_validateTranscript ms
      else case openai_validateToolCallUnit m ms of
          Some e \<Rightarrow> Some e
        | None \<Rightarrow> openai_validateTranscript (drop (length (mToolCalls m)) ms))"
  by pat_completeness auto
termination by (relation "measure length") simp_all

lemma openaiCallIDs_ok:
  "openaiCallIDs seen cs = Inr s \<longleftrightarrow>
     list_all (\<lambda>c. trimSpace (tcID c) \<noteq> [] \<and> trimSpace (tcName c) \<noteq> []) cs
     \<and> distinct (map tcID cs) \<and> tcID ` set cs \<inter> seen = {} \<and> s = seen \<union> tcID ` set cs"
  by (induction seen cs rule: openaiCallIDs.induct) auto

lemma openaiResults_ok:
  "openaiResults seen answered rs = None \<longleftrightarrow>
     list_all isToolResult rs \<and> mToolCallID ` set rs \<subseteq> seen
     \<and> distinct (map mToolCallID rs) \<and> mToolCallID ` set rs \<inter> answered = {}"
  by (induction seen answered rs rule: openaiResults.induct) auto

definition namedCalls :: "(string \<Rightarrow> bool) \<Rightarrow> message list \<Rightarrow> bool" where
  "namedCalls absent ms \<longleftrightarrow>
     list_all (\<lambda>m. list_all (\<lambda>c. \<not> absent (tcID c) \<and> \<not> absent (tcName c)) (mToolCalls m)) ms"

definition openaiExtra :: "message list \<Rightarrow> bool" where
  "openaiExtra ms \<longleftrightarrow> list_all (\<lambda>m. mRole m \<noteq> RoleUnknown) ms \<and> namedCalls (\<lambda>s. trimSpace s = []) ms"

lemma subset_same_card: "finite B \<Longrightarrow> A \<subseteq> B \<Longrightarrow> card A = card B \<Longrightarrow> A = B"
  by (rule card_subset_eq)

lemma openai_unit_ok:
  "openai_validateToolCallUnit m rest = None \<longleftrightarrow>
     answers (mToolCalls m) (take (length (mToolCalls m)) rest)
     \<and> list_all (\<lambda>c. trimSpace (tcID c) \<noteq> [] \<and> trimSpace (tcName c) \<noteq> []) (mToolCalls m)"
  (is "?v \<longleftrightarrow> ?a \<and> ?n")
proof
  let ?cs = "mToolCalls m" and ?rs = "take (length (mToolCalls m)) rest"
  assume v: ?v
  then have len: "length ?rs = length ?cs"
    by (auto simp: openai_validateToolCallUnit_def Let_def split: if_splits)
  from v obtain seen where s: "openaiCallIDs {} ?cs = Inr seen" and r: "openaiResults seen {} ?rs = None"
    by (auto simp: openai_validateToolCallUnit_def Let_def split: if_splits sum.splits)
  from s have n: ?n and d: "distinct (map tcID ?cs)" and seen: "seen = tcID ` set ?cs"
    by (simp_all add: openaiCallIDs_ok)
  from r have t: "list_all isToolResult ?rs" and sub: "mToolCallID ` set ?rs \<subseteq> seen"
    and dr: "distinct (map mToolCallID ?rs)" by (simp_all add: openaiResults_ok)
  have "card (mToolCallID ` set ?rs) = card (tcID ` set ?cs)"
    using distinct_card [OF d] distinct_card [OF dr] len by simp
  then have "mToolCallID ` set ?rs = tcID ` set ?cs"
    using sub seen by (simp add: subset_same_card)
  with len t d n show "?a \<and> ?n" by (simp add: answers_def)
next
  assume a: "?a \<and> ?n"
  then show ?v using answers_distinct_ids [of "mToolCalls m"] openaiCallIDs_ok [of "{}" "mToolCalls m"]
    by (auto simp: openai_validateToolCallUnit_def Let_def openaiResults_ok answers_def split: sum.splits)
qed

lemma openaiExtra_append: "openaiExtra (xs @ ys) \<longleftrightarrow> openaiExtra xs \<and> openaiExtra ys"
  by (auto simp: openaiExtra_def namedCalls_def)

text \<open>Results carry no calls, so what a driver demands of a unit is a demand on its first message.\<close>

lemma unit_results_no_calls:
  "callsOnAssistant (m # ms) \<Longrightarrow> answers calls (take n ms) \<Longrightarrow> r \<in> set (take n ms) \<Longrightarrow> mToolCalls r = []"
  using answers_tools by (fastforce simp: callsOnAssistant_def list_all_iff dest: in_set_takeD)

lemma openaiExtra_unit:
  assumes "callsOnAssistant (m # ms)" and "answers (mToolCalls m) (take n ms)"
  shows "openaiExtra (m # ms) \<longleftrightarrow> mRole m \<noteq> RoleUnknown
    \<and> list_all (\<lambda>c. trimSpace (tcID c) \<noteq> [] \<and> trimSpace (tcName c) \<noteq> []) (mToolCalls m)
    \<and> openaiExtra (drop n ms)"
proof -
  have "openaiExtra (take n ms)"
    using unit_results_no_calls [OF assms] answers_tools [OF assms(2)]
    by (simp add: openaiExtra_def namedCalls_def list_all_iff)
  then have "openaiExtra ms \<longleftrightarrow> openaiExtra (drop n ms)"
    using openaiExtra_append [of "take n ms" "drop n ms"] by simp
  then show ?thesis by (auto simp: openaiExtra_def namedCalls_def)
qed

lemma openai_accepts:
  "callsOnAssistant ms \<Longrightarrow> openai_validateTranscript ms = None \<longleftrightarrow> legal ms \<and> openaiExtra ms"
proof (induction ms rule: openai_validateTranscript.induct)
  case 1
  then show ?case by (simp add: openaiExtra_def namedCalls_def)
next
  case (2 m ms)
  show ?case
  proof (cases "mToolCalls m = []")
    case True
    then show ?thesis using 2 by (auto simp: openaiExtra_def namedCalls_def)
  next
    case False
    with "2.prems" have asst: "mRole m = RoleAssistant" by simp
    have co: "callsOnAssistant (drop (length (mToolCalls m)) ms)"
      using "2.prems" callsOnAssistant_drop by simp
    show ?thesis
    proof (cases "openai_validateToolCallUnit m ms")
      case None
      with openai_unit_ok [of m ms] openaiExtra_unit [OF "2.prems"] "2.IH"(2) [OF _ _ _ None co] asst False
      show ?thesis by auto
    next
      case (Some e)
      then have "\<not> (answers (mToolCalls m) (take (length (mToolCalls m)) ms)
         \<and> list_all (\<lambda>c. trimSpace (tcID c) \<noteq> [] \<and> trimSpace (tcName c) \<noteq> []) (mToolCalls m))"
        using openai_unit_ok [of m ms] by simp
      with Some asst False openaiExtra_unit [OF "2.prems"] show ?thesis by auto
    qed
  qed
qed

interpretation openai: transcript_validator openai_validateTranscript openaiExtra
  by unfold_locales (rule openai_accepts)

section \<open>Anthropic\<close>

text \<open>The loop state: the calls awaiting a result and the ids already answered.\<close>

definition invalidTranscriptf :: "string \<Rightarrow> fmt_arg list \<Rightarrow> err" where
  "invalidTranscriptf f as = Wrapf (Sentinel ErrInvalidTranscript) f as"

fun anthropic_validateAssistantMessage :: "nat \<Rightarrow> toolCall list \<Rightarrow> string set \<Rightarrow> err + string set" where
  "anthropic_validateAssistantMessage i [] pending = Inr pending"
| "anthropic_validateAssistantMessage i (c # cs) pending =
     (if tcID c = [] \<or> tcName c = [] then
        Inl (invalidTranscriptf ''assistant message %d has an incomplete tool call'' [ArgInt (int i)])
      else if tcID c \<in> pending then
        Inl (invalidTranscriptf ''assistant message %d repeats tool call id %q'' [ArgInt (int i), ArgStr (tcID c)])
      else anthropic_validateAssistantMessage i cs (insert (tcID c) pending))"

definition anthropic_validateToolMessage ::
  "nat \<Rightarrow> message \<Rightarrow> string set \<Rightarrow> string set \<Rightarrow> err + string set \<times> string set" where
  "anthropic_validateToolMessage i m pending answered =
     (if mToolCallID m \<notin> pending then
        Inl (invalidTranscriptf ''tool message %d has no matching call id %q''
          [ArgInt (int i), ArgStr (mToolCallID m)])
      else if mToolCallID m \<in> answered then
        Inl (invalidTranscriptf ''tool call id %q has multiple results'' [ArgStr (mToolCallID m)])
      else Inr (pending - {mToolCallID m}, insert (mToolCallID m) answered))"

definition anthropic_validateTranscriptMessage ::
  "nat \<Rightarrow> message \<Rightarrow> string set \<Rightarrow> string set \<Rightarrow> err + string set \<times> string set" where
  "anthropic_validateTranscriptMessage i m pending answered =
     (if mRole m = RoleUnknown then Inl (invalidTranscriptf ''message %d has no role'' [ArgInt (int i)])
      else if pending \<noteq> {} \<and> mRole m \<noteq> RoleTool then
        Inl (invalidTranscriptf ''message %d appears before every tool call has a result'' [ArgInt (int i)])
      else if mRole m = RoleSystem \<or> mRole m = RoleUser then Inr (pending, answered)
      else if mRole m = RoleAssistant then
        map_sum id (\<lambda>p. (p, answered)) (anthropic_validateAssistantMessage i (mToolCalls m) pending)
      else if mRole m = RoleTool then anthropic_validateToolMessage i m pending answered
      else Inl (invalidTranscriptf ''message %d has role %q'' [ArgInt (int i), ArgStr (mRole m)]))"

fun anthropicLoop :: "nat \<Rightarrow> message list \<Rightarrow> string set \<Rightarrow> string set \<Rightarrow> err option" where
  "anthropicLoop i [] pending answered =
     (if pending \<noteq> {} then
        Some (invalidTranscriptf ''transcript ends with %d unanswered tool calls'' [ArgInt (int (card pending))])
      else None)"
| "anthropicLoop i (m # ms) pending answered =
     (case anthropic_validateTranscriptMessage i m pending answered of
        Inl e \<Rightarrow> Some e
      | Inr (p, a) \<Rightarrow> anthropicLoop (Suc i) ms p a)"

definition anthropic_validateTranscript :: "message list \<Rightarrow> err option" where
  "anthropic_validateTranscript ms = anthropicLoop 0 ms {} {}"

definition callIDs :: "message list \<Rightarrow> string list" where
  "callIDs ms = concat (map (\<lambda>m. map tcID (mToolCalls m)) ms)"

definition anthropicExtra :: "string set \<Rightarrow> message list \<Rightarrow> bool" where
  "anthropicExtra answered ms \<longleftrightarrow>
     list_all (\<lambda>m. mRole m \<in> {RoleSystem, RoleUser, RoleAssistant, RoleTool}) ms
     \<and> namedCalls (\<lambda>s. s = []) ms \<and> distinct (callIDs ms) \<and> set (callIDs ms) \<inter> answered = {}"

lemma anthropic_calls_ok:
  "anthropic_validateAssistantMessage i cs pending = Inr p \<longleftrightarrow>
     list_all (\<lambda>c. tcID c \<noteq> [] \<and> tcName c \<noteq> []) cs \<and> distinct (map tcID cs)
     \<and> tcID ` set cs \<inter> pending = {} \<and> p = pending \<union> tcID ` set cs"
  by (induction i cs pending rule: anthropic_validateAssistantMessage.induct) auto

text \<open>While calls are pending, the loop accepts exactly a run of results that answers each of them once.\<close>

lemma anthropic_pending:
  "pending \<noteq> {} \<Longrightarrow> finite pending \<Longrightarrow> pending \<inter> answered = {} \<Longrightarrow>
   anthropicLoop i ms pending answered = None \<longleftrightarrow>
     (let rs = take (card pending) ms in
      length rs = card pending \<and> list_all isToolResult rs \<and> mToolCallID ` set rs = pending
      \<and> anthropicLoop (i + card pending) (drop (card pending) ms) {} (answered \<union> pending) = None)"
proof (induction ms arbitrary: i pending answered)
  case Nil
  then show ?case by simp
next
  case (Cons m ms)
  obtain n where n: "card pending = Suc n" using Cons.prems by (metis card_gt_0_iff gr0_implies_Suc)
  show ?case
  proof (cases "isToolResult m \<and> mToolCallID m \<in> pending")
    case False
    then have "\<not> (anthropicLoop i (m # ms) pending answered = None)"
      using Cons.prems by (auto simp: anthropic_validateTranscriptMessage_def anthropic_validateToolMessage_def)
    moreover have "isToolResult m \<Longrightarrow> mToolCallID m \<notin> pending" using False by simp
    ultimately show ?thesis using n by (auto simp: Let_def)
  next
    case True
    let ?c = "mToolCallID m" and ?P = "pending - {mToolCallID m}" and ?A = "insert (mToolCallID m) answered"
    have step: "anthropicLoop i (m # ms) pending answered = anthropicLoop (Suc i) ms ?P ?A"
      using True Cons.prems
      by (auto simp: anthropic_validateTranscriptMessage_def anthropic_validateToolMessage_def)
    have cP: "card ?P = n" using n True Cons.prems by simp
    show ?thesis
    proof (cases "?P = {}")
      case True': True
      then have p: "pending = {?c}" using True by auto
      then show ?thesis using step True by (simp add: Let_def)
    next
      case False
      have u: "?A \<union> ?P = answered \<union> pending" using True by auto
      have ih: "anthropicLoop (Suc i) ms ?P ?A = None \<longleftrightarrow>
        (length (take n ms) = n \<and> list_all isToolResult (take n ms) \<and> mToolCallID ` set (take n ms) = ?P
         \<and> anthropicLoop (Suc i + n) (drop n ms) {} (answered \<union> pending) = None)"
        using Cons.IH [of ?P ?A "Suc i"] False Cons.prems u cP by (auto simp: Let_def)
      have eqs: "mToolCallID ` set (m # take n ms) = pending \<longleftrightarrow> mToolCallID ` set (take n ms) = ?P"
        if len: "length (take n ms) = n"
      proof
        assume e: "mToolCallID ` set (m # take n ms) = pending"
        have "?c \<notin> mToolCallID ` set (take n ms)"
        proof
          assume "?c \<in> mToolCallID ` set (take n ms)"
          then have "pending = mToolCallID ` set (take n ms)" using e by auto
          then have "card pending \<le> n" using len
            by (metis card_image_le card_length le_trans list.set_finite)
          with n show False by simp
        qed
        then show "mToolCallID ` set (take n ms) = ?P" unfolding e [symmetric] by (simp add: Diff_insert_absorb)
      next
        assume "mToolCallID ` set (take n ms) = ?P"
        with True show "mToolCallID ` set (m # take n ms) = pending" by auto
      qed
      show ?thesis
        unfolding step ih Let_def n take_Suc_Cons drop_Suc_Cons list.size list.pred_inject add_Suc_right
        using True eqs by (simp only: add_Suc add_0_right Suc_inject simp_thms) blast
    qed
  qed
qed

text \<open>An id answered in an earlier exchange can never be answered again.\<close>

lemma anthropic_reused_id:
  "pending \<inter> answered \<noteq> {} \<Longrightarrow> anthropicLoop i ms pending answered \<noteq> None"
proof (induction ms arbitrary: i pending answered)
  case (Cons m ms)
  show ?case
  proof (cases "isToolResult m \<and> mToolCallID m \<in> pending \<and> mToolCallID m \<notin> answered")
    case True
    then have "anthropicLoop i (m # ms) pending answered =
        anthropicLoop (Suc i) ms (pending - {mToolCallID m}) (insert (mToolCallID m) answered)"
      by (auto simp: anthropic_validateTranscriptMessage_def anthropic_validateToolMessage_def)
    moreover have "(pending - {mToolCallID m}) \<inter> insert (mToolCallID m) answered \<noteq> {}"
      using True Cons.prems by auto
    ultimately show ?thesis using Cons.IH by simp
  next
    case False
    with Cons.prems show ?thesis
      by (auto simp: anthropic_validateTranscriptMessage_def anthropic_validateToolMessage_def)
  qed
qed auto

lemma callIDs_simps [simp]:
  "callIDs [] = []" "callIDs (m # ms) = map tcID (mToolCalls m) @ callIDs ms"
  "callIDs (xs @ ys) = callIDs xs @ callIDs ys"
  by (simp_all add: callIDs_def)

lemma anthropicExtra_unit:
  assumes "callsOnAssistant (m # ms)" and "answers (mToolCalls m) (take n ms)"
  shows "anthropicExtra A (m # ms) \<longleftrightarrow> mRole m \<in> {RoleSystem, RoleUser, RoleAssistant, RoleTool}
    \<and> list_all (\<lambda>c. tcID c \<noteq> [] \<and> tcName c \<noteq> []) (mToolCalls m)
    \<and> tcID ` set (mToolCalls m) \<inter> A = {}
    \<and> anthropicExtra (A \<union> tcID ` set (mToolCalls m)) (drop n ms)"
proof -
  let ?R = "{RoleSystem, RoleUser, RoleAssistant, RoleTool}"
  have nc: "\<forall>r \<in> set (take n ms). mToolCalls r = []" using unit_results_no_calls [OF assms] by blast
  then have ids: "callIDs (take n ms) = []" by (simp add: callIDs_def)
  have named: "namedCalls (\<lambda>s. s = []) (take n ms)" using nc by (simp add: namedCalls_def list_all_iff)
  have roles: "list_all (\<lambda>m. mRole m \<in> ?R) (take n ms)"
    using answers_tools [OF assms(2)] by (simp add: list_all_iff)
  have "callIDs ms = callIDs (drop n ms)" using ids callIDs_simps(3) [of "take n ms" "drop n ms"] by simp
  moreover have "namedCalls (\<lambda>s. s = []) ms \<longleftrightarrow> namedCalls (\<lambda>s. s = []) (drop n ms)"
    using named list_all_append [of _ "take n ms" "drop n ms"] by (simp add: namedCalls_def)
  moreover have "list_all (\<lambda>m. mRole m \<in> ?R) ms \<longleftrightarrow> list_all (\<lambda>m. mRole m \<in> ?R) (drop n ms)"
    using roles list_all_append [of "\<lambda>m. mRole m \<in> ?R" "take n ms" "drop n ms"] by simp
  moreover have "distinct (map tcID (mToolCalls m))" using assms(2) by (simp add: answers_def)
  moreover have "namedCalls (\<lambda>s. s = []) (m # ms) \<longleftrightarrow>
      list_all (\<lambda>c. tcID c \<noteq> [] \<and> tcName c \<noteq> []) (mToolCalls m) \<and> namedCalls (\<lambda>s. s = []) ms"
    by (simp add: namedCalls_def)
  ultimately show ?thesis by (auto simp: anthropicExtra_def)
qed

lemma anthropic_unit:
  assumes "mRole m = RoleAssistant" and "mToolCalls m \<noteq> []"
  shows "anthropicLoop i (m # ms) {} A = None \<longleftrightarrow>
    (let n = length (mToolCalls m); ids = tcID ` set (mToolCalls m) in
     list_all (\<lambda>c. tcID c \<noteq> [] \<and> tcName c \<noteq> []) (mToolCalls m) \<and> ids \<inter> A = {}
     \<and> answers (mToolCalls m) (take n ms) \<and> anthropicLoop (Suc i + n) (drop n ms) {} (A \<union> ids) = None)"
proof (cases "anthropic_validateAssistantMessage i (mToolCalls m) {}")
  case (Inl e)
  then have "\<not> (list_all (\<lambda>c. tcID c \<noteq> [] \<and> tcName c \<noteq> []) (mToolCalls m) \<and> distinct (map tcID (mToolCalls m)))"
    using anthropic_calls_ok [of i "mToolCalls m" "{}"] by auto
  with Inl assms show ?thesis by (auto simp: anthropic_validateTranscriptMessage_def Let_def answers_def)
next
  case (Inr p)
  let ?ids = "tcID ` set (mToolCalls m)"
  from Inr have ok: "list_all (\<lambda>c. tcID c \<noteq> [] \<and> tcName c \<noteq> []) (mToolCalls m)"
    and d: "distinct (map tcID (mToolCalls m))" and p: "p = ?ids" by (simp_all add: anthropic_calls_ok)
  have step: "anthropicLoop i (m # ms) {} A = anthropicLoop (Suc i) ms ?ids A"
    using assms Inr p by (simp add: anthropic_validateTranscriptMessage_def)
  have card: "card ?ids = length (mToolCalls m)" using distinct_card [OF d] by simp
  show ?thesis
  proof (cases "?ids \<inter> A = {}")
    case True
    then show ?thesis
      using anthropic_pending [of ?ids A "Suc i" ms] assms(2) step ok d
      by (auto simp: Let_def card answers_def)
  next
    case False
    then show ?thesis using anthropic_reused_id [OF False] step by (simp add: Let_def)
  qed
qed

lemma anthropic_plain:
  assumes "mToolCalls m = []"
  shows "anthropicLoop i (m # ms) {} A = None \<longleftrightarrow>
    mRole m \<in> {RoleSystem, RoleUser, RoleAssistant} \<and> anthropicLoop (Suc i) ms {} A = None"
  using assms by (auto simp: anthropic_validateTranscriptMessage_def anthropic_validateToolMessage_def)

lemma anthropicLoop_accepts:
  "callsOnAssistant ms \<Longrightarrow> anthropicLoop i ms {} A = None \<longleftrightarrow> legal ms \<and> anthropicExtra A ms"
proof (induction ms arbitrary: i A rule: legal.induct)
  case 1
  then show ?case by (simp add: anthropicExtra_def namedCalls_def)
next
  case (2 m ms)
  show ?case
  proof (cases "mToolCalls m = []")
    case True
    then have "anthropicExtra A (m # ms) \<longleftrightarrow>
        mRole m \<in> {RoleSystem, RoleUser, RoleAssistant, RoleTool} \<and> anthropicExtra A ms"
      by (auto simp: anthropicExtra_def namedCalls_def)
    with 2 True show ?thesis by (auto simp: anthropic_plain simp del: anthropicLoop.simps)
  next
    case False
    then have asst: "mRole m = RoleAssistant" using "2.prems" by simp
    have co: "callsOnAssistant (drop (length (mToolCalls m)) ms)"
      using "2.prems" callsOnAssistant_drop by simp
    show ?thesis
      using anthropicExtra_unit [OF "2.prems"] "2.IH" [OF co] asst False
      by (auto simp: anthropic_unit Let_def simp del: anthropicLoop.simps)
  qed
qed

interpretation anthropic: transcript_validator anthropic_validateTranscript "anthropicExtra {}"
  by unfold_locales (simp add: anthropic_validateTranscript_def anthropicLoop_accepts)

section \<open>Properties\<close>

text \<open>
  C12. The OpenAI driver accepts a transcript exactly when it is legal, no role is empty and
  every call has an id and a name that are not blank; so a repaired transcript with these
  is never refused.
\<close>

theorem openai_transcript_iff:
  assumes "callsOnAssistant ms"
  shows "(openai_validateTranscript ms = None \<longleftrightarrow> legal ms \<and> openaiExtra ms)
    \<and> (openaiExtra (repairTranscript ms) \<longrightarrow> openai_validateTranscript (repairTranscript ms) = None)
    \<and> (openai_validateTranscript ms = None \<longrightarrow> repairTranscript ms = ms)"
  using openai.accepts [OF assms] openai.repaired_accepted [OF repair_callsOnAssistant [OF assms]]
    openai.accepted_not_repaired [OF assms] by blast

theorem openai_transcript_iff_witness:
  "callsOnAssistant orphanSample \<and> openai_validateTranscript orphanSample = None
   \<and> repairTranscript orphanSample = orphanSample"
proof -
  have "callsOnAssistant orphanSample" and "openai_validateTranscript orphanSample = None"
    by code_simp+
  with openai_transcript_iff [of orphanSample] show ?thesis by blast
qed

text \<open>
  C13. The Anthropic driver accepts a transcript exactly when it is legal, every role is one
  of the four, every call has an id and a name, and no call id is used twice anywhere in the
  transcript: an id reused in a later exchange is refused.
\<close>

theorem anthropic_transcript_iff:
  assumes "callsOnAssistant ms"
  shows "(anthropic_validateTranscript ms = None \<longleftrightarrow> legal ms \<and> anthropicExtra {} ms)
    \<and> (anthropicExtra {} (repairTranscript ms) \<longrightarrow> anthropic_validateTranscript (repairTranscript ms) = None)
    \<and> (anthropic_validateTranscript ms = None \<longrightarrow> repairTranscript ms = ms)"
  using anthropic.accepts [OF assms] anthropic.repaired_accepted [OF repair_callsOnAssistant [OF assms]]
    anthropic.accepted_not_repaired [OF assms] by blast

text \<open>The witness: the sample is accepted once, and refused when its exchange is repeated under the same id.\<close>

theorem anthropic_transcript_iff_witness:
  "callsOnAssistant orphanSample \<and> anthropic_validateTranscript orphanSample = None
   \<and> legal (orphanSample @ orphanSample) \<and> openai_validateTranscript (orphanSample @ orphanSample) = None
   \<and> anthropic_validateTranscript (orphanSample @ orphanSample) \<noteq> None"
proof -
  have "callsOnAssistant orphanSample" "callsOnAssistant (orphanSample @ orphanSample)"
    and "legal (orphanSample @ orphanSample)" and "anthropic_validateTranscript orphanSample = None"
    and "openai_validateTranscript (orphanSample @ orphanSample) = None"
    and "\<not> anthropicExtra {} (orphanSample @ orphanSample)"
    by code_simp+
  with anthropic_transcript_iff [of "orphanSample @ orphanSample"] show ?thesis by blast
qed

end
