(* ===== verification/Retry.thy ===== *)
theory Retry
  imports Driver
begin

text \<open>
  The retry decorator (\<open>retry.go\<close>): classification of failures, backoff, the attempt loop
  and its accounting. What it takes from its surroundings is a parameter: the texts of
  errors, the clock's wait (which the context may cut short), the random source and the
  retry callback carried by the context. Durations are nanoseconds; the random float is an
  exact rational.
\<close>

section \<open>Retry-After\<close>

abbreviation second :: int where "second \<equiv> 1000000000"
abbreviation millisecond :: int where "millisecond \<equiv> 1000000"

definition maxParsedRetryAfter :: int where
  "maxParsedRetryAfter = 24 * 3600 * second"

text \<open>\<open>untilDate\<close> is \<open>http.ParseTime\<close> followed by \<open>time.Until\<close>, \<open>None\<close> when the date does not parse.\<close>

definition ParseRetryAfter :: "(string \<Rightarrow> int option) \<Rightarrow> string \<Rightarrow> int" where
  "ParseRetryAfter untilDate v =
     (case parseInt64 v of
        Some seconds \<Rightarrow>
          if seconds \<le> 0 then 0
          else if seconds > maxParsedRetryAfter div second then maxParsedRetryAfter
          else wrap64 (seconds * second)
      | None \<Rightarrow>
          (case untilDate v of
             None \<Rightarrow> 0
           | Some d \<Rightarrow> if d \<le> 0 then 0 else min d maxParsedRetryAfter))"

section \<open>Classification\<close>

abbreviation RetryReasonUnset :: string where "RetryReasonUnset \<equiv> ''''"
abbreviation RetryReasonRateLimited :: string where "RetryReasonRateLimited \<equiv> ''rate_limited''"
abbreviation RetryReasonServerError :: string where "RetryReasonServerError \<equiv> ''server_error''"
abbreviation RetryReasonTimeout :: string where "RetryReasonTimeout \<equiv> ''timeout''"
abbreviation RetryReasonTransport :: string where "RetryReasonTransport \<equiv> ''transport''"

text \<open>(reason, retryable, known)\<close>

definition classifyProviderErrorCode :: "string \<Rightarrow> string \<times> bool \<times> bool" where
  "classifyProviderErrorCode code =
     (if code = ProviderErrorCodeOverloaded \<or> code = ProviderErrorCodeAPIError
        then (RetryReasonServerError, True, True)
      else if code = ProviderErrorCodeRateLimit then (RetryReasonRateLimited, True, True)
      else if code = ProviderErrorCodeContextLengthExceeded \<or> code = ProviderErrorCodeInsufficientQuota
        then ([], False, True)
      else ([], False, False))"

definition classifyHTTPStatus :: "int \<Rightarrow> string \<times> int \<times> bool" where
  "classifyHTTPStatus status =
     (if status = 429 then (RetryReasonRateLimited, status, True)
      else if status \<ge> 500 then (RetryReasonServerError, status, True)
      else ([], status, False))"

definition classifyTransportError :: "err \<Rightarrow> string option" where
  "classifyTransportError e =
     (case as_net e of
        Some isTimeout \<Rightarrow> Some (if isTimeout then RetryReasonTimeout else RetryReasonTransport)
      | None \<Rightarrow> if err_is e IoEOF \<or> err_is e IoUnexpectedEOF then Some RetryReasonTransport else None)"

definition classifyVerdict :: "err \<Rightarrow> string \<times> int \<times> bool" where
  "classifyVerdict e =
     (case as_status e of
        Some (status, _) \<Rightarrow> classifyHTTPStatus status
      | None \<Rightarrow> (case classifyTransportError e of Some reason \<Rightarrow> (reason, 0, True) | None \<Rightarrow> ([], 0, False)))"

text \<open>(reason, status, retryable)\<close>

definition classifyRetry :: "err \<Rightarrow> string \<times> int \<times> bool" where
  "classifyRetry e =
     (if err_is e ContextCanceled \<or> err_is e DeadlineExceeded then ([], 0, False)
      else if err_is e ErrQuotaExhausted then ([], 429, False)
      else if err_is e ErrRateLimited then (RetryReasonRateLimited, 429, True)
      else case as_provider e of
          Some (status, _, code) \<Rightarrow>
            (case classifyProviderErrorCode code of
               (reason, retryable, known) \<Rightarrow>
                 if known then (reason, status, retryable) else classifyVerdict e)
        | None \<Rightarrow> classifyVerdict e)"

definition mapProviderError :: "(err \<Rightarrow> string) \<Rightarrow> err \<Rightarrow> int \<Rightarrow> err" where
  "mapProviderError errText e status =
     (if (case as_provider e of
            Some (_, _, code) \<Rightarrow> code = ProviderErrorCodeContextLengthExceeded | None \<Rightarrow> False)
      then Wrap (Sentinel ErrContextExceeded) (errText e)
      else if status = 401 \<or> status = 403 then Wrap (Sentinel ErrNotAuthenticated) (errText e)
      else if status = 404 then Wrap (Sentinel ErrNotFound) (errText e)
      else if status = 429 then Wrap (Sentinel ErrRateLimited) (errText e)
      else Wrap e ''provider request'')"

definition shouldStopRetry :: "bool \<Rightarrow> bool \<Rightarrow> int \<Rightarrow> int \<Rightarrow> bool" where
  "shouldStopRetry retryable streamed attempt maxAttempts \<longleftrightarrow> \<not> retryable \<or> streamed \<or> attempt = maxAttempts"

section \<open>Configuration and backoff\<close>

record retryConfig =
  rcMaxAttempts :: int
  rcInitialDelay :: int
  rcMaxDelay :: int
  rcJitter :: "bool option"
  rcRespectRetryAfter :: "bool option"

definition defaultRetryAttempts :: int where "defaultRetryAttempts = 3"
definition defaultRetryInitialDelay :: int where "defaultRetryInitialDelay = 250 * millisecond"
definition defaultRetryMaxDelay :: int where "defaultRetryMaxDelay = 5 * second"

definition boolValue :: "bool option \<Rightarrow> bool \<Rightarrow> bool" where
  "boolValue v fallback = (case v of None \<Rightarrow> fallback | Some b \<Rightarrow> b)"

text \<open>The surroundings of one decorated driver.\<close>

record 'w retryEnv =
  reErrText :: "err \<Rightarrow> string"
  reRandomFloat :: "'w \<Rightarrow> 'w \<times> rat"
  reWait :: "int \<Rightarrow> 'w \<Rightarrow> 'w \<times> err option" \<comment> \<open>\<open>Some\<close>: the context's error, when it is done first\<close>
  reOnRetry :: "('w, retryAttempt) callback option"

text \<open>
  The random source of a driver \<open>WithRetry\<close> builds: 53 of 64 random bits as a fraction, or a half
  when there are none. Both the count and the quotient are exact in a float64.
\<close>

definition defaultRetryRandomFloat :: "64 word option \<Rightarrow> rat" where
  "defaultRetryRandomFloat randomBits =
     (case randomBits of None \<Rightarrow> 1 / 2 | Some bits \<Rightarrow> of_nat (unat (drop_bit 11 bits)) / 2 ^ 53)"

definition cryptoRandom :: "('w \<Rightarrow> 'w \<times> 64 word option) \<Rightarrow> 'w \<Rightarrow> 'w \<times> rat" where
  "cryptoRandom read w = (let (w', bits) = read w in (w', defaultRetryRandomFloat bits))"

fun delayLoop :: "int \<Rightarrow> nat \<Rightarrow> int \<Rightarrow> int option" where
  "delayLoop maxDelay 0 d = Some d"
| "delayLoop maxDelay (Suc n) d =
     (if d \<ge> maxDelay div 2 then None else delayLoop maxDelay n (wrap64 (d * 2)))"


definition backoffDelay :: "'w retryEnv \<Rightarrow> retryConfig \<Rightarrow> int \<Rightarrow> 'w \<Rightarrow> 'w \<times> int" where
  "backoffDelay env cfg attempt w =
     (case delayLoop (rcMaxDelay cfg) (nat (attempt - 1)) (rcInitialDelay cfg) of
        None \<Rightarrow> (w, rcMaxDelay cfg)
      | Some d \<Rightarrow>
          let d' = (if d > rcMaxDelay cfg then rcMaxDelay cfg else d) in
          if boolValue (rcJitter cfg) True then
            (let half = d' div 2; (w', r) = reRandomFloat env w in (w', half + \<lfloor>r * of_int half\<rfloor>))
          else (w, d'))"

definition retryDelay :: "'w retryEnv \<Rightarrow> retryConfig \<Rightarrow> int \<Rightarrow> err \<Rightarrow> 'w \<Rightarrow> 'w \<times> int" where
  "retryDelay env cfg attempt e w =
     (case as_status e of
        Some (_, retryAfter) \<Rightarrow>
          if boolValue (rcRespectRetryAfter cfg) True \<and> retryAfter > 0
          then (w, min retryAfter (rcMaxDelay cfg))
          else backoffDelay env cfg attempt w
      | None \<Rightarrow> backoffDelay env cfg attempt w)"

section \<open>The attempt loop\<close>

definition successfulRetryUsage :: "usage \<Rightarrow> usage \<Rightarrow> usage" where
  "successfulRetryUsage u aggregate = u\<lparr>uRetry := uRetry aggregate\<rparr>"

definition failedRetryUsage :: "usage \<Rightarrow> usage \<Rightarrow> usage" where
  "failedRetryUsage u aggregate = u\<lparr>uTokens := zeroTokens, uRetry := uRetry aggregate\<rparr>"

definition recordFailedAttempt :: "usage \<Rightarrow> retryAttempt \<Rightarrow> usage" where
  "recordFailedAttempt aggregate a =
     (let r = uRetry aggregate in
      aggregate\<lparr>uRetry := r\<lparr>
        riFailedAttempts := riFailedAttempts r @ [a],
        riWastedPromptTokens := add64 (riWastedPromptTokens r) (tkPrompt (raTokens a)),
        riWastedCompletionTokens := add64 (riWastedCompletionTokens r) (tkCompletion (raTokens a)),
        riWastedTotalTokens := add64 (riWastedTotalTokens r) (tkTotal (raTokens a))\<rparr>\<rparr>)"

definition countAttempt :: "usage \<Rightarrow> usage" where
  "countAttempt aggregate =
     aggregate\<lparr>uRetry := (uRetry aggregate)\<lparr>riTotalAttempts := riTotalAttempts (uRetry aggregate) + 1\<rparr>\<rparr>"

record attemptDecision =
  adRetryable :: bool
  adStop :: bool
  adFailed :: retryAttempt

definition classifyAttempt ::
  "'w retryEnv \<Rightarrow> retryConfig \<Rightarrow> int \<Rightarrow> usage \<Rightarrow> bool \<Rightarrow> err \<Rightarrow> 'w \<Rightarrow> 'w \<times> attemptDecision" where
  "classifyAttempt env cfg attempt u streamed e w =
     (let (reason, status, retryable) = classifyRetry e;
          stop = shouldStopRetry retryable streamed attempt (rcMaxAttempts cfg);
          (w', d) = retryDelay env cfg attempt e w
      in (w', \<lparr>adRetryable = retryable, adStop = stop,
           adFailed = \<lparr>raAttempt = attempt, raReason = reason, raErr = e, raStatus = status,
             raDelay = (if stop then 0 else d), raStreamed = streamed, raTokens = uTokens u\<rparr>\<rparr>))"

definition notifyRetry :: "'w retryEnv \<Rightarrow> retryAttempt \<Rightarrow> 'w \<Rightarrow> 'w \<times> err option" where
  "notifyRetry env a w =
     (case reOnRetry env of
        None \<Rightarrow> (w, None)
      | Some cb \<Rightarrow> (case cb a w of (w', None) \<Rightarrow> (w', None) | (w', Some e) \<Rightarrow> (w', Some (Wrap e ''on retry''))))"

definition retryWait :: "'w retryEnv \<Rightarrow> int \<Rightarrow> 'w \<Rightarrow> 'w \<times> err option" where
  "retryWait env d w =
     (case reWait env d w of (w', None) \<Rightarrow> (w', None) | (w', Some e) \<Rightarrow> (w', Some (Wrap e ''retry wait'')))"

text \<open>
  One attempt: the wrapped callback notes that a delta went out, and the attempt's end goes
  to the continuation with that note.
\<close>

primrec retryAttemptRun ::
  "('w \<Rightarrow> usage \<Rightarrow> bool \<Rightarrow> err option \<Rightarrow> 'w drun) \<Rightarrow> 'w drun \<Rightarrow> bool \<Rightarrow> 'w drun" where
  "retryAttemptRun k (Done w u e) streamed = k w u streamed (map_option (\<lambda>e. Wrap e ''stream retry attempt'') e)"
| "retryAttemptRun k (Emit w d c) streamed = Emit w d (\<lambda>w' e. retryAttemptRun k (c w' e) True)"

text \<open>What the loop body does with a finished attempt; \<open>nxt\<close> is the next iteration.\<close>

definition afterAttempt ::
  "'w retryEnv \<Rightarrow> retryConfig \<Rightarrow> int \<Rightarrow> usage \<Rightarrow> (usage \<Rightarrow> 'w \<Rightarrow> 'w drun)
    \<Rightarrow> 'w \<Rightarrow> usage \<Rightarrow> bool \<Rightarrow> err option \<Rightarrow> 'w drun" where
  "afterAttempt env cfg attempt aggregate nxt w u streamed e =
     (let agg = countAttempt aggregate in
      case e of
        None \<Rightarrow> Done w (successfulRetryUsage u agg) None
      | Some e \<Rightarrow>
          let (w1, decision) = classifyAttempt env cfg attempt u streamed e w;
              failed = adFailed decision;
              agg' = recordFailedAttempt agg failed
          in if adStop decision then
               Done w1 (failedRetryUsage u agg') (Some (mapProviderError (reErrText env) e (raStatus failed)))
             else case notifyRetry env failed w1 of
                 (w2, Some x) \<Rightarrow> Done w2 (failedRetryUsage u agg') (Some x)
               | (w2, None) \<Rightarrow>
                   (case retryWait env (raDelay failed) w2 of
                      (w3, Some x) \<Rightarrow> Done w3 (failedRetryUsage u agg') (Some x)
                    | (w3, None) \<Rightarrow> nxt agg' w3))"

text \<open>The loop, by the number of iterations left; attempt numbers count up from 1.\<close>

primrec retryLoop ::
  "'w retryEnv \<Rightarrow> retryConfig \<Rightarrow> ('w \<Rightarrow> 'w drun) \<Rightarrow> nat \<Rightarrow> int \<Rightarrow> usage \<Rightarrow> 'w \<Rightarrow> 'w drun" where
  "retryLoop env cfg call 0 attempt aggregate w =
     Done w aggregate (Some (Wrap (Sentinel ErrRetryLoopExhausted) ''stream''))"
| "retryLoop env cfg call (Suc n) attempt aggregate w =
     retryAttemptRun
       (afterAttempt env cfg attempt aggregate (\<lambda>agg w'. retryLoop env cfg call n (attempt + 1) agg w'))
       (call w) False"

definition callWithRetry :: "'w retryEnv \<Rightarrow> retryConfig \<Rightarrow> ('w \<Rightarrow> 'w drun) \<Rightarrow> 'w \<Rightarrow> 'w drun" where
  "callWithRetry env cfg call w = retryLoop env cfg call (nat (rcMaxAttempts cfg)) 1 zeroUsage w"

definition normalizeRetryConfig :: "retryConfig \<Rightarrow> retryConfig" where
  "normalizeRetryConfig c =
     c\<lparr>rcMaxAttempts := (if rcMaxAttempts c = 0 then defaultRetryAttempts else rcMaxAttempts c),
       rcInitialDelay := (if rcInitialDelay c = 0 then defaultRetryInitialDelay else rcInitialDelay c),
       rcMaxDelay := (if rcMaxDelay c = 0 then defaultRetryMaxDelay else rcMaxDelay c)\<rparr>"

definition retryConfigErr :: "retryConfig \<Rightarrow> sentinel option" where
  "retryConfigErr c =
     (if rcMaxDelay c < rcInitialDelay c then Some ErrRetryDelayOrder
      else if rcInitialDelay c < 0 \<or> rcMaxDelay c < 0 then Some ErrRetryDelays
      else if rcMaxAttempts c < 1 then Some ErrRetryMaxAttempts else None)"

definition retryCall ::
  "'w retryEnv \<Rightarrow> retryConfig \<Rightarrow> ('w driverRequest \<Rightarrow> 'w \<Rightarrow> 'w drun) \<Rightarrow> 'w driverRequest \<Rightarrow> 'w \<Rightarrow> 'w drun" where
  "retryCall env cfg call request w =
     (case retryConfigErr cfg of
        Some e \<Rightarrow> Done w zeroUsage (Some (Wrap (Sentinel e) ''retry config''))
      | None \<Rightarrow> callWithRetry env cfg (call request) w)"

definition WithRetry :: "'w retryEnv \<Rightarrow> 'w driver \<Rightarrow> retryConfig \<Rightarrow> 'w driver" where
  "WithRetry env d config =
     (let cfg = normalizeRetryConfig config in
      \<lparr>dvStream = retryCall env cfg (dvStream d),
       dvComplete = retryCall env cfg (dvComplete d),
       dvListModels = (\<lambda>w. case dvListModels d w of
          (w', Inl e) \<Rightarrow> (w', Inl (Wrap e ''list retry driver models'')) | (w', Inr ms) \<Rightarrow> (w', Inr ms)),
       dvCapabilities = dvCapabilities d,
       dvTokenCounter = dvTokenCounter d\<rparr>)"

section \<open>One attempt, seen by a consumer\<close>

abbreviation attemptErr :: "err option \<Rightarrow> err option" where
  "attemptErr e \<equiv> map_option (\<lambda>e. Wrap e ''stream retry attempt'') e"

lemma run_attempt:
  "runDriver f s (retryAttemptRun k r b) =
     (case runDriver f s r of (s', w', u, e) \<Rightarrow> runDriver f s' (k w' u (b \<or> emits r) (attemptErr e)))"
proof (induction r arbitrary: s b)
  case (Done w u e)
  then show ?case by (simp add: emits_def)
next
  case (Emit w d c)
  obtain s' w' e where f: "f s d w = (s', w', e)" by (cases "f s d w")
  have "runDriver f s' (retryAttemptRun k (c w' e) True) =
      (case runDriver f s' (c w' e) of (s'', w'', u, e') \<Rightarrow> runDriver f s'' (k w'' u True (attemptErr e')))"
    using Emit.IH [of "c w'" "c w' e" s' True] by simp
  then show ?case using f by (simp add: emits_def split: prod.splits)
qed

lemma run_silent: "\<not> emits r \<Longrightarrow> fst (runDriver f s r) = s"
  by (cases r) (simp_all add: emits_def)

text \<open>The ways an iteration ends: success, giving up, an error between attempts, or another attempt.\<close>

definition attemptRecord ::
  "'w retryEnv \<Rightarrow> retryConfig \<Rightarrow> int \<Rightarrow> usage \<Rightarrow> bool \<Rightarrow> err \<Rightarrow> 'w \<Rightarrow> retryAttempt" where
  "attemptRecord env cfg attempt u streamed e w = adFailed (snd (classifyAttempt env cfg attempt u streamed e w))"

lemma attemptRecord_simps [simp]:
  "raAttempt (attemptRecord env cfg attempt u streamed e w) = attempt"
  "raStreamed (attemptRecord env cfg attempt u streamed e w) = streamed"
  "raTokens (attemptRecord env cfg attempt u streamed e w) = uTokens u"
  "raStatus (attemptRecord env cfg attempt u streamed e w) = fst (snd (classifyRetry e))"
  by (simp_all add: attemptRecord_def classifyAttempt_def Let_def split: prod.splits)

lemma adStop_iff:
  "adStop (snd (classifyAttempt env cfg attempt u streamed e w)) \<longleftrightarrow>
     \<not> snd (snd (classifyRetry e)) \<or> streamed \<or> attempt = rcMaxAttempts cfg"
  by (auto simp: classifyAttempt_def shouldStopRetry_def Let_def split: prod.splits)

lemma afterAttempt_cases:
  fixes env cfg attempt agg w u streamed
  defines "rec \<equiv> \<lambda>e. recordFailedAttempt (countAttempt agg) (attemptRecord env cfg attempt u streamed e w)"
  obtains (success) "eo = None"
      "afterAttempt env cfg attempt agg nxt w u streamed eo = Done w (successfulRetryUsage u (countAttempt agg)) None"
    | (gave_up) e w' where "eo = Some e" "\<not> snd (snd (classifyRetry e)) \<or> streamed \<or> attempt = rcMaxAttempts cfg"
      "afterAttempt env cfg attempt agg nxt w u streamed eo = Done w' (failedRetryUsage u (rec e))
         (Some (mapProviderError (reErrText env) e (fst (snd (classifyRetry e)))))"
    | (between) e w' x where "eo = Some e" "\<not> streamed"
      "afterAttempt env cfg attempt agg nxt w u streamed eo = Done w' (failedRetryUsage u (rec e)) (Some x)"
    | (again) e w' where "eo = Some e" "\<not> streamed" "attempt \<noteq> rcMaxAttempts cfg" "snd (snd (classifyRetry e))"
      "afterAttempt env cfg attempt agg nxt w u streamed eo = nxt (rec e) w'"
proof (cases eo)
  case None
  then show ?thesis using success by (simp add: afterAttempt_def)
next
  case (Some e)
  obtain w1 dec where c: "classifyAttempt env cfg attempt u streamed e w = (w1, dec)"
    by (cases "classifyAttempt env cfg attempt u streamed e w")
  have r: "adFailed dec = attemptRecord env cfg attempt u streamed e w" using c by (simp add: attemptRecord_def)
  have st: "adStop dec \<longleftrightarrow> \<not> snd (snd (classifyRetry e)) \<or> streamed \<or> attempt = rcMaxAttempts cfg"
    using adStop_iff [of env cfg attempt u streamed e w] c by simp
  show ?thesis
  proof (cases "adStop dec")
    case True
    then show ?thesis using gave_up [OF Some] st Some c r by (simp add: afterAttempt_def rec_def)
  next
    case False
    obtain w2 x where n: "notifyRetry env (adFailed dec) w1 = (w2, x)" by (cases "notifyRetry env (adFailed dec) w1")
    obtain w3 y where z: "retryWait env (raDelay (adFailed dec)) w2 = (w3, y)"
      by (cases "retryWait env (raDelay (adFailed dec)) w2")
    have go: "afterAttempt env cfg attempt agg nxt w u streamed eo =
      (case x of Some x \<Rightarrow> Done w2 (failedRetryUsage u (rec e)) (Some x)
       | None \<Rightarrow> (case y of Some x \<Rightarrow> Done w3 (failedRetryUsage u (rec e)) (Some x) | None \<Rightarrow> nxt (rec e) w3))"
      using Some c False n z r by (simp add: afterAttempt_def rec_def split: option.splits)
    show ?thesis
      using go between [OF Some] again [OF Some] False st by (cases x; cases y) auto
  qed
qed

section \<open>What the caller sees\<close>

text \<open>The consumer's final state is what one single underlying call makes of its first state.\<close>

lemma retryLoop_single:
  assumes "runDriver f s (retryLoop env cfg call n a agg w) = (s', w', u, e)"
    and "int n = rcMaxAttempts cfg - a + 1" and "0 < n"
  shows "\<exists>w0 w1 u1 e1. runDriver f s (call w0) = (s', w1, u1, e1) \<and> (e = None \<longleftrightarrow> e1 = None)
    \<and> (e = None \<longrightarrow> uTokens u = uTokens u1 \<and> uFinishReason u = uFinishReason u1)"
  using assms
proof (induction n arbitrary: a agg w)
  case (Suc n)
  obtain s1 w1 u1 e1 where r: "runDriver f s (call w) = (s1, w1, u1, e1)" by (cases "runDriver f s (call w)")
  let ?next = "\<lambda>agg w'. retryLoop env cfg call n (a + 1) agg w'"
  have run: "runDriver f s1 (afterAttempt env cfg a agg ?next w1 u1 (emits (call w)) (attemptErr e1)) = (s', w', u, e)"
    using Suc.prems(1) r by (simp add: run_attempt)
  show ?case
  proof (cases rule: afterAttempt_cases [where env = env and cfg = cfg and attempt = a and agg = agg
        and w = w1 and u = u1 and streamed = "emits (call w)" and eo = "attemptErr e1" and nxt = ?next])
    case success
    then show ?thesis using run r by (intro exI [of _ w] exI [of _ w1] exI [of _ u1]) (auto simp: successfulRetryUsage_def)
  next
    case (gave_up e' w2)
    then show ?thesis using run r by (auto simp: failedRetryUsage_def)
  next
    case (between e' w2 x)
    then show ?thesis using run r by (auto simp: failedRetryUsage_def)
  next
    case (again e' w2)
    have "s1 = s" using run_silent [of "call w" f s] again(2) r by simp
    moreover have "0 < n" using again(3) Suc.prems(2) by (cases n) auto
    ultimately show ?thesis using Suc.IH [of "a + 1"] run again(5) Suc.prems(2) by auto
  qed
qed simp

section \<open>Accounting\<close>

definition sum64 :: "int list \<Rightarrow> int" where
  "sum64 xs = foldl add64 0 xs"

text \<open>The ledger of failed attempts: numbered from 1, only the last may have streamed, and the wasted tokens are theirs.\<close>

definition retryLedger :: "retryInfo \<Rightarrow> bool" where
  "retryLedger r \<longleftrightarrow>
     map raAttempt (riFailedAttempts r) = map (\<lambda>i. int i + 1) [0..<length (riFailedAttempts r)]
     \<and> list_all (\<lambda>a. \<not> raStreamed a) (butlast (riFailedAttempts r))
     \<and> riWastedPromptTokens r = sum64 (map (tkPrompt \<circ> raTokens) (riFailedAttempts r))
     \<and> riWastedCompletionTokens r = sum64 (map (tkCompletion \<circ> raTokens) (riFailedAttempts r))
     \<and> riWastedTotalTokens r = sum64 (map (tkTotal \<circ> raTokens) (riFailedAttempts r))"

lemma sum64_snoc [simp]: "sum64 (xs @ [x]) = add64 (sum64 xs) x"
  by (simp add: sum64_def)

lemma retryLedger_record:
  assumes "retryLedger (uRetry agg)" and "list_all (\<lambda>a. \<not> raStreamed a) (riFailedAttempts (uRetry agg))"
    and "raAttempt x = int (length (riFailedAttempts (uRetry agg))) + 1"
  shows "retryLedger (uRetry (recordFailedAttempt (countAttempt agg) x))"
  using assms by (simp add: retryLedger_def recordFailedAttempt_def countAttempt_def Let_def)

lemma retryLoop_ledger:
  assumes "runDriver f s (retryLoop env cfg call n a agg w) = (s', w', u, e)"
    and "int n = rcMaxAttempts cfg - a + 1" and "0 < n"
    and "retryLedger (uRetry agg)" and "list_all (\<lambda>a. \<not> raStreamed a) (riFailedAttempts (uRetry agg))"
    and "int (length (riFailedAttempts (uRetry agg))) = a - 1" and "riTotalAttempts (uRetry agg) = a - 1"
  shows "retryLedger (uRetry u) \<and> a \<le> riTotalAttempts (uRetry u) \<and> riTotalAttempts (uRetry u) \<le> rcMaxAttempts cfg
    \<and> int (length (riFailedAttempts (uRetry u))) = riTotalAttempts (uRetry u) - (if e = None then 1 else 0)
    \<and> (e \<noteq> None \<longrightarrow> uTokens u = zeroTokens)"
  using assms
proof (induction n arbitrary: a agg w)
  case (Suc n)
  obtain s1 w1 u1 e1 where r: "runDriver f s (call w) = (s1, w1, u1, e1)" by (cases "runDriver f s (call w)")
  let ?next = "\<lambda>agg w'. retryLoop env cfg call n (a + 1) agg w'"
  have run: "runDriver f s1 (afterAttempt env cfg a agg ?next w1 u1 (emits (call w)) (attemptErr e1)) = (s', w', u, e)"
    using Suc.prems(1) r by (simp add: run_attempt)
  have led: "retryLedger (uRetry (recordFailedAttempt (countAttempt agg)
      (attemptRecord env cfg a u1 (emits (call w)) e' w1)))" for e'
    by (rule retryLedger_record) (use Suc.prems in simp_all)
  show ?case
  proof (cases rule: afterAttempt_cases [where env = env and cfg = cfg and attempt = a and agg = agg
        and w = w1 and u = u1 and streamed = "emits (call w)" and eo = "attemptErr e1" and nxt = ?next])
    case success
    then show ?thesis using run Suc.prems by (auto simp: successfulRetryUsage_def countAttempt_def retryLedger_def)
  next
    case (gave_up e' w2)
    then show ?thesis using run led [of e'] Suc.prems
      by (auto simp: failedRetryUsage_def recordFailedAttempt_def countAttempt_def Let_def)
  next
    case (between e' w2 x)
    then show ?thesis using run led [of e'] Suc.prems
      by (auto simp: failedRetryUsage_def recordFailedAttempt_def countAttempt_def Let_def)
  next
    case (again e' w2)
    let ?agg = "recordFailedAttempt (countAttempt agg) (attemptRecord env cfg a u1 (emits (call w)) e' w1)"
    have "s1 = s" using run_silent [of "call w" f s] again(2) r by simp
    then have run': "runDriver f s (retryLoop env cfg call n (a + 1) ?agg w2) = (s', w', u, e)"
      using run again(5) by simp
    have fa: "riFailedAttempts (uRetry ?agg) =
        riFailedAttempts (uRetry agg) @ [attemptRecord env cfg a u1 (emits (call w)) e' w1]"
      "riTotalAttempts (uRetry ?agg) = riTotalAttempts (uRetry agg) + 1"
      by (simp_all add: recordFailedAttempt_def countAttempt_def Let_def)
    have "0 < n" using again(3) Suc.prems(2) by (cases n) auto
    from Suc.IH [OF run' _ this led] show ?thesis using Suc.prems again(2) fa by auto
  qed
qed simp

section \<open>Backoff\<close>

lemma delayLoop_bounds:
  "delayLoop m n d = Some r \<Longrightarrow> 0 \<le> d \<Longrightarrow> d \<le> m \<Longrightarrow> m < 2 ^ 63 \<Longrightarrow>
   0 \<le> r \<and> r \<le> m \<and> r = d * 2 ^ n"
proof (induction n arbitrary: d)
  case (Suc n)
  then have lt: "d < m div 2" by (auto split: if_splits)
  then have "wrap64 (d * 2) = d * 2" using Suc.prems by (intro wrap64_id) (auto simp: int64_def)
  moreover have "d * 2 \<le> m" using lt by linarith
  ultimately have "0 \<le> r \<and> r \<le> m \<and> r = d * 2 * 2 ^ n"
    using Suc.IH [of "d * 2"] Suc.prems lt by (simp split: if_splits)
  then show ?case by simp
qed simp

lemma delayLoop_None:
  "delayLoop m n d = None \<Longrightarrow> 0 \<le> d \<Longrightarrow> m < 2 ^ 63 \<Longrightarrow> even m \<Longrightarrow> m \<le> d * 2 ^ n"
proof (induction n arbitrary: d)
  case (Suc n)
  show ?case
  proof (cases "d \<ge> m div 2")
    case True
    then have "m \<le> d * 2" using Suc.prems(4) by auto
    also have "d * 2 \<le> d * 2 ^ Suc n" using Suc.prems(2) by (intro mult_left_mono) simp_all
    finally show ?thesis .
  next
    case False
    then have "wrap64 (d * 2) = d * 2" using Suc.prems by (intro wrap64_id) (auto simp: int64_def)
    then have "m \<le> d * 2 * 2 ^ n" using Suc.IH [of "d * 2"] Suc.prems False by simp
    then show ?thesis by (simp add: mult.assoc)
  qed
qed simp

definition unitRandom :: "'w retryEnv \<Rightarrow> bool" where
  "unitRandom env \<longleftrightarrow> (\<forall>w. 0 \<le> snd (reRandomFloat env w) \<and> snd (reRandomFloat env w) < 1)"

lemma defaultRetryRandomFloat_unit: "0 \<le> defaultRetryRandomFloat bits \<and> defaultRetryRandomFloat bits < 1"
proof (cases bits)
  case (Some b)
  have less: "unat b < 2 ^ 64" using unsigned_less [of b] by simp
  then have "take_bit 64 (unat b) = unat b" by (rule take_bit_nat_eq_self)
  then have "unat (drop_bit 11 b) = drop_bit 11 (unat b)" by (simp add: unsigned_drop_bit_eq)
  then have "unat (drop_bit 11 b) = unat b div 2 ^ 11" by (simp only: drop_bit_eq_div)
  then have "unat (drop_bit 11 b) < 2 ^ 53" using less by (simp add: less_mult_imp_div_less)
  then obtain n where n: "unat (drop_bit 11 b) = n" "n < 2 ^ 53" by blast
  have "defaultRetryRandomFloat bits = of_nat n / 2 ^ 53"
    unfolding Some defaultRetryRandomFloat_def option.case n(1) ..
  moreover have "of_nat n < (of_nat (2 ^ 53) :: rat)" using n(2) by (simp only: of_nat_less_iff)
  ultimately show ?thesis by simp
qed (simp add: defaultRetryRandomFloat_def)

lemma cryptoRandom_unit: "reRandomFloat env = cryptoRandom read \<Longrightarrow> unitRandom env"
  using defaultRetryRandomFloat_unit by (simp add: unitRandom_def cryptoRandom_def split_def Let_def)

lemma jitter_bounds: "0 \<le> (h::int) \<Longrightarrow> 0 \<le> (r::rat) \<Longrightarrow> r < 1 \<Longrightarrow> 0 \<le> \<lfloor>r * of_int h\<rfloor> \<and> \<lfloor>r * of_int h\<rfloor> \<le> h"
proof -
  assume a: "0 \<le> h" "0 \<le> r" "r < 1"
  have "r * of_int h \<le> 1 * of_int h" using a by (intro mult_right_mono) auto
  then have "\<lfloor>r * of_int h\<rfloor> \<le> h" by (simp add: floor_le_iff)
  with a show ?thesis by simp
qed

lemma backoffDelay_bounds:
  assumes "retryConfigErr cfg = None" and "rcMaxDelay cfg < 2 ^ 63" and "unitRandom env"
    and "backoffDelay env cfg attempt w = (w', d)"
  shows "0 \<le> d \<and> d \<le> rcMaxDelay cfg"
proof -
  have cfg: "0 \<le> rcInitialDelay cfg" "rcInitialDelay cfg \<le> rcMaxDelay cfg"
    using assms(1) by (auto simp: retryConfigErr_def split: if_splits)
  show ?thesis
  proof (cases "delayLoop (rcMaxDelay cfg) (nat (attempt - 1)) (rcInitialDelay cfg)")
    case None
    with assms(4) cfg show ?thesis by (simp add: backoffDelay_def)
  next
    case (Some r)
    have b: "0 \<le> r" "r \<le> rcMaxDelay cfg" using delayLoop_bounds [OF Some cfg assms(2)] by auto
    obtain w1 x where x: "reRandomFloat env w = (w1, x)" by (cases "reRandomFloat env w")
    have j: "0 \<le> \<lfloor>x * of_int (r div 2)\<rfloor> \<and> \<lfloor>x * of_int (r div 2)\<rfloor> \<le> r div 2"
      using assms(3) x b(1) unfolding unitRandom_def by (intro jitter_bounds) (auto dest: spec [of _ w])
    then have j': "r div 2 + \<lfloor>x * of_int (r div 2)\<rfloor> \<le> r" "0 \<le> r div 2 + \<lfloor>x * of_int (r div 2)\<rfloor>"
      using b(1) by linarith+
    have "d = r \<or> d = r div 2 + \<lfloor>x * of_int (r div 2)\<rfloor>"
      using assms(4) Some b(2) x by (simp add: backoffDelay_def Let_def split: if_splits)
    with b j' show ?thesis by auto
  qed
qed

section \<open>Properties\<close>

text \<open>
  C5. Retrying is invisible in the output: whatever the driver, the configuration and the
  consumer, the consumer ends in the state that ONE underlying call, started from the
  consumer's first state, leaves it in. So no delta is ever delivered from two attempts; the
  decorated call succeeds exactly when that underlying call does, with its token counts.
\<close>

theorem retry_single_delivery:
  assumes "rcMaxAttempts cfg \<ge> 1" and "runDriver f s (callWithRetry env cfg call w) = (s', w', u, e)"
  shows "\<exists>w0 w1 u1 e1. runDriver f s (call w0) = (s', w1, u1, e1) \<and> (e = None \<longleftrightarrow> e1 = None)
    \<and> (e = None \<longrightarrow> uTokens u = uTokens u1 \<and> uFinishReason u = uFinishReason u1)"
  using retryLoop_single [of f s env cfg call "nat (rcMaxAttempts cfg)" 1 zeroUsage w] assms
  by (simp add: callWithRetry_def)

text \<open>A driver that fails once with a server error and then streams one delta, on a world that counts calls.\<close>

definition flakyCall :: "nat \<Rightarrow> nat drun" where
  "flakyCall n = (if n = 0 then Done 1 zeroUsage (Some (StatusError 503 0))
     else Emit (n + 1) (emptyDelta\<lparr>dText := ''hi''\<rparr>) (\<lambda>w e. Done w zeroUsage e))"

definition calmEnv :: "nat retryEnv" where
  "calmEnv = \<lparr>reErrText = (\<lambda>_. ''e''), reRandomFloat = (\<lambda>w. (w, 0)), reWait = (\<lambda>_ w. (w, None)), reOnRetry = None\<rparr>"

definition plainConfig :: retryConfig where
  "plainConfig = \<lparr>rcMaxAttempts = 3, rcInitialDelay = 2, rcMaxDelay = 10, rcJitter = Some False,
     rcRespectRetryAfter = None\<rparr>"

definition collect :: "string \<Rightarrow> delta \<Rightarrow> nat \<Rightarrow> string \<times> nat \<times> err option" where
  "collect s d w = (s @ dText d, w, None)"

lemma flaky_run:
  "\<exists>u. runDriver collect [] (callWithRetry calmEnv plainConfig flakyCall 0) = (''hi'', 2, u, None)
     \<and> riTotalAttempts (uRetry u) = 2"
proof -
  obtain s w u e where r: "runDriver collect [] (callWithRetry calmEnv plainConfig flakyCall 0) = (s, w, u, e)"
    by (cases "runDriver collect [] (callWithRetry calmEnv plainConfig flakyCall 0)")
  have "(case runDriver collect [] (callWithRetry calmEnv plainConfig flakyCall 0) of (s, w, u, e) \<Rightarrow>
      s = ''hi'' \<and> w = 2 \<and> e = None \<and> riTotalAttempts (uRetry u) = 2)" by code_simp
  with r show ?thesis by simp
qed

theorem retry_single_delivery_witness:
  "rcMaxAttempts plainConfig \<ge> 1
   \<and> (\<exists>w0 w1 u1. runDriver collect [] (flakyCall w0) = (''hi'', w1, u1, None))"
proof -
  obtain u where r: "runDriver collect [] (callWithRetry calmEnv plainConfig flakyCall 0) = (''hi'', 2, u, None)"
    using flaky_run by blast
  have m: "rcMaxAttempts plainConfig \<ge> 1" by (simp add: plainConfig_def)
  from retry_single_delivery [OF m r] m show ?thesis by auto
qed

text \<open>
  C14. The retry ledger is exact: between one and MaxAttempts calls are made, every failed
  one is recorded with its number, only the last may have streamed output, the wasted token
  counters are the sums over the failed attempts, and a run that failed reports no tokens of
  its own, so nothing is billed twice.
\<close>

theorem retry_ledger_exact:
  assumes "rcMaxAttempts cfg \<ge> 1" and "runDriver f s (callWithRetry env cfg call w) = (s', w', u, e)"
  shows "retryLedger (uRetry u) \<and> 1 \<le> riTotalAttempts (uRetry u) \<and> riTotalAttempts (uRetry u) \<le> rcMaxAttempts cfg
    \<and> int (length (riFailedAttempts (uRetry u))) = riTotalAttempts (uRetry u) - (if e = None then 1 else 0)
    \<and> (e \<noteq> None \<longrightarrow> uTokens u = zeroTokens)"
proof -
  have "retryLedger (uRetry zeroUsage)"
    by (simp add: retryLedger_def zeroUsage_def zeroRetry_def sum64_def)
  moreover have "riFailedAttempts (uRetry zeroUsage) = []" "riTotalAttempts (uRetry zeroUsage) = 0"
    by (simp_all add: zeroUsage_def zeroRetry_def)
  note zero = calculation this
  have run: "runDriver f s (retryLoop env cfg call (nat (rcMaxAttempts cfg)) 1 zeroUsage w) = (s', w', u, e)"
    using assms(2) by (simp only: callWithRetry_def)
  have n: "int (nat (rcMaxAttempts cfg)) = rcMaxAttempts cfg - 1 + 1" "0 < nat (rcMaxAttempts cfg)"
    using assms(1) by simp_all
  show ?thesis by (rule retryLoop_ledger [OF run n]) (simp_all add: zero)
qed

theorem retry_ledger_exact_witness:
  "rcMaxAttempts plainConfig \<ge> 1
   \<and> (\<exists>u. runDriver collect [] (callWithRetry calmEnv plainConfig flakyCall 0) = (''hi'', 2, u, None)
        \<and> retryLedger (uRetry u) \<and> length (riFailedAttempts (uRetry u)) = 1)"
proof -
  obtain u where r: "runDriver collect [] (callWithRetry calmEnv plainConfig flakyCall 0) = (''hi'', 2, u, None)"
    "riTotalAttempts (uRetry u) = 2" using flaky_run by blast
  have m: "rcMaxAttempts plainConfig \<ge> 1" by (simp add: plainConfig_def)
  from retry_ledger_exact [OF m r(1)] r m show ?thesis by auto
qed

text \<open>
  C15. Every pause between attempts is bounded by the caller: with a valid configuration and
  the driver's own random source, the delay is never negative and never exceeds MaxDelay, whatever
  Retry-After the provider sent.
\<close>

theorem retry_delay_bounded:
  assumes "retryConfigErr cfg = None" and "rcMaxDelay cfg < 2 ^ 63" and "reRandomFloat env = cryptoRandom read"
    and "retryDelay env cfg attempt e w = (w', d)"
  shows "0 \<le> d \<and> d \<le> rcMaxDelay cfg"
proof -
  have "0 \<le> rcMaxDelay cfg" using assms(1) by (auto simp: retryConfigErr_def split: if_splits)
  then show ?thesis
    using backoffDelay_bounds [OF assms(1,2) cryptoRandom_unit [OF assms(3)], of attempt w w' d] assms(4)
    by (auto simp: retryDelay_def split: option.splits if_splits)
qed

theorem retry_delay_bounded_witness:
  "\<exists>w' d. retryDelay (calmEnv\<lparr>reRandomFloat := cryptoRandom (\<lambda>w. (w, None))\<rparr>) plainConfig 2 (StatusError 429 (10 ^ 15)) 0 = (w', d)
     \<and> 0 \<le> d \<and> d \<le> rcMaxDelay plainConfig"
proof -
  let ?env = "calmEnv\<lparr>reRandomFloat := cryptoRandom (\<lambda>w. (w, None))\<rparr>"
  have c: "retryConfigErr plainConfig = None" "rcMaxDelay plainConfig < 2 ^ 63" "reRandomFloat ?env = cryptoRandom (\<lambda>w. (w, None))"
    by (simp_all add: retryConfigErr_def plainConfig_def)
  obtain w' d where d: "retryDelay ?env plainConfig 2 (StatusError 429 (10 ^ 15)) 0 = (w', d)"
    by (cases "retryDelay ?env plainConfig 2 (StatusError 429 (10 ^ 15)) 0")
  from retry_delay_bounded [OF c d] d show ?thesis by blast
qed

text \<open>
  Without jitter and without a Retry-After hint the backoff doubles: before attempt
  k + 1 the pause is InitialDelay times 2^(k-1), capped at MaxDelay (for an even MaxDelay).
\<close>

theorem retry_backoff_doubles:
  assumes "retryConfigErr cfg = None" and "rcMaxDelay cfg < 2 ^ 63" and "even (rcMaxDelay cfg)"
    and "rcJitter cfg = Some False" and "as_status e = None"
  shows "retryDelay env cfg (int k + 1) e w = (w, min (rcMaxDelay cfg) (rcInitialDelay cfg * 2 ^ k))"
proof -
  have cfg: "0 \<le> rcInitialDelay cfg" "rcInitialDelay cfg \<le> rcMaxDelay cfg"
    using assms(1) by (auto simp: retryConfigErr_def split: if_splits)
  show ?thesis
  proof (cases "delayLoop (rcMaxDelay cfg) k (rcInitialDelay cfg)")
    case None
    with delayLoop_None [OF None cfg(1) assms(2,3)] assms(5) show ?thesis
      by (simp add: retryDelay_def backoffDelay_def min_absorb1)
  next
    case (Some r)
    with delayLoop_bounds [OF Some cfg assms(2)] assms(4,5) show ?thesis
      by (auto simp: retryDelay_def backoffDelay_def Let_def boolValue_def min_def)
  qed
qed

theorem retry_backoff_doubles_witness:
  "retryConfigErr plainConfig = None \<and> retryDelay calmEnv plainConfig (int 2 + 1) (Sentinel IoEOF) 0 = (0, 8)"
proof -
  have "retryConfigErr plainConfig = None" by (simp add: retryConfigErr_def plainConfig_def)
  moreover have "as_status (Sentinel IoEOF) = None" by (simp add: as_status_def first_of_def)
  ultimately show ?thesis using retry_backoff_doubles [of plainConfig "Sentinel IoEOF" calmEnv 2 0]
    by (simp add: plainConfig_def)
qed

text \<open>
  A Retry-After header never yields a negative pause or one beyond a day, although the
  value is multiplied by a billion in 64 bits; and a plain number of seconds up to a day is
  read exactly.
\<close>

theorem retry_after_parsed:
  "0 \<le> ParseRetryAfter untilDate v \<and> ParseRetryAfter untilDate v \<le> maxParsedRetryAfter
   \<and> (0 < n \<and> n \<le> 86400 \<longrightarrow> ParseRetryAfter untilDate (itoa n) = n * second)"
proof -
  have w: "0 < k \<Longrightarrow> k \<le> 86400 \<Longrightarrow> wrap64 (k * second) = k * second" for k :: int
    by (rule wrap64_id) (simp add: int64_def)
  have "0 \<le> ParseRetryAfter untilDate v \<and> ParseRetryAfter untilDate v \<le> maxParsedRetryAfter"
    using w by (auto simp: ParseRetryAfter_def maxParsedRetryAfter_def split: option.splits)
  moreover have "0 < n \<and> n \<le> 86400 \<longrightarrow> ParseRetryAfter untilDate (itoa n) = n * second"
    using w [of n] parseInt64_itoa [of n] by (simp add: ParseRetryAfter_def maxParsedRetryAfter_def int64_def)
  ultimately show ?thesis by blast
qed

theorem retry_after_parsed_witness:
  "ParseRetryAfter (\<lambda>_. None) (itoa 30) = 30 * second"
  using retry_after_parsed [of "\<lambda>_. None" "[]" 30] by simp

text \<open>
  A spent quota is tried once, but the decorator then reports it as a rate limit: the
  error it returns satisfies ErrRateLimited and no longer ErrQuotaExhausted (unless the
  provider's code says the context was exceeded), because the 429 it is classified under is
  mapped after the sentinel has been flattened into text.
\<close>

theorem retry_quota_becomes_rate_limit:
  assumes "rcMaxAttempts cfg \<ge> 1" and "call w = Done w1 u1 (Some q)" and "err_is q ErrQuotaExhausted"
    and "\<not> err_is q ContextCanceled" and "\<not> err_is q DeadlineExceeded"
    and "\<forall>st ra code. as_provider q = Some (st, ra, code) \<longrightarrow> code \<noteq> ProviderErrorCodeContextLengthExceeded"
  shows "\<exists>w' u e. callWithRetry env cfg call w = Done w' u (Some e) \<and> riTotalAttempts (uRetry u) = 1
    \<and> err_is e ErrRateLimited \<and> \<not> err_is e ErrQuotaExhausted"
proof -
  let ?q = "Wrap q ''stream retry attempt''"
  have c: "classifyRetry ?q = ([], 429, False)" using assms(3-5) by (simp add: classifyRetry_def)
  obtain n where n: "nat (rcMaxAttempts cfg) = Suc n" using assms(1) by (cases "nat (rcMaxAttempts cfg)") auto
  have m: "mapProviderError (reErrText env) ?q 429 = Wrap (Sentinel ErrRateLimited) (reErrText env ?q)"
    using assms(6) by (auto simp: mapProviderError_def split: option.splits)
  have run: "callWithRetry env cfg call w =
      afterAttempt env cfg 1 zeroUsage (\<lambda>agg w'. retryLoop env cfg call n 2 agg w') w1 u1 False (Some ?q)"
    by (simp add: callWithRetry_def n assms(2))
  show ?thesis
    unfolding run using c m
    by (auto simp: afterAttempt_def classifyAttempt_def shouldStopRetry_def Let_def failedRetryUsage_def
        recordFailedAttempt_def countAttempt_def zeroUsage_def zeroRetry_def split: prod.splits)
qed

definition quotaCall :: "nat \<Rightarrow> nat drun" where
  "quotaCall w = Done w zeroUsage (Some (Joined [Sentinel ErrQuotaExhausted,
     ProviderError None 429 0 ProviderErrorCodeInsufficientQuota]))"

theorem retry_quota_becomes_rate_limit_witness:
  "\<exists>w' u e. callWithRetry calmEnv plainConfig quotaCall 0 = Done w' u (Some e)
     \<and> err_is e ErrRateLimited \<and> \<not> err_is e ErrQuotaExhausted"
  using retry_quota_becomes_rate_limit [of plainConfig quotaCall 0 0 zeroUsage
      "Joined [Sentinel ErrQuotaExhausted, ProviderError None 429 0 ProviderErrorCodeInsufficientQuota]" calmEnv]
  by (auto simp: plainConfig_def quotaCall_def as_provider_def first_of_def provider_codes)

end
