(* ===== verification/DriverCommon.thy ===== *)
theory DriverCommon
  imports DriverTranscripts Engine Retry
begin

text \<open>
  What the two drivers share: models without metadata, the ranking of reasoning efforts,
  loops that stop at the first error, the decoding of JSON schemas, the parameters the engine
  hands to a driver, and a consumer that keeps every delta.
\<close>

section \<open>Models\<close>

definition noLevels :: reasoningLevels where
  "noLevels = \<lparr>rlMin = [], rlLow = [], rlMedium = [], rlHigh = [], rlMax = []\<rparr>"

definition noPricing :: modelPricing where
  "noPricing = \<lparr>mpInputPerToken = 0, mpOutputPerToken = 0, mpCacheReadPerToken = 0, mpCacheWritePerToken = 0,
     mpCacheWriteLongTTLPerToken = 0, mpLongContextThreshold = 0, mpLongContextInputPerToken = 0,
     mpLongContextOutputPerToken = 0\<rparr>"

text \<open>\<open>elelem.Model{ID: id}\<close>: everything else is the zero value.\<close>

definition bareModel :: "string \<Rightarrow> model" where
  "bareModel i = \<lparr>mdID = i, mdContextSize = 0, mdSupportsReasoning = False, mdReasoningLevels = noLevels, mdPricing = noPricing\<rparr>"

text \<open>A level the engine ranks, and the levels a model lists.\<close>

definition rankedEfforts :: "reasoningEffort set" where
  "rankedEfforts = {ReasoningEffortMinimal, ReasoningEffortLow, ReasoningEffortMedium, ReasoningEffortHigh,
     ReasoningEffortXHigh, ReasoningEffortMax}"

lemma ranked_iff: "reasoningEffortRank e > 0 \<longleftrightarrow> e \<in> rankedEfforts"
  unfolding reasoningEffortRank_def rankedEfforts_def by auto

definition listedEfforts :: "reasoningLevels \<Rightarrow> reasoningEffort set" where
  "listedEfforts ls = {rlMin ls, rlLow ls, rlMedium ls, rlHigh ls, rlMax ls}"

lemma known_effort_iff:
  "isKnownReasoningEffort m e \<longleftrightarrow> reasoningEffortRank e > 0 \<or> e \<in> listedEfforts (mdReasoningLevels m)"
  unfolding isKnownReasoningEffort_def ranked_iff listedEfforts_def rankedEfforts_def by (simp add: Let_def)

definition advertised :: "model \<Rightarrow> reasoningEffort list" where
  "advertised m = [ReasoningLevelMin m, ReasoningLevelLow m, ReasoningLevelMedium m, ReasoningLevelHigh m, ReasoningLevelMax m]"

lemmas level_getters = ReasoningLevelMin_def ReasoningLevelLow_def ReasoningLevelMedium_def ReasoningLevelHigh_def
  ReasoningLevelMax_def reasoningLevel_def

lemma rank_nonneg: "0 \<le> reasoningEffortRank e"
  unfolding reasoningEffortRank_def by simp

lemma rank_Unset: "reasoningEffortRank ReasoningEffortUnset = 0"
  by (simp add: reasoningEffortRank_def)

section \<open>Translation loops\<close>

text \<open>A loop that appends the translation of each element and stops at the first error.\<close>

fun collect :: "('a \<Rightarrow> err + 'b) \<Rightarrow> 'a list \<Rightarrow> err + 'b list" where
  "collect f [] = Inr []"
| "collect f (x # xs) =
     (case f x of
        Inl e \<Rightarrow> Inl e
      | Inr y \<Rightarrow> (case collect f xs of Inl e \<Rightarrow> Inl e | Inr ys \<Rightarrow> Inr (y # ys)))"

lemma collect_Inr: "collect f xs = Inr ys \<longleftrightarrow> list_all2 (\<lambda>x y. f x = Inr y) xs ys"
proof (induction xs arbitrary: ys)
  case (Cons x xs)
  show ?case by (cases "f x"; cases "collect f xs") (auto simp: list_all2_Cons1 Cons.IH [symmetric])
qed auto

section \<open>JSON\<close>

text \<open>
  Decoding JSON text: a document decodes into a Go \<open>any\<close> when it is valid and its numbers fit
  a \<open>float64\<close> (\<open>fits\<close>), into a map when it is also an object or null.
\<close>

definition decodesAny :: "(string \<Rightarrow> bool) \<Rightarrow> string \<Rightarrow> bool" where
  "decodesAny fits s \<longleftrightarrow> json_valid s \<and> fits s"

definition decodesObject :: "(string \<Rightarrow> bool) \<Rightarrow> string \<Rightarrow> bool" where
  "decodesObject fits s \<longleftrightarrow> json_valid s \<and> fits s
     \<and> (case dropWhile jspace s of c # _ \<Rightarrow> c = CHR ''{'' \<or> c = CHR ''n'' | [] \<Rightarrow> False)"

abbreviation jsonError :: err where "jsonError \<equiv> Opaque ''json''"

section \<open>What the engine sends\<close>

lemma driverParams_fields [simp]:
  "gpTemperature (driverParams r s tools) = gpTemperature (rqParams r)" "gpTopP (driverParams r s tools) = gpTopP (rqParams r)"
  "gpFrequencyPenalty (driverParams r s tools) = gpFrequencyPenalty (rqParams r)"
  "gpPresencePenalty (driverParams r s tools) = gpPresencePenalty (rqParams r)"
  "gpMaxOutputTokens (driverParams r s tools) = gpMaxOutputTokens (rqParams r)"
  "gpSeed (driverParams r s tools) = gpSeed (rqParams r)" "gpStop (driverParams r s tools) = gpStop (rqParams r)"
  "gpResponseFormat (driverParams r s tools) = gpResponseFormat (rqParams r)"
  by (simp_all add: driverParams_def Let_def)

lemma provider_codes_distinct:
  "distinct [ProviderErrorCodeContextLengthExceeded, ProviderErrorCodeOverloaded, ProviderErrorCodeAPIError,
     ProviderErrorCodeRateLimit, ProviderErrorCodeInsufficientQuota]"
  by (simp add: provider_codes)

section \<open>Reporting provider errors\<close>

text \<open>What the retry layer makes of an API error, from its status and code.\<close>

definition apiVerdict :: "int \<Rightarrow> string \<Rightarrow> string \<times> int \<times> bool" where
  "apiVerdict status code =
     (if code = ProviderErrorCodeContextLengthExceeded then ([], status, False)
      else if code = ProviderErrorCodeInsufficientQuota then ([], 429, False)
      else if code = ProviderErrorCodeRateLimit \<or> status = 429 then (RetryReasonRateLimited, 429, True)
      else if code = ProviderErrorCodeOverloaded \<or> code = ProviderErrorCodeAPIError \<or> status \<ge> 500
        then (RetryReasonServerError, status, True)
      else ([], status, False))"

text \<open>
  The contract of a driver's error normalisation: an API error becomes a \<open>ProviderError\<close> with
  its status, its portable code and the header's delay, caused by the original error joined
  with the sentinel the status and code call for.
\<close>

locale api_error_reporter =
  fixes report :: "int \<Rightarrow> 'b \<Rightarrow> string option \<Rightarrow> err"
    and codeOf :: "'b \<Rightarrow> string"
    and delayOf :: "string option \<Rightarrow> int"
  assumes report_form: "\<exists>x label. report status body header = Wrap (ProviderError (Some (case ProviderSentinel status (codeOf body) of
      None \<Rightarrow> Opaque x | Some s \<Rightarrow> Joined [Opaque x, Sentinel s])) status (delayOf header) (codeOf body)) label"
begin

lemma verdict: "classifyRetry (Wrap (report status body header) msg) = apiVerdict status (codeOf body)"
proof -
  obtain x label where "report status body header = Wrap (ProviderError (Some (case ProviderSentinel status (codeOf body) of
      None \<Rightarrow> Opaque x | Some s \<Rightarrow> Joined [Opaque x, Sentinel s])) status (delayOf header) (codeOf body)) label"
    using report_form by blast
  then show ?thesis
    using provider_codes_distinct
    by (auto simp: ProviderSentinel_def classifyRetry_def as_provider_def as_status_def classifyVerdict_def
        classifyHTTPStatus_def classifyProviderErrorCode_def first_of_def apiVerdict_def Let_def)
qed

lemma delay: "as_status (Wrap (report status body header) msg) = Some (status, delayOf header)"
  using report_form [of status body header] by (auto simp: as_status_def first_of_def)

end

section \<open>Consumers\<close>

text \<open>A consumer that keeps every delta and never fails, and the deltas that are not opaque state.\<close>

definition keepAll :: "delta list \<Rightarrow> delta \<Rightarrow> 'w \<Rightarrow> delta list \<times> 'w \<times> err option" where
  "keepAll s d w = (s @ [d], w, None)"

definition visible :: "delta list \<Rightarrow> delta list" where
  "visible ds = filter (\<lambda>d. dProviderReasoning d = []) ds"

lemma visible_append [simp]: "visible (xs @ ys) = visible xs @ visible ys"
  by (simp add: visible_def)

text \<open>A continuation that always reports an error.\<close>

definition fails :: "('w \<Rightarrow> err \<Rightarrow> 'w drun) \<Rightarrow> bool" where
  "fails k \<longleftrightarrow> (\<forall>w e (s :: delta list) ds w' u. runDriver keepAll s (k w e) \<noteq> (ds, w', u, None))"

end
