(* ===== verification/ScriptedDriver.thy ===== *)
theory ScriptedDriver
  imports DriverCommon
begin

text \<open>
  The scripted test double (\<open>elelemtest/scripted_driver.go\<close>, \<open>registry.go\<close>): a driver that
  replays a list of turns, one per call. The double is shared mutable state behind a mutex, so
  it is part of the world a call runs on, together with the error of the call's context; each
  method is one atomic step. A request is recorded by what can be compared in it: its tools by
  their definitions.
\<close>

section \<open>Turns\<close>

record turn =
  tnDeltas :: "delta list"
  tnUsage :: usage
  tnErr :: "err option"

definition turnWithUsage :: "usage \<Rightarrow> turn \<Rightarrow> turn" where
  "turnWithUsage u t = t\<lparr>tnUsage := u\<rparr>"

definition turnOf :: "delta list \<Rightarrow> turn" where
  "turnOf ds = \<lparr>tnDeltas = ds, tnUsage = zeroUsage, tnErr = None\<rparr>"

definition turnText :: "string \<Rightarrow> turn" where
  "turnText text = turnOf [emptyDelta\<lparr>dText := text, dFinishReason := FinishReasonStop\<rparr>]"

definition turnThinking :: "string \<Rightarrow> string \<Rightarrow> turn" where
  "turnThinking reasoning answer =
     turnOf [emptyDelta\<lparr>dReasoning := reasoning\<rparr>, emptyDelta\<lparr>dText := answer, dFinishReason := FinishReasonStop\<rparr>]"

definition turnToolCall :: "string \<Rightarrow> string \<Rightarrow> string \<Rightarrow> turn" where
  "turnToolCall i name arguments =
     turnOf [emptyDelta\<lparr>dToolCall := Some \<lparr>tdIndex = 0, tdID = i, tdName = name, tdArguments = arguments\<rparr>,
       dFinishReason := FinishReasonToolCalls\<rparr>]"

section \<open>The double\<close>

record recordedRequest =
  rdModel :: model
  rdMessages :: "message list"
  rdTools :: "toolDef list"
  rdParams :: generationParams

definition recordOf :: "'w driverRequest \<Rightarrow> recordedRequest" where
  "recordOf req = \<lparr>rdModel = drModel req, rdMessages = drMessages req, rdTools = map toolDef.truncate (drTools req),
     rdParams = drParams req\<rparr>"

record scriptedDriver =
  sdTurns :: "turn list"
  sdIndex :: nat
  sdModels :: "string list"
  sdRequests :: "recordedRequest list"
  sdCapabilities :: capabilities
  sdStreamed :: "bool list"

definition permissive :: capabilities where
  "permissive = \<lparr>SupportsResponseFormatJSONSchema = True, SupportsResponseFormatJSONObject = True,
     SupportsStrictToolArguments = True, SupportsToolChoice = True, SupportsParallelToolCalls = True, SupportsSeed = True,
     SupportsSamplingPenalties = True, SupportsSamplingParams = True, SupportsReasoningEffort = True,
     SupportsDisablingReasoning = True, SupportsPromptCaching = True, StreamingUnsupported = False,
     SupportsImageInput = False, SupportsAudioInput = False, SupportsFileInput = False,
     MaxReasoningEffort = ReasoningEffortMax\<rparr>"

definition NewScriptedDriver :: "turn list \<Rightarrow> scriptedDriver" where
  "NewScriptedDriver turns = \<lparr>sdTurns = turns, sdIndex = 0, sdModels = [''mock-model''], sdRequests = [],
     sdCapabilities = permissive, sdStreamed = []\<rparr>"

definition scriptedWithModels :: "string list \<Rightarrow> scriptedDriver \<Rightarrow> scriptedDriver" where
  "scriptedWithModels models c = c\<lparr>sdModels := models\<rparr>"

definition scriptedWithCapabilities :: "capabilities \<Rightarrow> scriptedDriver \<Rightarrow> scriptedDriver" where
  "scriptedWithCapabilities caps c = c\<lparr>sdCapabilities := caps\<rparr>"

text \<open>The calls requested so far; a result must answer one of them.\<close>

fun scriptedTranscriptLoop :: "string set \<Rightarrow> message list \<Rightarrow> err option" where
  "scriptedTranscriptLoop requested [] = None"
| "scriptedTranscriptLoop requested (m # ms) =
     (let requested' = requested \<union> tcID ` set (mToolCalls m)
      in if mRole m \<noteq> RoleTool then scriptedTranscriptLoop requested' ms
         else if mToolCallID m \<notin> requested' then
           Some (Wrapf (Sentinel ErrInvalidTranscript) ''tool result %q answers no call'' [ArgStr (mToolCallID m)])
         else scriptedTranscriptLoop requested' ms)"

definition scripted_validateTranscript :: "message list \<Rightarrow> err option" where
  "scripted_validateTranscript ms = scriptedTranscriptLoop {} ms"

definition finishReasonFromDeltas :: "delta list \<Rightarrow> string" where
  "finishReasonFromDeltas ds =
     foldl (\<lambda>reason d. if dFinishReason d \<noteq> FinishReasonUnset then dFinishReason d else reason) FinishReasonUnset ds"

text \<open>The world: the double and what the call's context reports.\<close>

type_synonym scriptedWorld = "scriptedDriver \<times> err option"

primrec replayDeltas :: "delta list \<Rightarrow> usage \<Rightarrow> err option \<Rightarrow> 'w \<Rightarrow> 'w drun" where
  "replayDeltas [] u e w = Done w u e"
| "replayDeltas (d # ds) u e w =
     Emit w d (\<lambda>w' e'. case e' of Some x \<Rightarrow> Done w' u (Some (Wrap x ''on delta'')) | None \<Rightarrow> replayDeltas ds u e w')"

definition turnUsage :: "turn \<Rightarrow> usage" where
  "turnUsage t = (if uFinishReason (tnUsage t) = FinishReasonUnset
     then (tnUsage t)\<lparr>uFinishReason := finishReasonFromDeltas (tnDeltas t)\<rparr> else tnUsage t)"

definition replay :: "bool \<Rightarrow> scriptedWorld driverRequest \<Rightarrow> scriptedWorld \<Rightarrow> scriptedWorld drun" where
  "replay streaming req w =
     (case snd w of
        Some e \<Rightarrow> Done w zeroUsage (Some (Wrap e ''stream scripted turn''))
      | None \<Rightarrow>
          (case scripted_validateTranscript (drMessages req) of
             Some e \<Rightarrow> Done w zeroUsage (Some e)
           | None \<Rightarrow>
               let c = fst w;
                   c1 = c\<lparr>sdRequests := sdRequests c @ [recordOf req], sdStreamed := sdStreamed c @ [streaming]\<rparr>
               in if sdIndex c1 \<ge> length (sdTurns c1) then Done (c1, snd w) zeroUsage (Some (Sentinel ErrNoScriptedTurns))
                  else let t = sdTurns c1 ! sdIndex c1
                       in replayDeltas (tnDeltas t) (turnUsage t) (tnErr t) (c1\<lparr>sdIndex := sdIndex c1 + 1\<rparr>, snd w)))"

definition scripted_Stream :: "scriptedWorld driverRequest \<Rightarrow> scriptedWorld \<Rightarrow> scriptedWorld drun" where
  "scripted_Stream = replay True"

definition scripted_Complete :: "scriptedWorld driverRequest \<Rightarrow> scriptedWorld \<Rightarrow> scriptedWorld drun" where
  "scripted_Complete = replay False"

definition scripted_ListModels :: "scriptedWorld \<Rightarrow> scriptedWorld \<times> (err + string list)" where
  "scripted_ListModels w = (w, Inr (sdModels (fst w)))"

definition scriptedCalls :: "scriptedDriver \<Rightarrow> nat" where
  "scriptedCalls c = length (sdRequests c)"

definition scriptedRequests :: "scriptedDriver \<Rightarrow> recordedRequest list" where
  "scriptedRequests c = sdRequests c"

definition scriptedStreamed :: "scriptedDriver \<Rightarrow> bool list" where
  "scriptedStreamed c = sdStreamed c"

definition LastRequest :: "scriptedDriver \<Rightarrow> recordedRequest option" where
  "LastRequest c = (if length (sdRequests c) = 0 then None else Some (sdRequests c ! (length (sdRequests c) - 1)))"

text \<open>
  As a driver. Its capabilities do not depend on the model and are fixed when a test sets it up;
  its counter is what the test gave it, or the default one.
\<close>

definition scriptedAsDriver :: "capabilities \<Rightarrow> scriptedWorld tokenCounter \<Rightarrow> scriptedWorld driver" where
  "scriptedAsDriver caps counter =
     \<lparr>dvStream = scripted_Stream, dvComplete = scripted_Complete, dvListModels = scripted_ListModels,
      dvCapabilities = (\<lambda>_. caps), dvTokenCounter = Some counter\<rparr>"

section \<open>The global registry\<close>

type_synonym scriptedRegistry = "scriptedDriver option"

definition SetGlobalScriptedDriver :: "scriptedDriver option \<Rightarrow> scriptedRegistry \<Rightarrow> scriptedRegistry" where
  "SetGlobalScriptedDriver d r = d"

definition GlobalScriptedDriver :: "scriptedRegistry \<Rightarrow> scriptedDriver option" where
  "GlobalScriptedDriver r = r"

definition ResetGlobalScriptedDriver :: "scriptedRegistry \<Rightarrow> scriptedRegistry" where
  "ResetGlobalScriptedDriver r = None"

section \<open>Which transcripts the double takes\<close>

lemma scripted_loop_ok:
  "scriptedTranscriptLoop seen ms = None \<longleftrightarrow>
     (\<forall>pre m post. ms = pre @ m # post \<longrightarrow> mRole m = RoleTool \<longrightarrow>
        mToolCallID m \<in> seen \<or> (\<exists>a \<in> set (pre @ [m]). mToolCallID m \<in> tcID ` set (mToolCalls a)))"
proof (induction ms arbitrary: seen)
  case (Cons x ms)
  let ?seen = "seen \<union> tcID ` set (mToolCalls x)"
  have split: "(\<forall>pre m post. x # ms = pre @ m # post \<longrightarrow> P pre m) \<longleftrightarrow>
      P [] x \<and> (\<forall>pre m post. ms = pre @ m # post \<longrightarrow> P (x # pre) m)" for P
    by (auto simp: Cons_eq_append_conv)
  show ?case
    unfolding split using Cons.IH [of ?seen] by (auto simp: Let_def)
qed simp

text \<open>A result in a legal transcript follows the turn that asked for it.\<close>

lemma scripted_loop_append:
  "scriptedTranscriptLoop seen (xs @ ys) = None \<longleftrightarrow>
     scriptedTranscriptLoop seen xs = None \<and> scriptedTranscriptLoop (seen \<union> (\<Union>m \<in> set xs. tcID ` set (mToolCalls m))) ys = None"
  by (induction seen xs rule: scriptedTranscriptLoop.induct) (simp_all add: Let_def Un_assoc)

lemma scripted_loop_results:
  "list_all isToolResult rs \<Longrightarrow> mToolCallID ` set rs \<subseteq> seen \<Longrightarrow> scriptedTranscriptLoop seen rs = None"
  proof (induction rs arbitrary: seen)
  case (Cons r rs)
  then show ?case using Cons.IH [of "seen \<union> tcID ` set (mToolCalls r)"] by (simp add: Let_def le_supI1)
qed simp

lemma scripted_legal: "legal ms \<Longrightarrow> scriptedTranscriptLoop seen ms = None"
proof (induction ms arbitrary: seen rule: legal.induct)
  case (2 m ms)
  let ?n = "length (mToolCalls m)" and ?seen = "seen \<union> tcID ` set (mToolCalls m)"
  have a: "answers (mToolCalls m) (take ?n ms)" and l: "legal (drop ?n ms)" and r: "\<not> isToolResult m" using 2(2) by auto
  have "scriptedTranscriptLoop ?seen (take ?n ms) = None"
    using a by (intro scripted_loop_results) (auto simp: answers_def)
  moreover have "scriptedTranscriptLoop s (drop ?n ms) = None" for s using 2(1) l by blast
  ultimately have "scriptedTranscriptLoop ?seen (take ?n ms @ drop ?n ms) = None" unfolding scripted_loop_append by blast
  then show ?case using r by simp
qed simp

lemma replayDeltas_keepAll: "runDriver keepAll s (replayDeltas ds u e w) = (s @ ds, w, u, e)"
  by (induction ds arbitrary: s) (simp_all add: keepAll_def)

text \<open>
  The double refuses exactly the transcripts with a result whose call was not requested
  before it, and so takes whatever the OpenAI or the Anthropic driver takes.
\<close>

theorem scripted_transcript_weaker:
  "(scripted_validateTranscript ms = None \<longleftrightarrow>
     (\<forall>pre m post. ms = pre @ m # post \<longrightarrow> mRole m = RoleTool \<longrightarrow>
        (\<exists>a \<in> set (pre @ [m]). mToolCallID m \<in> tcID ` set (mToolCalls a))))
   \<and> (callsOnAssistant ms \<and> (openai_validateTranscript ms = None \<or> anthropic_validateTranscript ms = None)
        \<longrightarrow> scripted_validateTranscript ms = None)"
proof (intro conjI impI)
  show "scripted_validateTranscript ms = None \<longleftrightarrow>
     (\<forall>pre m post. ms = pre @ m # post \<longrightarrow> mRole m = RoleTool \<longrightarrow>
        (\<exists>a \<in> set (pre @ [m]). mToolCallID m \<in> tcID ` set (mToolCalls a)))"
    unfolding scripted_validateTranscript_def scripted_loop_ok by simp
next
  assume "callsOnAssistant ms \<and> (openai_validateTranscript ms = None \<or> anthropic_validateTranscript ms = None)"
  then have "legal ms"
    using openai_accepts [of ms] anthropicLoop_accepts [of ms 0 "{}"] unfolding anthropic_validateTranscript_def by blast
  then show "scripted_validateTranscript ms = None" unfolding scripted_validateTranscript_def by (rule scripted_legal)
qed

text \<open>A call that nobody answers: the real drivers refuse it, the double does not.\<close>

definition unansweredCall :: "message list" where
  "unansweredCall = [emptyMessage\<lparr>mRole := RoleAssistant, mToolCalls := [\<lparr>tcID = ''c'', tcName = ''f'', tcArguments = ''{}''\<rparr>]\<rparr>]"

definition answeredCall :: "message list" where
  "answeredCall = unansweredCall @ [emptyMessage\<lparr>mRole := RoleTool, mToolCallID := ''c''\<rparr>]"

theorem scripted_transcript_weaker_witness:
  "scripted_validateTranscript answeredCall = None \<and> scripted_validateTranscript unansweredCall = None
    \<and> openai_validateTranscript unansweredCall \<noteq> None \<and> anthropic_validateTranscript unansweredCall \<noteq> None"
proof -
  have "callsOnAssistant answeredCall" "anthropic_validateTranscript answeredCall = None" by code_simp+
  then have "scripted_validateTranscript answeredCall = None" using scripted_transcript_weaker [of answeredCall] by blast
  moreover have "scripted_validateTranscript unansweredCall = None" "openai_validateTranscript unansweredCall \<noteq> None"
      "anthropic_validateTranscript unansweredCall \<noteq> None" by code_simp+
  ultimately show ?thesis by blast
qed

end
