(* ===== verification/OpenAIModels.thy ===== *)
theory OpenAIModels
  imports DriverCommon
begin

text \<open>
  What the OpenAI driver knows about models (\<open>drivers/openai/models.go\<close>): the listed
  models, lookup by longest prefix, the capabilities derived from an id, and the reasoning
  efforts a model takes.
\<close>

section \<open>The table\<close>

definition hasSuffix :: "string \<Rightarrow> string \<Rightarrow> bool" where
  "hasSuffix s suf = (length suf \<le> length s \<and> drop (length s - length suf) s = suf)"

definition oSeriesReasoningLevels :: reasoningLevels where
  "oSeriesReasoningLevels = \<lparr>rlMin = ReasoningEffortLow, rlLow = ReasoningEffortLow, rlMedium = ReasoningEffortMedium,
     rlHigh = ReasoningEffortHigh, rlMax = ReasoningEffortHigh\<rparr>"

definition gpt5ReasoningLevels :: reasoningLevels where
  "gpt5ReasoningLevels = \<lparr>rlMin = ReasoningEffortMinimal, rlLow = ReasoningEffortLow, rlMedium = ReasoningEffortMedium,
     rlHigh = ReasoningEffortHigh, rlMax = ReasoningEffortHigh\<rparr>"

definition frontierReasoningLevels :: reasoningLevels where
  "frontierReasoningLevels = \<lparr>rlMin = ReasoningEffortLow, rlLow = ReasoningEffortLow, rlMedium = ReasoningEffortMedium,
     rlHigh = ReasoningEffortHigh, rlMax = ReasoningEffortMax\<rparr>"

definition reasoningModel :: "string \<Rightarrow> reasoningLevels \<Rightarrow> model" where
  "reasoningModel i levels = (bareModel i)\<lparr>mdSupportsReasoning := True, mdReasoningLevels := levels\<rparr>"

definition openai_knownModels :: "model list" where
  "openai_knownModels =
     map bareModel [''gpt-4o'', ''gpt-4o-mini'', ''gpt-4.1'', ''gpt-4.1-mini'', ''gpt-4.1-nano''] @
     map (\<lambda>i. reasoningModel i gpt5ReasoningLevels) [''gpt-5'', ''gpt-5-mini'', ''gpt-5-nano''] @
     map (\<lambda>i. reasoningModel i frontierReasoningLevels) [''gpt-5.6'', ''gpt-5.6-sol'', ''gpt-5.6-terra'', ''gpt-5.6-luna''] @
     map (\<lambda>i. reasoningModel i oSeriesReasoningLevels) [''o1'', ''o3'', ''o3-mini'', ''o4-mini'']"

definition suffixChatLatest :: string where
  "suffixChatLatest = ''-chat-latest''"

section \<open>Lookup\<close>

definition openai_isReasoningModelID :: "string \<Rightarrow> bool" where
  "openai_isReasoningModelID i =
     (if hasSuffix i suffixChatLatest then False
      else hasPrefix i ''o1'' \<or> hasPrefix i ''o3'' \<or> hasPrefix i ''o4'' \<or> hasPrefix i ''gpt-5'')"

definition isEarlyO1ModelID :: "string \<Rightarrow> bool" where
  "isEarlyO1ModelID i = (hasPrefix i ''o1-preview'' \<or> hasPrefix i ''o1-mini'')"

definition isEntryFor :: "string \<Rightarrow> model \<Rightarrow> bool" where
  "isEntryFor i m = (mdID m = i \<or> hasPrefix i (mdID m @ ''-''))"

text \<open>The scan for the longest matching entry; \<open>best\<close> is the entry kept so far.\<close>

fun bestEntry :: "string \<Rightarrow> model option \<Rightarrow> model list \<Rightarrow> model option" where
  "bestEntry i best [] = best"
| "bestEntry i best (m # ms) =
     (if \<not> isEntryFor i m then bestEntry i best ms
      else case best of
          None \<Rightarrow> bestEntry i (Some m) ms
        | Some b \<Rightarrow> bestEntry i (if length (mdID m) > length (mdID b) then Some m else best) ms)"

definition openai_LookupModel :: "string \<Rightarrow> model" where
  "openai_LookupModel i =
     (if hasSuffix i suffixChatLatest then bareModel i
      else case bestEntry i None openai_knownModels of
          Some m \<Rightarrow> m\<lparr>mdID := i\<rparr>
        | None \<Rightarrow>
            if \<not> openai_isReasoningModelID i then bareModel i
            else let m = (bareModel i)\<lparr>mdSupportsReasoning := True\<rparr>
                 in if \<not> hasPrefix i ''gpt-5'' then m\<lparr>mdReasoningLevels := oSeriesReasoningLevels\<rparr> else m)"

definition openai_hasModelEntry :: "string \<Rightarrow> bool" where
  "openai_hasModelEntry i = list_ex (isEntryFor i) openai_knownModels"

definition openai_isKnownModelID :: "string \<Rightarrow> bool" where
  "openai_isKnownModelID i = (if openai_isReasoningModelID i then True else list_ex (isEntryFor i) openai_knownModels)"

section \<open>Capabilities and efforts\<close>

definition supportsDisablingReasoning :: "string \<Rightarrow> bool" where
  "supportsDisablingReasoning i = (if \<not> openai_hasModelEntry i then True else hasPrefix i ''gpt-5.6'')"

definition supportsExplicitPromptCaching :: "string \<Rightarrow> bool" where
  "supportsExplicitPromptCaching _ = False"

definition openai_maxReasoningEffort :: "string \<Rightarrow> reasoningEffort" where
  "openai_maxReasoningEffort i =
     (let m = openai_LookupModel i
      in if \<not> openai_hasModelEntry i \<or> \<not> mdSupportsReasoning m then ReasoningEffortUnset else ReasoningLevelMax m)"

definition openai_capabilities :: "model \<Rightarrow> capabilities" where
  "openai_capabilities m =
     (let reasoning = (mdSupportsReasoning m \<or> openai_isReasoningModelID (mdID m));
          known = openai_isKnownModelID (mdID m);
          sampling = (\<not> reasoning \<or> \<not> known);
          structured = (\<not> isEarlyO1ModelID (mdID m))
      in \<lparr>SupportsResponseFormatJSONSchema = structured, SupportsResponseFormatJSONObject = structured,
          SupportsStrictToolArguments = structured, SupportsToolChoice = structured, SupportsParallelToolCalls = structured,
          SupportsSeed = True, SupportsSamplingPenalties = sampling, SupportsSamplingParams = sampling,
          SupportsReasoningEffort = (reasoning \<or> \<not> known),
          SupportsDisablingReasoning = supportsDisablingReasoning (mdID m),
          SupportsPromptCaching = supportsExplicitPromptCaching (mdID m), StreamingUnsupported = False,
          SupportsImageInput = True, SupportsAudioInput = True, SupportsFileInput = True,
          MaxReasoningEffort = openai_maxReasoningEffort (mdID m)\<rparr>)"

definition reasoningEffortOrder :: "reasoningEffort list" where
  "reasoningEffortOrder = [ReasoningEffortMinimal, ReasoningEffortLow, ReasoningEffortMedium, ReasoningEffortHigh,
     ReasoningEffortXHigh, ReasoningEffortMax]"

text \<open>\<open>slices.Index\<close>: the first position, or -1.\<close>

fun slicesIndex :: "'a list \<Rightarrow> 'a \<Rightarrow> int" where
  "slicesIndex [] y = -1"
| "slicesIndex (x # xs) y = (if x = y then 0 else let i = slicesIndex xs y in if i < 0 then -1 else i + 1)"

definition openai_reasoningEffortRank :: "reasoningEffort \<Rightarrow> int" where
  "openai_reasoningEffortRank e = slicesIndex reasoningEffortOrder e"

definition openai_isSupportedReasoningEffort :: "string \<Rightarrow> reasoningEffort \<Rightarrow> bool" where
  "openai_isSupportedReasoningEffort i e =
     (let rank = openai_reasoningEffortRank e
      in if rank < 0 then False
         else if \<not> openai_hasModelEntry i then True
         else if rank < openai_reasoningEffortRank (ReasoningLevelMin (openai_LookupModel i)) then False
         else let ceiling = openai_reasoningEffortRank (openai_maxReasoningEffort i)
              in ceiling < 0 \<or> rank \<le> ceiling)"

definition unsupportedOn :: "string \<Rightarrow> fmt_arg list \<Rightarrow> err" where
  "unsupportedOn f as = Wrapf (Sentinel ErrUnsupportedParameter) f as"

definition openai_rejectUnsupportedReasoning :: "'w driverRequest \<Rightarrow> capabilities \<Rightarrow> err option" where
  "openai_rejectUnsupportedReasoning req caps =
     (let effort = gpReasoningEffort (drParams req); i = mdID (drModel req)
      in if effort = ReasoningEffortUnset then None
         else if effort = ReasoningEffortNone then
           (if SupportsDisablingReasoning caps then None
            else Some (unsupportedOn ''disabling reasoning on model %q'' [ArgStr i]))
         else if \<not> SupportsReasoningEffort caps then Some (unsupportedOn ''reasoning effort on model %q'' [ArgStr i])
         else if \<not> openai_isSupportedReasoningEffort i effort then
           Some (unsupportedOn ''reasoning effort %q on model %q'' [ArgStr effort, ArgStr i])
         else None)"

section \<open>The longest prefix\<close>

lemma bestEntry_Some:
  "bestEntry i best ms = Some m \<Longrightarrow>
   (best = Some m \<or> m \<in> set ms \<and> isEntryFor i m)
   \<and> (\<forall>x \<in> set ms. isEntryFor i x \<longrightarrow> length (mdID x) \<le> length (mdID m))
   \<and> (\<forall>b. best = Some b \<longrightarrow> length (mdID b) \<le> length (mdID m))"
  by (induction i best ms rule: bestEntry.induct) (auto split: if_splits option.splits)

lemma bestEntry_None: "bestEntry i best ms = None \<longleftrightarrow> best = None \<and> \<not> list_ex (isEntryFor i) ms"
  by (induction i best ms rule: bestEntry.induct) (auto split: option.splits)

lemma isEntryFor_prefix: "isEntryFor i m \<Longrightarrow> take (length (mdID m)) i = mdID m"
  by (auto simp: isEntryFor_def hasPrefix_def) (metis append_eq_conv_conj append_take_drop_id length_append take_append take_take)

lemma openai_knownModels_distinct: "distinct (map mdID openai_knownModels)"
  by (simp add: openai_knownModels_def bareModel_def reasoningModel_def)

lemma lookup_entry:
  assumes "\<not> hasSuffix i suffixChatLatest" and "openai_hasModelEntry i"
  obtains e where "e \<in> set openai_knownModels" "isEntryFor i e" "openai_LookupModel i = e\<lparr>mdID := i\<rparr>"
    "\<forall>x \<in> set openai_knownModels. isEntryFor i x \<longrightarrow> length (mdID x) \<le> length (mdID e)"
proof -
  obtain e where e: "bestEntry i None openai_knownModels = Some e"
    using assms(2) bestEntry_None [of i None openai_knownModels] by (auto simp: openai_hasModelEntry_def)
  with bestEntry_Some [OF e] that [of e] assms(1) show ?thesis by (auto simp: openai_LookupModel_def)
qed

lemma openai_LookupModel_ID [simp]: "mdID (openai_LookupModel i) = i"
  by (simp add: openai_LookupModel_def bareModel_def Let_def split: option.split)

section \<open>The two effort checks\<close>

text \<open>The driver ranks efforts from zero, the engine from one with zero for "not a level".\<close>

lemma slicesIndex6:
  "slicesIndex [a, b, c, d, e, f] y =
     (if y = a then 1 else if y = b then 2 else if y = c then 3 else if y = d then 4 else if y = e then 5
      else if y = f then 6 else 0) - 1"
  by auto

lemma openai_rank: "openai_reasoningEffortRank e = reasoningEffortRank e - 1"
  unfolding openai_reasoningEffortRank_def reasoningEffortOrder_def reasoningEffortRank_def by (rule slicesIndex6)

definition canonicalLevels :: "reasoningLevels set" where
  "canonicalLevels = {noLevels, oSeriesReasoningLevels, gpt5ReasoningLevels, frontierReasoningLevels}"

lemmas level_defs = noLevels_def oSeriesReasoningLevels_def gpt5ReasoningLevels_def frontierReasoningLevels_def

lemma lookup_levels: "mdReasoningLevels (openai_LookupModel i) \<in> canonicalLevels"
proof (cases "bestEntry i None openai_knownModels")
  case None
  then show ?thesis by (simp add: openai_LookupModel_def canonicalLevels_def bareModel_def Let_def)
next
  case (Some e)
  then have "e \<in> set openai_knownModels" using bestEntry_Some by fastforce
  then have "mdReasoningLevels e \<in> canonicalLevels"
    by (auto simp: openai_knownModels_def reasoningModel_def bareModel_def canonicalLevels_def)
  with Some show ?thesis by (simp add: openai_LookupModel_def canonicalLevels_def bareModel_def)
qed

lemma canonical_listed: "ls \<in> canonicalLevels \<Longrightarrow> listedEfforts ls \<subseteq> insert ReasoningEffortUnset rankedEfforts"
  unfolding canonicalLevels_def listedEfforts_def rankedEfforts_def by (elim insertE) (simp_all add: level_defs)

lemma lookup_known_effort:
  assumes "e \<noteq> ReasoningEffortUnset"
  shows "isKnownReasoningEffort (openai_LookupModel i) e \<longleftrightarrow> reasoningEffortRank e > 0"
  using canonical_listed [OF lookup_levels [of i]] assms unfolding known_effort_iff ranked_iff by blast

lemma advertised_range:
  assumes "mdReasoningLevels m \<in> canonicalLevels" and "e \<in> set (advertised m)"
  shows "e \<noteq> ReasoningEffortUnset \<and> e \<noteq> ReasoningEffortNone \<and> 0 < reasoningEffortRank e
    \<and> reasoningEffortRank (ReasoningLevelMin m) \<le> reasoningEffortRank e
    \<and> reasoningEffortRank e \<le> reasoningEffortRank (ReasoningLevelMax m)"
proof -
  have "\<forall>e \<in> set (advertised m). e \<noteq> ReasoningEffortUnset \<and> e \<noteq> ReasoningEffortNone \<and> 0 < reasoningEffortRank e
    \<and> reasoningEffortRank (ReasoningLevelMin m) \<le> reasoningEffortRank e
    \<and> reasoningEffortRank e \<le> reasoningEffortRank (ReasoningLevelMax m)"
    using assms(1) unfolding canonicalLevels_def
    by (elim insertE) (simp_all add: advertised_def level_getters level_defs reasoningEffortRank_def)
  with assms(2) show ?thesis by blast
qed

text \<open>What the driver's own check accepts, in the engine's ranks.\<close>

lemma openai_accepts_effort:
  "openai_rejectUnsupportedReasoning req caps = None \<longleftrightarrow>
     (let e = gpReasoningEffort (drParams req); i = mdID (drModel req)
      in e = ReasoningEffortUnset \<or> (e = ReasoningEffortNone \<and> SupportsDisablingReasoning caps)
         \<or> (e \<noteq> ReasoningEffortUnset \<and> e \<noteq> ReasoningEffortNone \<and> SupportsReasoningEffort caps \<and> 0 < reasoningEffortRank e
            \<and> (\<not> openai_hasModelEntry i \<or>
               reasoningEffortRank (ReasoningLevelMin (openai_LookupModel i)) \<le> reasoningEffortRank e
               \<and> (reasoningEffortRank (openai_maxReasoningEffort i) = 0
                  \<or> reasoningEffortRank e \<le> reasoningEffortRank (openai_maxReasoningEffort i)))))"
proof -
  have "openai_isSupportedReasoningEffort i e \<longleftrightarrow> 0 < reasoningEffortRank e \<and> (\<not> openai_hasModelEntry i \<or>
      reasoningEffortRank (ReasoningLevelMin (openai_LookupModel i)) \<le> reasoningEffortRank e
      \<and> (reasoningEffortRank (openai_maxReasoningEffort i) = 0
         \<or> reasoningEffortRank e \<le> reasoningEffortRank (openai_maxReasoningEffort i)))" for i e
    using rank_nonneg [of "openai_maxReasoningEffort i"]
    unfolding openai_isSupportedReasoningEffort_def openai_rank Let_def by auto
  then show ?thesis unfolding openai_rejectUnsupportedReasoning_def Let_def by simp
qed

lemma lookup_max_unlisted: "\<not> openai_hasModelEntry i \<Longrightarrow> reasoningEffortRank (openai_maxReasoningEffort i) = 0"
  by (simp add: openai_maxReasoningEffort_def rank_Unset Let_def)

lemma lookup_max_le:
  "mdSupportsReasoning (openai_LookupModel i) \<Longrightarrow>
   reasoningEffortRank (openai_maxReasoningEffort i) = 0
   \<or> reasoningEffortRank (openai_maxReasoningEffort i) = reasoningEffortRank (ReasoningLevelMax (openai_LookupModel i))"
  by (auto simp: openai_maxReasoningEffort_def rank_Unset Let_def)

lemma openai_caps_simps [simp]:
  "MaxReasoningEffort (openai_capabilities m) = openai_maxReasoningEffort (mdID m)"
  "SupportsReasoningEffort (openai_capabilities m) \<longleftrightarrow>
     mdSupportsReasoning m \<or> openai_isReasoningModelID (mdID m) \<or> \<not> openai_isKnownModelID (mdID m)"
  by (auto simp: openai_capabilities_def Let_def)

lemma openai_effort_checks_agree_core:
  assumes "m = openai_LookupModel i" and "drModel req = m" and "e = gpReasoningEffort (drParams req)"
  shows "(validateReasoningConfiguration m e (openai_capabilities m) = None
      \<longleftrightarrow> openai_rejectUnsupportedReasoning req (openai_capabilities m) = None
        \<and> (e = ReasoningEffortUnset \<or> e = ReasoningEffortNone \<or> reasoningEffortRank (ReasoningLevelMin m) \<le> reasoningEffortRank e))
    \<and> (openai_hasModelEntry i \<longrightarrow>
        (validateReasoningConfiguration m e (openai_capabilities m) = None)
          = (openai_rejectUnsupportedReasoning req (openai_capabilities m) = None))
    \<and> (mdSupportsReasoning m \<and> e \<in> set (advertised m) \<longrightarrow>
        validateReasoningConfiguration m e (openai_capabilities m) = None)"
proof -
  note m = assms(1)
  have i: "mdID m = i" using m by simp
  have eng: "validateReasoningConfiguration m e caps = None \<longleftrightarrow>
     e = ReasoningEffortUnset \<or> (e = ReasoningEffortNone \<and> SupportsDisablingReasoning caps)
     \<or> (e \<noteq> ReasoningEffortUnset \<and> e \<noteq> ReasoningEffortNone \<and> SupportsReasoningEffort caps \<and> 0 < reasoningEffortRank e
        \<and> reasoningEffortRank (ReasoningLevelMin m) \<le> reasoningEffortRank e
        \<and> (reasoningEffortRank (MaxReasoningEffort caps) = 0
           \<or> reasoningEffortRank e \<le> reasoningEffortRank (MaxReasoningEffort caps)))" for caps
    using rank_nonneg [of "MaxReasoningEffort caps"] lookup_known_effort [of e i] m
    unfolding validateReasoningConfiguration_def Let_def by auto
  have drv: "openai_rejectUnsupportedReasoning req (openai_capabilities m) = None \<longleftrightarrow>
     e = ReasoningEffortUnset \<or> (e = ReasoningEffortNone \<and> SupportsDisablingReasoning (openai_capabilities m))
     \<or> (e \<noteq> ReasoningEffortUnset \<and> e \<noteq> ReasoningEffortNone \<and> SupportsReasoningEffort (openai_capabilities m)
        \<and> 0 < reasoningEffortRank e
        \<and> (\<not> openai_hasModelEntry i \<or> reasoningEffortRank (ReasoningLevelMin m) \<le> reasoningEffortRank e
           \<and> (reasoningEffortRank (openai_maxReasoningEffort i) = 0
              \<or> reasoningEffortRank e \<le> reasoningEffortRank (openai_maxReasoningEffort i))))"
    using openai_accepts_effort [of req "openai_capabilities m"] assms by (simp add: Let_def)
  have adv: "mdSupportsReasoning m \<Longrightarrow> e \<in> set (advertised m) \<Longrightarrow>
      validateReasoningConfiguration m e (openai_capabilities m) = None"
    using advertised_range [of m e] lookup_levels [of i] lookup_max_le [of i] m
    unfolding eng openai_caps_simps i by fastforce
  show ?thesis
    using adv lookup_max_unlisted [of i] unfolding eng drv openai_caps_simps i by blast
qed

section \<open>Properties\<close>

text \<open>
  Model lookup takes the longest listed prefix: an id with an entry gets the metadata of
  the entry whose name is the longest one it extends, which is unique; a chat alias gets none,
  and the id itself is always kept.
\<close>

theorem openai_lookup_longest_prefix:
  assumes "openai_hasModelEntry i"
  shows "mdID (openai_LookupModel i) = i
    \<and> (if hasSuffix i suffixChatLatest then openai_LookupModel i = bareModel i
       else \<exists>!e. e \<in> set openai_knownModels \<and> isEntryFor i e \<and> openai_LookupModel i = e\<lparr>mdID := i\<rparr>
              \<and> list_all (\<lambda>x. isEntryFor i x \<longrightarrow> length (mdID x) \<le> length (mdID e)) openai_knownModels)"
proof (cases "hasSuffix i suffixChatLatest")
  case True
  then show ?thesis by (simp add: openai_LookupModel_def bareModel_def)
next
  case False
  obtain e where e: "e \<in> set openai_knownModels" "isEntryFor i e" "openai_LookupModel i = e\<lparr>mdID := i\<rparr>"
    "\<forall>x \<in> set openai_knownModels. isEntryFor i x \<longrightarrow> length (mdID x) \<le> length (mdID e)"
    using lookup_entry [OF False assms] by blast
  have uniq: "f = e" if "f \<in> set openai_knownModels" "isEntryFor i f"
    "\<forall>x \<in> set openai_knownModels. isEntryFor i x \<longrightarrow> length (mdID x) \<le> length (mdID f)" for f
  proof -
    have "length (mdID e) = length (mdID f)" using e that by (simp add: le_antisym)
    then have "mdID e = mdID f" using isEntryFor_prefix [OF e(2)] isEntryFor_prefix [OF that(2)] by metis
    with openai_knownModels_distinct e(1) that(1) show ?thesis
      by (metis distinct_map inj_onD)
  qed
  have "\<exists>!e. e \<in> set openai_knownModels \<and> isEntryFor i e \<and> openai_LookupModel i = e\<lparr>mdID := i\<rparr>
      \<and> list_all (\<lambda>x. isEntryFor i x \<longrightarrow> length (mdID x) \<le> length (mdID e)) openai_knownModels"
    unfolding list_all_iff by (rule ex1I [of _ e]) (use e in blast, use uniq in blast)
  with False show ?thesis by (simp only: if_False openai_LookupModel_ID simp_thms)
qed

theorem openai_lookup_longest_prefix_witness:
  "openai_hasModelEntry ''gpt-5.6-sol-2026-01-01'' \<and> mdID (openai_LookupModel ''gpt-5.6-sol-2026-01-01'') = ''gpt-5.6-sol-2026-01-01''
   \<and> mdReasoningLevels (openai_LookupModel ''gpt-5.6-sol-2026-01-01'') = frontierReasoningLevels"
proof -
  have "openai_hasModelEntry ''gpt-5.6-sol-2026-01-01''"
    "mdReasoningLevels (openai_LookupModel ''gpt-5.6-sol-2026-01-01'') = frontierReasoningLevels" by code_simp+
  with openai_lookup_longest_prefix [of "''gpt-5.6-sol-2026-01-01''"] show ?thesis by simp
qed

text \<open>
  The engine's check and the driver's check of a reasoning effort agree on looked-up
  models: what the engine accepts the driver accepts; for a model the driver holds data for
  they accept the same efforts, and otherwise the engine is stricter only below the model's
  lowest level. Every level a reasoning model advertises passes both.
\<close>

theorem openai_effort_checks_agree:
  assumes "m = openai_LookupModel i" and "drModel req = m" and "e = gpReasoningEffort (drParams req)"
  shows "(validateReasoningConfiguration m e (openai_capabilities m) = None
      \<longleftrightarrow> openai_rejectUnsupportedReasoning req (openai_capabilities m) = None
        \<and> (e = ReasoningEffortUnset \<or> e = ReasoningEffortNone \<or> reasoningEffortRank (ReasoningLevelMin m) \<le> reasoningEffortRank e))
    \<and> (openai_hasModelEntry i \<longrightarrow>
        (validateReasoningConfiguration m e (openai_capabilities m) = None)
          = (openai_rejectUnsupportedReasoning req (openai_capabilities m) = None))
    \<and> (mdSupportsReasoning m \<and> e \<in> set (advertised m) \<longrightarrow>
        validateReasoningConfiguration m e (openai_capabilities m) = None)"
  by (rule openai_effort_checks_agree_core [OF assms])

theorem openai_effort_checks_agree_witness:
  "openai_hasModelEntry ''o3-mini''
   \<and> validateReasoningConfiguration (openai_LookupModel ''o3-mini'') ''high'' (openai_capabilities (openai_LookupModel ''o3-mini'')) = None"
proof -
  let ?m = "openai_LookupModel ''o3-mini''"
  let ?r = "\<lparr>drModel = ?m, drMessages = [], drTools = [], drParams = zeroParams\<lparr>gpReasoningEffort := ''high''\<rparr>\<rparr> :: unit driverRequest"
  have "openai_hasModelEntry ''o3-mini''" "mdSupportsReasoning ?m" "''high'' \<in> set (advertised ?m)" by code_simp+
  with openai_effort_checks_agree [of ?m "''o3-mini''" ?r "''high''"] show ?thesis by simp
qed

end
