(* ===== verification/OpenAITranslate.thy ===== *)
theory OpenAITranslate
  imports OpenAIModels "HOL-Library.Sublist"
begin

text \<open>
  Translation of a driver request into the chat completions request
  (\<open>drivers/openai/translate.go\<close> and \<open>content.go\<close>). The types here are the SDK's request
  types with the fields the driver sets; an omitted optional field is \<open>None\<close>. A decoded JSON
  schema is carried as its text. The fields an assistant message replays (\<open>extra\<close>) come from
  a function that is a parameter here.
\<close>

section \<open>The wire\<close>

datatype oaPart =
    OaText string
  | OaImage string string \<comment> \<open>url, detail\<close>
  | OaAudio string string \<comment> \<open>data, format\<close>
  | OaFile "string option" "string option" "string option" \<comment> \<open>file id, data, filename\<close>

datatype oaUserContent = OaString string | OaParts "oaPart list"

record oaCall =
  oaID :: string
  oaName :: string
  oaArguments :: string

datatype oaMessage =
    OaSystem string
  | OaUser oaUserContent
  | OaTool string string \<comment> \<open>content, tool call id\<close>
  | OaAssistant "string option" "oaCall list" "(string \<times> string) list" \<comment> \<open>content, calls, extra fields\<close>

datatype oaToolChoice = OaChoiceUnset | OaChoiceMode string | OaChoiceFunction string

datatype oaResponseFormat =
    OaFormatUnset
  | OaFormatText
  | OaFormatJSONObject
  | OaFormatJSONSchema string "string option" bool \<comment> \<open>name, schema, strict\<close>

record oaTool =
  otName :: string
  otDescription :: string
  otParameters :: "string option" \<comment> \<open>\<open>None\<close> is the empty object\<close>
  otStrict :: "bool option"

record oaRequest =
  oqModel :: string
  oqMessages :: "oaMessage list"
  oqIncludeUsage :: bool
  oqTemperature :: "rat option"
  oqTopP :: "rat option"
  oqFrequencyPenalty :: "rat option"
  oqPresencePenalty :: "rat option"
  oqReasoningEffort :: string
  oqMaxCompletionTokens :: "int option"
  oqSeed :: "int option"
  oqStop :: "string list"
  oqParallelToolCalls :: "bool option"
  oqToolChoice :: oaToolChoice
  oqResponseFormat :: oaResponseFormat
  oqTools :: "oaTool list"

section \<open>Content\<close>

definition openai_toImagePart :: "imageSource \<Rightarrow> oaPart" where
  "openai_toImagePart s = OaImage (DataURI s) (if imgDetail s \<noteq> [] then imgDetail s else [])"

definition toAudioPart :: "audioSource \<Rightarrow> oaPart" where
  "toAudioPart s = OaAudio (b64_encode (audData s)) (audFormat s)"

definition toFilePart :: "fileSource \<Rightarrow> oaPart" where
  "toFilePart s =
     (if filFileID s \<noteq> [] then OaFile (Some (filFileID s)) None None
      else OaFile None (Some (b64_encode (filData s))) (if filFilename s \<noteq> [] then Some (filFilename s) else None))"

text \<open>The payload pointers are dereferenced after validation, which is what makes them non-nil.\<close>

definition toContentPart :: "part \<Rightarrow> err + oaPart" where
  "toContentPart p =
     (if ptType p = PartTypeText then Inr (OaText (ptText p))
      else if ptType p = PartTypeImage then Inr (openai_toImagePart (the (ptImage p)))
      else if ptType p = PartTypeAudio then Inr (toAudioPart (the (ptAudio p)))
      else if ptType p = PartTypeFile then Inr (toFilePart (the (ptFile p)))
      else Inl (Wrapf (Sentinel ErrPartTypeUnknown) ''%q'' [ArgStr (ptType p)]))"

definition toUserMessage :: "partType list \<Rightarrow> message \<Rightarrow> err + oaMessage" where
  "toUserMessage order m =
     (case validateContent order (mContent m) of
        Some e \<Rightarrow> Inl (Wrap e ''validate content'')
      | None \<Rightarrow>
          if isTextOnly (mContent m) then Inr (OaUser (OaString (messageText m)))
          else case collect toContentPart (mContent m) of
              Inl e \<Rightarrow> Inl e
            | Inr parts \<Rightarrow> Inr (OaUser (OaParts parts)))"

section \<open>Messages\<close>

definition toolErrorPrefix :: string where
  "toolErrorPrefix = ''Error: ''"

definition openai_toolResultContent :: "message \<Rightarrow> string" where
  "openai_toolResultContent m =
     (let text = messageText m
      in if \<not> mToolResultIsError m then text
         else if hasPrefix text toolErrorPrefix then text
         else toolErrorPrefix @ text)"

definition functionToolCallParam :: "toolCall \<Rightarrow> oaCall" where
  "functionToolCallParam c =
     \<lparr>oaID = tcID c, oaName = tcName c,
      oaArguments = (if length (trimSpace (tcArguments c)) = 0 then ''{}'' else tcArguments c)\<rparr>"

definition openai_assistantMessage :: "(message \<Rightarrow> err + (string \<times> string) list) \<Rightarrow> message \<Rightarrow> err + oaMessage" where
  "openai_assistantMessage extra m =
     (let text = messageText m;
          content = (if text \<noteq> [] \<or> length (mToolCalls m) = 0 then Some text else None)
      in case extra m of
           Inl e \<Rightarrow> Inl e
         | Inr xs \<Rightarrow> Inr (OaAssistant content (map functionToolCallParam (mToolCalls m)) xs))"

definition toOpenAIMessage ::
  "partType list \<Rightarrow> (message \<Rightarrow> err + (string \<times> string) list) \<Rightarrow> message \<Rightarrow> err + oaMessage" where
  "toOpenAIMessage order extra m =
     (if mRole m = RoleSystem then Inr (OaSystem (messageText m))
      else if mRole m = RoleUser then toUserMessage order m
      else if mRole m = RoleTool then Inr (OaTool (openai_toolResultContent m) (mToolCallID m))
      else if mRole m = RoleAssistant then openai_assistantMessage extra m
      else Inl (invalidTranscript ''unsupported message role''))"

definition toolImagesMessage :: "message list \<Rightarrow> oaMessage" where
  "toolImagesMessage results =
     OaUser (OaParts (concat (map (\<lambda>r. OaText (''Images returned by tool call '' @ mToolCallID r @ '':'')
       # map openai_toImagePart (ToolImages r)) results)))"

text \<open>The loop: \<open>withImages\<close> holds the current run's results that carry images.\<close>

fun toOpenAIMessagesLoop ::
  "(message \<Rightarrow> err + oaMessage) \<Rightarrow> message list \<Rightarrow> message list \<Rightarrow> err + oaMessage list" where
  "toOpenAIMessagesLoop f withImages [] = Inr (if length withImages > 0 then [toolImagesMessage withImages] else [])"
| "toOpenAIMessagesLoop f withImages (m # ms) =
     (let (out, withImages') =
            (if mRole m \<noteq> RoleTool \<and> length withImages > 0 then ([toolImagesMessage withImages], []) else ([], withImages))
      in case f m of
           Inl e \<Rightarrow> Inl e
         | Inr t \<Rightarrow>
             (case toOpenAIMessagesLoop f (if length (ToolImages m) > 0 then withImages' @ [m] else withImages') ms of
                Inl e \<Rightarrow> Inl e
              | Inr ts \<Rightarrow> Inr (out @ t # ts)))"

definition toOpenAIMessages ::
  "partType list \<Rightarrow> (message \<Rightarrow> err + (string \<times> string) list) \<Rightarrow> message list \<Rightarrow> err + oaMessage list" where
  "toOpenAIMessages order extra ms = toOpenAIMessagesLoop (toOpenAIMessage order extra) [] ms"

section \<open>Refusals\<close>

definition openai_rejectUnsupportedToolParams :: "'w driverRequest \<Rightarrow> capabilities \<Rightarrow> err option" where
  "openai_rejectUnsupportedToolParams req caps =
     (let i = mdID (drModel req); p = drParams req
      in if \<not> SupportsToolChoice caps \<and> chMode (gpToolChoice p) \<noteq> ToolChoiceModeUnset then
           Some (unsupportedOn ''tool choice on model %q'' [ArgStr i])
         else if \<not> SupportsParallelToolCalls caps \<and> gpParallelToolCalls p \<noteq> None then
           Some (unsupportedOn ''parallel tool calls on model %q'' [ArgStr i])
         else if SupportsStrictToolArguments caps then None
         else if list_ex tlStrictArguments (drTools req) then
           Some (unsupportedOn ''strict tool arguments on model %q'' [ArgStr i])
         else None)"

definition openai_rejectUnsupportedStructured :: "'w driverRequest \<Rightarrow> capabilities \<Rightarrow> err option" where
  "openai_rejectUnsupportedStructured req caps =
     (let i = mdID (drModel req);
          refused = (case gpResponseFormat (drParams req) of
              None \<Rightarrow> None
            | Some f \<Rightarrow>
                if rfType f = ResponseFormatTypeJSONSchema then
                  (if \<not> SupportsResponseFormatJSONSchema caps then
                     Some (unsupportedOn ''json_schema response format on model %q'' [ArgStr i]) else None)
                else if rfType f = ResponseFormatTypeJSONObject then
                  (if \<not> SupportsResponseFormatJSONObject caps then
                     Some (unsupportedOn ''json_object response format on model %q'' [ArgStr i]) else None)
                else None)
      in case refused of Some e \<Rightarrow> Some e | None \<Rightarrow> openai_rejectUnsupportedToolParams req caps)"

definition openai_rejectUnsupportedParams :: "'w driverRequest \<Rightarrow> err option" where
  "openai_rejectUnsupportedParams req =
     (let caps = openai_capabilities (drModel req); p = drParams req; i = mdID (drModel req)
      in case openai_rejectUnsupportedReasoning req caps of
           Some e \<Rightarrow> Some e
         | None \<Rightarrow>
             (case openai_rejectUnsupportedStructured req caps of
                Some e \<Rightarrow> Some e
              | None \<Rightarrow>
                  if \<not> SupportsSamplingParams caps \<and> gpTemperature p \<noteq> None then
                    Some (unsupportedOn ''temperature on model %q'' [ArgStr i])
                  else if \<not> SupportsSamplingParams caps \<and> gpTopP p \<noteq> None then
                    Some (unsupportedOn ''top_p on model %q'' [ArgStr i])
                  else if SupportsSamplingPenalties caps then None
                  else if gpFrequencyPenalty p \<noteq> None then
                    Some (unsupportedOn ''frequency_penalty on model %q'' [ArgStr i])
                  else if gpPresencePenalty p \<noteq> None then
                    Some (unsupportedOn ''presence_penalty on model %q'' [ArgStr i])
                  else None))"

section \<open>Parameters\<close>

abbreviation unsupported :: "string \<Rightarrow> err" where
  "unsupported msg \<equiv> Wrap (Sentinel ErrUnsupportedParameter) msg"

definition applySamplingParams :: "oaRequest \<Rightarrow> generationParams \<Rightarrow> oaRequest" where
  "applySamplingParams q p =
     q\<lparr>oqTemperature := (case gpTemperature p of Some t \<Rightarrow> Some t | None \<Rightarrow> oqTemperature q),
       oqTopP := (case gpTopP p of Some t \<Rightarrow> Some t | None \<Rightarrow> oqTopP q),
       oqFrequencyPenalty := (case gpFrequencyPenalty p of Some t \<Rightarrow> Some t | None \<Rightarrow> oqFrequencyPenalty q),
       oqPresencePenalty := (case gpPresencePenalty p of Some t \<Rightarrow> Some t | None \<Rightarrow> oqPresencePenalty q)\<rparr>"

definition applyTokenAndReasoningParams :: "oaRequest \<Rightarrow> generationParams \<Rightarrow> oaRequest" where
  "applyTokenAndReasoningParams q p =
     q\<lparr>oqReasoningEffort := (if gpReasoningEffort p \<noteq> ReasoningEffortUnset then gpReasoningEffort p else oqReasoningEffort q),
       oqMaxCompletionTokens := (case gpMaxOutputTokens p of Some n \<Rightarrow> Some n | None \<Rightarrow> oqMaxCompletionTokens q),
       oqSeed := (case gpSeed p of Some n \<Rightarrow> Some n | None \<Rightarrow> oqSeed q),
       oqStop := (if length (gpStop p) > 0 then gpStop p else oqStop q)\<rparr>"

definition applyToolGenerationParams :: "oaRequest \<Rightarrow> generationParams \<Rightarrow> oaRequest" where
  "applyToolGenerationParams q p =
     q\<lparr>oqParallelToolCalls := (case gpParallelToolCalls p of Some b \<Rightarrow> Some b | None \<Rightarrow> oqParallelToolCalls q)\<rparr>"

definition toOpenAIToolChoice :: "toolChoice \<Rightarrow> err + oaToolChoice" where
  "toOpenAIToolChoice c =
     (if chMode c = ToolChoiceModeUnset then Inr OaChoiceUnset
      else if chMode c \<in> {ToolChoiceModeAuto, ToolChoiceModeNone, ToolChoiceModeRequired} then Inr (OaChoiceMode (chMode c))
      else if chMode c = ToolChoiceModeTool then
        (if trimSpace (chName c) = [] then Inl (unsupported ''specific tool choice requires a name'')
         else Inr (OaChoiceFunction (chName c)))
      else Inl (unsupported ''tool choice mode''))"

definition toOpenAIJSONSchemaResponseFormat :: "(string \<Rightarrow> bool) \<Rightarrow> responseFormat \<Rightarrow> err + oaResponseFormat" where
  "toOpenAIJSONSchemaResponseFormat fits f =
     (if trimSpace (rfName f) = [] then Inl (unsupported ''JSON schema response format requires a name'')
      else if length (rfSchema f) > 0 \<and> \<not> decodesAny fits (rfSchema f) then
        Inl (Wrap jsonError ''decode response JSON schema'')
      else Inr (OaFormatJSONSchema (rfName f) (if length (rfSchema f) > 0 then Some (rfSchema f) else None) (rfStrictSchema f)))"

definition toOpenAIResponseFormat :: "(string \<Rightarrow> bool) \<Rightarrow> responseFormat option \<Rightarrow> err + oaResponseFormat" where
  "toOpenAIResponseFormat fits fmt =
     (case fmt of
        None \<Rightarrow> Inr OaFormatUnset
      | Some f \<Rightarrow>
          if rfType f = ResponseFormatTypeUnset then Inr OaFormatUnset
          else if rfType f = ResponseFormatTypeText then Inr OaFormatText
          else if rfType f = ResponseFormatTypeJSONObject then Inr OaFormatJSONObject
          else if rfType f = ResponseFormatTypeJSONSchema then toOpenAIJSONSchemaResponseFormat fits f
          else Inl (unsupported ''response format type''))"

definition openai_applyGenerationParams ::
  "(string \<Rightarrow> bool) \<Rightarrow> oaRequest \<Rightarrow> generationParams \<Rightarrow> err + oaRequest" where
  "openai_applyGenerationParams fits q p =
     (let q1 = applyToolGenerationParams (applyTokenAndReasoningParams (applySamplingParams q p) p) p
      in case toOpenAIToolChoice (gpToolChoice p) of
           Inl e \<Rightarrow> Inl e
         | Inr c \<Rightarrow>
             (case toOpenAIResponseFormat fits (gpResponseFormat p) of
                Inl e \<Rightarrow> Inl e
              | Inr f \<Rightarrow> Inr (q1\<lparr>oqToolChoice := c, oqResponseFormat := f\<rparr>)))"

definition toFunctionParameters :: "(string \<Rightarrow> bool) \<Rightarrow> string \<Rightarrow> err + string option" where
  "toFunctionParameters fits raw =
     (if length raw = 0 then Inr None
      else if \<not> decodesObject fits raw then Inl (Wrap jsonError ''unmarshal function parameters'')
      else Inr (Some raw))"

definition toOpenAITool :: "(string \<Rightarrow> bool) \<Rightarrow> 'w tool \<Rightarrow> err + oaTool" where
  "toOpenAITool fits t =
     (case toFunctionParameters fits (tlArgumentsSchema t) of
        Inl e \<Rightarrow> Inl (Wrap e ''decode tool arguments schema'')
      | Inr ps \<Rightarrow> Inr \<lparr>otName = tlName t, otDescription = tlDescription t, otParameters = ps,
                     otStrict = (if tlStrictArguments t then Some True else None)\<rparr>)"

definition toOpenAITools :: "(string \<Rightarrow> bool) \<Rightarrow> 'w tool list \<Rightarrow> err + oaTool list" where
  "toOpenAITools fits tools = collect (toOpenAITool fits) tools"

text \<open>What the driver is given beside the request.\<close>

record openaiEnv =
  oePayloadOrder :: "partType list" \<comment> \<open>the order a map of payloads is ranged in\<close>
  oeNumbersFit :: "string \<Rightarrow> bool"
  oeExtra :: "model \<Rightarrow> message \<Rightarrow> err + (string \<times> string) list" \<comment> \<open>\<open>assistantReasoningExtra\<close>\<close>

definition baseRequest :: "string \<Rightarrow> oaMessage list \<Rightarrow> oaRequest" where
  "baseRequest i ms = \<lparr>oqModel = i, oqMessages = ms, oqIncludeUsage = True, oqTemperature = None, oqTopP = None,
     oqFrequencyPenalty = None, oqPresencePenalty = None, oqReasoningEffort = [], oqMaxCompletionTokens = None,
     oqSeed = None, oqStop = [], oqParallelToolCalls = None, oqToolChoice = OaChoiceUnset,
     oqResponseFormat = OaFormatUnset, oqTools = []\<rparr>"

definition toOpenAIParams :: "openaiEnv \<Rightarrow> 'w driverRequest \<Rightarrow> err + oaRequest" where
  "toOpenAIParams oe req =
     (case toOpenAIMessages (oePayloadOrder oe) (oeExtra oe (drModel req)) (drMessages req) of
        Inl e \<Rightarrow> Inl e
      | Inr messages \<Rightarrow>
          (case openai_rejectUnsupportedParams req of
             Some e \<Rightarrow> Inl e
           | None \<Rightarrow>
               (case openai_applyGenerationParams (oeNumbersFit oe) (baseRequest (mdID (drModel req)) messages) (drParams req) of
                  Inl e \<Rightarrow> Inl e
                | Inr q \<Rightarrow>
                    if length (drTools req) > 0 then
                      (case toOpenAITools (oeNumbersFit oe) (drTools req) of
                         Inl e \<Rightarrow> Inl e
                       | Inr ts \<Rightarrow> Inr (q\<lparr>oqTools := ts\<rparr>))
                    else Inr q)))"

section \<open>The wire transcript\<close>

fun wireCallIDs :: "oaMessage \<Rightarrow> string list" where
  "wireCallIDs (OaAssistant c calls x) = map oaID calls"
| "wireCallIDs _ = []"

fun wireResultID :: "oaMessage \<Rightarrow> string option" where
  "wireResultID (OaTool c i) = Some i"
| "wireResultID _ = None"

fun isUser :: "oaMessage \<Rightarrow> bool" where
  "isUser (OaUser c) = True"
| "isUser _ = False"

text \<open>What the API demands: every call answered, by the messages right after the turn that made it.\<close>

function wireLegal :: "oaMessage list \<Rightarrow> bool" where
  "wireLegal [] = True"
| "wireLegal (m # ms) =
     (let is = wireCallIDs m; rs = map wireResultID (take (length is) ms)
      in wireResultID m = None \<and> distinct is \<and> length rs = length is \<and> set rs = Some ` set is
         \<and> wireLegal (drop (length is) ms))"
  by pat_completeness auto
termination by (relation "measure length") (simp_all add: Let_def)

lemma wireLegal_plain [simp]:
  "wireCallIDs m = [] \<Longrightarrow> wireLegal (m # ms) \<longleftrightarrow> wireResultID m = None \<and> wireLegal ms"
  by (simp add: Let_def)

fun partImages :: "oaPart list \<Rightarrow> oaPart list" where
  "partImages ps = filter (\<lambda>p. case p of OaImage u d \<Rightarrow> True | _ \<Rightarrow> False) ps"

fun wireImages :: "oaMessage \<Rightarrow> oaPart list" where
  "wireImages (OaUser (OaParts ps)) = partImages ps"
| "wireImages _ = []"

text \<open>The images of a message, as the wire shows them.\<close>

definition sentImages :: "message \<Rightarrow> oaPart list" where
  "sentImages m = (if mRole m = RoleTool then map openai_toImagePart (ToolImages m)
     else if mRole m = RoleUser then
       map (\<lambda>p. openai_toImagePart (the (ptImage p))) (filter (\<lambda>p. ptType p = PartTypeImage) (mContent m))
     else [])"

definition flushImages :: "message list \<Rightarrow> oaMessage list" where
  "flushImages wi = (if length wi > 0 then [toolImagesMessage wi] else [])"

lemma partImages_map: "partImages (map openai_toImagePart is) = map openai_toImagePart is"
  by (simp add: openai_toImagePart_def)

lemma toolImages_wire: "wireImages (toolImagesMessage wi) = concat (map (\<lambda>m. map openai_toImagePart (ToolImages m)) wi)"
  by (induction wi) (simp_all add: toolImagesMessage_def openai_toImagePart_def)

lemma flushImages_simps [simp]:
  "filter (\<lambda>w. \<not> isUser w) (flushImages wi) = []"
  "wireLegal (flushImages wi @ ws) \<longleftrightarrow> wireLegal ws"
  "concat (map wireImages (flushImages wi)) = concat (map (\<lambda>m. map openai_toImagePart (ToolImages m)) wi)"
  by (simp_all add: flushImages_def toolImages_wire)
     (simp_all add: toolImagesMessage_def)

lemma toContentPart_images:
  "list_all2 (\<lambda>p y. toContentPart p = Inr y) ps ys \<Longrightarrow>
   partImages ys = map (\<lambda>p. openai_toImagePart (the (ptImage p))) (filter (\<lambda>p. ptType p = PartTypeImage) ps)"
  by (induction rule: list_all2_induct)
    (auto simp: toContentPart_def openai_toImagePart_def toAudioPart_def toFilePart_def split: if_splits)

lemma translate_images:
  assumes "toOpenAIMessage order extra m = Inr t" and "mRole m \<noteq> RoleTool"
  shows "wireImages t = sentImages m"
proof (cases "mRole m = RoleUser")
  case True
  show ?thesis
  proof (cases "isTextOnly (mContent m)")
    case True
    then have "filter (\<lambda>p. ptType p = PartTypeImage) (mContent m) = []"
      by (auto simp: isTextOnly_iff filter_empty_conv)
    with True assms \<open>mRole m = RoleUser\<close> show ?thesis
      by (auto simp: toOpenAIMessage_def toUserMessage_def sentImages_def split: option.splits)
  next
    case False
    with assms \<open>mRole m = RoleUser\<close> obtain ps where "collect toContentPart (mContent m) = Inr ps" "t = OaUser (OaParts ps)"
      by (auto simp: toOpenAIMessage_def toUserMessage_def split: option.splits sum.splits)
    with \<open>mRole m = RoleUser\<close> show ?thesis
      using toContentPart_images [of "mContent m" ps] by (simp add: collect_Inr sentImages_def)
  qed
next
  case False
  with assms show ?thesis
    by (auto simp: toOpenAIMessage_def openai_assistantMessage_def Let_def sentImages_def split: if_splits sum.splits)
qed

lemma translate_shape:
  assumes "toOpenAIMessage order extra m = Inr t"
  shows "wireResultID t = (if mRole m = RoleTool then Some (mToolCallID m) else None)"
    and "wireCallIDs t = (if mRole m = RoleAssistant then map tcID (mToolCalls m) else [])"
  using assms
  by (auto simp: toOpenAIMessage_def toUserMessage_def openai_assistantMessage_def Let_def functionToolCallParam_def
      split: if_splits sum.splits option.splits)

text \<open>One step of the loop, with the pending images written out.\<close>

lemma loop_Cons:
  "toOpenAIMessagesLoop f wi (m # ms) = Inr ws \<longleftrightarrow>
   (\<exists>t ts. f m = Inr t \<and> ws = (if mRole m = RoleTool then [] else flushImages wi) @ t # ts
      \<and> toOpenAIMessagesLoop f ((if mRole m = RoleTool then wi else []) @ (if ToolImages m \<noteq> [] then [m] else [])) ms = Inr ts)"
  by (auto simp: flushImages_def Let_def split: sum.splits if_splits)

lemma loop_Nil: "toOpenAIMessagesLoop f wi [] = Inr ws \<longleftrightarrow> ws = flushImages wi"
  by (auto simp: flushImages_def)

lemma loop_parts:
  assumes "toOpenAIMessagesLoop (toOpenAIMessage order extra) wi ms = Inr ws"
  shows "(\<exists>ts. collect (toOpenAIMessage order extra) ms = Inr ts \<and> subseq ts ws
      \<and> filter (\<lambda>w. \<not> isUser w) ws = filter (\<lambda>w. \<not> isUser w) ts)
    \<and> concat (map wireImages ws) = concat (map (\<lambda>m. map openai_toImagePart (ToolImages m)) wi) @ concat (map sentImages ms)"
  using assms
proof (induction ms arbitrary: wi ws)
  case Nil
  then show ?case by (simp add: loop_Nil del: toOpenAIMessagesLoop.simps)
next
  case (Cons m ms)
  let ?wi = "(if mRole m = RoleTool then wi else []) @ (if ToolImages m \<noteq> [] then [m] else [])"
  obtain t us where t: "toOpenAIMessage order extra m = Inr t"
    and ws: "ws = (if mRole m = RoleTool then [] else flushImages wi) @ t # us"
    and us: "toOpenAIMessagesLoop (toOpenAIMessage order extra) ?wi ms = Inr us"
    using Cons.prems unfolding loop_Cons by blast
  obtain ts where ts: "collect (toOpenAIMessage order extra) ms = Inr ts" "subseq ts us"
    "filter (\<lambda>w. \<not> isUser w) us = filter (\<lambda>w. \<not> isUser w) ts"
    "concat (map wireImages us) = concat (map (\<lambda>m. map openai_toImagePart (ToolImages m)) ?wi) @ concat (map sentImages ms)"
    using Cons.IH [OF us] by blast
  have sub: "subseq (t # ts) ws" using ts(2) ws by (simp add: list_emb_append2)
  have im: "concat (map wireImages ws) =
      concat (map (\<lambda>m. map openai_toImagePart (ToolImages m)) wi) @ sentImages m @ concat (map sentImages ms)"
  proof (cases "mRole m = RoleTool")
    case True
    then have "wireImages t = []" using t by (auto simp: toOpenAIMessage_def)
    with True ws ts(4) show ?thesis by (auto simp: sentImages_def)
  next
    case False
    then have "ToolImages m = []" by (simp add: ToolImages_def)
    with False ws ts(4) translate_images [OF t False] show ?thesis by simp
  qed
  show ?case using ts t ws sub im by auto
qed

lemma loop_run:
  assumes "list_all isToolResult rs" and "toOpenAIMessagesLoop (toOpenAIMessage order extra) wi (rs @ ms) = Inr ws"
  shows "\<exists>ts us wi'. ws = ts @ us \<and> map wireResultID ts = map (Some \<circ> mToolCallID) rs
    \<and> toOpenAIMessagesLoop (toOpenAIMessage order extra) wi' ms = Inr us"
  using assms
proof (induction rs arbitrary: wi ws)
  case Nil
  then show ?case by auto
next
  case (Cons r rs)
  from Cons.prems(2) Cons.prems(1) obtain t vs wi1 where t: "toOpenAIMessage order extra r = Inr t" "ws = t # vs"
    and vs: "toOpenAIMessagesLoop (toOpenAIMessage order extra) wi1 (rs @ ms) = Inr vs"
    unfolding append_Cons loop_Cons by auto
  obtain ts us wi' where "vs = ts @ us" "map wireResultID ts = map (Some \<circ> mToolCallID) rs"
    "toOpenAIMessagesLoop (toOpenAIMessage order extra) wi' ms = Inr us"
    using Cons.IH [OF _ vs] Cons.prems(1) by auto
  then show ?case using t translate_shape(1) [OF t(1)] Cons.prems(1)
    by (intro exI [of _ "t # ts"] exI [of _ us] exI [of _ wi']) simp
qed

lemma loop_legal:
  "openai_validateTranscript ms = None \<Longrightarrow>
   toOpenAIMessagesLoop (toOpenAIMessage order extra) wi ms = Inr ws \<Longrightarrow> wireLegal ws"
proof (induction ms arbitrary: wi ws rule: openai_validateTranscript.induct)
  case 1
  then show ?case using flushImages_simps(2) [of wi "[]"] by (simp add: loop_Nil del: toOpenAIMessagesLoop.simps)
next
  case (2 m ms)
  have known: "mRole m \<noteq> RoleUnknown" "mRole m \<noteq> RoleTool" using "2.prems"(1) by (auto split: if_splits)
  then have "ToolImages m = []" by (simp add: ToolImages_def)
  with "2.prems"(2) known obtain t us where t: "toOpenAIMessage order extra m = Inr t" and ws: "ws = flushImages wi @ t # us"
    and us: "toOpenAIMessagesLoop (toOpenAIMessage order extra) [] ms = Inr us"
    unfolding loop_Cons by auto
  note sh = translate_shape [OF t]
  show ?case
  proof (cases "mRole m \<noteq> RoleAssistant \<or> length (mToolCalls m) = 0")
    case True
    then have "wireCallIDs t = []" and "openai_validateTranscript ms = None"
      using sh(2) known "2.prems"(1) by auto
    then show ?thesis using "2.IH"(1) [OF known True _ us] sh(1) known ws by simp
  next
    case False
    let ?n = "length (mToolCalls m)"
    have unit: "openai_validateToolCallUnit m ms = None" and rest: "openai_validateTranscript (drop ?n ms) = None"
      using "2.prems"(1) known False by (auto split: option.splits)
    have ans: "answers (mToolCalls m) (take ?n ms)" using unit by (simp add: openai_unit_ok)
    obtain ts vs wi' where vs: "us = ts @ vs" "map wireResultID ts = map (Some \<circ> mToolCallID) (take ?n ms)"
      "toOpenAIMessagesLoop (toOpenAIMessage order extra) wi' (drop ?n ms) = Inr vs"
      using loop_run [of "take ?n ms" order extra "[]" "drop ?n ms" us] us ans by (auto simp: answers_def)
    have len: "length ts = ?n"
      using vs(2) ans by (metis answers_def length_map)
    have ids: "set (map wireResultID ts) = Some ` set (map tcID (mToolCalls m))"
      using vs(2) ans by (simp add: answers_def image_comp [symmetric] comp_def)
        (metis image_image)
    have "wireLegal vs" by (rule "2.IH"(2) [OF known False unit rest vs(3)])
    then show ?thesis
      using len ids ans sh False known vs(1) ws by (simp add: Let_def answers_def comp_def)
  qed
qed

section \<open>The engine's checks suffice\<close>

text \<open>A client over this driver, with the driver's own capabilities.\<close>

definition servesOpenAI :: "'w request \<Rightarrow> bool" where
  "servesOpenAI r \<longleftrightarrow> clientCapabilities (rqClient r) = openai_capabilities"

lemma openai_params_accepted:
  assumes "validateCapabilities env r m (Some tools) = None" and "servesOpenAI r" and "m = openai_LookupModel i"
    and "stModel s = m"
  shows "openai_rejectUnsupportedParams (roundRequest r s tools) = None"
proof -
  let ?c = "openai_capabilities m" and ?q = "roundRequest r s tools"
  have c: "validateParameterCapabilities r ?c = None" "validateReasoningConfiguration m (gpReasoningEffort (rqParams r)) ?c = None"
    "validateResponseFormat env (gpResponseFormat (rqParams r)) ?c = None" "validateToolCapabilities r tools ?c = None"
    using assms(1,2) by (simp_all add: validateCapabilities_def servesOpenAI_def Let_def)
  have q: "drModel ?q = m" "drTools ?q = tools" using assms(4) by (simp_all add: roundRequest_def)
  have reasoning: "openai_rejectUnsupportedReasoning ?q ?c = None"
  proof (cases "gpReasoningEffort (drParams ?q) = ReasoningEffortUnset")
    case True
    then show ?thesis by (simp add: openai_rejectUnsupportedReasoning_def)
  next
    case False
    then have "gpReasoningEffort (drParams ?q) = gpReasoningEffort (rqParams r)"
      by (auto simp: roundRequest_def driverParams_def Let_def split: if_splits)
    with c(2) openai_effort_checks_agree_core [OF assms(3) q(1) refl] show ?thesis by simp
  qed
  have fmt: "openai_rejectUnsupportedToolParams ?q ?c = None \<Longrightarrow> openai_rejectUnsupportedStructured ?q ?c = None"
    using c(3) by (auto simp: openai_rejectUnsupportedStructured_def validateResponseFormat_def roundRequest_def driverParams_def
        Let_def split: option.splits if_splits)
  have tools: "openai_rejectUnsupportedToolParams ?q ?c = None"
    using c(4) q(2) by (auto simp: openai_rejectUnsupportedToolParams_def validateToolCapabilities_def validateToolChoice_def
        validateStrictToolArguments_def roundRequest_def driverParams_def Let_def split: if_splits)
  have sampling: "SupportsSamplingParams ?c \<or> gpTemperature (rqParams r) = None \<and> gpTopP (rqParams r) = None"
    "SupportsSamplingPenalties ?c \<or> gpFrequencyPenalty (rqParams r) = None \<and> gpPresencePenalty (rqParams r) = None"
    using c(1) by (auto simp: validateParameterCapabilities_def Let_def split: if_splits)
  show ?thesis
    using reasoning fmt [OF tools] sampling
    unfolding openai_rejectUnsupportedParams_def Let_def q(1)
    by (cases "SupportsSamplingParams ?c"; cases "SupportsSamplingPenalties ?c") (simp_all add: roundRequest_def)
qed

text \<open>The request the parameters generate, in one step.\<close>

definition generated :: "string \<Rightarrow> oaMessage list \<Rightarrow> generationParams \<Rightarrow> oaToolChoice \<Rightarrow> oaResponseFormat \<Rightarrow> oaRequest" where
  "generated i ws p c f = \<lparr>oqModel = i, oqMessages = ws, oqIncludeUsage = True, oqTemperature = gpTemperature p, oqTopP = gpTopP p,
     oqFrequencyPenalty = gpFrequencyPenalty p, oqPresencePenalty = gpPresencePenalty p,
     oqReasoningEffort = gpReasoningEffort p, oqMaxCompletionTokens = gpMaxOutputTokens p, oqSeed = gpSeed p,
     oqStop = gpStop p, oqParallelToolCalls = gpParallelToolCalls p, oqToolChoice = c, oqResponseFormat = f, oqTools = []\<rparr>"

lemma option_kept: "(case x of None \<Rightarrow> None | Some t \<Rightarrow> Some t) = x"
  by (cases x) simp_all

lemma generation_params:
  assumes "toOpenAIToolChoice (gpToolChoice p) = Inr c" and "toOpenAIResponseFormat fits (gpResponseFormat p) = Inr f"
  shows "openai_applyGenerationParams fits (baseRequest i ws) p = Inr (generated i ws p c f)"
  using assms
  by (simp add: openai_applyGenerationParams_def applySamplingParams_def applyTokenAndReasoningParams_def
      applyToolGenerationParams_def baseRequest_def generated_def option_kept Let_def cong: option.case_cong if_cong)

lemma openai_generation_accepted:
  assumes "validateCapabilities env r m (Some tools) = None" and "list_all (\<lambda>t. trimSpace (tlName t) \<noteq> []) tools"
    and "stModel s = m"
  shows "\<exists>c f. toOpenAIToolChoice (gpToolChoice (driverParams r s tools)) = Inr c
    \<and> toOpenAIResponseFormat (enNumbersFit env) (gpResponseFormat (rqParams r)) = Inr f"
proof -
  let ?c = "clientCapabilities (rqClient r) m"
  have c: "validateResponseFormat env (gpResponseFormat (rqParams r)) ?c = None"
    "validateToolChoice (gpToolChoice (rqParams r)) tools (SupportsToolChoice ?c) = None"
    using assms(1) by (simp_all add: validateCapabilities_def validateToolCapabilities_def Let_def)
  have "\<exists>x. toOpenAIToolChoice (gpToolChoice (driverParams r s tools)) = Inr x"
  proof (cases "tools = []")
    case True
    then show ?thesis by (simp add: driverParams_def Let_def toOpenAIToolChoice_def)
  next
    case False
    then have "gpToolChoice (driverParams r s tools) = gpToolChoice (rqParams r)"
      by (simp add: driverParams_def Let_def)
    with c(2) assms(2) show ?thesis
      by (auto simp: validateToolChoice_def toOpenAIToolChoice_def list_ex_iff list_all_iff split: if_splits)
  qed
  moreover have "\<exists>x. toOpenAIResponseFormat (enNumbersFit env) (gpResponseFormat (rqParams r)) = Inr x"
    using c(1) by (auto simp: validateResponseFormat_def toOpenAIResponseFormat_def toOpenAIJSONSchemaResponseFormat_def
        isJSONObject_def decodesAny_def split: option.splits if_splits)
  ultimately show ?thesis by blast
qed

section \<open>Properties\<close>


text \<open>A turn with two calls whose first result carries an image.\<close>

definition imageExchange :: "message list" where
  "imageExchange =
    [emptyMessage\<lparr>mRole := RoleUser, mContent := Text ''look''\<rparr>,
     emptyMessage\<lparr>mRole := RoleAssistant, mToolCalls := [\<lparr>tcID = ''a'', tcName = ''f'', tcArguments = []\<rparr>,
       \<lparr>tcID = ''b'', tcName = ''f'', tcArguments = ''{}''\<rparr>]\<rparr>,
     emptyMessage\<lparr>mRole := RoleTool, mToolCallID := ''a'', mContent := [TextOf ''x'', ImageURL ''u'']\<rparr>,
     emptyMessage\<lparr>mRole := RoleTool, mToolCallID := ''b'', mContent := Text ''y'', mToolResultIsError := True\<rparr>]"



text \<open>A request with an effort and a temperature for the driver's own client.\<close>

definition openaiRequest :: "unit request" where
  "openaiRequest = WithReasoningEffort ''high'' (WithModel (openai_LookupModel ''o3-mini'')
     (WithPrompt (UserText NewPrompt ''hi'')
       (NewRequest (NewClient (Some (echoDriver\<lparr>dvCapabilities := openai_capabilities\<rparr>)) []))))"

definition openaiSampleEnv :: openaiEnv where
  "openaiSampleEnv = \<lparr>oePayloadOrder = payloadTypes, oeNumbersFit = \<lambda>_. True, oeExtra = \<lambda>_ _. Inr []\<rparr>"


end
