(* ===== verification/OpenAIStream.thy ===== *)
theory OpenAIStream
  imports OpenAITranslate "HOL-Library.Char_ord" "HOL-Library.List_Lexorder"
begin

text \<open>
  The OpenAI driver's calls (\<open>drivers/openai/driver.go\<close>, the response half of
  \<open>translate.go\<close>, \<open>errors.go\<close>): chunks into deltas and usage, the streamed and the plain
  call, finish reasons and provider errors. The SDK's transport is a parameter: what it
  answers to a request is a list of chunks with the errors of reading and closing, or a whole
  completion. The decoding of provider-specific reasoning (\<open>reasoning.go\<close>) and the JSON
  probes are parameters, collected in \<open>openaiCodec\<close>.
\<close>

section \<open>Responses\<close>

record oaCallDelta =
  cdIndex :: int
  cdID :: string
  cdName :: string
  cdArguments :: string

record oaChoice =
  chFinishReason :: string
  chContent :: string
  chRefusal :: string
  chToolCalls :: "oaCallDelta list"
  chRaw :: string \<comment> \<open>the raw JSON of the delta; empty for one built in Go\<close>

record oaUsage =
  ouPrompt :: int
  ouCompletion :: int
  ouTotal :: int
  ouReasoning :: int
  ouCached :: int
  ouCacheWrite :: int

record oaChunk =
  ckID :: string
  ckModel :: string
  ckUsage :: oaUsage
  ckChoices :: "oaChoice list"

record oaCompletionChoice =
  ccFinishReason :: string
  ccContent :: string
  ccRefusal :: string
  ccToolCalls :: "oaCall list"
  ccRaw :: string

record oaCompletion =
  cpID :: string
  cpModel :: string
  cpUsage :: oaUsage
  cpChoices :: "oaCompletionChoice list"

text \<open>The errors the SDK reports: an error event in a stream, an API error, or another error.\<close>

datatype sdkError =
    StreamEventError string \<comment> \<open>the event's data\<close>
  | APIError int string "string option" \<comment> \<open>status, code, the response's Retry-After header\<close>
  | OtherError err

record oaStream =
  osChunks :: "oaChunk list"
  osErr :: "sdkError option"
  osCloseErr :: "err option"

record 'rs openaiCodec =
  ocReasoning :: "string \<Rightarrow> string \<times> string" \<comment> \<open>fields \<open>reasoning\<close> and \<open>reasoning_content\<close> of a raw payload; empty when it does not decode\<close>
  ocErrorCode :: "string \<Rightarrow> string \<times> string" \<comment> \<open>fields \<open>code\<close> and \<open>type\<close> of an error event; empty when it does not decode\<close>
  ocUntilDate :: "string \<Rightarrow> int option"
  ocInitial :: "string \<Rightarrow> 'rs" \<comment> \<open>\<open>newReasoningState\<close> for a model id\<close>
  ocConsume :: "'rs \<Rightarrow> string \<Rightarrow> bool \<Rightarrow> err + 'rs" \<comment> \<open>\<open>reasoningState.consume\<close>\<close>
  ocEmit :: "'rs \<Rightarrow> (err + delta \<times> 'rs) option" \<comment> \<open>\<open>reasoningState.emit\<close>; \<open>None\<close>: nothing to publish\<close>

section \<open>Deltas and usage\<close>

definition openai_normalizeFinishReason :: "string \<Rightarrow> string" where
  "openai_normalizeFinishReason r =
     (if r = ''stop'' then FinishReasonStop else if r = ''length'' then FinishReasonLength
      else if r = ''tool_calls'' then FinishReasonToolCalls else if r = ''content_filter'' then FinishReasonContentFilter
      else if r = ''function_call'' then FinishReasonFunctionCall else FinishReasonUnset)"

definition finishReasonFromChoice :: "oaChoice \<Rightarrow> bool \<Rightarrow> string" where
  "finishReasonFromChoice c refused =
     (let reason = openai_normalizeFinishReason (chFinishReason c)
      in if refused \<and> reason = FinishReasonStop then FinishReasonContentFilter else reason)"

definition reasoningFromRawJSON :: "'rs openaiCodec \<Rightarrow> string \<Rightarrow> string" where
  "reasoningFromRawJSON oc raw =
     (if raw = [] then []
      else let (reasoning, content) = ocReasoning oc raw in if reasoning \<noteq> [] then reasoning else content)"

definition callDeltas :: "oaCallDelta list \<Rightarrow> delta list" where
  "callDeltas calls =
     map (\<lambda>c. emptyDelta\<lparr>dToolCall := Some \<lparr>tdIndex = cdIndex c, tdID = cdID c, tdName = cdName c, tdArguments = cdArguments c\<rparr>\<rparr>)
       (filter (\<lambda>c. \<not> (cdIndex c < 0 \<or> cdIndex c > 2147483647)) calls)"

definition deltasFromChunk :: "'rs openaiCodec \<Rightarrow> oaChunk \<Rightarrow> bool \<Rightarrow> delta list" where
  "deltasFromChunk oc chunk refused =
     (case ckChoices chunk of
        [] \<Rightarrow> []
      | choice # _ \<Rightarrow>
          let reasoning = reasoningFromRawJSON oc (chRaw choice);
              finishReason = finishReasonFromChoice choice refused
          in (if reasoning \<noteq> [] then [emptyDelta\<lparr>dReasoning := reasoning\<rparr>] else []) @
             (if chRefusal choice \<noteq> [] then [emptyDelta\<lparr>dText := chRefusal choice\<rparr>] else []) @
             (if chContent choice \<noteq> [] then [emptyDelta\<lparr>dText := chContent choice\<rparr>] else []) @
             callDeltas (chToolCalls choice) @
             (if finishReason \<noteq> FinishReasonUnset then [emptyDelta\<lparr>dFinishReason := finishReason\<rparr>] else []))"

definition usageFromChunk :: "usage \<Rightarrow> oaChunk \<Rightarrow> bool \<Rightarrow> usage" where
  "usageFromChunk u chunk refused =
     (let u1 = (case ckChoices chunk of
                  [] \<Rightarrow> u
                | choice # _ \<Rightarrow>
                    let finishReason = finishReasonFromChoice choice refused
                    in if finishReason \<noteq> FinishReasonUnset then u\<lparr>uFinishReason := finishReason\<rparr> else u);
          u2 = (if ckModel chunk \<noteq> [] then u1\<lparr>uModel := ckModel chunk\<rparr> else u1);
          u3 = (if ckID chunk \<noteq> [] then u2\<lparr>uResponseID := ckID chunk\<rparr> else u2);
          counts = \<lparr>tkPrompt = ouPrompt (ckUsage chunk), tkCompletion = ouCompletion (ckUsage chunk),
                    tkTotal = ouTotal (ckUsage chunk), tkReasoning = ouReasoning (ckUsage chunk),
                    tkCacheRead = ouCached (ckUsage chunk), tkCacheWrite = ouCacheWrite (ckUsage chunk),
                    tkCacheWriteLongTTL = 0\<rparr>
      in if counts = zeroTokens then u3
         else u3\<lparr>uTokens := (if tkTotal counts = 0 then counts\<lparr>tkTotal := add64 (tkPrompt counts) (tkCompletion counts)\<rparr>
                             else counts)\<rparr>)"

text \<open>The signals kept across chunks: the raw finish reason and whether a refusal was seen.\<close>

definition scanChoiceSignals :: "oaChunk \<Rightarrow> string \<times> bool \<Rightarrow> string \<times> bool" where
  "scanChoiceSignals chunk sig =
     (case ckChoices chunk of
        [] \<Rightarrow> sig
      | choice # _ \<Rightarrow>
          ((if chFinishReason choice \<noteq> [] then chFinishReason choice else fst sig),
           (if chRefusal choice \<noteq> [] then True else snd sig)))"

section \<open>Publishing\<close>

primrec publishDeltas :: "delta list \<Rightarrow> 'w \<Rightarrow> ('w \<Rightarrow> 'w drun) \<Rightarrow> ('w \<Rightarrow> err \<Rightarrow> 'w drun) \<Rightarrow> 'w drun" where
  "publishDeltas [] w ok fail = ok w"
| "publishDeltas (d # ds) w ok fail =
     Emit w d (\<lambda>w' e. case e of
                 Some x \<Rightarrow> fail w' (Wrap x ''publish completion delta'')
               | None \<Rightarrow> publishDeltas ds w' ok fail)"

definition publishChunk ::
  "'rs openaiCodec \<Rightarrow> oaChunk \<Rightarrow> usage \<Rightarrow> bool \<Rightarrow> 'w \<Rightarrow> (usage \<Rightarrow> 'w \<Rightarrow> 'w drun) \<Rightarrow> (usage \<Rightarrow> 'w \<Rightarrow> err \<Rightarrow> 'w drun) \<Rightarrow> 'w drun" where
  "publishChunk oc chunk u refused w ok fail =
     (let u' = usageFromChunk u chunk refused
      in publishDeltas (deltasFromChunk oc chunk refused) w (ok u') (fail u'))"

definition emitReasoning :: "'rs openaiCodec \<Rightarrow> 'rs \<Rightarrow> 'w \<Rightarrow> ('rs \<Rightarrow> 'w \<Rightarrow> 'w drun) \<Rightarrow> ('w \<Rightarrow> err \<Rightarrow> 'w drun) \<Rightarrow> 'w drun" where
  "emitReasoning oc rs w ok fail =
     (case ocEmit oc rs of
        None \<Rightarrow> ok rs w
      | Some (Inl e) \<Rightarrow> fail w e
      | Some (Inr (d, rs')) \<Rightarrow>
          Emit w d (\<lambda>w' e. case e of
                      Some x \<Rightarrow> fail w' (Wrap x ''publish response reasoning'')
                    | None \<Rightarrow> ok rs' w'))"

definition consumeChunkReasoning ::
  "'rs openaiCodec \<Rightarrow> 'rs \<Rightarrow> oaChunk \<Rightarrow> 'w \<Rightarrow> ('rs \<Rightarrow> 'w \<Rightarrow> 'w drun) \<Rightarrow> ('w \<Rightarrow> err \<Rightarrow> 'w drun) \<Rightarrow> 'w drun" where
  "consumeChunkReasoning oc rs chunk w ok fail =
     (case ckChoices chunk of
        [] \<Rightarrow> ok rs w
      | choice # _ \<Rightarrow>
          (case ocConsume oc rs (chRaw choice) True of
             Inl e \<Rightarrow> fail w e
           | Inr rs' \<Rightarrow> if chFinishReason choice \<noteq> [] then emitReasoning oc rs' w ok fail else ok rs' w))"

section \<open>Provider errors\<close>

definition streamErrorCode :: "'rs openaiCodec \<Rightarrow> string \<Rightarrow> string" where
  "streamErrorCode oc dat = (let (code, ty) = ocErrorCode oc dat in if code \<noteq> [] then code else ty)"

definition openai_normalizeProviderError :: "'rs openaiCodec \<Rightarrow> sdkError \<Rightarrow> err" where
  "openai_normalizeProviderError oc e =
     (case e of
        StreamEventError dat \<Rightarrow>
          Wrap (ProviderError (Some (Opaque dat)) 0 0 (streamErrorCode oc dat)) ''OpenAI stream error event''
      | OtherError x \<Rightarrow> x
      | APIError status code header \<Rightarrow>
          let err = Opaque code;
              cause = (case ProviderSentinel status code of None \<Rightarrow> err | Some s \<Rightarrow> Joined [err, Sentinel s]);
              retryAfter = (case header of None \<Rightarrow> 0 | Some h \<Rightarrow> ParseRetryAfter (ocUntilDate oc) h)
          in Wrap (ProviderError (Some cause) status retryAfter code) ''OpenAI provider request'')"

interpretation openai_errors: api_error_reporter "\<lambda>status code header. openai_normalizeProviderError oc (APIError status code header)"
    "\<lambda>code. code" "\<lambda>header. case header of None \<Rightarrow> 0 | Some h \<Rightarrow> ParseRetryAfter (ocUntilDate oc) h"
    for oc :: "'rs openaiCodec"
  by unfold_locales (auto simp: openai_normalizeProviderError_def Let_def)

section \<open>The calls\<close>

type_synonym finishReasonMapper = "string \<Rightarrow> err + string"

definition openai_mapFinishReason :: "finishReasonMapper option \<Rightarrow> string \<Rightarrow> usage \<Rightarrow> usage \<times> err option" where
  "openai_mapFinishReason mapper raw u =
     (case mapper of
        None \<Rightarrow> (u, None)
      | Some f \<Rightarrow>
          if raw = [] \<or> uFinishReason u \<noteq> FinishReasonUnset then (u, None)
          else case f raw of
              Inl e \<Rightarrow> (u, Some (Wrap e ''provider finish reason''))
            | Inr reason \<Rightarrow> (u\<lparr>uFinishReason := reason\<rparr>, None))"

definition finishResponse :: "finishReasonMapper option \<Rightarrow> string \<Rightarrow> usage \<Rightarrow> 'w \<Rightarrow> 'w drun" where
  "finishResponse mapper raw u w = (case openai_mapFinishReason mapper raw u of (u', e) \<Rightarrow> Done w u' e)"

text \<open>After the loop: the read error, the close error, the reasoning still unpublished.\<close>

definition endStream ::
  "'rs openaiCodec \<Rightarrow> oaStream \<Rightarrow> 'rs \<Rightarrow> usage \<Rightarrow> 'w \<Rightarrow> err option \<Rightarrow> ('w \<Rightarrow> 'w drun) \<Rightarrow> 'w drun" where
  "endStream oc st rs u w streamErr ok =
     (let e1 = (case streamErr of
                  Some e \<Rightarrow> Some e
                | None \<Rightarrow> map_option (\<lambda>e. Wrap (openai_normalizeProviderError oc e) ''stream chat completions'') (osErr st));
          e2 = (case osCloseErr st of
                  None \<Rightarrow> e1
                | Some c \<Rightarrow> Some (Joined ((case e1 of None \<Rightarrow> [] | Some e \<Rightarrow> [e]) @ [Wrap c ''close chat completion stream''])))
      in case e2 of
           Some e \<Rightarrow> Done w u (Some e)
         | None \<Rightarrow> emitReasoning oc rs w (\<lambda>_ w'. ok w') (\<lambda>w' e. Done w' u (Some e)))"

fun consumeStream ::
  "'rs openaiCodec \<Rightarrow> finishReasonMapper option \<Rightarrow> oaStream \<Rightarrow> oaChunk list \<Rightarrow> string \<times> bool \<Rightarrow> usage \<Rightarrow> 'rs \<Rightarrow> 'w \<Rightarrow> 'w drun" where
  "consumeStream oc mapper st [] sig u rs w = endStream oc st rs u w None (finishResponse mapper (fst sig) u)"
| "consumeStream oc mapper st (chunk # chunks) sig u rs w =
     (let sig' = scanChoiceSignals chunk sig;
          broken = (\<lambda>u' rs' w' e. endStream oc st rs' u' w' (Some e) (\<lambda>w''. Done w'' u' None))
      in consumeChunkReasoning oc rs chunk w
           (\<lambda>rs' w'. publishChunk oc chunk u (snd sig') w'
              (\<lambda>u' w''. consumeStream oc mapper st chunks sig' u' rs' w'')
              (\<lambda>u' w'' e. broken u' rs' w'' e))
           (\<lambda>w' e. broken u rs w' e))"

definition chunkFromCompletion :: "oaCompletion \<Rightarrow> oaChunk" where
  "chunkFromCompletion c =
     (let chunk = \<lparr>ckID = cpID c, ckModel = cpModel c, ckUsage = cpUsage c, ckChoices = []\<rparr>
      in case cpChoices c of
           [] \<Rightarrow> chunk
         | choice # _ \<Rightarrow>
             chunk\<lparr>ckChoices :=
               [\<lparr>chFinishReason = ccFinishReason choice, chContent = ccContent choice, chRefusal = ccRefusal choice,
                 chToolCalls = map (\<lambda>(i, call). \<lparr>cdIndex = int i, cdID = oaID call, cdName = oaName call, cdArguments = oaArguments call\<rparr>)
                   (enumerate 0 (ccToolCalls choice)),
                 chRaw = []\<rparr>]\<rparr>)"

definition publishCompletionReasoning ::
  "'rs openaiCodec \<Rightarrow> oaCompletion \<Rightarrow> 'w \<Rightarrow> ('w \<Rightarrow> 'w drun) \<Rightarrow> ('w \<Rightarrow> err \<Rightarrow> 'w drun) \<Rightarrow> 'w drun" where
  "publishCompletionReasoning oc c w ok fail =
     (case cpChoices c of
        [] \<Rightarrow> ok w
      | choice # _ \<Rightarrow>
          let reasoning = reasoningFromRawJSON oc (ccRaw choice)
          in publishDeltas (if reasoning = [] then [] else [emptyDelta\<lparr>dReasoning := reasoning\<rparr>]) w ok fail)"

definition publishCompletion ::
  "'rs openaiCodec \<Rightarrow> finishReasonMapper option \<Rightarrow> oaCompletion \<Rightarrow> 'rs \<Rightarrow> 'w \<Rightarrow> 'w drun" where
  "publishCompletion oc mapper c rs w =
     (let fail = (\<lambda>w' e. Done w' zeroUsage (Some e));
          chunk = chunkFromCompletion c;
          sig = scanChoiceSignals chunk ([], False);
          publish = (\<lambda>w'. publishChunk oc chunk zeroUsage (snd sig) w'
                      (\<lambda>u w''. finishResponse mapper (fst sig) u w'') (\<lambda>u w'' e. Done w'' u (Some e)))
      in publishCompletionReasoning oc c w
           (\<lambda>w'. case cpChoices c of
                [] \<Rightarrow> publish w'
              | choice # _ \<Rightarrow>
                  (case ocConsume oc rs (ccRaw choice) False of
                     Inl e \<Rightarrow> fail w' e
                   | Inr rs' \<Rightarrow> emitReasoning oc rs' w' (\<lambda>_ w''. publish w'') fail))
           fail)"

section \<open>Extra body fields\<close>

definition reservedRequestFields :: "string list" where
  "reservedRequestFields = [''messages'', ''model'', ''stream'', ''tools'', ''tool_choice'']"

text \<open>\<open>Extra\<close> is a map, so its keys are distinct; the options set the fields in key order.\<close>

definition extraOptions :: "(string \<times> any) list \<Rightarrow> (string \<times> any) list" where
  "extraOptions extra =
     map (\<lambda>k. (k, the (map_of extra k))) (filter (\<lambda>k. k \<notin> set reservedRequestFields) (sort (map fst extra)))"

section \<open>The driver\<close>

record ('w, 'rs) openaiConfig =
  odEnv :: openaiEnv
  odCodec :: "'rs openaiCodec"
  odMapper :: "finishReasonMapper option"
  odStreaming :: "oaRequest \<Rightarrow> (string \<times> any) list \<Rightarrow> 'w \<Rightarrow> 'w \<times> oaStream" \<comment> \<open>\<open>Completions.NewStreaming\<close>\<close>
  odCompletion :: "oaRequest \<Rightarrow> (string \<times> any) list \<Rightarrow> 'w \<Rightarrow> 'w \<times> (sdkError + oaCompletion)" \<comment> \<open>\<open>Completions.New\<close>\<close>
  odModels :: "'w \<Rightarrow> 'w \<times> string list \<times> sdkError option" \<comment> \<open>the pages of \<open>Models.ListAutoPaging\<close> and its error\<close>

definition openai_Stream :: "('w, 'rs) openaiConfig \<Rightarrow> 'w driverRequest \<Rightarrow> 'w \<Rightarrow> 'w drun" where
  "openai_Stream cfg req w =
     (case openai_validateTranscript (drMessages req) of
        Some e \<Rightarrow> Done w zeroUsage (Some e)
      | None \<Rightarrow>
          (case toOpenAIParams (odEnv cfg) req of
             Inl e \<Rightarrow> Done w zeroUsage (Some e)
           | Inr params \<Rightarrow>
               (case odStreaming cfg params (extraOptions (gpExtra (drParams req))) w of
                  (w', st) \<Rightarrow> consumeStream (odCodec cfg) (odMapper cfg) st (osChunks st) ([], False) zeroUsage
                    (ocInitial (odCodec cfg) (mdID (drModel req))) w')))"

definition openai_Complete :: "('w, 'rs) openaiConfig \<Rightarrow> 'w driverRequest \<Rightarrow> 'w \<Rightarrow> 'w drun" where
  "openai_Complete cfg req w =
     (case openai_validateTranscript (drMessages req) of
        Some e \<Rightarrow> Done w zeroUsage (Some e)
      | None \<Rightarrow>
          (case toOpenAIParams (odEnv cfg) req of
             Inl e \<Rightarrow> Done w zeroUsage (Some e)
           | Inr params \<Rightarrow>
               (case odCompletion cfg params (extraOptions (gpExtra (drParams req))) w of
                  (w', Inl e) \<Rightarrow>
                    Done w' zeroUsage (Some (Wrap (openai_normalizeProviderError (odCodec cfg) e) ''complete chat completions''))
                | (w', Inr c) \<Rightarrow> publishCompletion (odCodec cfg) (odMapper cfg) c
                    (ocInitial (odCodec cfg) (mdID (drModel req))) w')))"

definition openai_ListModels :: "('w, 'rs) openaiConfig \<Rightarrow> 'w \<Rightarrow> 'w \<times> (err + string list)" where
  "openai_ListModels cfg w =
     (case odModels cfg w of
        (w', ids, Some e) \<Rightarrow> (w', Inl (Wrap (openai_normalizeProviderError (odCodec cfg) e) ''list models''))
      | (w', ids, None) \<Rightarrow> (w', Inr ids))"

definition openaiDriver :: "('w, 'rs) openaiConfig \<Rightarrow> 'w tokenCounter \<Rightarrow> 'w driver" where
  "openaiDriver cfg counter =
     \<lparr>dvStream = openai_Stream cfg, dvComplete = openai_Complete cfg, dvListModels = openai_ListModels cfg,
      dvCapabilities = openai_capabilities, dvTokenCounter = Some counter\<rparr>"

section \<open>What a consumer sees\<close>

text \<open>The opaque state travels in deltas of its own, with a payload and nothing else.\<close>

definition reasoningOnly :: "'rs openaiCodec \<Rightarrow> bool" where
  "reasoningOnly oc \<longleftrightarrow> (\<forall>rs d rs'. ocEmit oc rs = Some (Inr (d, rs')) \<longrightarrow> dProviderReasoning d \<noteq> [])"

lemma visible_chunk: "visible (deltasFromChunk oc c b) = deltasFromChunk oc c b"
  by (auto simp: visible_def deltasFromChunk_def callDeltas_def emptyDelta_def Let_def filter_id_conv split: list.split)

lemma publishDeltas_run:
  "runDriver keepAll s (publishDeltas ds w ok fail) = runDriver keepAll (s @ ds) (ok w)"
  by (induction ds arbitrary: s) (simp_all add: keepAll_def)

lemma emit_run:
  assumes "reasoningOnly oc" and "fails fail" and "runDriver keepAll s (emitReasoning oc rs w ok fail) = (ds, w', u, None)"
  shows "\<exists>s' rs'. visible s' = visible s \<and> runDriver keepAll s' (ok rs' w) = (ds, w', u, None)"
proof (cases "ocEmit oc rs")
  case None
  then show ?thesis using assms(3) by (auto simp: emitReasoning_def)
next
  case (Some x)
  show ?thesis
  proof (cases x)
    case (Inl e)
    then show ?thesis using assms(2,3) Some by (auto simp: emitReasoning_def fails_def)
  next
    case (Inr y)
    obtain d rs' where y: "y = (d, rs')" by (cases y)
    have "dProviderReasoning d \<noteq> []" using assms(1) Some Inr y by (auto simp: reasoningOnly_def)
    moreover have "runDriver keepAll (s @ [d]) (ok rs' w) = (ds, w', u, None)"
      using assms(3) Some Inr y by (simp add: emitReasoning_def keepAll_def)
    ultimately show ?thesis by (intro exI [of _ "s @ [d]"] exI [of _ rs']) (simp add: visible_def)
  qed
qed

lemma consumeChunk_run:
  assumes "reasoningOnly oc" and "fails fail"
    and "runDriver keepAll s (consumeChunkReasoning oc rs c w ok fail) = (ds, w', u, None)"
  shows "\<exists>s' rs'. visible s' = visible s \<and> runDriver keepAll s' (ok rs' w) = (ds, w', u, None)"
proof (cases "ckChoices c")
  case Nil
  then show ?thesis using assms(3) by (auto simp: consumeChunkReasoning_def)
next
  case (Cons ch chs)
  show ?thesis
  proof (cases "ocConsume oc rs (chRaw ch) True")
    case (Inl e)
    then show ?thesis using assms(2,3) Cons by (auto simp: consumeChunkReasoning_def fails_def)
  next
    case (Inr rs')
    then show ?thesis using assms Cons emit_run [OF assms(1,2), of s rs' w ok]
      by (auto simp: consumeChunkReasoning_def split: if_splits)
  qed
qed

lemma endStream_error: "fails (\<lambda>w e. endStream oc st rs u w (Some e) ok)"
  by (auto simp: fails_def endStream_def Let_def split: option.splits)

text \<open>The deltas and usage of a list of chunks, with the signals carried along.\<close>

fun streamRef :: "'rs openaiCodec \<Rightarrow> string \<times> bool \<Rightarrow> usage \<Rightarrow> oaChunk list \<Rightarrow> (string \<times> bool) \<times> usage \<times> delta list" where
  "streamRef oc sig u [] = (sig, u, [])"
| "streamRef oc sig u (c # cs) =
     (let sig' = scanChoiceSignals c sig;
          (sig2, u2, ds) = streamRef oc sig' (usageFromChunk u c (snd sig')) cs
      in (sig2, u2, deltasFromChunk oc c (snd sig') @ ds))"

lemma consumeStream_run:
  assumes "reasoningOnly oc"
  shows "runDriver keepAll s (consumeStream oc mapper st cs sig u rs w) = (ds, w', u', None) \<Longrightarrow>
    (case streamRef oc sig u cs of (sig2, u2, xs) \<Rightarrow>
       visible ds = visible s @ xs \<and> openai_mapFinishReason mapper (fst sig2) u2 = (u', None) \<and> w' = w)"
proof (induction cs arbitrary: sig u rs s w)
  case Nil
  have f: "fails (\<lambda>w' e. Done w' u (Some e))" by (simp add: fails_def)
  have "osErr st = None" "osCloseErr st = None"
    using Nil by (auto simp: endStream_def Let_def split: option.splits)
  then have "runDriver keepAll s (emitReasoning oc rs w (\<lambda>_ w'. finishResponse mapper (fst sig) u w') (\<lambda>w' e. Done w' u (Some e)))
      = (ds, w', u', None)" using Nil by (simp add: endStream_def Let_def)
  from emit_run [OF assms f this] show ?case by (auto simp: finishResponse_def split: prod.splits)
next
  case (Cons c cs)
  let ?sig = "scanChoiceSignals c sig"
  let ?u = "usageFromChunk u c (snd ?sig)"
  let ?broken = "\<lambda>u' rs' w' e. endStream oc st rs' u' w' (Some e) (\<lambda>w''. Done w'' u' None)"
  obtain s1 rs1 where s1: "visible s1 = visible s"
    "runDriver keepAll s1 (publishChunk oc c u (snd ?sig) w (\<lambda>u' w''. consumeStream oc mapper st cs ?sig u' rs1 w'')
       (\<lambda>u' w'' e. ?broken u' rs1 w'' e)) = (ds, w', u', None)"
    using Cons.prems consumeChunk_run [OF assms, of "\<lambda>w' e. ?broken u rs w' e" s rs c w] endStream_error [of oc st rs u]
    unfolding consumeStream.simps Let_def by blast
  then have "runDriver keepAll (s1 @ deltasFromChunk oc c (snd ?sig)) (consumeStream oc mapper st cs ?sig ?u rs1 w) = (ds, w', u', None)"
    by (simp add: publishChunk_def publishDeltas_run Let_def)
  from Cons.IH [OF this] s1(1) show ?case
    by (auto simp: visible_chunk Let_def split: prod.splits)
qed

section \<open>Finish reasons\<close>

definition recognised :: "oaChunk \<Rightarrow> string" where
  "recognised c = (case ckChoices c of [] \<Rightarrow> FinishReasonUnset | ch # _ \<Rightarrow> openai_normalizeFinishReason (chFinishReason ch))"

definition refuses :: "oaChunk \<Rightarrow> bool" where
  "refuses c = (case ckChoices c of [] \<Rightarrow> False | ch # _ \<Rightarrow> chRefusal ch \<noteq> [])"

definition chunkText :: "oaChunk \<Rightarrow> string" where
  "chunkText c = (case ckChoices c of [] \<Rightarrow> [] | ch # _ \<Rightarrow> chRefusal ch @ chContent ch)"

definition promoted :: "string \<Rightarrow> bool \<Rightarrow> string" where
  "promoted reason refused = (if refused \<and> reason = FinishReasonStop then FinishReasonContentFilter else reason)"

text \<open>The finish of a stream: the last recognised reason, promoted by a refusal up to then.\<close>

definition finishOf :: "oaChunk list \<Rightarrow> string" where
  "finishOf cs = (case last_index (\<lambda>c. recognised c \<noteq> FinishReasonUnset) cs of
       None \<Rightarrow> FinishReasonUnset
     | Some i \<Rightarrow> promoted (recognised (cs ! i)) (list_ex refuses (take (Suc i) cs)))"

definition lastFinish :: "delta list \<Rightarrow> string" where
  "lastFinish ds = foldl (\<lambda>r d. if dFinishReason d \<noteq> [] then dFinishReason d else r) [] ds"

lemma scan_refused: "snd (scanChoiceSignals c sig) \<longleftrightarrow> refuses c \<or> snd sig"
  by (simp add: scanChoiceSignals_def refuses_def split: list.split)

lemma promoted_unset [simp]: "promoted r b = FinishReasonUnset \<longleftrightarrow> r = FinishReasonUnset"
  by (simp add: promoted_def)

lemma usage_finish:
  "uFinishReason (usageFromChunk u c b) = (if recognised c \<noteq> FinishReasonUnset then promoted (recognised c) b else uFinishReason u)"
  by (auto simp: usageFromChunk_def recognised_def finishReasonFromChoice_def promoted_def Let_def split: list.split)

lemma chunk_finish:
  "foldl (\<lambda>r d. if dFinishReason d \<noteq> [] then dFinishReason d else r) r (deltasFromChunk oc c b)
     = (if recognised c \<noteq> FinishReasonUnset then promoted (recognised c) b else r)"
proof -
  have calls: "foldl (\<lambda>r d. if dFinishReason d \<noteq> [] then dFinishReason d else r) r (callDeltas cs) = r" for r cs
    unfolding callDeltas_def by (induction cs) (simp_all add: emptyDelta_def)
  show ?thesis
  proof (cases "ckChoices c")
    case Nil
    then show ?thesis by (simp add: deltasFromChunk_def recognised_def)
  next
    case (Cons ch chs)
    let ?f = "\<lambda>r d. if dFinishReason d \<noteq> [] then dFinishReason d else r"
    have front: "foldl ?f r (if b then [emptyDelta\<lparr>dReasoning := x\<rparr>] else []) = r"
      "foldl ?f r (if b then [emptyDelta\<lparr>dText := x\<rparr>] else []) = r" for r b x by (simp_all add: emptyDelta_def)
    show ?thesis using Cons
      by (simp add: deltasFromChunk_def recognised_def finishReasonFromChoice_def [of ch] promoted_def [symmetric] Let_def
          calls front emptyDelta_def)
  qed
qed

lemma chunk_text: "concat (map dText (deltasFromChunk oc c b)) = chunkText c"
proof -
  have "concat (map dText (callDeltas cs)) = []" for cs
    by (induction cs) (simp_all add: callDeltas_def emptyDelta_def)
  then show ?thesis by (simp add: deltasFromChunk_def chunkText_def emptyDelta_def Let_def split: list.split)
qed

lemma streamRef_facts:
  "streamRef oc sig u cs = (sig2, u2, ds) \<Longrightarrow>
   uFinishReason u2 = (case last_index (\<lambda>c. recognised c \<noteq> FinishReasonUnset) cs of
       None \<Rightarrow> uFinishReason u
     | Some i \<Rightarrow> promoted (recognised (cs ! i)) (snd sig \<or> list_ex refuses (take (Suc i) cs)))
   \<and> foldl (\<lambda>r d. if dFinishReason d \<noteq> [] then dFinishReason d else r) (uFinishReason u) ds = uFinishReason u2
   \<and> concat (map dText ds) = concat (map chunkText cs)"
proof (induction cs arbitrary: sig u sig2 u2 ds)
  case Nil
  then show ?case by simp
next
  case (Cons c cs)
  let ?sig = "scanChoiceSignals c sig"
  obtain sig3 u3 es where r: "streamRef oc ?sig (usageFromChunk u c (snd ?sig)) cs = (sig3, u3, es)"
    using prod_cases3 by blast
  with Cons.prems have eq: "sig2 = sig3" "u2 = u3" "ds = deltasFromChunk oc c (snd ?sig) @ es" by (simp_all add: Let_def)
  from Cons.IH [OF r] show ?case
    unfolding eq by (auto simp: usage_finish chunk_finish chunk_text scan_refused disj_commute disj_left_commute split: option.splits)
qed

section \<open>Properties\<close>

text \<open>
  C24. A stream that ends without error reports one finish reason everywhere: the usage the
  engine records and the last finish delta agree, and both are the last reason the provider
  gave that the driver knows, turned into a content filter when it was a plain stop and a
  refusal arrived in that chunk or any earlier one. A provider-specific mapper is consulted
  only when there is no known reason. The text delivered is all refusal and content text in
  order.
\<close>

theorem openai_stream_finish:
  assumes "reasoningOnly oc"
    and "runDriver keepAll [] (consumeStream oc mapper st (osChunks st) ([], False) zeroUsage rs w) = (ds, w', u, None)"
  shows "lastFinish (visible ds) = finishOf (osChunks st)
    \<and> (uFinishReason u = finishOf (osChunks st) \<or> finishOf (osChunks st) = FinishReasonUnset \<and> mapper \<noteq> None)
    \<and> concat (map dText (visible ds)) = concat (map chunkText (osChunks st))"
proof -
  obtain sig2 u2 xs where r: "streamRef oc ([], False) zeroUsage (osChunks st) = (sig2, u2, xs)" using prod_cases3 by blast
  have run: "visible ds = xs" "openai_mapFinishReason mapper (fst sig2) u2 = (u, None)"
    using consumeStream_run [OF assms] r by (simp_all add: visible_def)
  have f: "uFinishReason u2 = finishOf (osChunks st)" "lastFinish xs = uFinishReason u2"
    "concat (map dText xs) = concat (map chunkText (osChunks st))"
    using streamRef_facts [OF r] by (auto simp: finishOf_def lastFinish_def zeroUsage_def split: option.splits)
  have "uFinishReason u = uFinishReason u2 \<or> uFinishReason u2 = FinishReasonUnset \<and> mapper \<noteq> None"
    using run(2) by (auto simp: openai_mapFinishReason_def split: option.splits if_splits sum.splits)
  with f run(1) show ?thesis by auto
qed

text \<open>A driver without specialised reasoning, and a refusal that ends with a plain stop two chunks later.\<close>

definition plainCodec :: "unit openaiCodec" where
  "plainCodec = \<lparr>ocReasoning = \<lambda>_. ([], []), ocErrorCode = \<lambda>_. ([], []), ocUntilDate = \<lambda>_. None, ocInitial = \<lambda>_. (),
     ocConsume = \<lambda>rs _ _. Inr rs, ocEmit = \<lambda>_. None\<rparr>"

definition noTokens :: oaUsage where
  "noTokens = \<lparr>ouPrompt = 0, ouCompletion = 0, ouTotal = 0, ouReasoning = 0, ouCached = 0, ouCacheWrite = 0\<rparr>"

definition sampleChunk :: "string \<Rightarrow> string \<Rightarrow> string \<Rightarrow> oaChunk" where
  "sampleChunk refusal content reason = \<lparr>ckID = ''r'', ckModel = ''gpt-4o'', ckUsage = noTokens,
     ckChoices = [\<lparr>chFinishReason = reason, chContent = content, chRefusal = refusal, chToolCalls = [], chRaw = []\<rparr>]\<rparr>"

definition refusedStream :: oaStream where
  "refusedStream = \<lparr>osChunks = [sampleChunk ''no'' [] [], sampleChunk [] ''!'' [], sampleChunk [] [] ''stop''],
     osErr = None, osCloseErr = None\<rparr>"

theorem openai_stream_finish_witness:
  "\<exists>ds u. runDriver keepAll [] (consumeStream plainCodec None refusedStream (osChunks refusedStream) ([], False) zeroUsage () ())
       = (ds, (), u, None)
     \<and> uFinishReason u = FinishReasonContentFilter \<and> concat (map dText (visible ds)) = ''no!''"
proof -
  let ?t = "consumeStream plainCodec None refusedStream (osChunks refusedStream) ([], False) zeroUsage () ()"
  have o: "reasoningOnly plainCodec" by (simp add: reasoningOnly_def plainCodec_def)
  have "snd (snd (snd (runDriver keepAll [] ?t))) = None" by code_simp
  then obtain ds u where r: "runDriver keepAll [] ?t = (ds, (), u, None)" by (cases "runDriver keepAll [] ?t") auto
  have "finishOf (osChunks refusedStream) = FinishReasonContentFilter"
    "concat (map chunkText (osChunks refusedStream)) = ''no!''" by code_simp+
  with openai_stream_finish [OF o r] r show ?thesis by auto
qed

text \<open>The stream that carries a completion in one chunk.\<close>

definition asStream :: "oaCompletion \<Rightarrow> oaStream" where
  "asStream c = \<lparr>osChunks = [(chunkFromCompletion c)\<lparr>ckChoices :=
       map (\<lambda>ch. ch\<lparr>chRaw := ccRaw (hd (cpChoices c))\<rparr>) (ckChoices (chunkFromCompletion c))\<rparr>],
     osErr = None, osCloseErr = None\<rparr>"

lemma raw_irrelevant:
  "scanChoiceSignals (k\<lparr>ckChoices := map (\<lambda>ch. ch\<lparr>chRaw := r\<rparr>) (ckChoices k)\<rparr>) sig = scanChoiceSignals k sig"
  "usageFromChunk u (k\<lparr>ckChoices := map (\<lambda>ch. ch\<lparr>chRaw := r\<rparr>) (ckChoices k)\<rparr>) b = usageFromChunk u k b"
  by (cases "ckChoices k"; simp add: scanChoiceSignals_def usageFromChunk_def finishReasonFromChoice_def Let_def)+

lemma publishCompletion_run:
  assumes "reasoningOnly oc" and "runDriver keepAll [] (publishCompletion oc mapper c rs w) = (ds, w', u, None)"
  shows "\<exists>u2. visible ds = deltasFromChunk oc (hd (osChunks (asStream c))) (snd (scanChoiceSignals (chunkFromCompletion c) ([], False)))
    \<and> u2 = usageFromChunk zeroUsage (chunkFromCompletion c) (snd (scanChoiceSignals (chunkFromCompletion c) ([], False)))
    \<and> openai_mapFinishReason mapper (fst (scanChoiceSignals (chunkFromCompletion c) ([], False))) u2 = (u, None)"
proof -
  let ?k = "chunkFromCompletion c"
  let ?sig = "scanChoiceSignals ?k ([], False)"
  let ?u = "usageFromChunk zeroUsage ?k (snd ?sig)"
  let ?publish = "\<lambda>w'. publishChunk oc ?k zeroUsage (snd ?sig) w'
     (\<lambda>u w''. finishResponse mapper (fst ?sig) u w'') (\<lambda>u w'' e. Done w'' u (Some e))"
  have last: "visible ds = visible s @ deltasFromChunk oc ?k (snd ?sig) \<and> openai_mapFinishReason mapper (fst ?sig) ?u = (u, None)"
    if "runDriver keepAll s (?publish w) = (ds, w', u, None)" for s
    using that by (auto simp: publishChunk_def publishDeltas_run finishResponse_def visible_chunk Let_def split: prod.splits)
  show ?thesis
  proof (cases "cpChoices c")
    case Nil
    then have "runDriver keepAll [] (?publish w) = (ds, w', u, None)"
      using assms(2) by (simp add: publishCompletion_def publishCompletionReasoning_def Let_def)
    from last [OF this] Nil show ?thesis by (simp add: asStream_def chunkFromCompletion_def visible_def)
  next
    case (Cons ch chs)
    let ?r = "reasoningFromRawJSON oc (ccRaw ch)"
    let ?rd = "if ?r = [] then [] else [emptyDelta\<lparr>dReasoning := ?r\<rparr>]"
    have f: "fails (\<lambda>w' e. Done w' zeroUsage (Some e))" by (simp add: fails_def)
    obtain rs' where rs': "ocConsume oc rs (ccRaw ch) False = Inr rs'"
      "runDriver keepAll ?rd (emitReasoning oc rs' w (\<lambda>_ w''. ?publish w'') (\<lambda>w' e. Done w' zeroUsage (Some e))) = (ds, w', u, None)"
      using assms(2) Cons
      by (auto simp: publishCompletion_def publishCompletionReasoning_def Let_def publishDeltas_run split: sum.splits)
    obtain s' where s': "visible s' = visible ?rd" "runDriver keepAll s' (?publish w) = (ds, w', u, None)"
      using emit_run [OF assms(1) f rs'(2)] by blast
    have "visible ?rd @ deltasFromChunk oc ?k (snd ?sig) = deltasFromChunk oc (hd (osChunks (asStream c))) (snd ?sig)"
      using Cons by (simp add: asStream_def chunkFromCompletion_def deltasFromChunk_def visible_def Let_def emptyDelta_def
          finishReasonFromChoice_def reasoningFromRawJSON_def [of oc "[]"])
    with last [OF s'(2)] s'(1) show ?thesis by simp
  qed
qed


definition sampleCompletion :: oaCompletion where
  "sampleCompletion = \<lparr>cpID = ''r'', cpModel = ''gpt-4o'', cpUsage = noTokens\<lparr>ouPrompt := 3, ouCompletion := 2\<rparr>,
     cpChoices = [\<lparr>ccFinishReason = ''tool_calls'', ccContent = ''x'', ccRefusal = [],
       ccToolCalls = [\<lparr>oaID = ''a'', oaName = ''f'', oaArguments = ''{}''\<rparr>], ccRaw = []\<rparr>]\<rparr>"


text \<open>
  A provider failure reaches the retry layer with its meaning intact: an API error is
  retried exactly when it is a rate limit or a server-side failure, never when the quota is
  exhausted or the context is too long, and carries the delay of its Retry-After header; an
  error event inside a stream, which has no status, is judged by its code alone.
\<close>

theorem openai_error_verdict:
  "classifyRetry (Wrap (openai_normalizeProviderError oc (APIError status code header)) msg) = apiVerdict status code
   \<and> as_status (Wrap (openai_normalizeProviderError oc (APIError status code header)) msg) =
       Some (status, case header of None \<Rightarrow> 0 | Some h \<Rightarrow> ParseRetryAfter (ocUntilDate oc) h)
   \<and> classifyRetry (Wrap (openai_normalizeProviderError oc (StreamEventError dat)) msg) =
       (let (reason, retryable, known) = classifyProviderErrorCode (streamErrorCode oc dat) in (reason, 0, retryable))"
proof -
  have "classifyRetry (Wrap (openai_normalizeProviderError oc (StreamEventError dat)) msg) =
       (let (reason, retryable, known) = classifyProviderErrorCode (streamErrorCode oc dat) in (reason, 0, retryable))"
    by (auto simp: openai_normalizeProviderError_def classifyRetry_def as_provider_def as_status_def classifyVerdict_def
        classifyHTTPStatus_def classifyProviderErrorCode_def first_of_def Let_def)
  then show ?thesis using openai_errors.verdict [of oc] openai_errors.delay [of oc] by blast
qed

text \<open>Caller-supplied body fields never replace one the driver builds, and are set in key order.\<close>

lemma extraOptions_fields:
  assumes "distinct (map fst extra)"
  shows "map fst (extraOptions extra) = sort (filter (\<lambda>k. k \<notin> set reservedRequestFields) (map fst extra))"
    and "set (extraOptions extra) = {(k, v) \<in> set extra. k \<notin> set reservedRequestFields}"
proof -
  show "map fst (extraOptions extra) = sort (filter (\<lambda>k. k \<notin> set reservedRequestFields) (map fst extra))"
    by (simp add: extraOptions_def comp_def filter_sort)
  show "set (extraOptions extra) = {(k, v) \<in> set extra. k \<notin> set reservedRequestFields}"
    using assms by (force simp: extraOptions_def)
qed

end
