(* ===== verification/Utf8.thy ===== *)
theory Utf8
  imports GoStrings
begin

text \<open>
  UTF-8: a valid sequence decodes by its own bytes and encodes back to them, every rune's
  encoding decodes to it, and valid text survives the way through its runes.
\<close>

definition validSeg :: "rune \<times> string \<Rightarrow> bool" where
  "validSeg seg \<longleftrightarrow> \<not> (fst seg = runeError \<and> length (snd seg) = 1)"

definition validUTF8 :: "string \<Rightarrow> bool" where
  "validUTF8 s \<longleftrightarrow> list_all validSeg (utf8_segs s)"

definition scalar :: "rune \<Rightarrow> bool" where
  "scalar r \<longleftrightarrow> r \<le> 0x10FFFF \<and> \<not> (0xD800 \<le> r \<and> r \<le> 0xDFFF)"

lemma digit64:
  assumes "a < (64 :: nat)"
  shows "(k * 64 + a) div 64 = k" "(k * 64 + a) mod 64 = a"
  using assms by simp_all

lemma digits3:
  assumes "x < 64" and "y < (64 :: nat)"
  shows "(a * 4096 + x * 64 + y) div 4096 = a" "(a * 4096 + x * 64 + y) div 64 mod 64 = x"
    "(a * 4096 + x * 64 + y) mod 64 = y"
proof -
  have e: "a * 4096 + x * 64 + y = (a * 64 + x) * 64 + y" by simp
  have "(a * 4096 + x * 64 + y) div 64 = a * 64 + x" unfolding e using digit64(1) [OF assms(2)] .
  moreover have "n div 4096 = n div 64 div 64" for n :: nat by (simp add: div_mult2_eq [symmetric])
  ultimately show "(a * 4096 + x * 64 + y) div 4096 = a" "(a * 4096 + x * 64 + y) div 64 mod 64 = x"
    using digit64 [OF assms(1), of a] by simp_all
  show "(a * 4096 + x * 64 + y) mod 64 = y" unfolding e using digit64(2) [OF assms(2)] .
qed

lemma digits4:
  assumes "x < 64" and "y < (64 :: nat)" and "z < 64"
  shows "(a * 262144 + x * 4096 + y * 64 + z) div 262144 = a" "(a * 262144 + x * 4096 + y * 64 + z) div 4096 mod 64 = x"
    "(a * 262144 + x * 4096 + y * 64 + z) div 64 mod 64 = y" "(a * 262144 + x * 4096 + y * 64 + z) mod 64 = z"
proof -
  have e: "a * 262144 + x * 4096 + y * 64 + z = (a * 64 + x) * 4096 + y * 64 + z" by simp
  have "n div 262144 = n div 4096 div 64" for n :: nat by (simp add: div_mult2_eq [symmetric])
  then show "(a * 262144 + x * 4096 + y * 64 + z) div 262144 = a" "(a * 262144 + x * 4096 + y * 64 + z) div 4096 mod 64 = x"
    "(a * 262144 + x * 4096 + y * 64 + z) div 64 mod 64 = y" "(a * 262144 + x * 4096 + y * 64 + z) mod 64 = z"
    unfolding e using digits3 [OF assms(2,3), of "a * 64 + x"] digit64 [OF assms(1), of a] by simp_all
qed

text \<open>A valid sequence decodes by its own bytes, whatever follows, and encodes back to them.\<close>

lemma decodeRune_valid:
  assumes "decodeRune c cs = (r, n)" and "\<not> (r = runeError \<and> n = 1)"
  shows "n - 1 \<le> length cs \<and> 0 < n \<and> scalar r \<and> encodeRune r = c # take (n - 1) cs
    \<and> (\<forall>t. decodeRune c (take (n - 1) cs @ t) = (r, n))"
proof -
  have bc: "of_byte (byte_of c) = c" by simp
  consider "byte_of c < 0x80" | "0xC2 \<le> byte_of c" "byte_of c \<le> 0xDF" | "0xE0 \<le> byte_of c" "byte_of c \<le> 0xEF"
    | "0xF0 \<le> byte_of c" "byte_of c \<le> 0xF4"
    using assms by (auto simp: decodeRune_def Let_def split: if_splits)
  then show ?thesis
  proof cases
    case 1
    then show ?thesis using assms by (auto simp: decodeRune_def encodeRune_def scalar_def Let_def)
  next
    case 2
    then have d: "decode2 (byte_of c) cs = (r, n)" using assms by (simp add: decodeRune_def Let_def)
    then obtain c1 cs' where cs: "cs = c1 # cs'" and c1: "cont_byte (byte_of c1)"
      using assms(2) by (auto simp: decode2_def split: list.splits if_splits)
    define a where "a = byte_of c - 0xC0"
    define x where "x = byte_of c1 - 0x80"
    have v: "byte_of c = 0xC0 + a" "byte_of c1 = 0x80 + x" "x < 64" "2 \<le> a" "a < 32"
      using 2 c1 by (auto simp: a_def x_def cont_byte_def)
    have rn: "r = a * 64 + x" "n = 2" using d cs c1 v by (auto simp: decode2_def)
    have "encodeRune r = [c, c1]"
      using v rn by (auto simp: encodeRune_def Let_def digit64 v(1,2) [symmetric])
    then show ?thesis using cs rn 2 c1 v by (auto simp: decodeRune_def decode2_def scalar_def Let_def)
  next
    case 3
    then have d: "decode3 (byte_of c) cs = (r, n)" using assms by (simp add: decodeRune_def Let_def)
    then obtain c1 c2 cs' where cs: "cs = c1 # c2 # cs'" and c12:
        "(if byte_of c = 0xE0 then 0xA0 else 0x80) \<le> byte_of c1" "byte_of c1 \<le> (if byte_of c = 0xED then 0x9F else 0xBF)"
        "cont_byte (byte_of c2)"
      using assms(2) by (auto simp: decode3_def Let_def split: list.splits if_splits)
    define a where "a = byte_of c - 0xE0"
    define x where "x = byte_of c1 - 0x80"
    define y where "y = byte_of c2 - 0x80"
    have v: "byte_of c = 0xE0 + a" "byte_of c1 = 0x80 + x" "byte_of c2 = 0x80 + y" "a < 16" "x < 64" "y < 64"
        "a = 0 \<Longrightarrow> 32 \<le> x" "a = 13 \<Longrightarrow> x < 32"
      using 3 c12 by (auto simp: a_def x_def y_def cont_byte_def split: if_splits)
    have rn: "r = a * 4096 + x * 64 + y" "n = 3" using d cs c12 v by (auto simp: decode3_def Let_def)
    have big: "0x800 \<le> r" "r < 0x10000" using v rn by (cases "a = 0"; simp)+
    have sur: "scalar r"
    proof -
      have "r < 0xD800 \<or> 0xDFFF < r"
        using v rn by (cases "a < 13"; cases "a = 13"; simp)
      then show ?thesis using big by (auto simp: scalar_def)
    qed
    have "encodeRune r = [of_byte (0xE0 + r div 4096), of_byte (0x80 + r div 64 mod 64), of_byte (0x80 + r mod 64)]"
      using sur big by (auto simp: encodeRune_def scalar_def Let_def)
    then have "encodeRune r = [c, c1, c2]"
      using digits3 [OF v(5,6), of a] by (simp add: rn v(1-3) [symmetric])
    then show ?thesis using cs rn 3 c12 v sur by (auto simp: decodeRune_def decode3_def Let_def)
  next
    case 4
    then have d: "decode4 (byte_of c) cs = (r, n)" using assms by (simp add: decodeRune_def Let_def)
    then obtain c1 c2 c3 cs' where cs: "cs = c1 # c2 # c3 # cs'" and c13:
        "(if byte_of c = 0xF0 then 0x90 else 0x80) \<le> byte_of c1" "byte_of c1 \<le> (if byte_of c = 0xF4 then 0x8F else 0xBF)"
        "cont_byte (byte_of c2)" "cont_byte (byte_of c3)"
      using assms(2) by (auto simp: decode4_def Let_def split: list.splits if_splits)
    define a where "a = byte_of c - 0xF0"
    define x where "x = byte_of c1 - 0x80"
    define y where "y = byte_of c2 - 0x80"
    define z where "z = byte_of c3 - 0x80"
    have v: "byte_of c = 0xF0 + a" "byte_of c1 = 0x80 + x" "byte_of c2 = 0x80 + y" "byte_of c3 = 0x80 + z"
        "a < 5" "x < 64" "y < 64" "z < 64" "a = 0 \<Longrightarrow> 16 \<le> x" "a = 4 \<Longrightarrow> x < 16"
      using 4 c13 by (auto simp: a_def x_def y_def z_def cont_byte_def split: if_splits)
    have rn: "r = a * 262144 + x * 4096 + y * 64 + z" "n = 4" using d cs c13 v by (auto simp: decode4_def Let_def)
    have big: "0x10000 \<le> r" "r \<le> 0x10FFFF" using v rn by (cases "a = 0"; cases "a = 4"; simp)+
    have "encodeRune r = [of_byte (0xF0 + r div 262144), of_byte (0x80 + r div 4096 mod 64),
        of_byte (0x80 + r div 64 mod 64), of_byte (0x80 + r mod 64)]"
      using big by (auto simp: encodeRune_def Let_def)
    then have "encodeRune r = [c, c1, c2, c3]"
      using digits4 [OF v(6-8), of a] by (simp add: rn v(1-4) [symmetric])
    then show ?thesis using cs rn 4 c13 v big by (auto simp: decodeRune_def decode4_def scalar_def Let_def)
  qed
qed

lemma byte_of_sum: "k + d < 256 \<Longrightarrow> byte_of (of_byte (k + d)) = k + d"
  by simp

lemma decodeRune_encode:
  assumes "scalar r"
  shows "\<exists>c cs. encodeRune r = c # cs \<and> (\<forall>t. decodeRune c (cs @ t) = (r, Suc (length cs)))"
proof -
  consider "r < 0x80" | "0x80 \<le> r" "r < 0x800" | "0x800 \<le> r" "r < 0x10000" | "0x10000 \<le> r" "r \<le> 0x10FFFF"
    using assms unfolding scalar_def by linarith
  then show ?thesis
  proof cases
    case 1
    then show ?thesis using assms by (auto simp: encodeRune_def scalar_def decodeRune_def Let_def)
  next
    case 2
    define a where "a = r div 64"
    define x where "x = r mod 64"
    have v: "r = a * 64 + x" "2 \<le> a" "a < 32" "x < 64" using 2 by (auto simp: a_def x_def)
    have e: "encodeRune r = [of_byte (0xC0 + a), of_byte (0x80 + x)]"
      using 2 by (auto simp: encodeRune_def Let_def a_def x_def)
    show ?thesis unfolding e using v by (auto simp: decodeRune_def decode2_def cont_byte_def Let_def)
  next
    case 3
    define a where "a = r div 4096"
    define x where "x = r div 64 mod 64"
    define y where "y = r mod 64"
    have "r div 64 div 64 * 64 + r div 64 mod 64 = r div 64" "r div 64 * 64 + r mod 64 = r"
      by (simp_all only: div_mult_mod_eq)
    moreover have "r div 4096 = r div 64 div 64" by (simp add: div_mult2_eq [symmetric])
    ultimately have "r = r div 4096 * 4096 + r div 64 mod 64 * 64 + r mod 64" by linarith
    then have v: "r = a * 4096 + x * 64 + y" "a < 16" "x < 64" "y < 64"
      using 3 by (auto simp: a_def x_def y_def)
    have w: "a = 0 \<Longrightarrow> 32 \<le> x" "a = 13 \<Longrightarrow> x < 32" using 3 assms v by (auto simp: scalar_def)
    have e: "encodeRune r = [of_byte (0xE0 + a), of_byte (0x80 + x), of_byte (0x80 + y)]"
      using 3 assms by (auto simp: encodeRune_def Let_def a_def x_def y_def scalar_def)
    show ?thesis unfolding e using v w by (auto simp: decodeRune_def decode3_def cont_byte_def Let_def)
  next
    case 4
    define a where "a = r div 262144"
    define x where "x = r div 4096 mod 64"
    define y where "y = r div 64 mod 64"
    define z where "z = r mod 64"
    have "r div 64 div 64 * 64 + r div 64 mod 64 = r div 64" "r div 64 * 64 + r mod 64 = r"
      "r div 4096 div 64 * 64 + r div 4096 mod 64 = r div 4096"
      by (simp_all only: div_mult_mod_eq)
    moreover have "r div 4096 = r div 64 div 64" "r div 262144 = r div 4096 div 64"
      by (simp_all add: div_mult2_eq [symmetric])
    ultimately have "r = r div 262144 * 262144 + r div 4096 mod 64 * 4096 + r div 64 mod 64 * 64 + r mod 64" by linarith
    then have v: "r = a * 262144 + x * 4096 + y * 64 + z" "a < 5" "x < 64" "y < 64" "z < 64"
      using 4 by (auto simp: a_def x_def y_def z_def)
    have w: "a = 0 \<Longrightarrow> 16 \<le> x" "a = 4 \<Longrightarrow> x < 16" using 4 v by auto
    have e: "encodeRune r = [of_byte (0xF0 + a), of_byte (0x80 + x), of_byte (0x80 + y), of_byte (0x80 + z)]"
      using 4 by (auto simp: encodeRune_def Let_def a_def x_def y_def z_def)
    show ?thesis unfolding e using v w by (auto simp: decodeRune_def decode4_def cont_byte_def Let_def)
  qed
qed

lemma segs_valid_append:
  "validUTF8 s \<Longrightarrow> utf8_segs (s @ t) = utf8_segs s @ utf8_segs t"
proof (induction s rule: utf8_segs.induct)
  case (2 c cs)
  obtain r n where d: "decodeRune c cs = (r, n)" by (cases "decodeRune c cs")
  have v: "\<not> (r = runeError \<and> length (c # take (n - 1) cs) = 1)" and rest: "validUTF8 (drop (n - 1) cs)"
    using 2 d by (auto simp: validUTF8_def validSeg_def)
  have "n = 1 \<Longrightarrow> length (c # take (n - 1) cs) = 1" by simp
  with v have "\<not> (r = runeError \<and> n = 1)" by blast
  note dec = decodeRune_valid [OF d this]
  have "decodeRune c (take (n - 1) cs @ drop (n - 1) cs @ t) = (r, n)" using dec by blast
  then have "decodeRune c (cs @ t) = (r, n)" by (metis append.assoc append_take_drop_id)
  moreover have "n \<le> Suc (length cs)" using dec by auto
  moreover have "utf8_segs (drop (n - 1) cs @ t) = utf8_segs (drop (n - 1) cs) @ utf8_segs t"
    using 2(1) [OF d [symmetric] refl rest] .
  ultimately show ?case using d by simp
qed simp

lemma validUTF8_append: "validUTF8 s \<Longrightarrow> validUTF8 t \<Longrightarrow> validUTF8 (s @ t)"
  using segs_valid_append by (simp add: validUTF8_def)

lemma validUTF8_Nil [simp]: "validUTF8 []"
  by (simp add: validUTF8_def)

lemma encodeRune_error: "encodeRune runeError = map of_byte [0xEF, 0xBF, 0xBD]"
  by (simp add: encodeRune_def runeError_def)

lemma encodeRune_default: "\<not> scalar r \<Longrightarrow> encodeRune r = encodeRune runeError"
  by (auto simp: encodeRune_def scalar_def runeError_def Let_def)

lemma runeError_scalar [simp]: "scalar runeError"
  by (simp add: scalar_def runeError_def)

lemma validUTF8_encodeRune: "validUTF8 (encodeRune r)"
proof -
  have *: "validUTF8 (encodeRune r)" if s: "scalar r" for r
  proof -
    obtain c cs where e: "encodeRune r = c # cs" and d: "\<forall>t. decodeRune c (cs @ t) = (r, Suc (length cs))"
      using decodeRune_encode [OF s] by blast
    have "decodeRune c cs = (r, Suc (length cs))" using d [rule_format, of "[]"] by simp
    then have "utf8_segs (c # cs) = [(r, c # cs)]" by simp
    moreover have "r = runeError \<Longrightarrow> length (c # cs) \<noteq> 1"
    proof
      assume "r = runeError" and "length (c # cs) = 1"
      with e encodeRune_error show False by simp
    qed
    ultimately show ?thesis by (simp add: validUTF8_def validSeg_def e)
  qed
  then show ?thesis by (metis encodeRune_default runeError_scalar)
qed

lemma validUTF8_ascii_char: "byte_of c < 0x80 \<Longrightarrow> validUTF8 [c]"
  by (simp add: validUTF8_def validSeg_def decodeRune_def runeError_def)

lemma string_of_runes_valid: "validUTF8 s \<Longrightarrow> string_of_runes (runes s) = s"
proof (induction s rule: utf8_segs.induct)
  case (2 c cs)
  obtain r n where d: "decodeRune c cs = (r, n)" by (cases "decodeRune c cs")
  have v: "\<not> (r = runeError \<and> length (c # take (n - 1) cs) = 1)" and rest: "validUTF8 (drop (n - 1) cs)"
    using 2 d by (auto simp: validUTF8_def validSeg_def)
  then have "\<not> (r = runeError \<and> n = 1)" by auto
  note dec = decodeRune_valid [OF d this]
  have "string_of_runes (runes (drop (n - 1) cs)) = drop (n - 1) cs" using 2 d rest by simp
  then show ?case using d dec by (simp add: runes_def string_of_runes_def Let_def)
qed (simp add: string_of_runes_def)

lemma validUTF8_ascii: "ascii s \<Longrightarrow> validUTF8 s"
proof (induction s)
  case (Cons c s)
  then have "validUTF8 [c]" "validUTF8 s" by (auto simp: ascii_def validUTF8_ascii_char)
  then show ?case using validUTF8_append [of "[c]" s] by simp
qed simp

end
