(* ===== verification/JsonCodec.thy ===== *)
theory JsonCodec
  imports Json Utf8 "HOL-Library.AList" "HOL-Library.Char_ord" "HOL-Library.List_Lexorder"
begin

text \<open>
  What the drivers use of \<open>encoding/json\<close> beside \<open>Valid\<close>: strings in both directions, the
  splitting of objects and arrays into their raw members (\<open>json.RawMessage\<close>), integers, the
  decoding of structs, and the encoding of raw members with \<open>Marshal\<close>'s compaction and HTML
  escapes. The lemmas show that what is written reads back.
\<close>

section \<open>Strings\<close>

text \<open>
  \<open>Marshal\<close> of a string: quotes, backslashes and control characters are escaped, and so are
  the characters HTML treats specially, the line separators of JavaScript and invalid bytes.
\<close>

definition backslash :: char where
  "backslash = CHR 0x5C"

definition jsonEscape :: "rune \<times> string \<Rightarrow> string" where
  "jsonEscape seg =
     (let (r, bs) = seg in
      if r = runeError \<and> length bs = 1 then backslash # ''ufffd''
      else if r \<ge> 0x80 then (if r = 0x2028 \<or> r = 0x2029 then backslash # CHR ''u'' # hex 4 r else bs)
      else if r = 0x5C \<or> r = 0x22 then backslash # bs
      else if r = 8 then backslash # ''b''
      else if r = 12 then backslash # ''f''
      else if r = 10 then backslash # ''n''
      else if r = 13 then backslash # ''r''
      else if r = 9 then backslash # ''t''
      else if r < 0x20 \<or> r = 0x3C \<or> r = 0x3E \<or> r = 0x26 then backslash # CHR ''u'' # hex 4 r
      else bs)"

definition jsonString :: "string \<Rightarrow> string" where
  "jsonString s = CHR 0x22 # concat (map jsonEscape (utf8_segs s)) @ [CHR 0x22]"

text \<open>\<open>getu4\<close>: the four hex digits after \<open>\\u\<close>.\<close>

definition hexVal :: "char \<Rightarrow> nat option" where
  "hexVal c = (let b = byte_of c in
     if 48 \<le> b \<and> b \<le> 57 then Some (b - 48)
     else if 97 \<le> b \<and> b \<le> 102 then Some (b - 87)
     else if 65 \<le> b \<and> b \<le> 70 then Some (b - 55) else None)"

definition hex4 :: "string \<Rightarrow> nat option" where
  "hex4 s = (case s of
       a # b # c # d # _ \<Rightarrow>
         (case (hexVal a, hexVal b, hexVal c, hexVal d) of
            (Some w, Some x, Some y, Some z) \<Rightarrow> Some (w * 4096 + x * 256 + y * 16 + z)
          | _ \<Rightarrow> None)
     | _ \<Rightarrow> None)"

text \<open>A low surrogate escape at the front of \<open>s\<close> that completes the high one \<open>hi\<close>.\<close>

definition surrogatePair :: "nat \<Rightarrow> string \<Rightarrow> nat option" where
  "surrogatePair hi s =
     (case s of
        b # u # rest \<Rightarrow>
          if b = backslash \<and> u = CHR ''u'' then
            (case hex4 rest of
               Some lo \<Rightarrow>
                 if 0xD800 \<le> hi \<and> hi < 0xDC00 \<and> 0xDC00 \<le> lo \<and> lo < 0xE000
                 then Some ((hi - 0xD800) * 1024 + (lo - 0xDC00) + 0x10000) else None
             | None \<Rightarrow> None)
          else None
      | _ \<Rightarrow> None)"

definition plainEscape :: "char \<Rightarrow> char option" where
  "plainEscape c =
     (if c = CHR 0x22 \<or> c = backslash \<or> c = CHR ''/'' \<or> c = CHR 0x27 then Some c
      else if c = CHR ''b'' then Some (of_byte 8) else if c = CHR ''f'' then Some (of_byte 12)
      else if c = CHR ''n'' then Some (of_byte 10) else if c = CHR ''r'' then Some (of_byte 13)
      else if c = CHR ''t'' then Some (of_byte 9) else None)"

text \<open>\<open>unquote\<close>: the text between the quotes of a string literal.\<close>

function junescape :: "string \<Rightarrow> string option" where
  "junescape [] = Some []"
| "junescape (c # cs) =
     (if c = backslash then
        (case cs of
           [] \<Rightarrow> None
         | e # rest \<Rightarrow>
             if e = CHR ''u'' then
               (case hex4 rest of
                  None \<Rightarrow> None
                | Some r \<Rightarrow>
                    if 0xD800 \<le> r \<and> r < 0xE000 then
                      (case surrogatePair r (drop 4 rest) of
                         Some p \<Rightarrow> map_option (\<lambda>t. encodeRune p @ t) (junescape (drop 10 rest))
                       | None \<Rightarrow> map_option (\<lambda>t. encodeRune runeError @ t) (junescape (drop 4 rest)))
                    else map_option (\<lambda>t. encodeRune r @ t) (junescape (drop 4 rest)))
             else
               (case plainEscape e of
                  None \<Rightarrow> None
                | Some x \<Rightarrow> map_option (\<lambda>t. x # t) (junescape rest)))
      else if c = CHR 0x22 \<or> byte_of c < 32 then None
      else if byte_of c < 0x80 then map_option (\<lambda>t. c # t) (junescape cs)
      else let (r, n) = decodeRune c cs in map_option (\<lambda>t. encodeRune r @ t) (junescape (drop (n - 1) cs)))"
  by pat_completeness auto
termination by (relation "measure length") auto

definition junquote :: "string \<Rightarrow> string option" where
  "junquote raw =
     (if length raw \<ge> 2 \<and> hd raw = CHR 0x22 \<and> last raw = CHR 0x22 then junescape (butlast (tl raw)) else None)"

declare junescape.simps(2) [simp del]

lemma hexVal_hexDigit: "n < 16 \<Longrightarrow> hexVal (hexDigit n) = Some n"
  by (simp add: hexVal_def hexDigit_def Let_def)

lemma hex4_expand: "hex 4 r = [hexDigit (r div 4096 mod 16), hexDigit (r div 256 mod 16), hexDigit (r div 16 mod 16), hexDigit (r mod 16)]"
proof -
  have "[0..<4] = [0, 1, 2, 3 :: nat]" by code_simp
  then show ?thesis by (simp add: hex_def)
qed

lemma hex4_hex:
  assumes "r < 65536"
  shows "hex4 (hex 4 r @ t) = Some r"
proof -
  have "r div 16 div 16 * 16 + r div 16 mod 16 = r div 16" "r div 16 * 16 + r mod 16 = r"
    "r div 256 div 16 * 16 + r div 256 mod 16 = r div 256"
    by (simp_all only: div_mult_mod_eq)
  moreover have "r div 256 = r div 16 div 16" "r div 4096 = r div 256 div 16"
    by (simp_all add: div_mult2_eq [symmetric])
  ultimately have "r div 4096 * 4096 + r div 256 mod 16 * 256 + r div 16 mod 16 * 16 + r mod 16 = r" by linarith
  moreover have "r div 4096 < 16" using assms by (simp add: div_less_iff_less_mult)
  moreover have "r div 4096 mod 16 = r div 4096" using assms by simp
  ultimately show ?thesis by (simp add: hex4_expand hex4_def hexVal_hexDigit)
qed

lemma backslash_byte: "byte_of backslash = 0x5C" "backslash \<noteq> CHR 0x22"
  by (simp_all add: backslash_def byte_of_def)

text \<open>One escaped segment reads back as the segment, or as the replacement rune.\<close>

lemma junescape_u:
  assumes "r < 65536" and "scalar r"
  shows "junescape (backslash # CHR ''u'' # hex 4 r @ t) = map_option (\<lambda>x. encodeRune r @ x) (junescape t)"
proof -
  have n: "(0xD800 \<le> r \<and> r < 0xE000) = False" using assms by (auto simp: scalar_def)
  have d: "drop 4 (hex 4 r @ t) = t" by (simp add: hex4_expand)
  show ?thesis unfolding junescape.simps(2) list.case hex4_hex [OF assms(1)] option.case n d
    by simp
qed

text \<open>One escaped segment reads back as its rune.\<close>

lemma junescape_plain:
  "plainEscape e = Some x \<Longrightarrow> e \<noteq> CHR ''u'' \<Longrightarrow> junescape (backslash # e # t) = map_option (\<lambda>r. x # r) (junescape t)"
  by (simp add: junescape.simps(2))

lemma junescape_ascii:
  "c \<noteq> backslash \<Longrightarrow> c \<noteq> CHR 0x22 \<Longrightarrow> 32 \<le> byte_of c \<Longrightarrow> byte_of c < 0x80 \<Longrightarrow>
    junescape (c # t) = map_option (\<lambda>r. c # r) (junescape t)"
  by (simp add: junescape.simps(2))

lemma encodeRune_ascii: "r < 0x80 \<Longrightarrow> encodeRune r = [of_byte r]"
  by (simp add: encodeRune_def)

lemma fffd: "''ufffd'' = CHR ''u'' # hex 4 runeError"
proof -
  have "of_byte 102 = CHR ''f''" "of_byte 100 = CHR ''d''" by code_simp+
  then show ?thesis by (simp add: hex4_expand hexDigit_def runeError_def)
qed

lemma plainEscape_cases:
  "plainEscape (CHR ''b'') = Some (of_byte 8)" "plainEscape (CHR ''f'') = Some (of_byte 12)"
  "plainEscape (CHR ''n'') = Some (of_byte 10)" "plainEscape (CHR ''r'') = Some (of_byte 13)"
  "plainEscape (CHR ''t'') = Some (of_byte 9)"
  "plainEscape (CHR 0x22) = Some (of_byte 0x22)" "plainEscape backslash = Some (of_byte 0x5C)"
  by code_simp+

lemma junescape_escape:
  assumes d: "decodeRune c cs = (r, n)"
  shows "junescape (jsonEscape (r, c # take (n - 1) cs) @ t) = map_option (\<lambda>x. encodeRune r @ x) (junescape t)"
proof (cases "r = runeError \<and> length (c # take (n - 1) cs) = 1")
  case True
  then show ?thesis using junescape_u [of runeError t]
    by (simp add: jsonEscape_def fffd runeError_def scalar_def)
next
  case False
  then have "\<not> (r = runeError \<and> n = 1)" by auto
  note dec = decodeRune_valid [OF d this]
  show ?thesis
  proof (cases "r < 0x80")
    case ascii: True
    then have c: "c = of_byte r" "take (n - 1) cs = []" using dec by (auto simp: encodeRune_ascii)
    have b: "byte_of c = r" using c ascii by simp
    have q: "r \<noteq> 0x22 \<Longrightarrow> c \<noteq> CHR 0x22" "r \<noteq> 0x5C \<Longrightarrow> c \<noteq> backslash"
      using b by (auto simp: byte_of_def backslash_def)
    have esc: "c = CHR 0x22 \<or> c = backslash" if "r = 0x22 \<or> r = 0x5C"
    proof -
      have "of_byte 0x22 = CHR 0x22" "of_byte 0x5C = backslash" by code_simp+
      then show ?thesis using that c by auto
    qed
    consider "r = 0x22 \<or> r = 0x5C" | "r = 8" | "r = 12" | "r = 10" | "r = 13" | "r = 9"
      | "r \<noteq> 0x22" "r \<noteq> 0x5C" "r \<noteq> 8" "r \<noteq> 12" "r \<noteq> 10" "r \<noteq> 13" "r \<noteq> 9" "r < 0x20 \<or> r = 0x3C \<or> r = 0x3E \<or> r = 0x26"
      | "r \<noteq> 0x22" "r \<noteq> 0x5C" "\<not> r < 0x20" "r \<noteq> 0x3C" "r \<noteq> 0x3E" "r \<noteq> 0x26" by linarith
    then show ?thesis
    proof cases
      case 1
      then have "jsonEscape (r, c # take (n - 1) cs) = [backslash, c]" using c by (auto simp: jsonEscape_def runeError_def)
      moreover have "plainEscape c = Some c" "c \<noteq> CHR ''u''"
        using esc [OF 1] by (auto simp: plainEscape_def backslash_def)
      ultimately show ?thesis using junescape_plain [of c c t] c ascii by (simp add: encodeRune_ascii)
    next
      case 7
      then have "jsonEscape (r, c # take (n - 1) cs) = backslash # CHR ''u'' # hex 4 r"
        using ascii by (auto simp: jsonEscape_def runeError_def)
      then show ?thesis using junescape_u [of r t] ascii by (simp add: scalar_def)
    next
      case 8
      then have "jsonEscape (r, c # take (n - 1) cs) = [c]" using c ascii by (auto simp: jsonEscape_def runeError_def)
      then show ?thesis using junescape_ascii [of c t] q 8 b c ascii by (simp add: encodeRune_ascii)
    qed (simp_all add: jsonEscape_def runeError_def junescape_plain plainEscape_cases encodeRune_ascii)
  next
    case big: False
    then have bc: "0x80 \<le> byte_of c" using d by (auto simp: decodeRune_def Let_def split: if_splits)
    show ?thesis
    proof (cases "r = 0x2028 \<or> r = 0x2029")
      case True
      then have "jsonEscape (r, c # take (n - 1) cs) = backslash # CHR ''u'' # hex 4 r"
        by (auto simp: jsonEscape_def runeError_def)
      then show ?thesis using junescape_u [of r t] True by (auto simp: scalar_def)
    next
      case plain: False
      then have "jsonEscape (r, c # take (n - 1) cs) = c # take (n - 1) cs"
      proof -
        have nf: "(r = runeError \<and> length (c # take (n - 1) cs) = 1) = False" using False by blast
        show ?thesis using plain big by (simp only: jsonEscape_def Let_def prod.case nf if_False) simp
      qed
      moreover have "c \<noteq> backslash" "c \<noteq> CHR 0x22" using bc by (auto simp: backslash_def byte_of_def)
      moreover have "decodeRune c (take (n - 1) cs @ t) = (r, n)" "length (take (n - 1) cs) = n - 1" using dec by auto
      ultimately show ?thesis using bc dec by (cases "junescape t") (simp_all add: junescape.simps(2))
    qed
  qed
qed

theorem junquote_jsonString: "junquote (jsonString s) = Some (string_of_runes (runes s))"
proof -
  have "junescape (concat (map jsonEscape (utf8_segs s)) @ []) = Some (string_of_runes (runes s) @ [])"
  proof (induction s rule: utf8_segs.induct)
    case (2 c cs)
    obtain r n where d: "decodeRune c cs = (r, n)" by (cases "decodeRune c cs")
    show ?case using 2 d junescape_escape [OF d] by (simp add: runes_def string_of_runes_def)
  qed (simp add: string_of_runes_def)
  then show ?thesis by (simp add: junquote_def jsonString_def butlast_append)
qed

corollary junquote_valid: "validUTF8 s \<Longrightarrow> junquote (jsonString s) = Some s"
  by (simp add: junquote_jsonString string_of_runes_valid)

text \<open>What is read is always valid.\<close>

lemma junescape_validUTF8: "junescape s = Some t \<Longrightarrow> validUTF8 t"
proof (induction s arbitrary: t rule: junescape.induct)
  case (2 c cs)
  have pre: "validUTF8 (encodeRune r @ x)" if "validUTF8 x" for r x
    using validUTF8_append [OF validUTF8_encodeRune that] .
  have one: "validUTF8 (y # x)" if "validUTF8 x" "byte_of y < 0x80" for y x
    using validUTF8_append [OF validUTF8_ascii_char [OF that(2)] that(1)] by simp
  have pl: "byte_of x < 0x80" if "plainEscape e = Some x" for e x
    using that by (auto simp: plainEscape_def backslash_def byte_of_def of_byte_def split: if_splits)
  show ?case
  proof (cases "c = backslash")
    case True
    then obtain e rest where cs: "cs = e # rest" using 2(7) by (cases cs) (auto simp: junescape.simps(2))
    show ?thesis
    proof (cases "e = CHR ''u''")
      case u: True
      then obtain r where r: "hex4 rest = Some r" using 2(7) True cs by (auto simp: junescape.simps(2) split: option.splits)
      have "\<exists>p x. t = encodeRune p @ x \<and> validUTF8 x"
      proof (cases "0xD800 \<le> r \<and> r < 0xE000")
        case sur: True
        show ?thesis
        proof (cases "surrogatePair r (drop 4 rest)")
          case None
          then show ?thesis using 2(1) [OF True cs u r sur None] 2(7) True cs u r sur
            by (fastforce simp: junescape.simps(2))
        next
          case (Some p)
          then show ?thesis using 2(2) [OF True cs u r sur Some] 2(7) True cs u r sur
            by (fastforce simp: junescape.simps(2))
        qed
      next
        case False
        then obtain x where x: "junescape (drop 4 rest) = Some x" "t = encodeRune r @ x"
          using 2(7) True cs u r by (auto simp: junescape.simps(2))
        then show ?thesis using 2(3) [OF True cs u r False x(1)] by blast
      qed
      then show ?thesis using pre by blast
    next
      case nu: False
      then show ?thesis using 2(4) [OF True cs nu] 2(7) True cs one pl
        by (auto simp: junescape.simps(2) split: option.splits)
    qed
  next
    case False
    then have q: "\<not> (c = CHR 0x22 \<or> byte_of c < 32)" using 2(7) by (auto simp: junescape.simps(2))
    show ?thesis
    proof (cases "byte_of c < 0x80")
      case True
      then show ?thesis using 2(5) [OF False q True] 2(7) False q one by (auto simp: junescape.simps(2))
    next
      case b: False
      obtain r n where d: "decodeRune c cs = (r, n)" by (cases "decodeRune c cs")
      show ?thesis using 2(6) [OF False q b d [symmetric] refl] 2(7) False q b d pre by (auto simp: junescape.simps(2))
    qed
  qed
qed simp

lemma junquote_validUTF8: "junquote raw = Some t \<Longrightarrow> validUTF8 t"
  by (auto simp: junquote_def junescape_validUTF8 split: if_splits)

section \<open>Raw members\<close>

text \<open>
  The extent of the first value of a valid document: a string up to its closing quote, an
  object or array up to the matching bracket, anything else up to a delimiter. The state is the
  depth of open brackets and a mode: outside strings, in a string, after a backslash.
\<close>

definition skipStep :: "nat \<times> nat \<Rightarrow> char \<Rightarrow> nat \<times> nat" where
  "skipStep st c =
     (let (depth, mode) = st in
      if mode = 0 then
        (if c = CHR 0x22 then (depth, 1)
         else if c = CHR ''{'' \<or> c = CHR ''['' then (depth + 1, 0)
         else if c = CHR ''}'' \<or> c = CHR '']'' then (depth - 1, 0) else (depth, 0))
      else if mode = 1 then
        (if c = backslash then (depth, 2) else if c = CHR 0x22 then (depth, 0) else (depth, 1))
      else (depth, 1))"

fun skipRest :: "nat \<times> nat \<Rightarrow> string \<Rightarrow> (string \<times> string) option" where
  "skipRest st [] = None"
| "skipRest st (c # cs) =
     (let st' = skipStep st c
      in if st' = (0, 0) then Some ([c], cs) else map_option (\<lambda>(v, r). (c # v, r)) (skipRest st' cs))"

definition jdelim :: "char \<Rightarrow> bool" where
  "jdelim c \<longleftrightarrow> c = CHR '','' \<or> c = CHR ''}'' \<or> c = CHR '']'' \<or> c = CHR '':'' \<or> jspace c"

definition skipValue :: "string \<Rightarrow> (string \<times> string) option" where
  "skipValue s =
     (case s of
        [] \<Rightarrow> None
      | c # cs \<Rightarrow>
          if c = CHR 0x22 then map_option (\<lambda>(v, r). (c # v, r)) (skipRest (0, 1) cs)
          else if c = CHR ''{'' \<or> c = CHR ''['' then map_option (\<lambda>(v, r). (c # v, r)) (skipRest (1, 0) cs)
          else Some (takeWhile (\<lambda>x. \<not> jdelim x) s, dropWhile (\<lambda>x. \<not> jdelim x) s))"

lemma skipRest_append: "skipRest st s = Some (v, r) \<Longrightarrow> v @ r = s"
proof (induction s arbitrary: st v)
  case (Cons c cs)
  show ?case using Cons.prems by (auto simp: Let_def dest: Cons.IH split: if_splits)
qed simp

lemma skipRest_extend: "skipRest st s = Some (v, r) \<Longrightarrow> skipRest st (s @ t) = Some (v, r @ t)"
proof (induction s arbitrary: st v)
  case (Cons c cs)
  show ?case using Cons.prems by (auto simp: Let_def dest: Cons.IH split: if_splits)
qed simp

lemma skipValue_append: "skipValue s = Some (v, r) \<Longrightarrow> v @ r = s"
  by (auto simp: skipValue_def dest: skipRest_append split: list.splits if_splits)

lemma skipValue_length: "skipValue s = Some (v, r) \<Longrightarrow> length r \<le> length s"
  using skipValue_append by fastforce

lemma dropWhile_Cons_length: "dropWhile P s = c # r \<Longrightarrow> length r < length s"
  using length_dropWhile_le [of P s] by simp

lemma entry_shorter:
  assumes "dropWhile jspace s = c # cs" and "skipValue (c # cs) = Some (k, r)" and "dropWhile jspace r = colon # r1"
    and "skipValue (dropWhile jspace r1) = Some (v, r2)" and "dropWhile jspace r2 = d # r3"
  shows "length r3 < length s"
  using dropWhile_Cons_length [OF assms(1)] skipValue_length [OF assms(2)] dropWhile_Cons_length [OF assms(3)]
    skipValue_length [OF assms(4)] length_dropWhile_le [of jspace r1] dropWhile_Cons_length [OF assms(5)]
  by simp

text \<open>The members of an object, after its opening brace: keys decoded, values raw.\<close>

function objectEntries :: "string \<Rightarrow> (string \<times> string) list option" where
  "objectEntries s =
     (case dropWhile jspace s of
        [] \<Rightarrow> None
      | c # cs \<Rightarrow>
          if c = CHR ''}'' then Some []
          else (case skipValue (c # cs) of
              None \<Rightarrow> None
            | Some (rawKey, r) \<Rightarrow>
                (case (junquote rawKey, dropWhile jspace r) of
                   (Some key, colon # r1) \<Rightarrow>
                     (case skipValue (dropWhile jspace r1) of
                        None \<Rightarrow> None
                      | Some (v, r2) \<Rightarrow>
                          (case dropWhile jspace r2 of
                             [] \<Rightarrow> None
                           | d # r3 \<Rightarrow>
                               if d = CHR '','' then map_option (\<lambda>es. (key, v) # es) (objectEntries r3)
                               else Some [(key, v)]))
                 | _ \<Rightarrow> None)))"
  by pat_completeness auto

termination
  by (relation "measure length") (auto intro: entry_shorter simp: eq_commute)

declare objectEntries.simps [simp del]

text \<open>The items of an array, after its opening bracket.\<close>

function arrayItems :: "string \<Rightarrow> string list option" where
  "arrayItems s =
     (case dropWhile jspace s of
        [] \<Rightarrow> None
      | c # cs \<Rightarrow>
          if c = CHR '']'' then Some []
          else (case skipValue (c # cs) of
              None \<Rightarrow> None
            | Some (v, r) \<Rightarrow>
                (case dropWhile jspace r of
                   [] \<Rightarrow> None
                 | d # r1 \<Rightarrow>
                     if d = CHR '','' then map_option (\<lambda>vs. v # vs) (arrayItems r1) else Some [v])))"
  by pat_completeness auto

termination
  by (relation "measure length") (auto dest!: skipValue_length dropWhile_Cons_length)

declare arrayItems.simps [simp del]

section \<open>Unmarshal\<close>

text \<open>
  \<open>Unmarshal\<close> refuses invalid documents before it stores anything. A value of the wrong kind is
  an error; \<open>null\<close> leaves the target as it was (a nil map or slice, an unchanged string or
  integer). The functions take the target's value and return it updated; \<open>None\<close> is an error.
\<close>

definition jsonTrim :: "string \<Rightarrow> string" where
  "jsonTrim s = rev (dropWhile jspace (rev (dropWhile jspace s)))"

definition isNull :: "string \<Rightarrow> bool" where
  "isNull raw \<longleftrightarrow> raw = ''null''"

definition opens :: "char \<Rightarrow> string \<Rightarrow> bool" where
  "opens c raw \<longleftrightarrow> raw \<noteq> [] \<and> hd raw = c"

definition storeString :: "string \<Rightarrow> string \<Rightarrow> string option" where
  "storeString old raw = (if isNull raw then Some old else if opens (CHR 0x22) raw then junquote raw else None)"

text \<open>An integer literal, read by \<open>strconv.ParseInt\<close>.\<close>

definition storeInt :: "int \<Rightarrow> string \<Rightarrow> int option" where
  "storeInt old raw =
     (if isNull raw then Some old
      else if raw \<noteq> [] \<and> (hd raw = CHR ''-'' \<or> jdigit (hd raw)) then parseInt64 raw else None)"

text \<open>A map of raw members; a key that comes again replaces the earlier one.\<close>

type_synonym rawMap = "(string \<times> string) list"

definition storeMap :: "rawMap \<Rightarrow> string \<Rightarrow> rawMap option" where
  "storeMap old raw =
     (if isNull raw then Some []
      else if opens (CHR ''{'') raw then
        map_option (foldl (\<lambda>m (k, v). AList.update k v m) old) (objectEntries (tl raw))
      else None)"

fun storeAll :: "(string \<Rightarrow> 'a option) \<Rightarrow> string list \<Rightarrow> 'a list option" where
  "storeAll f [] = Some []"
| "storeAll f (x # xs) =
     (case (f x, storeAll f xs) of (Some y, Some ys) \<Rightarrow> Some (y # ys) | _ \<Rightarrow> None)"

definition storeMaps :: "string \<Rightarrow> rawMap list option" where
  "storeMaps raw =
     (if isNull raw then Some []
      else if opens (CHR ''['') raw then Option.bind (arrayItems (tl raw)) (storeAll (storeMap []))
      else None)"

definition unmarshal :: "(string \<Rightarrow> 'a option) \<Rightarrow> string \<Rightarrow> 'a option" where
  "unmarshal store doc = (if json_valid doc then store (jsonTrim doc) else None)"

text \<open>
  Structs. A member belongs to the field of its exact name, or else to the field whose name
  it equals up to case; other members are skipped. Case folding maps only ASCII letters, the
  long s and the Kelvin sign to ASCII letters, so against ASCII field names the other runes
  fold to themselves.
\<close>

definition foldRune :: "rune \<Rightarrow> rune" where
  "foldRune r = (if 97 \<le> r \<and> r \<le> 122 then r - 32 else if r = 0x17F then 83 else if r = 0x212A then 75 else r)"

definition foldName :: "string \<Rightarrow> rune list" where
  "foldName s = map foldRune (runes s)"

definition fieldOf :: "string list \<Rightarrow> string \<Rightarrow> string option" where
  "fieldOf names key =
     (if key \<in> set names then Some key else find (\<lambda>n. foldName n = foldName key) names)"

fun storeFields :: "string list \<Rightarrow> (string \<Rightarrow> string \<Rightarrow> 's \<Rightarrow> 's option) \<Rightarrow> rawMap \<Rightarrow> 's \<Rightarrow> 's option" where
  "storeFields names set_field [] s = Some s"
| "storeFields names set_field ((k, v) # rest) s =
     (case fieldOf names k of
        None \<Rightarrow> storeFields names set_field rest s
      | Some n \<Rightarrow> Option.bind (set_field n v s) (storeFields names set_field rest))"

definition storeStruct :: "string list \<Rightarrow> (string \<Rightarrow> string \<Rightarrow> 's \<Rightarrow> 's option) \<Rightarrow> 's \<Rightarrow> string \<Rightarrow> 's option" where
  "storeStruct names set_field s raw =
     (if isNull raw then Some s
      else if opens (CHR ''{'') raw then
        Option.bind (objectEntries (tl raw)) (\<lambda>es. storeFields names set_field es s)
      else None)"

section \<open>Marshal\<close>

text \<open>
  A raw member is validated, loses the spaces between its tokens and has HTML's special
  characters and the line separators of JavaScript escaped.
\<close>

fun jcompact :: "nat \<Rightarrow> string \<Rightarrow> string" where
  "jcompact mode [] = []"
| "jcompact mode (c # cs) =
     (if c = CHR ''<'' \<or> c = CHR ''>'' \<or> c = CHR ''&'' then
        backslash # CHR ''u'' # hex 4 (byte_of c) @ jcompact (snd (skipStep (0, mode) c)) cs
      else if byte_of c = 0xE2 \<and> length cs \<ge> 2 \<and> byte_of (cs ! 0) = 0x80
           \<and> (byte_of (cs ! 1) = 0xA8 \<or> byte_of (cs ! 1) = 0xA9) then
        backslash # CHR ''u'' # hex 4 (0x2028 + (byte_of (cs ! 1) - 0xA8)) @ jcompact (snd (skipStep (0, mode) c)) (drop 2 cs)
      else if mode = 0 \<and> jspace c then jcompact 0 cs
      else c # jcompact (snd (skipStep (0, mode) c)) cs)"

definition marshalRaw :: "string \<Rightarrow> string option" where
  "marshalRaw raw = (if json_valid raw then Some (jcompact 0 raw) else None)"

definition encodeMember :: "string \<times> string \<Rightarrow> string" where
  "encodeMember kv = jsonString (fst kv) @ CHR '':'' # snd kv"

definition encodeObject :: "(string \<times> string) list \<Rightarrow> string" where
  "encodeObject kvs = CHR ''{'' # join '','' (map encodeMember kvs) @ ''}''"

definition encodeArray :: "string list \<Rightarrow> string" where
  "encodeArray vs = CHR ''['' # join '','' vs @ '']''"

text \<open>A map of raw members is written with its keys in order.\<close>

definition marshalRawMap :: "rawMap \<Rightarrow> string option" where
  "marshalRawMap m =
     (let ks = sort (map fst m)
      in case those (map (\<lambda>k. marshalRaw (the (map_of m k))) ks) of
           None \<Rightarrow> None
         | Some vs \<Rightarrow> Some (encodeObject (zip ks vs)))"

section \<open>What is written reads back\<close>

text \<open>A stretch of text inside a string literal that every scanner passes over unchanged.\<close>

definition strBody :: "string \<Rightarrow> bool" where
  "strBody xs \<longleftrightarrow>
     (\<forall>t d. skipRest (d, 1) (xs @ t) = map_option (\<lambda>(v, r). (xs @ v, r)) (skipRest (d, 1) t))
   \<and> (\<forall>t k. jrun (JInString, k) (xs @ t) = jrun (JInString, k) t)
   \<and> (\<forall>t. jcompact 1 (xs @ t) = xs @ jcompact 1 t)"

definition plainByte :: "char \<Rightarrow> bool" where
  "plainByte c \<longleftrightarrow> c \<noteq> CHR 0x22 \<and> c \<noteq> backslash \<and> 32 \<le> byte_of c \<and> c \<noteq> CHR ''<'' \<and> c \<noteq> CHR ''>'' \<and> c \<noteq> CHR ''&''"

lemma strBody_Nil: "strBody []"
  by (simp add: strBody_def option.map_ident split_def)

lemma strBody_append:
  assumes "strBody xs" and "strBody ys" shows "strBody (xs @ ys)"
  using assms unfolding strBody_def by (simp add: option.map_comp o_def split_def)

lemma strBody_concat: "list_all strBody xss \<Longrightarrow> strBody (concat xss)"
  by (induction xss) (simp_all add: strBody_Nil strBody_append)

lemma strBody_char:
  assumes "plainByte c" and "byte_of c \<noteq> 0xE2" shows "strBody [c]"
  using assms by (simp add: strBody_def plainByte_def skipStep_def backslash_def)

lemma strBody_plain: "list_all (\<lambda>c. plainByte c \<and> byte_of c \<noteq> 0xE2) xs \<Longrightarrow> strBody xs"
proof (induction xs)
  case (Cons x xs)
  then show ?case using strBody_append [OF strBody_char, of x xs] by simp
qed (simp add: strBody_Nil)

definition escapable :: "char \<Rightarrow> bool" where
  "escapable e \<longleftrightarrow> e \<in> set [CHR ''b'', CHR ''f'', CHR ''n'', CHR ''r'', CHR ''t'', CHR 0x5C, CHR ''/'', CHR 0x22]"

lemma escapable_bytes: "escapable e \<Longrightarrow> e \<noteq> CHR ''<'' \<and> e \<noteq> CHR ''>'' \<and> e \<noteq> CHR ''&'' \<and> byte_of e \<noteq> 0xE2"
proof -
  assume "escapable e"
  then have "e = CHR ''b'' \<or> e = CHR ''f'' \<or> e = CHR ''n'' \<or> e = CHR ''r'' \<or> e = CHR ''t'' \<or> e = CHR 0x5C
      \<or> e = CHR ''/'' \<or> e = CHR 0x22" unfolding escapable_def by simp
  then show ?thesis unfolding byte_of_def by (elim disjE; simp)
qed

lemma jstep_escape: "escapable e \<Longrightarrow> jstep (JInStringEsc, k) e = Some (JInString, k)"
  unfolding escapable_def jstep.simps by (simp only: if_True)

lemma strBody_escape:
  assumes "escapable e"
  shows "strBody [backslash, e]"
proof -
  have "skipRest (k, 1) (backslash # e # t) = map_option (\<lambda>(v, r). (backslash # e # v, r)) (skipRest (k, 1) t)" for k t
    by (simp add: skipStep_def option.map_comp o_def split_def)
  moreover have "jrun (JInString, k) (backslash # e # t) = jrun (JInString, k) t" for k t
    using jstep_escape [OF assms] by (simp add: backslash_def del: jstep.simps) (simp add: jstep_escape [OF assms])
  moreover have "jcompact 1 (backslash # e # t) = backslash # e # jcompact 1 t" for t
    using escapable_bytes [OF assms] backslash_byte by (simp add: skipStep_def backslash_def)
  ultimately show ?thesis unfolding strBody_def by (simp only: append_Cons append_Nil simp_thms)
qed

lemma hexDigit_cases:
  assumes "n < 16" shows "jhex (hexDigit n)" "plainByte (hexDigit n)" "byte_of (hexDigit n) \<noteq> 0xE2"
proof -
  have b: "byte_of (hexDigit n) = (if n < 10 then 48 + n else 87 + n)" using assms by (simp add: hexDigit_def)
  then show "jhex (hexDigit n)" "byte_of (hexDigit n) \<noteq> 0xE2" using assms by (auto simp: jhex_def Let_def)
  have "byte_of (hexDigit n) \<notin> {0x22, 0x5C, 0x3C, 0x3E, 0x26}" "32 \<le> byte_of (hexDigit n)" using b assms by auto
  then show "plainByte (hexDigit n)" by (auto simp: plainByte_def backslash_def byte_of_def)
qed

lemma strBody_u: "strBody (backslash # CHR ''u'' # hex 4 r)"
proof -
  define a b c d where "a = hexDigit (r div 4096 mod 16)" "b = hexDigit (r div 256 mod 16)"
    "c = hexDigit (r div 16 mod 16)" "d = hexDigit (r mod 16)"
  note digits = hexDigit_cases [of "r div 4096 mod 16", folded a_b_c_d_def] hexDigit_cases [of "r div 256 mod 16", folded a_b_c_d_def]
    hexDigit_cases [of "r div 16 mod 16", folded a_b_c_d_def] hexDigit_cases [of "r mod 16", folded a_b_c_d_def]
  have p: "strBody [a, b, c, d]" using digits by (intro strBody_plain) simp
  have p1: "skipRest (k, 1) ([a, b, c, d] @ t) = map_option (\<lambda>(v, r). ([a, b, c, d] @ v, r)) (skipRest (k, 1) t)" for k t
    using p unfolding strBody_def by blast
  have p3: "jcompact 1 ([a, b, c, d] @ t) = [a, b, c, d] @ jcompact 1 t" for t
    using p unfolding strBody_def by blast
  have q: "skipRest (k, 1) (backslash # CHR ''u'' # t) = map_option (\<lambda>(v, r). (backslash # CHR ''u'' # v, r)) (skipRest (k, 1) t)"
    for k t by (simp add: skipStep_def backslash_def option.map_comp o_def split_def)
  have "skipRest (k, 1) (backslash # CHR ''u'' # [a, b, c, d] @ t)
      = map_option (\<lambda>(v, r). (backslash # CHR ''u'' # [a, b, c, d] @ v, r)) (skipRest (k, 1) t)" for k t
    unfolding q p1 by (simp only: option.map_comp o_def split_def fst_conv snd_conv)
  moreover have q3: "jcompact 1 (backslash # CHR ''u'' # t) = backslash # CHR ''u'' # jcompact 1 t" for t
    by (simp add: skipStep_def backslash_def byte_of_def)
  then have "jcompact 1 (backslash # CHR ''u'' # [a, b, c, d] @ t) = backslash # CHR ''u'' # [a, b, c, d] @ jcompact 1 t" for t
    by (simp only: q3 p3)
  moreover have "jrun (JInString, k) (backslash # CHR ''u'' # [a, b, c, d] @ t) = jrun (JInString, k) t" for k t
    using digits by (simp add: backslash_def)
  ultimately show ?thesis unfolding strBody_def hex4_expand a_b_c_d_def [symmetric] append_Cons
    by (simp only: append_Cons append_Nil simp_thms)
qed

lemma strBody_multibyte:
  assumes d: "decodeRune c cs = (r, n)" and v: "\<not> (r = runeError \<and> n = 1)" and big: "\<not> r < 0x80"
    and sep: "r \<noteq> 0x2028" "r \<noteq> 0x2029"
  shows "strBody (c # take (n - 1) cs)"
proof -
  note dec = decodeRune_valid [OF d v]
  have e: "encodeRune r = c # take (n - 1) cs" and sc: "scalar r" using dec by auto
  have hi: "plainByte (of_byte b)" if "128 \<le> b" "b < 256" for b
  proof -
    have "byte_of (of_byte b) = b" using that by simp
    then show ?thesis using that unfolding plainByte_def backslash_def by (auto simp: byte_of_def)
  qed
  show ?thesis
  proof (cases "byte_of c = 0xE2")
    case False
    have "list_all (\<lambda>x. plainByte x \<and> byte_of x \<noteq> 0xE2) (c # take (n - 1) cs)"
    proof -
      have "list_all (\<lambda>x. 128 \<le> byte_of x) (encodeRune r)"
        using big sc by (auto simp: encodeRune_def scalar_def Let_def)
      moreover have "list_all (\<lambda>x. byte_of x \<noteq> 0xE2) (tl (encodeRune r))"
        using big sc by (auto simp: encodeRune_def scalar_def Let_def)
      ultimately show ?thesis using False hi [of "byte_of x" for x] unfolding e
        by (auto simp: list_all_iff)
    qed
    then show ?thesis by (rule strBody_plain)
  next
    case True
    have rng: "0x800 \<le> r" "r < 0x10000" "r div 4096 = 2"
      using True e sc big by (auto simp: encodeRune_def scalar_def Let_def split: if_splits)
    define x where "x = r div 64 mod 64"
    define y where "y = r mod 64"
    have e3: "c # take (n - 1) cs = [of_byte 0xE2, of_byte (0x80 + x), of_byte (0x80 + y)]"
      using rng sc unfolding e [symmetric] by (auto simp: encodeRune_def scalar_def Let_def x_def y_def)
    have xy: "x < 64" "y < 64" by (simp_all add: x_def y_def)
    have "r div 64 div 64 * 64 + r div 64 mod 64 = r div 64" "r div 64 * 64 + r mod 64 = r"
      by (simp_all only: div_mult_mod_eq)
    moreover have "r div 4096 = r div 64 div 64" by (simp add: div_mult2_eq [symmetric])
    ultimately have r: "r = 8192 + x * 64 + y" using rng unfolding x_def y_def by linarith
    have no: "\<not> (x = 0 \<and> (y = 0x28 \<or> y = 0x29))" using sep r by auto
    have tail: "strBody [of_byte (0x80 + x), of_byte (0x80 + y)]"
      using xy hi [of "0x80 + x"] hi [of "0x80 + y"] by (intro strBody_plain) simp
    have p: "plainByte (of_byte 0xE2)" "byte_of (of_byte 0xE2) = 0xE2" using hi [of "0xE2"] by simp_all
    have s1: "skipStep (k, 1) (of_byte 0xE2) = (k, 1)" for k
      using p unfolding skipStep_def plainByte_def by simp
    have "skipRest (k, 1) (of_byte 0xE2 # t) = map_option (\<lambda>(v, r). (of_byte 0xE2 # v, r)) (skipRest (k, 1) t)" for k t
      using s1 by simp
    moreover have "jrun (JInString, k) (of_byte 0xE2 # t) = jrun (JInString, k) t" for k t
      using p unfolding plainByte_def backslash_def by simp
    moreover have "jcompact 1 (of_byte 0xE2 # of_byte (0x80 + x) # of_byte (0x80 + y) # t)
        = of_byte 0xE2 # jcompact 1 (of_byte (0x80 + x) # of_byte (0x80 + y) # t)" for t
    proof -
      have "byte_of (of_byte (0x80 + x)) = 0x80 + x" "byte_of (of_byte (0x80 + y)) = 0x80 + y" using xy by simp_all
      then show ?thesis using p no s1 [of 0] unfolding plainByte_def by (subst jcompact.simps(2)) auto
    qed
    ultimately show ?thesis using tail unfolding e3 strBody_def append_Cons append_Nil
      by (simp add: option.map_comp o_def split_def del: jcompact.simps skipRest.simps jrun.simps)
  qed
qed

lemma jsonEscape_ascii:
  assumes "r < 0x80"
  shows "(\<exists>e. escapable e \<and> jsonEscape (r, [of_byte r]) = [backslash, e])
    \<or> jsonEscape (r, [of_byte r]) = backslash # CHR ''u'' # hex 4 r
    \<or> jsonEscape (r, [of_byte r]) = [of_byte r] \<and> plainByte (of_byte r)"
proof -
  have esc: "escapable (CHR ''b'')" "escapable (CHR ''f'')" "escapable (CHR ''n'')" "escapable (CHR ''r'')" "escapable (CHR ''t'')"
    "escapable (of_byte 0x5C)" "escapable (of_byte 0x22)" by code_simp+
  have ne: "(r = runeError \<and> length [of_byte r] = 1) = False" using assms by (simp add: runeError_def)
  have lo: "(0x80 \<le> r) = False" using assms by simp
  note js = jsonEscape_def Let_def prod.case ne lo if_False
  consider "r = 0x5C" | "r = 0x22" | "r = 8" | "r = 12" | "r = 10" | "r = 13" | "r = 9"
    | "r \<noteq> 0x22" "r \<noteq> 0x5C" "r \<noteq> 8" "r \<noteq> 12" "r \<noteq> 10" "r \<noteq> 13" "r \<noteq> 9" "r < 0x20 \<or> r = 0x3C \<or> r = 0x3E \<or> r = 0x26"
    | "r \<noteq> 0x22" "r \<noteq> 0x5C" "\<not> r < 0x20" "r \<noteq> 0x3C" "r \<noteq> 0x3E" "r \<noteq> 0x26" by linarith
  then show ?thesis
  proof cases
    case 8
    then show ?thesis unfolding js by auto
  next
    case 9
    then have "byte_of (of_byte r) = r" using assms by simp
    then have "plainByte (of_byte r)" using 9 unfolding plainByte_def backslash_def by (auto simp: byte_of_def)
    then show ?thesis using 9 unfolding js by auto
  qed (use esc in \<open>simp_all only: js\<close>, auto simp: runeError_def)
qed

lemma strBody_jsonEscape:
  assumes d: "decodeRune c cs = (r, n)"
  shows "strBody (jsonEscape (r, c # take (n - 1) cs))"
proof (cases "r = runeError \<and> length (c # take (n - 1) cs) = 1")
  case True
  then show ?thesis using strBody_u [of runeError] by (simp add: jsonEscape_def fffd)
next
  case False
  then have v: "\<not> (r = runeError \<and> n = 1)" by auto
  have nf: "(r = runeError \<and> length (c # take (n - 1) cs) = 1) = False" using False by blast
  note dec = decodeRune_valid [OF d v]
  show ?thesis
  proof (cases "r < 0x80")
    case big: False
    show ?thesis
    proof (cases "r = 0x2028 \<or> r = 0x2029")
      case True
      then show ?thesis using strBody_u [of r] unfolding jsonEscape_def Let_def prod.case nf if_False by auto
    next
      case False
      then show ?thesis using big strBody_multibyte [OF d v big]
        unfolding jsonEscape_def Let_def prod.case nf if_False by simp
    qed
  next
    case True
    then have c: "c # take (n - 1) cs = [of_byte r]" using dec by (simp add: encodeRune_ascii)
    have "byte_of (of_byte r) \<noteq> 0xE2" using True by simp
    then show ?thesis using jsonEscape_ascii [OF True] strBody_u strBody_escape strBody_char unfolding c
      by (elim disjE exE conjE) simp_all
  qed
qed

lemma strBody_string: "strBody (concat (map jsonEscape (utf8_segs s)))"
proof (induction s rule: utf8_segs.induct)
  case (2 c cs)
  obtain r n where d: "decodeRune c cs = (r, n)" by (cases "decodeRune c cs")
  show ?case using 2 d strBody_append [OF strBody_jsonEscape [OF d]] by simp
qed (simp add: strBody_Nil)

text \<open>
  A raw member: the scan for a value's extent takes all of it, and passes over it inside an
  enclosing value. \<open>valueAt k\<close>: the validating scanner takes it as a value under the open
  brackets \<open>k\<close>.
\<close>

definition rawValue :: "string \<Rightarrow> bool" where
  "rawValue v \<longleftrightarrow> skipValue v = Some (v, []) \<and> v \<noteq> [] \<and> skipRest (1, 0) (v @ ''}'') = Some (v @ ''}'', [])"

definition valueAt :: "jopen list \<Rightarrow> string \<Rightarrow> bool" where
  "valueAt k v \<longleftrightarrow>
     (case jrun (JBeginValue, k) v of
        Some (st, k') \<Rightarrow> k' = k \<and> (st = JEndValue \<or> st = J0 \<or> st = J1 \<or> st = JDot0 \<or> st = JE0)
      | None \<Rightarrow> False)"

definition staysOpen :: "string \<Rightarrow> bool" where
  "staysOpen v \<longleftrightarrow> (\<forall>d t. 0 < d \<longrightarrow> skipRest (d, 0) (v @ t) = map_option (\<lambda>(x, r). (v @ x, r)) (skipRest (d, 0) t))"

lemma staysOpen_append: "staysOpen v \<Longrightarrow> staysOpen w \<Longrightarrow> staysOpen (v @ w)"
  unfolding staysOpen_def by (simp add: option.map_comp o_def split_def)

lemma staysOpen_Nil: "staysOpen []"
  by (simp add: staysOpen_def option.map_ident split_def)

lemma staysOpen_char: "c \<noteq> CHR 0x22 \<Longrightarrow> c \<noteq> CHR ''{'' \<Longrightarrow> c \<noteq> CHR ''['' \<Longrightarrow> c \<noteq> CHR ''}'' \<Longrightarrow> c \<noteq> CHR '']'' \<Longrightarrow> staysOpen [c]"
  by (simp add: staysOpen_def skipStep_def)

lemma staysOpen_jsonString: "staysOpen (jsonString s)"
proof -
  have b: "skipRest (d, 1) (concat (map jsonEscape (utf8_segs s)) @ t)
      = map_option (\<lambda>(v, r). (concat (map jsonEscape (utf8_segs s)) @ v, r)) (skipRest (d, 1) t)" for d t
    using strBody_string unfolding strBody_def by blast
  show ?thesis unfolding staysOpen_def jsonString_def
    using backslash_byte(2) [THEN not_sym]
    by (auto simp: skipStep_def Let_def b option.map_comp o_def split_def simp del: One_nat_def)
qed

text \<open>The run of the scan, and its shift by enclosing brackets.\<close>

lemma skipStep_shift:
  assumes "(d, m) \<noteq> (0, 0)"
  shows "skipStep (k + d, m) c = (k + fst (skipStep (d, m) c), snd (skipStep (d, m) c))"
proof (cases "m = 0")
  case True
  then have "0 < d" using assms by simp
  then show ?thesis using True by (simp add: skipStep_def)
next
  case False
  then show ?thesis by (simp add: skipStep_def)
qed

lemma skipRest_run:
  "skipRest st (v @ [c]) = Some (v @ [c], []) \<Longrightarrow> st \<noteq> (0, 0) \<Longrightarrow>
    \<exists>e m. (e, m) \<noteq> (0, 0) \<and> skipStep (e, m) c = (0, 0)
      \<and> (\<forall>k t. skipRest (k + fst st, snd st) (v @ t) = map_option (\<lambda>(x, r). (v @ x, r)) (skipRest (k + e, m) t))"
proof (induction v arbitrary: st)
  case Nil
  then have "skipStep st c = (0, 0)" by (auto simp: Let_def split: if_splits)
  then show ?case using Nil
    by (intro exI [of _ "fst st"] exI [of _ "snd st"]) (auto simp: option.map_ident split_def)
next
  case (Cons x v)
  obtain d m where st: "st = (d, m)" by (cases st)
  obtain d' m' where s: "skipStep (d, m) x = (d', m')" by (cases "skipStep (d, m) x")
  have p: "skipRest (d, m) (x # (v @ [c])) = Some (x # (v @ [c]), [])" using Cons.prems(1) st by simp
  have ne: "(d', m') \<noteq> (0, 0)"
  proof
    assume z: "(d', m') = (0, 0)"
    then have "Some ([x], v @ [c]) = Some (x # (v @ [c]), [])" using p unfolding skipRest.simps(2) Let_def s by simp
    then show False by simp
  qed
  then have "map_option (\<lambda>(y, r). (x # y, r)) (skipRest (d', m') (v @ [c])) = Some (x # (v @ [c]), [])"
    using p unfolding skipRest.simps(2) Let_def s by (simp split: if_splits)
  then have "skipRest (d', m') (v @ [c]) = Some (v @ [c], [])" by auto
  from Cons.IH [OF this ne] obtain e m2 where r: "(e, m2) \<noteq> (0, 0)" "skipStep (e, m2) c = (0, 0)"
    "\<And>k t. skipRest (k + d', m') (v @ t) = map_option (\<lambda>(x, r). (v @ x, r)) (skipRest (k + e, m2) t)" by auto
  have "skipRest (k + d, m) (x # v @ t) = map_option (\<lambda>(y, r). (x # v @ y, r)) (skipRest (k + e, m2) t)" for k t
  proof -
    have "skipStep (k + d, m) x = (k + d', m')" using skipStep_shift [of d m k x] Cons.prems(2) st s by simp
    moreover have "((k + d', m') = (0, 0)) = False" using ne by auto
    ultimately show ?thesis unfolding skipRest.simps(2) Let_def
      by (simp only: if_False r(3) option.map_comp o_def split_def fst_conv snd_conv)
  qed
  then show ?case using r st by (intro exI [of _ e] exI [of _ m2]) simp
qed

lemma rawValue_staysOpen:
  assumes "rawValue v" shows "staysOpen v"
proof -
  have run: "skipRest (1, 0) (v @ [CHR ''}'']) = Some (v @ [CHR ''}''], [])" using assms by (simp add: rawValue_def)
  then obtain e m where em: "(e, m) \<noteq> (0, 0)" "skipStep (e, m) (CHR ''}'') = (0, 0)"
    and sh: "\<And>k t. skipRest (k + 1, 0) (v @ t) = map_option (\<lambda>(x, r). (v @ x, r)) (skipRest (k + e, m) t)"
    using skipRest_run [OF run] by auto
  have e: "e = 1 \<and> m = 0" using em by (auto simp: skipStep_def Let_def split: if_splits)
  have "skipRest (d, 0) (v @ t) = map_option (\<lambda>(x, r). (v @ x, r)) (skipRest (d, 0) t)" if "0 < d" for d t
    using sh [of "d - 1" t] that e by simp
  then show ?thesis by (simp add: staysOpen_def)
qed

text \<open>A raw member ends where a delimiter follows.\<close>

lemma skipValue_raw:
  assumes "rawValue v" and "jdelim d"
  shows "skipValue (v @ d # r) = Some (v, d # r)"
proof -
  obtain c cs where v: "v = c # cs" using assms(1) by (cases v) (auto simp: rawValue_def)
  have s: "skipValue (c # cs) = Some (c # cs, [])" using assms(1) v by (simp add: rawValue_def)
  consider "c = CHR 0x22" | "c = CHR ''{'' \<or> c = CHR ''[''" | "c \<noteq> CHR 0x22" "c \<noteq> CHR ''{''" "c \<noteq> CHR ''[''" by blast
  then show ?thesis
  proof cases
    case 1
    then have "skipRest (0, 1) cs = Some (cs, [])" using s by (auto simp: skipValue_def)
    from skipRest_extend [OF this, of "d # r"] show ?thesis using 1 v by (simp add: skipValue_def)
  next
    case 2
    then have "skipRest (1, 0) cs = Some (cs, [])" using s by (auto simp: skipValue_def)
    from skipRest_extend [OF this, of "d # r"] show ?thesis using 2 v by (auto simp: skipValue_def)
  next
    case 3
    then have "\<forall>x \<in> set v. \<not> jdelim x" using s v by (auto simp: skipValue_def takeWhile_eq_all_conv split: if_splits)
    then show ?thesis using 3 v assms(2) by (simp add: skipValue_def takeWhile_append2 dropWhile_append2)
  qed
qed

lemma rawValue_head:
  assumes "rawValue v" shows "dropWhile jspace (v @ t) = v @ t" "v \<noteq> []"
proof -
  obtain c cs where v: "v = c # cs" using assms by (cases v) (auto simp: rawValue_def)
  have "\<not> jspace c"
  proof
    assume "jspace c"
    then have "c \<noteq> CHR 0x22" "c \<noteq> CHR ''{''" "c \<noteq> CHR ''[''" "jdelim c" by (auto simp: jspace_def jdelim_def)
    then have "skipValue v = Some ([], v)" unfolding v by (simp add: skipValue_def)
    moreover have "skipValue v = Some (v, [])" "v \<noteq> []" using assms by (simp_all add: rawValue_def)
    ultimately show False by simp
  qed
  then show "dropWhile jspace (v @ t) = v @ t" "v \<noteq> []" using v by simp_all
qed

lemma skipValue_jsonString: "skipValue (jsonString s @ t) = Some (jsonString s, t)"
proof -
  have "skipRest (d, 1) (concat (map jsonEscape (utf8_segs s)) @ t)
      = map_option (\<lambda>(v, r). (concat (map jsonEscape (utf8_segs s)) @ v, r)) (skipRest (d, 1) t)" for d t
    using strBody_string unfolding strBody_def by blast
  then show ?thesis using backslash_byte(2) [THEN not_sym]
    by (simp add: skipValue_def jsonString_def skipStep_def del: One_nat_def)
qed

lemma rawValue_jsonString: "rawValue (jsonString s)"
  using staysOpen_jsonString [of s] skipValue_jsonString [of s "[]"]
  by (simp add: rawValue_def staysOpen_def skipStep_def) (simp add: jsonString_def)

subsection \<open>Objects\<close>

lemma join_Cons: "join sep (x # xs) = x @ (if xs = [] then [] else sep @ join sep xs)"
  by (cases xs) simp_all

lemma joined_Cons:
  "join '','' (map encodeMember ((k, v) # es)) @ t =
    jsonString k @ CHR '':'' # v @ (if es = [] then t else CHR '','' # join '','' (map encodeMember es) @ t)"
  by (simp add: join_Cons encodeMember_def)

lemma jsonString_head: "jsonString k @ t = CHR 0x22 # tl (jsonString k) @ t"
  by (simp add: jsonString_def)

definition readKey :: "string \<Rightarrow> string" where
  "readKey k = string_of_runes (runes k)"

lemma objectEntries_members:
  assumes "es \<noteq> []" and "list_all (\<lambda>(k, v). rawValue v) es"
  shows "objectEntries (join '','' (map encodeMember es) @ CHR ''}'' # t) = Some (map (\<lambda>(k, v). (readKey k, v)) es)"
  using assms
proof (induction es)
  case (Cons e es)
  obtain k v where e: "e = (k, v)" by (cases e)
  have raw: "rawValue v" using Cons.prems e by simp
  define u where "u = (if es = [] then CHR ''}'' # t else CHR '','' # join '','' (map encodeMember es) @ CHR ''}'' # t)"
  obtain d u' where u: "u = d # u'" and d: "d = (if es = [] then CHR ''}'' else CHR '','')"
    by (cases "es = []") (simp_all add: u_def)
  have jd: "jdelim d" "\<not> jspace d" using d by (auto simp: jdelim_def jspace_def)
  have s: "join '','' (map encodeMember (e # es)) @ CHR ''}'' # t = jsonString k @ CHR '':'' # v @ u"
    unfolding e joined_Cons u_def by simp
  have ws: "dropWhile jspace (jsonString k @ x) = jsonString k @ x" for x by (simp add: jsonString_def jspace_def)
  have r1: "objectEntries (jsonString k @ CHR '':'' # v @ u) =
      (if d = CHR '','' then map_option (\<lambda>xs. (readKey k, v) # xs) (objectEntries u') else Some [(readKey k, v)])"
  proof -
    have "dropWhile jspace (jsonString k @ CHR '':'' # v @ u) = CHR 0x22 # tl (jsonString k) @ CHR '':'' # v @ u"
      unfolding ws by (simp add: jsonString_def)
    moreover have "skipValue (CHR 0x22 # tl (jsonString k) @ CHR '':'' # v @ u) = Some (jsonString k, CHR '':'' # v @ u)"
      using skipValue_jsonString [of k "CHR '':'' # v @ u"] by (simp add: jsonString_def)
    moreover have "dropWhile jspace (CHR '':'' # v @ u) = CHR '':'' # v @ u" by (simp add: jspace_def)
    moreover have "skipValue (v @ u) = Some (v, u)" using skipValue_raw [OF raw jd(1)] u by simp
    ultimately show ?thesis using rawValue_head(1) [OF raw] junquote_jsonString [of k] u jd(2)
      by (subst objectEntries.simps) (simp add: readKey_def)
  qed
  show ?case
  proof (cases "es = []")
    case True
    then show ?thesis unfolding s r1 using d e by simp
  next
    case False
    then have "u' = join '','' (map encodeMember es) @ CHR ''}'' # t" using u by (auto simp: u_def)
    then have "objectEntries u' = Some (map (\<lambda>(k, v). (readKey k, v)) es)" using Cons.IH Cons.prems False by simp
    then show ?thesis unfolding s r1 using d e False by simp
  qed
qed simp

lemma objectEntries_encode:
  assumes "list_all (\<lambda>(k, v). rawValue v) es"
  shows "objectEntries (tl (encodeObject es) @ t) = Some (map (\<lambda>(k, v). (readKey k, v)) es)"
proof (cases "es = []")
  case True
  then show ?thesis by (subst objectEntries.simps) (simp add: encodeObject_def jspace_def)
next
  case False
  then show ?thesis using objectEntries_members [OF False assms, of t] by (simp add: encodeObject_def)
qed

text \<open>The extent of an object is the object.\<close>

lemma staysOpen_members:
  "list_all (\<lambda>(k, v). staysOpen v) es \<Longrightarrow> staysOpen (join '','' (map encodeMember es))"
proof (induction es)
  case (Cons e es)
  obtain k v where e: "e = (k, v)" by (cases e)
  have "staysOpen ([CHR '':''] @ v)" "staysOpen ([CHR '',''] @ join '','' (map encodeMember es))"
    using Cons e by (auto intro!: staysOpen_append staysOpen_char simp del: append_Cons)
  moreover have "encodeMember (k, v) = jsonString k @ CHR '':'' # v" by (simp add: encodeMember_def)
  ultimately show ?case using staysOpen_append [OF staysOpen_jsonString, of "[CHR '':''] @ v" k]
      staysOpen_append [of "jsonString k @ CHR '':'' # v" "[CHR '',''] @ join '','' (map encodeMember es)"]
    by (auto simp: join_Cons e)
qed (simp add: staysOpen_Nil)

lemma skipRest_object:
  assumes "list_all (\<lambda>(k, v). rawValue v) es"
  shows "skipRest (Suc d, 0) (tl (encodeObject es) @ t) =
    (if d = 0 then Some (tl (encodeObject es), t) else map_option (\<lambda>(x, r). (tl (encodeObject es) @ x, r)) (skipRest (d, 0) t))"
proof -
  have "list_all (\<lambda>(k, v). staysOpen v) es" using assms rawValue_staysOpen by (auto simp: list_all_iff)
  from staysOpen_members [OF this]
  have "skipRest (Suc d, 0) (join '','' (map encodeMember es) @ CHR ''}'' # t) =
      map_option (\<lambda>(x, r). (join '','' (map encodeMember es) @ x, r)) (skipRest (Suc d, 0) (CHR ''}'' # t))"
    unfolding staysOpen_def by blast
  then show ?thesis by (auto simp: encodeObject_def skipStep_def option.map_comp o_def split_def)
qed

lemma rawValue_object:
  assumes "list_all (\<lambda>(k, v). rawValue v) es"
  shows "rawValue (encodeObject es)"
proof -
  have h: "encodeObject es = CHR ''{'' # tl (encodeObject es)" by (simp add: encodeObject_def)
  have "skipValue (encodeObject es) = Some (encodeObject es, [])"
    using skipRest_object [OF assms, of 0 "[]"] by (subst (1 2) h) (simp add: skipValue_def)
  moreover have "skipRest (1, 0) (encodeObject es @ ''}'') = Some (encodeObject es @ ''}'', [])"
    using skipRest_object [OF assms, of 1 "''}''"] by (subst (1 2) h) (simp add: skipStep_def)
  ultimately show ?thesis by (simp add: rawValue_def) (simp add: encodeObject_def)
qed

text \<open>The validating scanner accepts the object wherever its members are accepted.\<close>

lemma jrun_jsonString:
  "jrun (JBeginValue, k) (jsonString s @ t) = jrun (JEndValue, k) t"
  "jrun (JBeginString, k) (jsonString s @ t) = jrun (JEndValue, k) t"
  "jrun (JBeginStringOrEmpty, k) (jsonString s @ t) = jrun (JEndValue, k) t"
proof -
  have b: "jrun (JInString, k) (concat (map jsonEscape (utf8_segs s)) @ x) = jrun (JInString, k) x" for x
    using strBody_string unfolding strBody_def by blast
  show "jrun (JBeginValue, k) (jsonString s @ t) = jrun (JEndValue, k) t"
    "jrun (JBeginString, k) (jsonString s @ t) = jrun (JEndValue, k) t"
    "jrun (JBeginStringOrEmpty, k) (jsonString s @ t) = jrun (JEndValue, k) t"
    by (simp_all add: jsonString_def b beginValue_def beginString_def jspace_def)
qed

lemma valueAt_jsonString: "valueAt k (jsonString s)"
  using jrun_jsonString(1) [of k s "[]"] by (simp add: valueAt_def)

lemma jrun_valueAt:
  assumes "valueAt k v" and "k \<noteq> []" and "c = CHR '','' \<or> c = CHR ''}'' \<or> c = CHR '']''"
  shows "jrun (JBeginValue, k) (v @ c # t) = jrun (JEndValue, k) (c # t)"
proof -
  obtain st where st: "jrun (JBeginValue, k) v = Some (st, k)" "st = JEndValue \<or> st = J0 \<or> st = J1 \<or> st = JDot0 \<or> st = JE0"
    using assms(1) by (auto simp: valueAt_def split: option.splits prod.splits)
  have nd: "\<not> jdigit c" using assms(3) by (auto simp: jdigit_def digit_val_def byte_of_def)
  have "jstep (st, k) c = jstep (JEndValue, k) c"
    using st(2) nd assms(3) by (auto simp: numberEnd_def)
  then show ?thesis using st(1) by (simp add: jrun_append)
qed

lemma jrun_members:
  assumes "es \<noteq> []" and "list_all (\<lambda>(k, v). valueAt (ParseObjectValue # st) v) es" and "b = JBeginString \<or> b = JBeginStringOrEmpty"
  shows "jrun (b, ParseObjectKey # st) (join '','' (map encodeMember es) @ CHR ''}'' # t) =
    jrun (if st = [] then JEndTop else JEndValue, st) t"
  using assms
proof (induction es arbitrary: b)
  case (Cons e es)
  obtain k v where e: "e = (k, v)" by (cases e)
  have va: "valueAt (ParseObjectValue # st) v" using Cons.prems e by simp
  have "jrun (b, ParseObjectKey # st) (join '','' (map encodeMember (e # es)) @ CHR ''}'' # t) =
      jrun (JBeginValue, ParseObjectValue # st)
        (v @ (if es = [] then CHR ''}'' # t else CHR '','' # join '','' (map encodeMember es) @ CHR ''}'' # t))"
    using Cons.prems(3) unfolding e joined_Cons by (auto simp: jrun_jsonString endValue_def jspace_def)
  also have "\<dots> = jrun (if st = [] then JEndTop else JEndValue, st) t"
  proof (cases "es = []")
    case True
    then show ?thesis using jrun_valueAt [OF va, of "CHR ''}''" t] by (simp add: endValue_def jspace_def jpop_def)
  next
    case False
    then show ?thesis using jrun_valueAt [OF va, of "CHR '',''"] Cons.IH [OF False, of JBeginString] Cons.prems
      by (simp add: endValue_def jspace_def)
  qed
  finally show ?case .
qed simp

lemma jrun_object:
  assumes "list_all (\<lambda>(k, v). valueAt (ParseObjectValue # st) v) es" and "length st < maxNestingDepth"
  shows "jrun (JBeginValue, st) (encodeObject es @ t) = jrun (if st = [] then JEndTop else JEndValue, st) t"
proof (cases "es = []")
  case True
  then show ?thesis using assms(2)
    by (simp add: encodeObject_def beginValue_def jspace_def jpush_def endValue_def jpop_def)
next
  case False
  then show ?thesis using jrun_members [OF False assms(1), of JBeginStringOrEmpty t] assms(2)
    by (simp add: encodeObject_def beginValue_def jspace_def jpush_def)
qed

lemma valueAt_object:
  assumes "list_all (\<lambda>(k, v). valueAt (ParseObjectValue # st) v) es" and "length st < maxNestingDepth" and "st \<noteq> []"
  shows "valueAt st (encodeObject es)"
  using jrun_object [OF assms(1,2), of "[]"] assms(3) by (simp add: valueAt_def)

lemma json_valid_object:
  assumes "list_all (\<lambda>(k, v). valueAt [ParseObjectValue] v) es"
  shows "json_valid (encodeObject es)"
  using jrun_object [OF assms, of "'' ''"] by (simp add: json_valid_def maxNestingDepth_def endTop_def jspace_def)

lemma jsonTrim_object: "jsonTrim (encodeObject es) = encodeObject es"
proof -
  have h: "encodeObject es = CHR ''{'' # tl (encodeObject es)" by (simp add: encodeObject_def)
  have r: "rev (encodeObject es) = CHR ''}'' # tl (rev (encodeObject es))" by (simp add: encodeObject_def)
  have "dropWhile jspace (encodeObject es) = encodeObject es" by (subst (1 2) h) (simp add: jspace_def)
  moreover have "dropWhile jspace (rev (encodeObject es)) = rev (encodeObject es)" by (subst (1 2) r) (simp add: jspace_def)
  ultimately show ?thesis by (simp add: jsonTrim_def)
qed

lemma unmarshal_object:
  assumes "list_all (\<lambda>(k, v). valueAt [ParseObjectValue] v) es"
  shows "unmarshal f (encodeObject es) = f (encodeObject es)"
  using json_valid_object [OF assms] by (simp add: unmarshal_def jsonTrim_object)

lemma opens_object: "opens (CHR ''{'') (encodeObject es)" "\<not> isNull (encodeObject es)"
  by (simp_all add: opens_def encodeObject_def isNull_def)

text \<open>A struct is written and read member by member.\<close>

lemma storeStruct_object:
  assumes "list_all (\<lambda>(k, v). rawValue v) es"
  shows "storeStruct names f s (encodeObject es) = storeFields names f (map (\<lambda>(k, v). (readKey k, v)) es) s"
  using objectEntries_encode [OF assms, of "[]"] by (simp add: storeStruct_def opens_object)

lemma storeString_jsonString: "storeString old (jsonString s) = Some (string_of_runes (runes s))"
  by (simp add: storeString_def isNull_def opens_def jsonString_def) (simp add: junquote_jsonString [unfolded jsonString_def])

lemma readKey_ascii: "ascii k \<Longrightarrow> readKey k = k"
  by (simp add: readKey_def runes_ascii string_of_runes_ascii)

lemma small_numbers: "rawValue ''1''" "valueAt [ParseObjectValue] ''1''" "storeInt 0 ''1'' = Some 1"
  by code_simp+

end
