(* ===== verification/OpenAIReasoning.thy ===== *)
theory OpenAIReasoning
  imports OpenAIStream JsonCodec
begin

text \<open>
  Replayable reasoning of the OpenAI driver (\<open>drivers/openai/reasoning.go\<close>,
  \<open>reasoning_merge.go\<close>, \<open>tokens.go\<close>): the provider's reasoning fields are collected from a
  response, merged across the chunks of a stream, stored in an envelope and sent again with the
  turn. Go maps are association lists; a map is ranged in list order here, and since the keys
  are treated one by one the order only decides which of two errors is reported.
\<close>

section \<open>The fields\<close>

definition reasoningTextKey :: string where "reasoningTextKey = ''reasoning''"
definition reasoningContentKey :: string where "reasoningContentKey = ''reasoning_content''"
definition openaiName :: string where "openaiName = ''openai''"
definition reasoningVersion :: int where "reasoningVersion = 1"

definition reasoningField :: "string \<Rightarrow> bool" where
  "reasoningField key \<longleftrightarrow>
     key = reasoningTextKey \<or> key = reasoningContentKey \<or> key = ''reasoning_details'' \<or> key = ''thinking_blocks''"

text \<open>A lookup in a Go map of raw members: a missing key gives a nil message.\<close>

definition member :: "rawMap \<Rightarrow> string \<Rightarrow> string" where
  "member m key = (case map_of m key of Some v \<Rightarrow> v | None \<Rightarrow> [])"

abbreviation openaiTranscript :: "string \<Rightarrow> err" where
  "openaiTranscript \<equiv> Wrap (Sentinel ErrInvalidTranscript)"

definition validReasoningBlock :: "string \<Rightarrow> string \<Rightarrow> bool" where
  "validReasoningBlock field kind \<longleftrightarrow>
     (if field = ''thinking_blocks'' then kind = ''thinking'' \<or> kind = ''redacted_thinking''
      else kind = ''reasoning.text'' \<or> kind = ''reasoning.summary'' \<or> kind = ''reasoning.encrypted'')"

definition validateReasoningBlock :: "string \<Rightarrow> rawMap \<Rightarrow> err option" where
  "validateReasoningBlock key block =
     (let badIndex = (case map_of block ''index'' of
                        None \<Rightarrow> False
                      | Some rawIndex \<Rightarrow>
                          (case unmarshal (storeInt 0) rawIndex of None \<Rightarrow> True | Some index \<Rightarrow> index < 0))
      in if badIndex then Some (openaiTranscript ''reasoning block index must be nonnegative'')
         else case unmarshal (storeString []) (member block ''type'') of
             None \<Rightarrow> Some (openaiTranscript ''reasoning block needs a type'')
           | Some kind \<Rightarrow>
               if \<not> validReasoningBlock key kind then Some (openaiTranscript ''unsupported reasoning block type'')
               else None)"

definition validateReasoningField :: "string \<Rightarrow> string \<Rightarrow> err option" where
  "validateReasoningField key raw =
     (if key = reasoningTextKey \<or> key = reasoningContentKey then
        (if unmarshal (storeString []) raw = None \<or> raw = jsonNull
         then Some (openaiTranscript ''reasoning text must be a string'') else None)
      else case unmarshal storeMaps raw of
          None \<Rightarrow> Some (openaiTranscript ''reasoning blocks must be an array'')
        | Some blocks \<Rightarrow>
            if raw = jsonNull then Some (openaiTranscript ''reasoning blocks must be an array'')
            else first_error (map (validateReasoningBlock key) blocks))"

section \<open>Merging the fields of two chunks\<close>

definition mergeReasoningText :: "string \<Rightarrow> string \<Rightarrow> err + string" where
  "mergeReasoningText before nxt =
     (case unmarshal (storeString []) before of
        None \<Rightarrow> Inl (Wrap jsonError ''decode prior reasoning text'')
      | Some left \<Rightarrow>
          (case unmarshal (storeString []) nxt of
             None \<Rightarrow> Inl (Wrap jsonError ''decode reasoning text delta'')
           | Some right \<Rightarrow> Inr (jsonString (left @ right))))"

definition textKeys :: "string list" where
  "textKeys = [''text'', ''thinking'', ''signature'', ''summary'', ''data'']"

fun mergeReasoningBlock :: "rawMap \<Rightarrow> rawMap \<Rightarrow> err + rawMap" where
  "mergeReasoningBlock target [] = Inr target"
| "mergeReasoningBlock target ((key, v) # rest) =
     (if key \<in> set textKeys then
        (if v = jsonNull then mergeReasoningBlock target rest
         else
           let before = member target key in
           case (if before \<noteq> [] \<and> before \<noteq> jsonNull then unmarshal (storeString []) before else Some []) of
             None \<Rightarrow> Inl (Wrap jsonError ''decode reasoning block text'')
           | Some left \<Rightarrow>
               (case unmarshal (storeString []) v of
                  None \<Rightarrow> Inl (Wrap jsonError ''decode reasoning block fragment'')
                | Some right \<Rightarrow> mergeReasoningBlock (AList.update key (jsonString (left @ right)) target) rest))
      else mergeReasoningBlock (AList.update key v target) rest)"

fun sameIdentity :: "string list \<Rightarrow> rawMap \<Rightarrow> rawMap \<Rightarrow> bool" where
  "sameIdentity [] left right = False"
| "sameIdentity (key # keys) left right =
     (if member right key \<noteq> [] \<and> member right key \<noteq> jsonNull then member left key = member right key
      else sameIdentity keys left right)"

definition sameReasoningBlock :: "rawMap \<Rightarrow> rawMap \<Rightarrow> bool" where
  "sameReasoningBlock left right =
     (if member right ''type'' \<noteq> [] \<and> member left ''type'' \<noteq> member right ''type'' then False
      else sameIdentity [''index'', ''id''] left right)"

text \<open>\<open>slices.IndexFunc\<close>: the first position, or \<open>None\<close> for -1.\<close>

definition reasoningBlockIndex :: "rawMap list \<Rightarrow> rawMap \<Rightarrow> nat \<Rightarrow> nat option" where
  "reasoningBlockIndex blocks block position =
     (let index = find (\<lambda>i. sameReasoningBlock (blocks ! i) block) [0..<length blocks]
      in if index \<noteq> None \<or> member block ''index'' \<noteq> [] \<or> member block ''id'' \<noteq> [] \<or> position \<ge> length blocks
         then index
         else if member block ''type'' = [] \<or> member (blocks ! position) ''type'' = member block ''type''
         then Some position else index)"

fun mergeBlocks :: "nat \<Rightarrow> rawMap list \<Rightarrow> rawMap list \<Rightarrow> err + rawMap list" where
  "mergeBlocks position blocks [] = Inr blocks"
| "mergeBlocks position blocks (block # rest) =
     (case reasoningBlockIndex blocks block position of
        None \<Rightarrow> mergeBlocks (position + 1) (blocks @ [block]) rest
      | Some i \<Rightarrow>
          (case mergeReasoningBlock (blocks ! i) block of
             Inl e \<Rightarrow> Inl e
           | Inr merged \<Rightarrow> mergeBlocks (position + 1) (blocks[i := merged]) rest))"

definition mergeReasoningField :: "string \<Rightarrow> string \<Rightarrow> string \<Rightarrow> err + string" where
  "mergeReasoningField key before nxt =
     (if key = reasoningTextKey \<or> key = reasoningContentKey then mergeReasoningText before nxt
      else case unmarshal storeMaps before of
          None \<Rightarrow> Inl (Wrap jsonError ''decode prior reasoning blocks'')
        | Some blocks \<Rightarrow>
            (case unmarshal storeMaps nxt of
               None \<Rightarrow> Inl (Wrap jsonError ''decode reasoning block deltas'')
             | Some incoming \<Rightarrow>
                 (case mergeBlocks 0 blocks incoming of
                    Inl e \<Rightarrow> Inl e
                  | Inr merged \<Rightarrow>
                      (case those (map marshalRawMap merged) of
                         None \<Rightarrow> Inl (Wrap jsonError ''merge reasoning blocks'')
                       | Some encoded \<Rightarrow> Inr (encodeArray encoded)))))"

section \<open>The state of one response\<close>

record reasoningState =
  rsModel :: string
  rsFields :: rawMap
  rsPublishes :: bool \<comment> \<open>whether \<open>onDelta\<close> is set\<close>
  rsEmitted :: bool

text \<open>A driver with fields of its own (\<open>WithAssistantMessageExtra\<close>) keeps its own opaque state.\<close>

definition newReasoningState :: "bool \<Rightarrow> string \<Rightarrow> reasoningState" where
  "newReasoningState specialised m = \<lparr>rsModel = m, rsFields = [], rsPublishes = \<not> specialised, rsEmitted = False\<rparr>"

definition storeReasoning :: "string \<Rightarrow> string \<Rightarrow> bool \<Rightarrow> reasoningState \<Rightarrow> err + reasoningState" where
  "storeReasoning key v stream s =
     (case (if stream \<and> member (rsFields s) key \<noteq> [] then mergeReasoningField key (member (rsFields s) key) v else Inr v) of
        Inl e \<Rightarrow> Inl e
      | Inr v' \<Rightarrow>
          (case validateReasoningField key v' of
             Some e \<Rightarrow> Inl e
           | None \<Rightarrow> Inr (s\<lparr>rsFields := AList.update key v' (rsFields s)\<rparr>)))"

fun consumeFields :: "bool \<Rightarrow> rawMap \<Rightarrow> reasoningState \<Rightarrow> err + reasoningState" where
  "consumeFields stream [] s = Inr s"
| "consumeFields stream ((key, v) # rest) s =
     (if \<not> reasoningField key \<or> v = jsonNull then consumeFields stream rest s
      else case storeReasoning key v stream s of Inl e \<Rightarrow> Inl e | Inr s' \<Rightarrow> consumeFields stream rest s')"

definition consumeReasoning :: "reasoningState \<Rightarrow> string \<Rightarrow> bool \<Rightarrow> err + reasoningState" where
  "consumeReasoning s raw stream =
     (if raw = [] \<or> \<not> rsPublishes s then Inr s
      else case unmarshal (storeMap []) raw of
          None \<Rightarrow> Inl (Wrap jsonError ''decode response reasoning fields'')
        | Some fs \<Rightarrow> consumeFields stream fs s)"

definition envelopeMembers :: "string \<Rightarrow> string \<Rightarrow> (string \<times> string) list" where
  "envelopeMembers m encoded =
     [(''provider'', jsonString openaiName), (''version'', itoa reasoningVersion), (''model'', jsonString m),
      (''fields'', encoded)]"

definition marshalEnvelope :: "string \<Rightarrow> rawMap \<Rightarrow> string option" where
  "marshalEnvelope m fs =
     (case marshalRawMap fs of
        None \<Rightarrow> None
      | Some encoded \<Rightarrow> Some (encodeObject (envelopeMembers m encoded)))"

definition emitEnvelope :: "reasoningState \<Rightarrow> (err + delta \<times> reasoningState) option" where
  "emitEnvelope s =
     (if rsEmitted s \<or> rsFields s = [] \<or> \<not> rsPublishes s then None
      else case marshalEnvelope (rsModel s) (rsFields s) of
          None \<Rightarrow> Some (Inl (Wrap jsonError ''encode response reasoning''))
        | Some payload \<Rightarrow> Some (Inr (emptyDelta\<lparr>dProviderReasoning := payload\<rparr>, s\<lparr>rsEmitted := True\<rparr>)))"

section \<open>Replay\<close>

record reasoningEnvelope =
  reProvider :: string
  reVersion :: int
  reModel :: string
  reFields :: rawMap

definition setEnvelope :: "string \<Rightarrow> string \<Rightarrow> reasoningEnvelope \<Rightarrow> reasoningEnvelope option" where
  "setEnvelope name v e =
     (if name = ''provider'' then map_option (\<lambda>x. e\<lparr>reProvider := x\<rparr>) (storeString (reProvider e) v)
      else if name = ''version'' then map_option (\<lambda>x. e\<lparr>reVersion := x\<rparr>) (storeInt (reVersion e) v)
      else if name = ''model'' then map_option (\<lambda>x. e\<lparr>reModel := x\<rparr>) (storeString (reModel e) v)
      else map_option (\<lambda>x. e\<lparr>reFields := x\<rparr>) (storeMap (reFields e) v))"

definition decodeEnvelope :: "string \<Rightarrow> reasoningEnvelope option" where
  "decodeEnvelope raw =
     unmarshal (storeStruct [''provider'', ''version'', ''model'', ''fields''] setEnvelope
       \<lparr>reProvider = [], reVersion = 0, reModel = [], reFields = []\<rparr>) raw"

fun checkSaved :: "rawMap \<Rightarrow> err option" where
  "checkSaved [] = None"
| "checkSaved ((key, v) # rest) =
     (if \<not> reasoningField key then Some (openaiTranscript ''unsupported saved reasoning field'')
      else case validateReasoningField key v of Some e \<Rightarrow> Some e | None \<Rightarrow> checkSaved rest)"

definition savedReasoningFields :: "string \<Rightarrow> string \<Rightarrow> err + rawMap" where
  "savedReasoningFields m raw =
     (if \<not> HasProviderReasoning raw then Inr []
      else case decodeEnvelope raw of
          None \<Rightarrow> Inl (openaiTranscript ''decode saved reasoning envelope'')
        | Some e \<Rightarrow>
            if reProvider e \<noteq> openaiName \<or> reVersion e \<noteq> reasoningVersion \<or> reModel e \<noteq> m then Inr []
            else case checkSaved (reFields e) of Some x \<Rightarrow> Inl x | None \<Rightarrow> Inr (reFields e))"

text \<open>The fields of a specialised driver come on top of the saved ones.\<close>

type_synonym assistantMessageExtra = "model \<Rightarrow> message \<Rightarrow> err + rawMap"

definition assistantReasoningExtra :: "assistantMessageExtra option \<Rightarrow> model \<Rightarrow> message \<Rightarrow> err + rawMap" where
  "assistantReasoningExtra custom mdl m =
     (case savedReasoningFields (mdID mdl) (mProviderReasoning m) of
        Inl e \<Rightarrow> Inl e
      | Inr extra \<Rightarrow>
          (case custom of
             None \<Rightarrow> Inr extra
           | Some f \<Rightarrow>
               (case f mdl m of
                  Inl e \<Rightarrow> Inl (Wrap e ''encode assistant message extras'')
                | Inr added \<Rightarrow> Inr (foldl (\<lambda>x (k, v). AList.update k v x) extra added))))"

section \<open>What is stored is replayed\<close>

lemma trimSpace_head:
  assumes "byte_of c < 0x80" and "\<not> isSpace (byte_of c)"
  shows "\<exists>ys. trimSpace (c # cs) = c # ys"
proof -
  have s: "utf8_segs (c # cs) = (byte_of c, [c]) # utf8_segs cs"
    using assms(1) by (simp add: decodeRune_def Let_def)
  have "dropWhile (\<lambda>seg. isSpace (fst seg)) (rev (utf8_segs cs) @ [(byte_of c, [c])])
      = dropWhile (\<lambda>seg. isSpace (fst seg)) (rev (utf8_segs cs)) @ [(byte_of c, [c])]"
    using assms(2) by (intro dropWhile_append3) simp
  then show ?thesis using assms(2) by (simp add: trimSpace_def s del: utf8_segs.simps)
qed

lemma HasProviderReasoning_object: "HasProviderReasoning (encodeObject es)"
proof -
  have "\<not> isSpace (byte_of (CHR ''{''))" "byte_of (CHR ''{'') < 0x80" by code_simp+
  then obtain ys where "trimSpace (encodeObject es) = CHR ''{'' # ys"
    using trimSpace_head [of "CHR ''{''"] by (auto simp: encodeObject_def)
  then show ?thesis by (simp add: HasProviderReasoning_def jsonNull_def)
qed

text \<open>
  A stored field: its name and value are what the driver accepts, the value is written the way
  \<open>Marshal\<close> writes it, and it is not nested deeper than the scanner allows inside an envelope.
\<close>

definition storedField :: "string \<times> string \<Rightarrow> bool" where
  "storedField kv \<longleftrightarrow>
     (case kv of (k, v) \<Rightarrow> reasoningField k \<and> validateReasoningField k v = None \<and> json_valid v \<and> jcompact 0 v = v
        \<and> rawValue v \<and> valueAt [ParseObjectValue, ParseObjectValue] v)"

lemma reasoningField_ascii: "reasoningField k \<Longrightarrow> ascii k"
proof -
  have "ascii reasoningTextKey" "ascii reasoningContentKey" "ascii ''reasoning_details''" "ascii ''thinking_blocks''"
    by code_simp+
  then show "reasoningField k \<Longrightarrow> ascii k" unfolding reasoningField_def by blast
qed

lemma those_map_Some: "those (map (\<lambda>x. Some (f x)) xs) = Some (map f xs)"
  by (induction xs) simp_all

lemma foldl_update_fresh:
  "distinct (map fst es) \<Longrightarrow> fst ` set es \<inter> fst ` set m = {} \<Longrightarrow> foldl (\<lambda>m (k, v). AList.update k v m) m es = m @ es"
proof (induction es arbitrary: m)
  case (Cons e es)
  obtain k v where e: "e = (k, v)" by (cases e)
  have "k \<notin> fst ` set m" using Cons.prems e by auto
  then have "AList.update k v m = m @ [(k, v)]" by (induction m) auto
  then show ?case using Cons e by auto
qed simp

lemma marshalRawMap_stored:
  assumes "distinct (map fst fs)" and "list_all storedField fs"
  obtains es where "marshalRawMap fs = Some (encodeObject es)" "list_all storedField es"
    "map_of es = map_of fs" "distinct (map fst es)"
proof -
  define ks where "ks = sort (map fst fs)"
  define es where "es = zip ks (map (\<lambda>k. the (map_of fs k)) ks)"
  have ks: "set ks = set (map fst fs)" "distinct ks" using assms(1) by (simp_all add: ks_def)
  have look: "map_of fs k = Some (the (map_of fs k)) \<and> (k, the (map_of fs k)) \<in> set fs" if "k \<in> set ks" for k
    using that ks(1) by (cases "map_of fs k") (auto simp: map_of_eq_None_iff dest: map_of_SomeD)
  have st: "storedField (k, the (map_of fs k))" if "k \<in> set ks" for k
    using look [OF that] assms(2) by (auto simp: list_all_iff)
  have e: "map (\<lambda>k. marshalRaw (the (map_of fs k))) ks = map (\<lambda>k. Some (the (map_of fs k))) ks"
    using st by (auto simp: storedField_def marshalRaw_def)
  have "marshalRawMap fs = Some (encodeObject es)"
    unfolding marshalRawMap_def Let_def ks_def [symmetric] e those_map_Some by (simp add: es_def)
  moreover have "list_all storedField es" using st by (auto simp: es_def list_all_iff in_set_zip)
  moreover have "map_of es = map_of fs"
  proof
    fix k
    show "map_of es k = map_of fs k"
    proof (cases "k \<in> set ks")
      case True
      then show ?thesis using look [OF True] by (simp add: es_def map_of_zip_map)
    next
      case False
      then show ?thesis using ks(1) by (simp add: es_def map_of_zip_map) (metis list.set_map map_of_eq_None_iff)
    qed
  qed
  moreover have "distinct (map fst es)" using ks(2) by (simp add: es_def)
  ultimately show ?thesis using that by blast
qed

lemma checkSaved_stored: "list_all storedField es \<Longrightarrow> checkSaved es = None"
  by (induction es rule: checkSaved.induct) (auto simp: storedField_def)

lemma storeMap_stored:
  assumes "list_all storedField es" and "distinct (map fst es)"
  shows "storeMap [] (encodeObject es) = Some es"
proof -
  have raw: "list_all (\<lambda>(k, v). rawValue v) es" using assms(1) by (auto simp: list_all_iff storedField_def)
  have "map (\<lambda>(k, v). (readKey k, v)) es = es"
  proof (intro map_idI)
    fix x assume "x \<in> set es"
    then have "reasoningField (fst x)" using assms(1) by (auto simp: list_all_iff storedField_def)
    then show "(case x of (k, v) \<Rightarrow> (readKey k, v)) = x" using readKey_ascii [OF reasoningField_ascii] by (cases x) simp
  qed
  then show ?thesis
    using objectEntries_encode [OF raw, of "[]"] foldl_update_fresh [OF assms(2), of "[]"]
    by (simp add: storeMap_def opens_object)
qed

lemma envelope_members:
  assumes "list_all storedField es"
  shows "list_all (\<lambda>(k, v). rawValue v) (envelopeMembers m (encodeObject es))"
    "list_all (\<lambda>(k, v). valueAt [ParseObjectValue] v) (envelopeMembers m (encodeObject es))"
    "map (\<lambda>(k, v). (readKey k, v)) (envelopeMembers m (encodeObject es)) = envelopeMembers m (encodeObject es)"
proof -
  have "list_all (\<lambda>(k, v). rawValue v) es" "list_all (\<lambda>(k, v). valueAt [ParseObjectValue, ParseObjectValue] v) es"
    using assms(1) by (auto simp: list_all_iff storedField_def)
  then have "rawValue (encodeObject es)" "valueAt [ParseObjectValue] (encodeObject es)"
    by (auto intro!: rawValue_object valueAt_object simp: maxNestingDepth_def)
  moreover have "itoa reasoningVersion = ''1''" by code_simp
  ultimately show "list_all (\<lambda>(k, v). rawValue v) (envelopeMembers m (encodeObject es))"
      "list_all (\<lambda>(k, v). valueAt [ParseObjectValue] v) (envelopeMembers m (encodeObject es))"
    by (simp_all add: envelopeMembers_def rawValue_jsonString valueAt_jsonString small_numbers)
  have "ascii ''provider''" "ascii ''version''" "ascii ''model''" "ascii ''fields''" by code_simp+
  then show "map (\<lambda>(k, v). (readKey k, v)) (envelopeMembers m (encodeObject es)) = envelopeMembers m (encodeObject es)"
    by (simp add: envelopeMembers_def readKey_ascii)
qed

lemma envelope_fields:
  "fieldOf [''provider'', ''version'', ''model'', ''fields''] ''provider'' = Some ''provider''"
  "fieldOf [''provider'', ''version'', ''model'', ''fields''] ''version'' = Some ''version''"
  "fieldOf [''provider'', ''version'', ''model'', ''fields''] ''model'' = Some ''model''"
  "fieldOf [''provider'', ''version'', ''model'', ''fields''] ''fields'' = Some ''fields''"
  by code_simp+

lemma setEnvelope_fields:
  "setEnvelope ''provider'' v e = map_option (\<lambda>x. e\<lparr>reProvider := x\<rparr>) (storeString (reProvider e) v)"
  "setEnvelope ''version'' v e = map_option (\<lambda>x. e\<lparr>reVersion := x\<rparr>) (storeInt (reVersion e) v)"
  "setEnvelope ''model'' v e = map_option (\<lambda>x. e\<lparr>reModel := x\<rparr>) (storeString (reModel e) v)"
  "setEnvelope ''fields'' v e = map_option (\<lambda>x. e\<lparr>reFields := x\<rparr>) (storeMap (reFields e) v)"
  by (simp_all add: setEnvelope_def)

lemma decodeEnvelope_marshal:
  assumes "list_all storedField es" and "distinct (map fst es)" and "validUTF8 m"
  shows "decodeEnvelope (encodeObject (envelopeMembers m (encodeObject es)))
    = Some \<lparr>reProvider = openaiName, reVersion = reasoningVersion, reModel = m, reFields = es\<rparr>"
proof -
  have "ascii openaiName" by code_simp
  then have n: "itoa reasoningVersion = ''1''" "string_of_runes (runes openaiName) = openaiName" "reasoningVersion = 1"
    by (code_simp, simp add: runes_ascii string_of_runes_ascii, simp add: reasoningVersion_def)
  let ?names = "[''provider'', ''version'', ''model'', ''fields'']"
  let ?e = "\<lparr>reProvider = [], reVersion = 0, reModel = [], reFields = []\<rparr>"
  have "decodeEnvelope (encodeObject (envelopeMembers m (encodeObject es)))
      = storeFields ?names setEnvelope (envelopeMembers m (encodeObject es)) ?e"
    unfolding decodeEnvelope_def unmarshal_object [OF envelope_members(2) [OF assms(1)]]
      storeStruct_object [OF envelope_members(1) [OF assms(1)]] envelope_members(3) [OF assms(1)] by (rule refl)
  also have "\<dots> = Some \<lparr>reProvider = openaiName, reVersion = 1, reModel = m, reFields = es\<rparr>"
    unfolding envelopeMembers_def n(1)
    by (simp only: storeFields.simps envelope_fields setEnvelope_fields option.case storeString_jsonString n small_numbers
        storeMap_stored [OF assms(1,2)] string_of_runes_valid [OF assms(3)] option.map Option.bind.bind_lunit
        reasoningEnvelope.select_convs reasoningEnvelope.update_convs)
  finally show ?thesis unfolding n(3) .
qed

text \<open>
  C31. The opaque state the driver publishes for a response reads back as the fields it was made
  from, for the model that produced it, and as nothing for any other model.
\<close>

theorem openai_reasoning_roundtrip:
  assumes "rsPublishes s" and "\<not> rsEmitted s" and "rsFields s \<noteq> []"
    and "distinct (map fst (rsFields s))" and "list_all storedField (rsFields s)" and "validUTF8 (rsModel s)"
  shows "\<exists>d s'. emitEnvelope s = Some (Inr (d, s')) \<and> emitEnvelope s' = None
    \<and> (\<exists>fs. savedReasoningFields (rsModel s) (dProviderReasoning d) = Inr fs \<and> map_of fs = map_of (rsFields s))
    \<and> (\<forall>m. m \<noteq> rsModel s \<longrightarrow> savedReasoningFields m (dProviderReasoning d) = Inr [])"
proof -
  obtain es where es: "marshalRawMap (rsFields s) = Some (encodeObject es)" "list_all storedField es"
      "map_of es = map_of (rsFields s)" "distinct (map fst es)"
    using marshalRawMap_stored [OF assms(4,5)] .
  note dec = decodeEnvelope_marshal [OF es(2,4) assms(6)]
  show ?thesis
    using assms(1-3) es(3) checkSaved_stored [OF es(2)]
    by (simp add: emitEnvelope_def marshalEnvelope_def es(1) savedReasoningFields_def HasProviderReasoning_object dec emptyDelta_def)
qed

section \<open>Text arrives in fragments\<close>

lemma json_valid_string: "json_valid (jsonString s)"
  using jrun_jsonString(1) [of "[]" s "'' ''"] by (simp add: json_valid_def endValue_def endTop_def jspace_def)

lemma jsonTrim_string: "jsonTrim (jsonString s) = jsonString s"
proof -
  have "dropWhile jspace (jsonString s) = jsonString s" by (simp add: jsonString_def jspace_def)
  moreover have "dropWhile jspace (rev (jsonString s)) = rev (jsonString s)" by (simp add: jsonString_def jspace_def)
  ultimately show ?thesis by (simp add: jsonTrim_def)
qed

lemma unmarshal_string: "validUTF8 s \<Longrightarrow> unmarshal (storeString old) (jsonString s) = Some s"
  by (simp add: unmarshal_def json_valid_string jsonTrim_string storeString_jsonString string_of_runes_valid)

lemma jcompact_string: "jcompact 0 (jsonString s) = jsonString s"
proof -
  have "jcompact 1 (concat (map jsonEscape (utf8_segs s)) @ [CHR 0x22]) = concat (map jsonEscape (utf8_segs s)) @ jcompact 1 [CHR 0x22]"
    using strBody_string unfolding strBody_def by blast
  then show ?thesis by (simp add: jsonString_def skipStep_def byte_of_def jspace_def del: One_nat_def)
qed

lemma string_not_null: "jsonString s \<noteq> jsonNull" "jsonString s \<noteq> []"
  by (simp_all add: jsonString_def jsonNull_def)

definition textKey :: "string \<Rightarrow> bool" where
  "textKey key \<longleftrightarrow> key = reasoningTextKey \<or> key = reasoningContentKey"

lemma textKey_field: "textKey key \<Longrightarrow> reasoningField key"
  by (auto simp: textKey_def reasoningField_def)

lemma storedField_text: "textKey key \<Longrightarrow> validUTF8 s \<Longrightarrow> storedField (key, jsonString s)"
  using textKey_field [of key] unfolding storedField_def textKey_def
  by (auto simp: validateReasoningField_def unmarshal_string string_not_null json_valid_string jcompact_string
      rawValue_jsonString valueAt_jsonString)

text \<open>The text a map of raw members holds under a key; a missing key and null hold none.\<close>

definition textOf :: "rawMap \<Rightarrow> string \<Rightarrow> string" where
  "textOf m key =
     (if member m key = [] \<or> member m key = jsonNull then []
      else case unmarshal (storeString []) (member m key) of Some t \<Rightarrow> t | None \<Rightarrow> [])"

text \<open>A chunk whose reasoning is text: other members are no reasoning, and null says nothing.\<close>

definition textChunk :: "rawMap \<Rightarrow> bool" where
  "textChunk fs \<longleftrightarrow> distinct (map fst fs)
     \<and> list_all (\<lambda>(k, v). reasoningField k \<and> v \<noteq> jsonNull \<longrightarrow> textKey k \<and> unmarshal (storeString []) v \<noteq> None) fs"

definition textState :: "reasoningState \<Rightarrow> bool" where
  "textState s \<longleftrightarrow> distinct (map fst (rsFields s))
     \<and> list_all (\<lambda>(k, v). textKey k \<and> v \<noteq> jsonNull \<and> unmarshal (storeString []) v \<noteq> None) (rsFields s)"

lemma unmarshal_valid:
  assumes "unmarshal (storeString []) v = Some t" shows "validUTF8 t" "v \<noteq> []"
proof -
  show "validUTF8 t"
    using assms by (auto simp: unmarshal_def storeString_def junquote_validUTF8 split: if_splits)
  show "v \<noteq> []" using assms json_valid_Nil by (auto simp: unmarshal_def split: if_splits)
qed

lemma member_update: "member (AList.update k v m) key = (if key = k then v else member m key)"
  by (simp add: member_def update_conv)

lemma textOf_Nil: "textOf [] key = []"
  by (simp add: textOf_def member_def)

lemma textOf_single: "textOf [(k, v)] k = (if v = jsonNull then [] else case unmarshal (storeString []) v of Some t \<Rightarrow> t | None \<Rightarrow> [])"
  using unmarshal_valid(2) [of "[]"] by (auto simp: textOf_def member_def split: option.splits)

lemma textOf_update: "textOf (AList.update k v m) key = (if key = k then textOf [(k, v)] k else textOf m key)"
  unfolding textOf_def member_update by (simp add: member_def)

lemma set_update: "set (AList.update k v m) \<subseteq> insert (k, v) (set m)"
  by (induction m) auto

lemma storeReasoning_text:
  assumes "textState s" and "textKey k" and "v \<noteq> jsonNull" and "unmarshal (storeString []) v = Some t"
  shows "\<exists>s'. storeReasoning k v True s = Inr s' \<and> textState s' \<and> rsModel s' = rsModel s \<and> rsPublishes s' = rsPublishes s
    \<and> rsEmitted s' = rsEmitted s
    \<and> (\<forall>key. textOf (rsFields s') key = (if key = k then textOf (rsFields s) k @ t else textOf (rsFields s) key))"
proof -
  have ne: "v \<noteq> []" and vt: "validUTF8 t" using unmarshal_valid [OF assms(4)] by simp_all
  let ?old = "member (rsFields s) k"
  have new: "\<exists>s'. storeReasoning k v True s = Inr s' \<and> s' = s\<lparr>rsFields := AList.update k v' (rsFields s)\<rparr>"
    if "(if ?old \<noteq> [] then mergeReasoningField k ?old v else Inr v) = Inr v'" "unmarshal (storeString []) v' = Some t'" "v' \<noteq> jsonNull"
    for v' t' using that assms(2) by (auto simp: storeReasoning_def validateReasoningField_def textKey_def)
  have upd: "textState (s\<lparr>rsFields := AList.update k v' (rsFields s)\<rparr>)"
    if "unmarshal (storeString []) v' = Some t'" "v' \<noteq> jsonNull" for v' t'
    using assms(1,2) that set_update [of k v' "rsFields s"] distinct_update [of "rsFields s" k v']
    unfolding textState_def list_all_iff by auto
  show ?thesis
  proof (cases "?old = []")
    case True
    then have "textOf (rsFields s) k = []" by (simp add: textOf_def)
    then show ?thesis using new [of v t] upd [OF assms(4,3)] True assms(3,4)
      by (auto simp: textOf_update textOf_single)
  next
    case False
    then obtain old where old: "map_of (rsFields s) k = Some old" "?old = old" by (auto simp: member_def split: option.splits)
    then have "(k, old) \<in> set (rsFields s)" by (simp add: map_of_SomeD)
    then obtain l where l: "unmarshal (storeString []) old = Some l" "old \<noteq> jsonNull"
      using assms(1) by (auto simp: textState_def list_all_iff)
    have vl: "validUTF8 (l @ t)" using validUTF8_append unmarshal_valid(1) [OF l(1)] vt by blast
    have "mergeReasoningField k old v = Inr (jsonString (l @ t))"
      using assms(2,4) l(1) by (auto simp: mergeReasoningField_def mergeReasoningText_def textKey_def)
    moreover have "textOf (rsFields s) k = l" using False old l by (simp add: textOf_def)
    moreover note j = unmarshal_string [OF vl, of "[]"] string_not_null(1) [of "l @ t"]
    ultimately show ?thesis using new [of "jsonString (l @ t)" "l @ t"] upd [OF j] False old(2)
      by (auto simp: textOf_update textOf_single)
  qed
qed

lemma consumeFields_text:
  "textState s \<Longrightarrow> textChunk fs \<Longrightarrow>
    \<exists>s'. consumeFields True fs s = Inr s' \<and> textState s' \<and> rsModel s' = rsModel s \<and> rsPublishes s' = rsPublishes s
      \<and> rsEmitted s' = rsEmitted s
      \<and> (\<forall>key. textKey key \<longrightarrow> textOf (rsFields s') key = textOf (rsFields s) key @ textOf fs key)"
proof (induction fs arbitrary: s)
  case Nil
  then show ?case by (simp add: textOf_def member_def)
next
  case (Cons e fs)
  obtain k v where e: "e = (k, v)" by (cases e)
  have rest: "textChunk fs" and fresh: "k \<notin> fst ` set fs" using Cons.prems e by (auto simp: textChunk_def)
  have there: "textOf fs k = []"
  proof -
    have "map_of fs k = None" using fresh by (simp add: map_of_eq_None_iff)
    then show ?thesis by (simp add: textOf_def member_def)
  qed
  have other: "textOf (e # fs) key = textOf fs key" if "key \<noteq> k" for key
    using that e by (simp add: textOf_def member_def)
  show ?case
  proof (cases "reasoningField k \<and> v \<noteq> jsonNull")
    case False
    then have skip: "consumeFields True (e # fs) s = consumeFields True fs s" using e by auto
    have "textOf (e # fs) key = textOf fs key" if "textKey key" for key
    proof (cases "key = k")
      case True
      then have "v = jsonNull" using False that textKey_field by blast
      then show ?thesis using True e there by (simp add: textOf_def member_def)
    qed (rule other)
    then show ?thesis using Cons.IH [OF Cons.prems(1) rest] unfolding skip by simp
  next
    case True
    then obtain t where k: "textKey k" and t: "unmarshal (storeString []) v = Some t"
      using Cons.prems(2) e by (auto simp: textChunk_def)
    obtain s1 where s1: "storeReasoning k v True s = Inr s1" "textState s1" "rsModel s1 = rsModel s"
        "rsPublishes s1 = rsPublishes s" "rsEmitted s1 = rsEmitted s"
        "\<And>key. textOf (rsFields s1) key = (if key = k then textOf (rsFields s) k @ t else textOf (rsFields s) key)"
      using storeReasoning_text [OF Cons.prems(1) k _ t] True by blast
    have "textOf (e # fs) k = t" using e t True unmarshal_valid(2) [OF t] by (simp add: textOf_def member_def)
    moreover have "consumeFields True (e # fs) s = consumeFields True fs s1" using True s1(1) e by simp
    ultimately show ?thesis using Cons.IH [OF s1(2) rest] s1(3-6) there other by auto
  qed
qed

fun consumeChunks :: "reasoningState \<Rightarrow> string list \<Rightarrow> err + reasoningState" where
  "consumeChunks s [] = Inr s"
| "consumeChunks s (raw # raws) =
     (case consumeReasoning s raw True of Inl e \<Rightarrow> Inl e | Inr s' \<Rightarrow> consumeChunks s' raws)"

text \<open>
  Reasoning text that arrives in fragments is stored as the text of the whole: under each
  text key the stored value holds the concatenation of the fragments, in order.
\<close>

theorem openai_reasoning_fragments:
  assumes "list_all2 (\<lambda>raw fs. raw \<noteq> [] \<and> unmarshal (storeMap []) raw = Some fs \<and> textChunk fs) raws fss"
  shows "\<exists>s. consumeChunks (newReasoningState False m) raws = Inr s
    \<and> (\<forall>key. textKey key \<longrightarrow> textOf (rsFields s) key = concat (map (\<lambda>fs. textOf fs key) fss))"
proof -
  have "\<exists>s'. consumeChunks s raws = Inr s' \<and> textState s'
      \<and> (\<forall>key. textKey key \<longrightarrow> textOf (rsFields s') key = textOf (rsFields s) key @ concat (map (\<lambda>fs. textOf fs key) fss))"
    if "textState s" "rsPublishes s" for s
    using assms that
  proof (induction raws fss arbitrary: s rule: list_all2_induct)
    case Nil
    then show ?case by simp
  next
    case (Cons raw raws fs fss)
    then obtain s1 where "consumeFields True fs s = Inr s1" and s1: "textState s1" "rsPublishes s1"
        "\<And>key. textKey key \<Longrightarrow> textOf (rsFields s1) key = textOf (rsFields s) key @ textOf fs key"
      using consumeFields_text [of s fs] by blast
    then have "consumeReasoning s raw True = Inr s1" using Cons by (simp add: consumeReasoning_def)
    then show ?case using Cons.IH [OF s1(1,2)] s1(3) by auto
  qed
  from this [of "newReasoningState False m"] show ?thesis
    by (simp add: textState_def newReasoningState_def textOf_Nil) blast
qed

section \<open>The driver's JSON probes\<close>

definition setProbe :: "string \<Rightarrow> string \<Rightarrow> string \<times> string \<Rightarrow> (string \<times> string) option" where
  "setProbe name v p =
     (if name = ''reasoning'' then map_option (\<lambda>x. (x, snd p)) (storeString (fst p) v)
      else map_option (\<lambda>x. (fst p, x)) (storeString (snd p) v))"

definition reasoningProbe :: "string \<Rightarrow> string \<times> string" where
  "reasoningProbe raw =
     (case unmarshal (storeStruct [''reasoning'', ''reasoning_content''] setProbe ([], [])) raw of
        None \<Rightarrow> ([], []) | Some p \<Rightarrow> p)"

text \<open>The code and the type of an error event.\<close>

definition setErrorProbe :: "string \<Rightarrow> string \<Rightarrow> string \<times> string \<Rightarrow> (string \<times> string) option" where
  "setErrorProbe name v p =
     (if name = ''code'' then map_option (\<lambda>x. (x, snd p)) (storeString (fst p) v)
      else map_option (\<lambda>x. (fst p, x)) (storeString (snd p) v))"

definition errorProbe :: "string \<Rightarrow> string \<times> string" where
  "errorProbe dat =
     (case unmarshal (storeStruct [''error''] (\<lambda>_ v p. storeStruct [''type'', ''code''] setErrorProbe p v) ([], [])) dat of
        None \<Rightarrow> ([], []) | Some p \<Rightarrow> p)"

definition openaiJSONCodec :: "(string \<Rightarrow> int option) \<Rightarrow> bool \<Rightarrow> reasoningState openaiCodec" where
  "openaiJSONCodec untilDate specialised =
     \<lparr>ocReasoning = reasoningProbe, ocErrorCode = errorProbe, ocUntilDate = untilDate,
      ocInitial = newReasoningState specialised, ocConsume = consumeReasoning, ocEmit = emitEnvelope\<rparr>"

lemma openaiJSONCodec_reasoningOnly: "reasoningOnly (openaiJSONCodec untilDate specialised)"
  by (auto simp: reasoningOnly_def openaiJSONCodec_def emitEnvelope_def marshalEnvelope_def encodeObject_def emptyDelta_def
      split: if_splits option.splits)

section \<open>Counting\<close>

text \<open>
  \<open>reasoningTokenCounter\<close>: what is counted is what this transport sends, so a message's
  reasoning is replaced by the fields that would be replayed with it. Without a model the
  envelope's own model is assumed.
\<close>

definition savedModel :: "string \<Rightarrow> string option" where
  "savedModel raw = unmarshal (storeStruct [''model''] (\<lambda>_ v s. storeString s v) []) raw"

definition countedMessage :: "assistantMessageExtra option \<Rightarrow> model \<Rightarrow> message \<Rightarrow> err + message" where
  "countedMessage custom mdl m =
     (let stripped = m\<lparr>mReasoning := [], mProviderReasoning := []\<rparr> in
      if mRole m \<noteq> RoleAssistant then Inr stripped
      else case (if mdID mdl = [] \<and> HasProviderReasoning (mProviderReasoning m)
                 then map_option (\<lambda>i. mdl\<lparr>mdID := i\<rparr>) (savedModel (mProviderReasoning m)) else Some mdl) of
          None \<Rightarrow> Inl (Wrap jsonError ''decode reasoning counter model'')
        | Some mdl' \<Rightarrow>
            (case assistantReasoningExtra custom mdl' m of
               Inl e \<Rightarrow> Inl e
             | Inr extra \<Rightarrow>
                 if length extra = 0 then Inr stripped
                 else case marshalRawMap extra of
                     None \<Rightarrow> Inl (Wrap jsonError ''encode counted reasoning'')
                   | Some encoded \<Rightarrow> Inr (stripped\<lparr>mProviderReasoning := encoded\<rparr>)))"

definition reasoningTokenCount :: "assistantMessageExtra option \<Rightarrow> 't counter \<Rightarrow> model \<Rightarrow> 't counter" where
  "reasoningTokenCount custom base mdl messages tools =
     (case collect (countedMessage custom mdl) messages of
        Inl e \<Rightarrow> Inl e
      | Inr normalized \<Rightarrow>
          (case base normalized tools of Inl e \<Rightarrow> Inl (Wrap e ''count OpenAI wire messages'') | Inr n \<Rightarrow> Inr n))"

definition openaiTokenCounter :: "assistantMessageExtra option \<Rightarrow> 'w tool counter \<Rightarrow> 'w tokenCounter" where
  "openaiTokenCounter custom base =
     ModelCounter (reasoningTokenCount custom base (bareModel [])) (reasoningTokenCount custom base)"

section \<open>Witnesses\<close>

definition twoFragments :: "string list" where
  "twoFragments = [''{\"reasoning_content\":\"ab\"}'', ''{\"reasoning_content\": \"cd\", \"content\":null}'']"

lemma openai_reasoning_fragments_witness:
  "\<exists>s. consumeChunks (newReasoningState False ''m'') twoFragments = Inr s
    \<and> textOf (rsFields s) reasoningContentKey = ''abcd''"
proof -
  have c: "list_all2 (\<lambda>raw fs. raw \<noteq> [] \<and> unmarshal (storeMap []) raw = Some fs \<and> textChunk fs) twoFragments
      [[(''reasoning_content'', ''\"ab\"'')], [(''reasoning_content'', ''\"cd\"''), (''content'', ''null'')]]"
    by code_simp
  have "textOf [(''reasoning_content'', ''\"ab\"'')] reasoningContentKey = ''ab''"
    "textOf [(''reasoning_content'', ''\"cd\"''), (''content'', ''null'')] reasoningContentKey = ''cd''"
    by code_simp+
  then show ?thesis using openai_reasoning_fragments [OF c, of "''m''"] by (auto simp: textKey_def)
qed

lemma openai_reasoning_roundtrip_witness:
  "\<exists>d. emitEnvelope \<lparr>rsModel = ''m'', rsFields = [(reasoningContentKey, jsonString ''hi'')], rsPublishes = True, rsEmitted = False\<rparr>
      = Some d
    \<and> (\<exists>p fs. d = Inr p \<and> savedReasoningFields ''m'' (dProviderReasoning (fst p)) = Inr fs
        \<and> map_of fs reasoningContentKey = Some (jsonString ''hi''))"
proof -
  let ?s = "\<lparr>rsModel = ''m'', rsFields = [(reasoningContentKey, jsonString ''hi'')], rsPublishes = True, rsEmitted = False\<rparr>"
  have "ascii ''hi''" "ascii ''m''" by code_simp+
  then have a: "validUTF8 ''hi''" "validUTF8 ''m''" by (simp_all add: validUTF8_ascii)
  have "list_all storedField (rsFields ?s)" using storedField_text [OF _ a(1), of reasoningContentKey] by (simp add: textKey_def)
  from openai_reasoning_roundtrip [of ?s, OF _ _ _ _ this] a(2) show ?thesis by fastforce
qed

end
