(* ===== verification/ZaiCoding.thy ===== *)
theory ZaiCoding
  imports OpenAIReasoning OpenAITranslate
begin

text \<open>
  The Z.ai Coding driver (\<open>drivers/zaicoding\<close>): a layer over the OpenAI transport that checks
  and rewrites the request, maps the provider's finish reasons and business codes, and keeps
  the reasoning of a response in an envelope of its own. The text of an error is a parameter;
  log lines are left out.
\<close>

section \<open>Models\<close>

definition modelGLM53 :: string where "modelGLM53 = ''glm-5.3''"
definition modelGLM53Flash :: string where "modelGLM53Flash = ''glm-5.3-flash''"
definition modelGLM53FlashX :: string where "modelGLM53FlashX = ''glm-5.3-flashx''"
definition modelGLM52Routed :: string where "modelGLM52Routed = ''glm-5.2''"
definition modelGLM51Routed :: string where "modelGLM51Routed = ''glm-5.1''"
definition modelGLM47Routed :: string where "modelGLM47Routed = ''glm-4.7''"

lemmas zai_models = modelGLM53_def modelGLM53Flash_def modelGLM53FlashX_def modelGLM52Routed_def modelGLM51Routed_def
  modelGLM47Routed_def

abbreviation glm53ContextSize :: int where "glm53ContextSize \<equiv> 1000000"
abbreviation glm53MaxOutputTokens :: int where "glm53MaxOutputTokens \<equiv> 131072"

datatype modelKind = modelKindUnknown | modelKindGLM53 | modelKindGLM53Flash

text \<open>
  \<open>strings.ToLower\<close>, compared with ASCII names only: the capital I with a dot and the Kelvin
  sign are the runes beyond ASCII that lower to ASCII letters; the others lower to runes beyond
  ASCII and stand for themselves here.
\<close>

definition lowerRune :: "rune \<Rightarrow> rune" where
  "lowerRune r = (if 65 \<le> r \<and> r \<le> 90 then r + 32 else if r = 0x130 then 105 else if r = 0x212A then 107 else r)"

definition toLower :: "string \<Rightarrow> string" where
  "toLower s = string_of_runes (map lowerRune (runes s))"

definition classifyModel :: "string \<Rightarrow> modelKind" where
  "classifyModel i =
     (let name = toLower (trimSpace i) in
      if name = modelGLM53 \<or> name = modelGLM52Routed \<or> name = modelGLM51Routed then modelKindGLM53
      else if name = modelGLM53Flash \<or> name = modelGLM53FlashX \<or> name = modelGLM47Routed then modelKindGLM53Flash
      else modelKindUnknown)"

definition zai_reasoningLevels :: reasoningLevels where
  "zai_reasoningLevels = \<lparr>rlMin = ReasoningEffortLow, rlLow = ReasoningEffortLow, rlMedium = ReasoningEffortMedium,
     rlHigh = ReasoningEffortHigh, rlMax = ReasoningEffortMax\<rparr>"

definition zai_LookupModel :: "string \<Rightarrow> model" where
  "zai_LookupModel i =
     (case classifyModel i of
        modelKindUnknown \<Rightarrow> bareModel i
      | _ \<Rightarrow> (bareModel i)\<lparr>mdContextSize := glm53ContextSize, mdSupportsReasoning := True,
               mdReasoningLevels := zai_reasoningLevels\<rparr>)"

definition zai_KnownModels :: "model list" where
  "zai_KnownModels = [zai_LookupModel modelGLM53, zai_LookupModel modelGLM53Flash]"

definition zai_capabilities :: "model \<Rightarrow> capabilities \<Rightarrow> capabilities" where
  "zai_capabilities m inherited =
     (let caps = inherited\<lparr>SupportsToolChoice := False\<rparr> in
      case classifyModel (mdID m) of
        modelKindUnknown \<Rightarrow> caps\<lparr>SupportsReasoningEffort := False, SupportsDisablingReasoning := False,
          MaxReasoningEffort := ReasoningEffortUnset\<rparr>
      | modelKindGLM53 \<Rightarrow> caps\<lparr>SupportsReasoningEffort := True, SupportsDisablingReasoning := False,
          MaxReasoningEffort := ReasoningEffortMax, SupportsImageInput := False, SupportsAudioInput := False,
          SupportsFileInput := False\<rparr>
      | modelKindGLM53Flash \<Rightarrow> caps\<lparr>SupportsReasoningEffort := True, SupportsDisablingReasoning := False,
          MaxReasoningEffort := ReasoningEffortMax\<rparr>)"

section \<open>Preparing a request\<close>

abbreviation maxStopWords :: nat where "maxStopWords \<equiv> 4"

abbreviation extraThinkingKey :: string where "extraThinkingKey \<equiv> ''thinking''"
abbreviation extraReasoningEffortKey :: string where "extraReasoningEffortKey \<equiv> ''reasoning_effort''"
abbreviation extraMaxTokensKey :: string where "extraMaxTokensKey \<equiv> ''max_tokens''"
abbreviation extraToolStreamKey :: string where "extraToolStreamKey \<equiv> ''tool_stream''"
abbreviation thinkingTypeKey :: string where "thinkingTypeKey \<equiv> ''type''"
abbreviation clearThinkingKey :: string where "clearThinkingKey \<equiv> ''clear_thinking''"
abbreviation thinkingTypeEnabled :: string where "thinkingTypeEnabled \<equiv> ''enabled''"

record thinkingConfig =
  tcType :: string
  tcClearThinking :: "bool option"

text \<open>The struct as a value of \<open>Extra\<close>, by its JSON names; an absent pointer is omitted.\<close>

definition thinkingValue :: "thinkingConfig \<Rightarrow> any" where
  "thinkingValue t = AnyStruct ((thinkingTypeKey, AnyString (tcType t)) #
     (case tcClearThinking t of None \<Rightarrow> [] | Some b \<Rightarrow> [(clearThinkingKey, AnyBool b)]))"

abbreviation zaiUnsupported :: "string \<Rightarrow> fmt_arg list \<Rightarrow> err" where
  "zaiUnsupported \<equiv> Wrapf (Sentinel ErrZaiUnsupportedParameter)"

definition zai_validateParams :: "modelKind \<Rightarrow> string \<Rightarrow> generationParams \<Rightarrow> err option" where
  "zai_validateParams kind i p =
     (if length (gpStop p) > maxStopWords then
        Some (zaiUnsupported ''%d stop words on Z.ai Coding, at most %d'' [ArgInt (int (length (gpStop p))), ArgInt 4])
      else if chMode (gpToolChoice p) = ToolChoiceModeRequired \<or> chMode (gpToolChoice p) = ToolChoiceModeTool then
        Some (zaiUnsupported ''tool choice %q on Z.ai Coding, which only honors auto and none'' [ArgStr (chMode (gpToolChoice p))])
      else case gpMaxOutputTokens p of
          None \<Rightarrow> None
        | Some n \<Rightarrow>
            if kind \<noteq> modelKindUnknown \<and> n > glm53MaxOutputTokens then
              Some (zaiUnsupported ''max output tokens %d on Z.ai Coding model %q, at most %d'' [ArgInt n, ArgStr i, ArgInt glm53MaxOutputTokens])
            else None)"

definition requestedThinking :: "(string \<times> any) list \<Rightarrow> err + thinkingConfig" where
  "requestedThinking extra =
     (let thinking = \<lparr>tcType = thinkingTypeEnabled, tcClearThinking = Some False\<rparr> in
      case map_of extra extraThinkingKey of
        None \<Rightarrow> Inr thinking
      | Some (AnyMap fs) \<Rightarrow>
          if (case map_of fs thinkingTypeKey of None \<Rightarrow> False | Some v \<Rightarrow> v \<noteq> AnyString thinkingTypeEnabled) then
            Inl (zaiUnsupported ''thinking type %v on Z.ai Coding, which only accepts enabled'' [])
          else (case map_of fs clearThinkingKey of
              None \<Rightarrow> Inr thinking
            | Some (AnyBool requested) \<Rightarrow> Inr (thinking\<lparr>tcClearThinking := Some requested\<rparr>)
            | Some _ \<Rightarrow> Inl (Wrap (Sentinel ErrZaiUnsupportedParameter) ''Z.ai Coding clear_thinking must be a boolean''))
      | Some _ \<Rightarrow> Inl (Wrap (Sentinel ErrZaiUnsupportedParameter) ''Z.ai Coding thinking must be a map with type and clear_thinking''))"

definition unsupportedReasoningEffort :: "string \<Rightarrow> reasoningEffort \<Rightarrow> err" where
  "unsupportedReasoningEffort i effort = zaiUnsupported ''reasoning effort %q on Z.ai Coding model %q'' [ArgStr effort, ArgStr i]"

definition codingPlanReasoningEffort :: "string \<Rightarrow> reasoningEffort \<Rightarrow> err + reasoningEffort" where
  "codingPlanReasoningEffort i effort =
     (if effort = ReasoningEffortMinimal \<or> effort = ReasoningEffortLow then Inr ReasoningEffortLow
      else if effort = ReasoningEffortMedium \<or> effort = ReasoningEffortHigh then Inr ReasoningEffortHigh
      else if effort = ReasoningEffortXHigh \<or> effort = ReasoningEffortMax then Inr ReasoningEffortMax
      else Inl (unsupportedReasoningEffort i effort))"

definition unknownModelReasoningConfiguration ::
  "string \<Rightarrow> reasoningEffort \<Rightarrow> err + thinkingConfig option \<times> reasoningEffort" where
  "unknownModelReasoningConfiguration i effort =
     (if effort = ReasoningEffortUnset then Inr (None, ReasoningEffortUnset)
      else Inl (zaiUnsupported ''reasoning control on unknown Z.ai Coding model %q'' [ArgStr i]))"

definition reasoningConfiguration ::
  "modelKind \<Rightarrow> string \<Rightarrow> generationParams \<Rightarrow> err + thinkingConfig option \<times> reasoningEffort" where
  "reasoningConfiguration kind i p =
     (let effort = gpReasoningEffort p in
      if kind = modelKindUnknown then unknownModelReasoningConfiguration i effort
      else case requestedThinking (gpExtra p) of
          Inl e \<Rightarrow> Inl e
        | Inr thinking \<Rightarrow>
            if effort = ReasoningEffortUnset then Inr (Some thinking, ReasoningEffortUnset)
            else case codingPlanReasoningEffort i effort of
                Inl e \<Rightarrow> Inl e
              | Inr wireEffort \<Rightarrow> Inr (Some thinking, wireEffort))"

text \<open>\<open>Extra\<close> is cloned before it is written, so the caller's map stays as it was.\<close>

definition prepareRequest :: "'w driverRequest \<Rightarrow> bool \<Rightarrow> err + 'w driverRequest" where
  "prepareRequest req streaming =
     (let i = mdID (drModel req); kind = classifyModel i; params = drParams req in
      case zai_validateParams kind i params of
        Some e \<Rightarrow> Inl e
      | None \<Rightarrow>
          (case reasoningConfiguration kind i params of
             Inl e \<Rightarrow> Inl e
           | Inr (thinking, effort) \<Rightarrow>
               let extra0 = gpExtra params;
                   extra1 = (case gpMaxOutputTokens params of
                               None \<Rightarrow> extra0 | Some n \<Rightarrow> AList.update extraMaxTokensKey (AnyInt n) extra0);
                   extra2 = (if streaming \<and> map_of extra1 extraToolStreamKey = None \<and> length (drTools req) > 0
                             then AList.update extraToolStreamKey (AnyBool True) extra1 else extra1);
                   extra3 = (case thinking of
                               None \<Rightarrow> extra2
                             | Some t \<Rightarrow>
                                 let x = AList.delete extraReasoningEffortKey (AList.update extraThinkingKey (thinkingValue t) extra2)
                                 in if effort \<noteq> ReasoningEffortUnset then AList.update extraReasoningEffortKey (AnyString effort) x else x)
               in Inr (req\<lparr>drParams := params\<lparr>gpMaxOutputTokens := None, gpExtra := extra3,
                         gpReasoningEffort := (if thinking = None then gpReasoningEffort params else ReasoningEffortUnset)\<rparr>\<rparr>)))"


section \<open>Finish reasons and business codes\<close>

definition codePromptTooLong :: string where "codePromptTooLong = ''1261''"
definition codeSensitiveContent :: string where "codeSensitiveContent = ''1301''"
definition finishReasonSensitive :: string where "finishReasonSensitive = ''sensitive''"
definition finishReasonContextWindowExceeded :: string where
  "finishReasonContextWindowExceeded = ''model_context_window_exceeded''"
definition finishReasonNetworkError :: string where "finishReasonNetworkError = ''network_error''"

definition isQuotaCode :: "string \<Rightarrow> bool" where
  "isQuotaCode code \<longleftrightarrow>
     code \<in> set [''1113'', ''1308'', ''1309'', ''1310'', ''1311'', ''1313'', ''1314'', ''1315'', ''1316'', ''1317'',
       ''1318'', ''1319'', ''1320'', ''1321'']"

definition zai_finishReason :: finishReasonMapper where
  "zai_finishReason raw =
     (if raw = finishReasonSensitive then Inr FinishReasonContentFilter
      else if raw = finishReasonContextWindowExceeded then Inr FinishReasonContextExceeded
      else if raw = finishReasonNetworkError then
        Inl (ProviderError (Some (Wrap (Sentinel ErrUnavailable) ''Z.ai Coding ended the response with network_error''))
               500 0 finishReasonNetworkError)
      else Inr FinishReasonUnset)"

text \<open>The first \<open>*ProviderError\<close> of the tree, with its cause.\<close>

fun providerNodes :: "err \<Rightarrow> (err option \<times> int \<times> int \<times> string) list" where
  "providerNodes (Wrap e m) = providerNodes e"
| "providerNodes (Wrapf e f as) = providerNodes e"
| "providerNodes (Joined es) = concat (map providerNodes es)"
| "providerNodes (ProviderError c st ra code) = (c, st, ra, code) # (case c of None \<Rightarrow> [] | Some e \<Rightarrow> providerNodes e)"
| "providerNodes _ = []"

definition providerErrorText :: "(err \<Rightarrow> string) \<Rightarrow> err option \<Rightarrow> string" where
  "providerErrorText errText cause = (case cause of None \<Rightarrow> ''provider request failed'' | Some e \<Rightarrow> errText e)"

definition zai_providerError :: "(err \<Rightarrow> string) \<Rightarrow> err \<Rightarrow> err" where
  "zai_providerError errText e =
     (case providerNodes e of
        [] \<Rightarrow> e
      | (cause, status, retryAfter, code) # _ \<Rightarrow>
          if isQuotaCode code then
            ProviderError (Some (Wrapf (Sentinel ErrQuotaExhausted) ''Z.ai Coding code %s: %s''
              [ArgStr code, ArgStr (providerErrorText errText cause)])) status retryAfter code
          else if code = codePromptTooLong then Joined [e, Sentinel ErrContextExceeded]
          else if code = codeSensitiveContent then Joined [e, Sentinel ErrSensitiveContent]
          else e)"

section \<open>Keeping the reasoning\<close>

definition zaiName :: string where "zaiName = ''zai-coding''"
abbreviation providerReasoningVersion :: int where "providerReasoningVersion \<equiv> 1"

definition zaiMembers :: "string \<Rightarrow> string \<Rightarrow> (string \<times> string) list" where
  "zaiMembers m reasoning =
     [(''provider'', jsonString zaiName), (''version'', itoa providerReasoningVersion), (''model'', jsonString m),
      (reasoningContentKey, jsonString reasoning)]"

definition zaiEnvelope :: "string \<Rightarrow> string \<Rightarrow> string" where
  "zaiEnvelope m reasoning = encodeObject (zaiMembers m reasoning)"

text \<open>
  The capture stands between the transport and the caller's callback. It sees each delta before
  the caller does, and may publish the envelope first.
\<close>

record reasoningCapture =
  rcModel :: string
  rcReasoning :: string
  rcPublished :: bool

definition newReasoningCapture :: "string \<Rightarrow> reasoningCapture" where
  "newReasoningCapture m = \<lparr>rcModel = m, rcReasoning = [], rcPublished = False\<rparr>"

text \<open>\<open>flush\<close>: nothing to publish, or the delta to publish; it counts as published even if the callback fails.\<close>

definition flushDelta :: "reasoningCapture \<Rightarrow> delta option" where
  "flushDelta c = (if rcPublished c \<or> rcReasoning c = [] then None
     else Some (emptyDelta\<lparr>dProviderReasoning := zaiEnvelope (rcModel c) (rcReasoning c)\<rparr>))"

definition captured :: "reasoningCapture \<Rightarrow> delta \<Rightarrow> reasoningCapture" where
  "captured c d = c\<lparr>rcReasoning := rcReasoning c @ dReasoning d\<rparr>"

primrec captureRun :: "(err \<Rightarrow> string) \<Rightarrow> string \<Rightarrow> reasoningCapture \<Rightarrow> 'w drun \<Rightarrow> 'w drun" where
  "captureRun errText label c (Done w u e) =
     (case e of
        Some x \<Rightarrow> Done w u (Some (Wrap (zai_providerError errText x) label))
      | None \<Rightarrow>
          (case flushDelta c of
             None \<Rightarrow> Done w u None
           | Some env \<Rightarrow> Emit w env (\<lambda>w' e'. Done w' u (map_option (\<lambda>x. Wrap x ''publish Z.ai Coding reasoning'') e'))))"
| "captureRun errText label c (Emit w d k) =
     (let c1 = captured c d;
          deliver = (\<lambda>c2 w1. Emit w1 d (\<lambda>w' e. captureRun errText label c2 (k w' (map_option (\<lambda>x. Wrap x ''publish Z.ai Coding delta'') e))))
      in if dFinishReason d = FinishReasonUnset then deliver c1 w
         else case flushDelta c1 of
             None \<Rightarrow> deliver c1 w
           | Some env \<Rightarrow>
               Emit w env (\<lambda>w' e. case e of
                   Some x \<Rightarrow> captureRun errText label (c1\<lparr>rcPublished := True\<rparr>)
                               (k w' (Some (Wrap x ''publish Z.ai Coding reasoning'')))
                 | None \<Rightarrow> deliver (c1\<lparr>rcPublished := True\<rparr>) w'))"

section \<open>Replay\<close>

record zaiReasoningEnvelope =
  zeProvider :: string
  zeVersion :: int
  zeModel :: string
  zeReasoning :: string

definition setZaiEnvelope :: "string \<Rightarrow> string \<Rightarrow> zaiReasoningEnvelope \<Rightarrow> zaiReasoningEnvelope option" where
  "setZaiEnvelope name v e =
     (if name = ''provider'' then map_option (\<lambda>x. e\<lparr>zeProvider := x\<rparr>) (storeString (zeProvider e) v)
      else if name = ''version'' then map_option (\<lambda>x. e\<lparr>zeVersion := x\<rparr>) (storeInt (zeVersion e) v)
      else if name = ''model'' then map_option (\<lambda>x. e\<lparr>zeModel := x\<rparr>) (storeString (zeModel e) v)
      else map_option (\<lambda>x. e\<lparr>zeReasoning := x\<rparr>) (storeString (zeReasoning e) v))"

abbreviation zaiFields :: "string list" where
  "zaiFields \<equiv> [''provider'', ''version'', ''model'', ''reasoning_content'']"

definition decodeZaiEnvelope :: "string \<Rightarrow> zaiReasoningEnvelope option" where
  "decodeZaiEnvelope raw = unmarshal (storeStruct zaiFields setZaiEnvelope
     \<lparr>zeProvider = [], zeVersion = 0, zeModel = [], zeReasoning = []\<rparr>) raw"

text \<open>The replayed field, as the JSON text it is sent as.\<close>

definition providerReasoningExtra :: assistantMessageExtra where
  "providerReasoningExtra m msg =
     (if \<not> HasProviderReasoning (mProviderReasoning msg) then Inr []
      else case decodeZaiEnvelope (mProviderReasoning msg) of
          None \<Rightarrow> Inr []
        | Some e \<Rightarrow>
            if zeProvider e \<noteq> zaiName \<or> zeVersion e \<noteq> providerReasoningVersion \<or> zeModel e \<noteq> mdID m \<or> zeReasoning e = []
            then Inr [] else Inr [(reasoningContentKey, jsonString (zeReasoning e))])"

section \<open>The driver\<close>

text \<open>\<open>NewDriver\<close>: the transport with this driver's replay and finish reasons.\<close>

definition zaiTransport :: "('w, reasoningState) openaiConfig \<Rightarrow> ('w, reasoningState) openaiConfig" where
  "zaiTransport cfg = cfg\<lparr>
     odEnv := (odEnv cfg)\<lparr>oeExtra := assistantReasoningExtra (Some providerReasoningExtra)\<rparr>,
     odCodec := openaiJSONCodec (ocUntilDate (odCodec cfg)) True,
     odMapper := Some zai_finishReason\<rparr>"

definition zai_Stream :: "(err \<Rightarrow> string) \<Rightarrow> ('w, reasoningState) openaiConfig \<Rightarrow> 'w driverRequest \<Rightarrow> 'w \<Rightarrow> 'w drun" where
  "zai_Stream errText cfg req w =
     (case prepareRequest req True of
        Inl e \<Rightarrow> Done w zeroUsage (Some (Wrap e ''prepare Z.ai Coding stream request''))
      | Inr prepared \<Rightarrow> captureRun errText ''stream Z.ai Coding chat completion'' (newReasoningCapture (mdID (drModel prepared)))
          (openai_Stream (zaiTransport cfg) prepared w))"

definition zai_Complete :: "(err \<Rightarrow> string) \<Rightarrow> ('w, reasoningState) openaiConfig \<Rightarrow> 'w driverRequest \<Rightarrow> 'w \<Rightarrow> 'w drun" where
  "zai_Complete errText cfg req w =
     (case prepareRequest req False of
        Inl e \<Rightarrow> Done w zeroUsage (Some (Wrap e ''prepare Z.ai Coding completion request''))
      | Inr prepared \<Rightarrow> captureRun errText ''complete Z.ai Coding chat completion'' (newReasoningCapture (mdID (drModel prepared)))
          (openai_Complete (zaiTransport cfg) prepared w))"

definition zai_ListModels :: "('w, reasoningState) openaiConfig \<Rightarrow> 'w \<Rightarrow> 'w \<times> (err + string list)" where
  "zai_ListModels cfg w =
     (case openai_ListModels (zaiTransport cfg) w of
        (w', Inl e) \<Rightarrow> (w', Inl (Wrap e ''list Z.ai Coding models''))
      | (w', Inr ids) \<Rightarrow> (w', Inr ids))"

definition zaiDriver :: "(err \<Rightarrow> string) \<Rightarrow> ('w, reasoningState) openaiConfig \<Rightarrow> 'w tool counter \<Rightarrow> 'w driver" where
  "zaiDriver errText cfg base =
     \<lparr>dvStream = zai_Stream errText cfg, dvComplete = zai_Complete errText cfg, dvListModels = zai_ListModels cfg,
      dvCapabilities = (\<lambda>m. zai_capabilities m (openai_capabilities m)),
      dvTokenCounter = Some (openaiTokenCounter (Some providerReasoningExtra) base)\<rparr>"

section \<open>What the caller sees\<close>

lemma keepAll_step: "runDriver keepAll s (Emit w d k) = runDriver keepAll (s @ [d]) (k w None)"
  by (simp add: keepAll_def)

lemma runDriver_keepAll:
  "runDriver keepAll s r = (case runDriver keepAll [] r of (xs, w, u, e) \<Rightarrow> (s @ xs, w, u, e))"
proof (induction r arbitrary: s)
  case (Emit w d k)
  obtain xs w' u e where r: "runDriver keepAll [] (k w None) = (xs, w', u, e)" by (metis prod_cases4)
  have "runDriver keepAll t (k w None) = (t @ xs, w', u, e)" for t
    using Emit.IH [of "k w" "k w None" t] r by simp
  then show ?case by (simp add: keepAll_def [of s d w] keepAll_def [of "[]" d w])
qed simp

text \<open>The deltas of a call that succeeds, with the envelope put in.\<close>

fun withEnvelope :: "reasoningCapture \<Rightarrow> delta list \<Rightarrow> delta list" where
  "withEnvelope c [] = (case flushDelta c of None \<Rightarrow> [] | Some env \<Rightarrow> [env])"
| "withEnvelope c (d # ds) =
     (let c1 = captured c d in
      if dFinishReason d = FinishReasonUnset then d # withEnvelope c1 ds
      else case flushDelta c1 of
          None \<Rightarrow> d # withEnvelope c1 ds
        | Some env \<Rightarrow> env # d # withEnvelope (c1\<lparr>rcPublished := True\<rparr>) ds)"

lemma captureRun_keepAll:
  "runDriver keepAll s (captureRun errText label c r) = (ds, w', u, None) \<Longrightarrow>
     \<exists>xs. runDriver keepAll [] r = (xs, w', u, None) \<and> ds = s @ withEnvelope c xs"
proof (induction r arbitrary: s c)
  case (Done w v e)
  then show ?case by (auto simp: keepAll_def split: option.splits)
next
  case (Emit w d k)
  have IH: "\<exists>xs. runDriver keepAll [] (k w None) = (xs, w', u, None) \<and> ds = s' @ withEnvelope c' xs"
    if "runDriver keepAll s' (captureRun errText label c' (k w None)) = (ds, w', u, None)" for s' c'
    using Emit.IH [of "k w" "k w None" s' c'] that by simp
  have first: "runDriver keepAll [] (Emit w d k) = (d # xs, w', u, None)" if "runDriver keepAll [] (k w None) = (xs, w', u, None)" for xs
    using that runDriver_keepAll [of "[d]" "k w None"] by (simp add: keepAll_def [of "[]" d w])
  let ?c = "captured c d"
  show ?case
  proof (cases "dFinishReason d = FinishReasonUnset \<or> flushDelta ?c = None")
    case True
    then have "runDriver keepAll (s @ [d]) (captureRun errText label ?c (k w None)) = (ds, w', u, None)"
      using Emit.prems by (elim disjE) (simp_all add: Let_def keepAll_step del: runDriver.simps(2) split: if_splits)
    from IH [OF this] first True show ?thesis by (auto simp: Let_def split: if_splits)
  next
    case False
    then obtain env where env: "flushDelta ?c = Some env" by blast
    have "runDriver keepAll (s @ [env, d]) (captureRun errText label (?c\<lparr>rcPublished := True\<rparr>) (k w None)) = (ds, w', u, None)"
      using Emit.prems False env by (simp add: Let_def keepAll_step del: runDriver.simps(2))
    from IH [OF this] first False env show ?thesis by (auto simp: Let_def)
  qed
qed

lemma withEnvelope_published: "rcPublished c \<Longrightarrow> withEnvelope c ds = ds"
  by (induction ds arbitrary: c) (simp_all add: flushDelta_def captured_def Let_def)

lemma withEnvelope_place:
  assumes "\<not> rcPublished c"
  shows "rcReasoning c @ concat (map dReasoning ds) = [] \<and> withEnvelope c ds = ds
    \<or> (\<exists>pre post r. ds = pre @ post
         \<and> withEnvelope c ds = pre @ emptyDelta\<lparr>dProviderReasoning := zaiEnvelope (rcModel c) r\<rparr> # post
         \<and> (post = [] \<or> dFinishReason (hd post) \<noteq> FinishReasonUnset) \<and> r \<noteq> []
         \<and> r = rcReasoning c @ concat (map dReasoning (pre @ take 1 post)))"
  using assms
proof (induction ds arbitrary: c)
  case Nil
  then show ?case by (auto simp: flushDelta_def)
next
  case (Cons d ds)
  show ?case
  proof (cases "dFinishReason d \<noteq> FinishReasonUnset \<and> rcReasoning (captured c d) \<noteq> []")
    case True
    then have "withEnvelope c (d # ds) = emptyDelta\<lparr>dProviderReasoning := zaiEnvelope (rcModel c) (rcReasoning c @ dReasoning d)\<rparr> # d # ds"
      using Cons.prems by (auto simp: flushDelta_def captured_def Let_def withEnvelope_published)
    then show ?thesis using True
      by (intro disjI2 exI [of _ "[]"] exI [of _ "d # ds"] exI [of _ "rcReasoning c @ dReasoning d"]) (auto simp: captured_def)
  next
    case False
    then have e: "withEnvelope c (d # ds) = d # withEnvelope (captured c d) ds"
      by (auto simp: flushDelta_def captured_def Let_def)
    have "\<not> rcPublished (captured c d)" "rcModel (captured c d) = rcModel c"
      "rcReasoning (captured c d) = rcReasoning c @ dReasoning d"
      using Cons.prems by (simp_all add: captured_def)
    note c1 = this
    consider "rcReasoning c @ dReasoning d @ concat (map dReasoning ds) = []" "withEnvelope (captured c d) ds = ds"
      | pre post r where "ds = pre @ post"
         "withEnvelope (captured c d) ds = pre @ emptyDelta\<lparr>dProviderReasoning := zaiEnvelope (rcModel c) r\<rparr> # post"
         "post = [] \<or> dFinishReason (hd post) \<noteq> FinishReasonUnset" "r \<noteq> []"
         "r = rcReasoning c @ dReasoning d @ concat (map dReasoning (pre @ take 1 post))"
      using Cons.IH [OF c1(1)] unfolding c1(2,3) append_assoc by blast
    then show ?thesis
    proof cases
      case 1
      then show ?thesis using e by simp
    next
      case 2
      then show ?thesis using e
        by (intro disjI2 exI [of _ "d # pre"] exI [of _ post] exI [of _ r]) simp
    qed
  qed
qed

text \<open>What a stored envelope decodes to.\<close>

lemma zai_fields:
  "fieldOf zaiFields ''provider'' = Some ''provider''" "fieldOf zaiFields ''version'' = Some ''version''"
  "fieldOf zaiFields ''model'' = Some ''model''" "fieldOf zaiFields ''reasoning_content'' = Some ''reasoning_content''"
  by code_simp+

lemma setZaiEnvelope_fields:
  "setZaiEnvelope ''provider'' v e = map_option (\<lambda>x. e\<lparr>zeProvider := x\<rparr>) (storeString (zeProvider e) v)"
  "setZaiEnvelope ''version'' v e = map_option (\<lambda>x. e\<lparr>zeVersion := x\<rparr>) (storeInt (zeVersion e) v)"
  "setZaiEnvelope ''model'' v e = map_option (\<lambda>x. e\<lparr>zeModel := x\<rparr>) (storeString (zeModel e) v)"
  "setZaiEnvelope ''reasoning_content'' v e = map_option (\<lambda>x. e\<lparr>zeReasoning := x\<rparr>) (storeString (zeReasoning e) v)"
  by (simp_all add: setZaiEnvelope_def)

lemma zaiName_text: "string_of_runes (runes zaiName) = zaiName"
proof -
  have "ascii zaiName" by code_simp
  then show ?thesis by (simp add: runes_ascii string_of_runes_ascii)
qed

lemma zai_members:
  "list_all (\<lambda>(k, v). rawValue v) (zaiMembers m r)" "list_all (\<lambda>(k, v). valueAt [ParseObjectValue] v) (zaiMembers m r)"
  "map (\<lambda>(k, v). (readKey k, v)) (zaiMembers m r) = zaiMembers m r"
proof -
  have "itoa providerReasoningVersion = ''1''" by code_simp
  then show "list_all (\<lambda>(k, v). rawValue v) (zaiMembers m r)" "list_all (\<lambda>(k, v). valueAt [ParseObjectValue] v) (zaiMembers m r)"
    by (simp_all add: zaiMembers_def rawValue_jsonString valueAt_jsonString small_numbers)
  have "ascii ''provider''" "ascii ''version''" "ascii ''model''" "ascii reasoningContentKey" by code_simp+
  then show "map (\<lambda>(k, v). (readKey k, v)) (zaiMembers m r) = zaiMembers m r" by (simp add: zaiMembers_def readKey_ascii)
qed

lemma decodeZaiEnvelope_envelope:
  assumes "validUTF8 m" and "validUTF8 r"
  shows "decodeZaiEnvelope (zaiEnvelope m r) = Some \<lparr>zeProvider = zaiName, zeVersion = 1, zeModel = m, zeReasoning = r\<rparr>"
proof -
  have n: "itoa providerReasoningVersion = ''1''" by code_simp
  have "decodeZaiEnvelope (encodeObject (zaiMembers m r))
      = storeFields zaiFields setZaiEnvelope (zaiMembers m r) \<lparr>zeProvider = [], zeVersion = 0, zeModel = [], zeReasoning = []\<rparr>"
    unfolding decodeZaiEnvelope_def unmarshal_object [OF zai_members(2)] storeStruct_object [OF zai_members(1)] zai_members(3)
    by (rule refl)
  also have "\<dots> = Some \<lparr>zeProvider = zaiName, zeVersion = 1, zeModel = m, zeReasoning = r\<rparr>"
    unfolding zaiMembers_def n reasoningContentKey_def
    by (simp only: storeFields.simps zai_fields setZaiEnvelope_fields option.case storeString_jsonString n zaiName_text
        small_numbers string_of_runes_valid [OF assms(1)] string_of_runes_valid [OF assms(2)] option.map Option.bind.bind_lunit
        zaiReasoningEnvelope.select_convs zaiReasoningEnvelope.update_convs)
  finally show ?thesis unfolding zaiEnvelope_def .
qed

text \<open>The transport under this driver keeps no opaque state of its own.\<close>

lemma quiet_codec:
  assumes "\<not> rsPublishes rs"
  shows "ocConsume (openaiJSONCodec until True) rs raw stream = Inr rs" "ocEmit (openaiJSONCodec until True) rs = None"
  using assms by (simp_all add: openaiJSONCodec_def consumeReasoning_def emitEnvelope_def)

lemma quiet_emit: "\<not> rsPublishes rs \<Longrightarrow> emitReasoning (openaiJSONCodec until True) rs w ok fail = ok rs w"
  by (simp add: emitReasoning_def quiet_codec)

lemma quiet_chunk:
  "\<not> rsPublishes rs \<Longrightarrow> consumeChunkReasoning (openaiJSONCodec until True) rs c w ok fail = ok rs w"
  by (simp add: consumeChunkReasoning_def quiet_emit quiet_codec split: list.split)

lemma quiet_stream:
  assumes "\<not> rsPublishes rs"
  shows "runDriver keepAll s (consumeStream (openaiJSONCodec until True) mapper st chunks sig u rs w) = (ds, w', v, None)
    \<Longrightarrow> \<exists>xs. ds = s @ xs \<and> visible xs = xs"
proof (induction chunks arbitrary: s sig u w)
  case Nil
  then show ?case
    by (cases "osErr st"; cases "osCloseErr st")
      (auto simp: endStream_def Let_def quiet_emit [OF assms] finishResponse_def visible_def split: prod.splits)
next
  case (Cons c chunks)
  let ?ds = "deltasFromChunk (openaiJSONCodec until True) c (snd (scanChoiceSignals c sig))"
  have "runDriver keepAll (s @ ?ds) (consumeStream (openaiJSONCodec until True) mapper st chunks (scanChoiceSignals c sig)
      (usageFromChunk u c (snd (scanChoiceSignals c sig))) rs w) = (ds, w', v, None)"
    using Cons.prems by (simp add: quiet_chunk [OF assms] publishChunk_def publishDeltas_run Let_def)
  from Cons.IH [OF this] obtain xs where "ds = (s @ ?ds) @ xs" "visible xs = xs" by blast
  then show ?case by (intro exI [of _ "?ds @ xs"]) (simp add: visible_chunk)
qed

lemma zai_transport_visible:
  assumes "runDriver keepAll [] (openai_Stream (zaiTransport cfg) q w) = (ds, w', u, None)"
  shows "visible ds = ds"
proof -
  let ?oc = "openaiJSONCodec (ocUntilDate (odCodec cfg)) True" and ?rs = "newReasoningState True (mdID (drModel q))"
  have init: "ocInitial ?oc (mdID (drModel q)) = ?rs" "\<not> rsPublishes ?rs"
    by (simp_all add: openaiJSONCodec_def newReasoningState_def)
  obtain st w1 where "runDriver keepAll [] (consumeStream ?oc (Some zai_finishReason) st (osChunks st) ([], False) zeroUsage ?rs w1)
      = (ds, w', u, None)"
    using assms by (simp add: openai_Stream_def zaiTransport_def init split: option.splits sum.splits prod.splits)
  from quiet_stream [OF init(2) this] show ?thesis by simp
qed

text \<open>The transport reads this driver's envelope as another provider's.\<close>

lemma zai_not_openai_field: "fieldOf [''provider'', ''version'', ''model'', ''fields''] ''reasoning_content'' = None"
  by code_simp

lemma decodeEnvelope_zai:
  assumes "validUTF8 m"
  shows "decodeEnvelope (zaiEnvelope m r) = Some \<lparr>reProvider = zaiName, reVersion = 1, reModel = m, reFields = []\<rparr>"
proof -
  let ?names = "[''provider'', ''version'', ''model'', ''fields'']"
  let ?e = "\<lparr>reProvider = [], reVersion = 0, reModel = [], reFields = []\<rparr>"
  have v: "itoa providerReasoningVersion = ''1''" by code_simp
  note n = v zaiName_text
  have "decodeEnvelope (encodeObject (zaiMembers m r)) = storeFields ?names setEnvelope (zaiMembers m r) ?e"
    unfolding decodeEnvelope_def unmarshal_object [OF zai_members(2)] storeStruct_object [OF zai_members(1)] zai_members(3)
    by (rule refl)
  also have "\<dots> = Some \<lparr>reProvider = zaiName, reVersion = 1, reModel = m, reFields = []\<rparr>"
    unfolding zaiMembers_def n(1) reasoningContentKey_def
    by (simp only: storeFields.simps envelope_fields zai_not_openai_field setEnvelope_fields option.case storeString_jsonString n
        small_numbers string_of_runes_valid [OF assms] option.map Option.bind.bind_lunit
        reasoningEnvelope.select_convs reasoningEnvelope.update_convs)
  finally show ?thesis unfolding zaiEnvelope_def .
qed

text \<open>Joining a sentinel the retry layer does not know changes nothing for it.\<close>

lemma classifyRetry_joined:
  "s \<notin> {ContextCanceled, DeadlineExceeded, ErrQuotaExhausted, ErrRateLimited, IoEOF, IoUnexpectedEOF} \<Longrightarrow>
     classifyRetry (Wrap (Joined [e, Sentinel s]) m) = classifyRetry (Wrap e m)"
proof -
  assume s: "s \<notin> {ContextCanceled, DeadlineExceeded, ErrQuotaExhausted, ErrRateLimited, IoEOF, IoUnexpectedEOF}"
  then have "classifyTransportError (Wrap (Joined [e, Sentinel s]) m) = classifyTransportError (Wrap e m)"
    by (simp add: classifyTransportError_def as_net_def)
  then have "classifyVerdict (Wrap (Joined [e, Sentinel s]) m) = classifyVerdict (Wrap e m)"
    by (simp add: classifyVerdict_def as_status_def cong: option.case_cong)
  then show ?thesis using s by (simp add: classifyRetry_def as_provider_def cong: option.case_cong prod.case_cong if_cong)
qed

lemma classifyRetry_wrap: "classifyRetry (Wrap e m) = classifyRetry e"
proof -
  have "classifyTransportError (Wrap e m) = classifyTransportError e" by (simp add: classifyTransportError_def)
  then have "classifyVerdict (Wrap e m) = classifyVerdict e" by (simp add: classifyVerdict_def cong: option.case_cong)
  then show ?thesis by (simp add: classifyRetry_def cong: option.case_cong prod.case_cong if_cong)
qed

lemma as_status_joined: "as_status (Joined [e, Sentinel s]) = as_status e"
  by (simp add: as_status_def)

section \<open>Properties\<close>


text \<open>
  The envelope is replayed as the reasoning it holds, on the model that produced it; on any
  other model, or when it belongs to another provider, nothing is sent.
\<close>

theorem zai_reasoning_roundtrip:
  assumes "validUTF8 m" and "validUTF8 r" and "r \<noteq> []" and "mProviderReasoning msg = zaiEnvelope m r"
  shows "assistantReasoningExtra (Some providerReasoningExtra) mdl msg
      = Inr (if mdID mdl = m then [(reasoningContentKey, jsonString r)] else [])
    \<and> assistantReasoningExtra None mdl msg = Inr []"
proof -
  have "savedReasoningFields i (zaiEnvelope m r) = Inr []" for i
  proof -
    have "openaiName \<noteq> zaiName" by (simp add: openaiName_def zaiName_def)
    then show ?thesis
      using decodeEnvelope_zai [OF assms(1)] by (simp add: savedReasoningFields_def)
  qed
  then show ?thesis
    using decodeZaiEnvelope_envelope [OF assms(1,2)] assms(3,4)
    by (simp add: assistantReasoningExtra_def providerReasoningExtra_def zaiEnvelope_def HasProviderReasoning_object)
qed

text \<open>
  What the provider's failures become. An exhausted balance or plan is never retried,
  although it comes as HTTP 429; every other failure is judged as the transport judges it. The
  status and the Retry-After delay stay, and the codes for a long prompt and for refused
  content can be told by their sentinels.
\<close>

theorem zai_error_verdict:
  "let z = zai_providerError errText (Wrap (openai_normalizeProviderError oc (APIError status code header)) label) in
    classifyRetry (Wrap z msg) = (if isQuotaCode code then ([], 429, False) else apiVerdict status code)
    \<and> as_status z = Some (status, case header of None \<Rightarrow> 0 | Some h \<Rightarrow> ParseRetryAfter (ocUntilDate oc) h)
    \<and> (err_is z ErrContextExceeded \<longleftrightarrow> code = codePromptTooLong \<or> code = ProviderErrorCodeContextLengthExceeded)
    \<and> (err_is z ErrSensitiveContent \<longleftrightarrow> code = codeSensitiveContent)
    \<and> (err_is z ErrRateLimited \<longleftrightarrow> \<not> isQuotaCode code \<and> ProviderSentinel status code = Some ErrRateLimited)"
proof -
  let ?e = "Wrap (openai_normalizeProviderError oc (APIError status code header)) label"
  let ?d = "case header of None \<Rightarrow> 0 | Some h \<Rightarrow> ParseRetryAfter (ocUntilDate oc) h"
  let ?cause = "case ProviderSentinel status code of None \<Rightarrow> Opaque code | Some s \<Rightarrow> Joined [Opaque code, Sentinel s]"
  have e: "?e = Wrap (Wrap (ProviderError (Some ?cause) status ?d code) ''OpenAI provider request'') label"
    by (simp add: openai_normalizeProviderError_def Let_def)
  have v: "classifyRetry (Wrap ?e msg) = apiVerdict status code"
    using openai_errors.verdict [of oc status code header label] by (simp add: classifyRetry_wrap)
  have codes: "\<not> isQuotaCode codePromptTooLong" "\<not> isQuotaCode codeSensitiveContent" "codePromptTooLong \<noteq> codeSensitiveContent"
    "\<not> isQuotaCode ProviderErrorCodeContextLengthExceeded" "codePromptTooLong \<noteq> ProviderErrorCodeContextLengthExceeded"
    "codeSensitiveContent \<noteq> ProviderErrorCodeContextLengthExceeded"
    by code_simp+
  have nodes: "providerNodes ?e = (Some ?cause, status, ?d, code) # providerNodes ?cause" unfolding e by simp
  have st: "as_status ?e = Some (status, ?d)" unfolding e by (simp add: as_status_def first_of_def)
  have "err_is ?cause s \<longleftrightarrow> ProviderSentinel status code = Some s" for s by (simp split: option.split)
  then have eis: "err_is ?e s \<longleftrightarrow> ProviderSentinel status code = Some s" for s unfolding e by simp
  have context_code: "ProviderSentinel status code = Some ErrContextExceeded \<longleftrightarrow> code = ProviderErrorCodeContextLengthExceeded"
    "ProviderSentinel status code \<noteq> Some ErrSensitiveContent"
    by (simp_all add: ProviderSentinel_def)
  consider (quota) "isQuotaCode code" | (long) "code = codePromptTooLong" | (sensitive) "code = codeSensitiveContent"
    | (other) "\<not> isQuotaCode code" "code \<noteq> codePromptTooLong" "code \<noteq> codeSensitiveContent" by blast
  then show ?thesis
  proof cases
    case quota
    then have "zai_providerError errText ?e = ProviderError (Some (Wrapf (Sentinel ErrQuotaExhausted) ''Z.ai Coding code %s: %s''
        [ArgStr code, ArgStr (providerErrorText errText (Some ?cause))])) status ?d code"
      unfolding zai_providerError_def nodes by simp
    moreover have "code \<noteq> codePromptTooLong" "code \<noteq> codeSensitiveContent" "code \<noteq> ProviderErrorCodeContextLengthExceeded"
      using quota codes by auto
    ultimately show ?thesis using quota by (simp add: Let_def classifyRetry_def as_status_def first_of_def)
  next
    case long
    then have "zai_providerError errText ?e = Joined [?e, Sentinel ErrContextExceeded]"
      unfolding zai_providerError_def nodes using codes by simp
    then show ?thesis
      using long codes classifyRetry_joined [of ErrContextExceeded ?e msg] v st eis context_code
      by (simp add: Let_def as_status_joined)
  next
    case sensitive
    then have "zai_providerError errText ?e = Joined [?e, Sentinel ErrSensitiveContent]"
      unfolding zai_providerError_def nodes using codes by simp
    then show ?thesis
      using sensitive codes classifyRetry_joined [of ErrSensitiveContent ?e msg] v st eis context_code
      by (simp add: Let_def as_status_joined)
  next
    case other
    then have "zai_providerError errText ?e = ?e" unfolding zai_providerError_def nodes by simp
    then show ?thesis using other v st eis context_code by (simp add: Let_def)
  qed
qed

section \<open>The engine's checks suffice\<close>

definition servesZai :: "'w request \<Rightarrow> bool" where
  "servesZai r \<longleftrightarrow> clientCapabilities (rqClient r) = (\<lambda>m. zai_capabilities m (openai_capabilities m))"

lemma zai_LookupModel_ID [simp]: "mdID (zai_LookupModel i) = i"
  by (cases "classifyModel i") (simp_all add: zai_LookupModel_def bareModel_def)

lemma zai_flags [simp]:
  "SupportsResponseFormatJSONSchema (zai_capabilities m c) = SupportsResponseFormatJSONSchema c"
  "SupportsResponseFormatJSONObject (zai_capabilities m c) = SupportsResponseFormatJSONObject c"
  "SupportsStrictToolArguments (zai_capabilities m c) = SupportsStrictToolArguments c"
  "\<not> SupportsToolChoice (zai_capabilities m c)"
  "SupportsParallelToolCalls (zai_capabilities m c) = SupportsParallelToolCalls c"
  "SupportsSamplingPenalties (zai_capabilities m c) = SupportsSamplingPenalties c"
  "SupportsSamplingParams (zai_capabilities m c) = SupportsSamplingParams c"
  "\<not> SupportsDisablingReasoning (zai_capabilities m c)"
  "SupportsReasoningEffort (zai_capabilities m c) \<longleftrightarrow> classifyModel (mdID m) \<noteq> modelKindUnknown"
  by (cases "classifyModel (mdID m)"; simp add: zai_capabilities_def Let_def)+

text \<open>An effort the engine lets through for a model of the plan has a level there.\<close>

lemma zai_effort_mapped:
  assumes "validateReasoningConfiguration (zai_LookupModel i) e (zai_capabilities (zai_LookupModel i) c) = None"
    and "e \<noteq> ReasoningEffortUnset"
  shows "classifyModel i \<noteq> modelKindUnknown \<and> (\<exists>x. codingPlanReasoningEffort i e = Inr x \<and> x \<noteq> ReasoningEffortUnset)"
proof -
  have known: "classifyModel i \<noteq> modelKindUnknown" and ranked: "isKnownReasoningEffort (zai_LookupModel i) e"
    using assms by (auto simp: validateReasoningConfiguration_def Let_def split: if_splits)
  have "mdReasoningLevels (zai_LookupModel i) = zai_reasoningLevels"
    using known by (cases "classifyModel i") (simp_all add: zai_LookupModel_def)
  then have "e \<in> rankedEfforts"
    using ranked unfolding known_effort_iff ranked_iff
    by (auto simp: listedEfforts_def zai_reasoningLevels_def rankedEfforts_def)
  then show ?thesis using known
    unfolding codingPlanReasoningEffort_def rankedEfforts_def by (elim insertE emptyE) simp_all
qed

lemma zai_round_params:
  "gpExtra (driverParams r s tools) = gpExtra (rqParams r)"
  "gpReasoningEffort (driverParams r s tools) =
     (if SupportsReasoningEffort (clientCapabilities (rqClient r) (stModel s))
        \<or> SupportsDisablingReasoning (clientCapabilities (rqClient r) (stModel s))
      then gpReasoningEffort (rqParams r) else ReasoningEffortUnset)"
  "chMode (gpToolChoice (driverParams r s tools)) = (if tools = [] then [] else chMode (gpToolChoice (rqParams r)))"
  "gpParallelToolCalls (driverParams r s tools) = (if tools = [] then None else gpParallelToolCalls (rqParams r))"
  by (auto simp: driverParams_def Let_def cloneParams_def)

definition zaiEffort :: "string \<Rightarrow> reasoningEffort \<Rightarrow> any option" where
  "zaiEffort i e = (case codingPlanReasoningEffort i e of Inl _ \<Rightarrow> None | Inr x \<Rightarrow> Some (AnyString x))"

text \<open>
  A request the engine accepted for a model of the coding plan is not refused by this driver
  nor by the transport under it, as long as it has at most four stop words, stays within the
  output limit and its thinking settings are well formed. The output limit and the effort reach
  the provider through \<open>max_tokens\<close> and \<open>reasoning_effort\<close> instead of the transport's fields,
  and the rest of the request is unchanged.
\<close>

theorem zai_accepts_engine_parameters:
  assumes "validateCapabilities env r (zai_LookupModel i) (Some tools) = None" and "servesZai r"
    and "stModel s = zai_LookupModel i" and "classifyModel i \<noteq> modelKindUnknown"
    and "length (gpStop (rqParams r)) \<le> maxStopWords"
    and "case gpMaxOutputTokens (rqParams r) of None \<Rightarrow> True | Some n \<Rightarrow> n \<le> glm53MaxOutputTokens"
    and "requestedThinking (gpExtra (rqParams r)) = Inr t"
  shows "\<exists>q. prepareRequest (roundRequest r s tools) streaming = Inr q
    \<and> openai_rejectUnsupportedParams q = None
    \<and> drModel q = zai_LookupModel i \<and> drMessages q = cloneMessages (stMessages s) \<and> drTools q = cloneTools tools
    \<and> gpMaxOutputTokens (drParams q) = None \<and> gpReasoningEffort (drParams q) = ReasoningEffortUnset
    \<and> gpStop (drParams q) = gpStop (rqParams r) \<and> gpTemperature (drParams q) = gpTemperature (rqParams r)
    \<and> map_of (gpExtra (drParams q)) extraThinkingKey = Some (thinkingValue t)
    \<and> map_of (gpExtra (drParams q)) extraReasoningEffortKey = zaiEffort i (gpReasoningEffort (rqParams r))
    \<and> map_of (gpExtra (drParams q)) extraMaxTokensKey
        = (case gpMaxOutputTokens (rqParams r) of
             None \<Rightarrow> map_of (gpExtra (rqParams r)) extraMaxTokensKey | Some n \<Rightarrow> Some (AnyInt n))"
proof -
  let ?m = "zai_LookupModel i" and ?q = "roundRequest r s tools" and ?e = "gpReasoningEffort (rqParams r)"
  let ?c = "zai_capabilities ?m (openai_capabilities ?m)"
  have c: "validateParameterCapabilities r ?c = None" "validateReasoningConfiguration ?m ?e ?c = None"
    "validateResponseFormat env (gpResponseFormat (rqParams r)) ?c = None" "validateToolCapabilities r tools ?c = None"
    using assms(1,2) by (simp_all add: validateCapabilities_def servesZai_def Let_def)
  have caps: "clientCapabilities (rqClient r) (stModel s) = ?c" using assms(2,3) by (simp add: servesZai_def)
  have choice: "chMode (gpToolChoice (rqParams r)) = []"
    using c(4) by (auto simp: validateToolCapabilities_def validateToolChoice_def split: if_splits)
  have q: "mdID (drModel ?q) = i" "drParams ?q = driverParams r s tools" "drModel ?q = ?m"
    "drMessages ?q = cloneMessages (stMessages s)" "drTools ?q = cloneTools tools"
    using assms(3) by (simp_all add: roundRequest_def)
  have effort: "gpReasoningEffort (driverParams r s tools) = ?e"
    using assms(4) by (simp add: zai_round_params caps)
  have v: "zai_validateParams (classifyModel i) i (driverParams r s tools) = None"
    using assms(5,6) choice by (auto simp: zai_validateParams_def zai_round_params split: option.splits)
  obtain x where x: "reasoningConfiguration (classifyModel i) i (driverParams r s tools) = Inr (Some t, x)"
      "zaiEffort i ?e = (if x = ReasoningEffortUnset then None else Some (AnyString x))"
  proof (cases "?e = ReasoningEffortUnset")
    case True
    then show ?thesis using assms(4,7) effort that [of ReasoningEffortUnset]
      by (simp add: reasoningConfiguration_def zai_round_params zaiEffort_def codingPlanReasoningEffort_def)
  next
    case False
    then obtain y where "codingPlanReasoningEffort i ?e = Inr y" "y \<noteq> ReasoningEffortUnset"
      using zai_effort_mapped [OF c(2)] by blast
    then show ?thesis using assms(4,7) effort False that [of y]
      by (simp add: reasoningConfiguration_def zai_round_params zaiEffort_def)
  qed
  let ?p = "driverParams r s tools"
  obtain extra where prepared: "prepareRequest ?q streaming
        = Inr (?q\<lparr>drParams := ?p\<lparr>gpMaxOutputTokens := None, gpExtra := extra, gpReasoningEffort := ReasoningEffortUnset\<rparr>\<rparr>)"
      and extra: "map_of extra extraThinkingKey = Some (thinkingValue t)" "map_of extra extraReasoningEffortKey = zaiEffort i ?e"
        "map_of extra extraMaxTokensKey = (case gpMaxOutputTokens ?p of
           None \<Rightarrow> map_of (gpExtra ?p) extraMaxTokensKey | Some n \<Rightarrow> Some (AnyInt n))"
    unfolding prepareRequest_def q(1,2) Let_def v x option.case sum.case prod.case
    by (cases "x = ReasoningEffortUnset"; cases "gpMaxOutputTokens ?p") (simp_all add: update_conv' delete_conv')
  have sampling: "SupportsSamplingParams (openai_capabilities ?m) \<or> gpTemperature (rqParams r) = None \<and> gpTopP (rqParams r) = None"
    "SupportsSamplingPenalties (openai_capabilities ?m)
       \<or> gpFrequencyPenalty (rqParams r) = None \<and> gpPresencePenalty (rqParams r) = None"
    using c(1) by (auto simp: validateParameterCapabilities_def Let_def split: if_splits)
  have accepted: "openai_rejectUnsupportedParams
      (?q\<lparr>drParams := ?p\<lparr>gpMaxOutputTokens := None, gpExtra := extra, gpReasoningEffort := ReasoningEffortUnset\<rparr>\<rparr>) = None"
      (is "openai_rejectUnsupportedParams ?r = None")
  proof -
    have "openai_rejectUnsupportedToolParams ?r (openai_capabilities ?m) = None"
      using c(4) q choice by (auto simp: openai_rejectUnsupportedToolParams_def validateToolCapabilities_def
          validateStrictToolArguments_def zai_round_params cloneTools_def Let_def split: if_splits)
    moreover from this have "openai_rejectUnsupportedStructured ?r (openai_capabilities ?m) = None"
      using c(3) by (auto simp: openai_rejectUnsupportedStructured_def validateResponseFormat_def Let_def split: option.splits if_splits)
    ultimately show ?thesis
      using sampling unfolding openai_rejectUnsupportedParams_def Let_def
      by (cases "SupportsSamplingParams (openai_capabilities ?m)"; cases "SupportsSamplingPenalties (openai_capabilities ?m)")
        (simp_all add: openai_rejectUnsupportedReasoning_def q)
  qed
  show ?thesis using prepared accepted extra q(3-5) by (simp add: zai_round_params cong: option.case_cong)
qed

section \<open>Witnesses\<close>

lemma utf8_segs_ascii: "ascii s \<Longrightarrow> utf8_segs s = map (\<lambda>c. (byte_of c, [c])) s"
proof (induction s)
  case (Cons c s)
  then have "byte_of c < 0x80" and "ascii s" by (auto simp: ascii_def)
  with Cons.IH show ?case by (simp add: decodeRune_def Let_def)
qed simp

lemma trimSpace_ascii:
  "ascii s \<Longrightarrow> trimSpace s = rev (dropWhile (\<lambda>c. isSpace (byte_of c)) (rev (dropWhile (\<lambda>c. isSpace (byte_of c)) s)))"
  by (simp add: trimSpace_def utf8_segs_ascii dropWhile_map comp_def rev_map)

definition zaiModel :: model where
  "zaiModel = (bareModel ''glm-5.3'')\<lparr>mdContextSize := glm53ContextSize, mdSupportsReasoning := True,
     mdReasoningLevels := zai_reasoningLevels\<rparr>"

lemma zaiModel_kind: "classifyModel ''glm-5.3'' = modelKindGLM53"
proof -
  let ?i = "''glm-5.3''"
  have a: "ascii ?i" by code_simp
  have "rev (dropWhile (\<lambda>c. isSpace (byte_of c)) (rev (dropWhile (\<lambda>c. isSpace (byte_of c)) ?i))) = ?i"
    "map lowerRune (map byte_of ?i) = map byte_of ?i"
    by code_simp+
  then have "toLower (trimSpace ?i) = ?i"
    unfolding trimSpace_ascii [OF a] toLower_def by (simp only: runes_ascii [OF a] string_of_runes_ascii [OF a])
  then show ?thesis by (simp add: classifyModel_def zai_models)
qed

lemma zaiModel_lookup: "zai_LookupModel ''glm-5.3'' = zaiModel"
  by (simp add: zai_LookupModel_def zaiModel_kind zaiModel_def)

definition zaiCaps :: capabilities where
  "zaiCaps = (openai_capabilities zaiModel)\<lparr>SupportsToolChoice := False, SupportsReasoningEffort := True,
     SupportsDisablingReasoning := False, MaxReasoningEffort := ReasoningEffortMax, SupportsImageInput := False,
     SupportsAudioInput := False, SupportsFileInput := False\<rparr>"

lemma zaiCaps_eq: "zai_capabilities zaiModel (openai_capabilities zaiModel) = zaiCaps"
proof -
  have "mdID zaiModel = ''glm-5.3''" by (simp add: zaiModel_def bareModel_def)
  then show ?thesis by (simp add: zai_capabilities_def zaiModel_kind zaiCaps_def)
qed

definition zaiRequest :: "unit request" where
  "zaiRequest = WithReasoningEffort ''medium'' (WithModel zaiModel (WithPrompt (UserText NewPrompt ''hi'')
     (NewRequest (NewClient (Some (echoDriver\<lparr>dvCapabilities := \<lambda>m. zai_capabilities m (openai_capabilities m)\<rparr>)) []))))"

theorem zai_accepts_engine_parameters_witness:
  "\<exists>q. prepareRequest (roundRequest zaiRequest (newRunState zaiRequest False) []) True = Inr q
     \<and> map_of (gpExtra (drParams q)) extraReasoningEffortKey = Some (AnyString ''high'')
     \<and> map_of (gpExtra (drParams q)) extraMaxTokensKey = None"
proof -
  let ?m = "zai_LookupModel ''glm-5.3''" and ?s = "newRunState zaiRequest False"
  have c: "servesZai zaiRequest"
    by (simp add: servesZai_def fun_eq_iff zaiRequest_def WithReasoningEffort_def WithModel_def WithPrompt_def
        NewRequest_def NewClient_def clientCapabilities_def theDriver_def Let_def)
  have "validateParameterCapabilities zaiRequest zaiCaps = None" "validateReasoningConfiguration zaiModel ''medium'' zaiCaps = None"
    "validateResponseFormat sampleEnv None zaiCaps = None" "validateContentCapabilities sampleEnv zaiRequest zaiCaps = None"
    "validateToolCapabilities zaiRequest [] zaiCaps = None" "gpReasoningEffort (rqParams zaiRequest) = ''medium''"
    "gpResponseFormat (rqParams zaiRequest) = None"
    by code_simp+
  then have v: "validateCapabilities sampleEnv zaiRequest ?m (Some []) = None"
    using c by (simp add: validateCapabilities_def servesZai_def zaiModel_lookup zaiCaps_eq)
  have "stModel ?s = zaiModel" by code_simp
  then have s: "stModel ?s = ?m" by (simp add: zaiModel_lookup)
  have k: "classifyModel ''glm-5.3'' \<noteq> modelKindUnknown" by (simp add: zaiModel_kind)
  have p: "length (gpStop (rqParams zaiRequest)) \<le> maxStopWords"
    "case gpMaxOutputTokens (rqParams zaiRequest) of None \<Rightarrow> True | Some n \<Rightarrow> n \<le> glm53MaxOutputTokens"
    "requestedThinking (gpExtra (rqParams zaiRequest)) = Inr \<lparr>tcType = ''enabled'', tcClearThinking = Some False\<rparr>"
    by code_simp+
  have x: "zaiEffort ''glm-5.3'' (gpReasoningEffort (rqParams zaiRequest)) = Some (AnyString ''high'')"
    "gpMaxOutputTokens (rqParams zaiRequest) = None" "map_of (gpExtra (rqParams zaiRequest)) extraMaxTokensKey = None"
    by code_simp+
  from zai_accepts_engine_parameters [OF v c s k p, of True] x show ?thesis by auto
qed

text \<open>A reply that thinks, answers and stops.\<close>

definition zaiChunk :: "string \<Rightarrow> string \<Rightarrow> string \<Rightarrow> oaChunk" where
  "zaiChunk raw content reason = \<lparr>ckID = ''r'', ckModel = ''glm-5.3'', ckUsage = noTokens,
     ckChoices = [\<lparr>chFinishReason = reason, chContent = content, chRefusal = [], chToolCalls = [], chRaw = raw\<rparr>]\<rparr>"

definition zaiReply :: oaStream where
  "zaiReply = \<lparr>osChunks = [zaiChunk ''{\"reasoning_content\":\"hm\"}'' [] [], zaiChunk [] ''yes'' [], zaiChunk [] [] ''stop''],
     osErr = None, osCloseErr = None\<rparr>"

definition zaiSample :: "(unit, reasoningState) openaiConfig" where
  "zaiSample = \<lparr>odEnv = openaiSampleEnv, odCodec = openaiJSONCodec (\<lambda>_. None) True, odMapper = None,
     odStreaming = \<lambda>_ _ w. (w, zaiReply), odCompletion = \<lambda>_ _ w. (w, Inl (OtherError (Opaque []))),
     odModels = \<lambda>w. (w, [], None)\<rparr>"

definition zaiCall :: "unit driverRequest" where
  "zaiCall = \<lparr>drModel = bareModel [], drMessages = [], drTools = [],
     drParams = \<lparr>gpTemperature = None, gpTopP = None, gpReasoningEffort = [], gpMaxOutputTokens = Some 9,
       gpFrequencyPenalty = None, gpPresencePenalty = None, gpSeed = None, gpStop = [],
       gpToolChoice = \<lparr>chMode = [], chName = []\<rparr>, gpParallelToolCalls = None, gpResponseFormat = None, gpExtra = []\<rparr>\<rparr>"

lemma captureRun_succeeds:
  "runDriver keepAll [] r = (xs, w', u, None) \<Longrightarrow> \<exists>ds. runDriver keepAll s (captureRun errText label c r) = (ds, w', u, None)"
proof (induction r arbitrary: s c xs)
  case (Done w v e)
  then show ?case by (cases "flushDelta c") (auto simp: keepAll_def [of s] split: option.splits)
next
  case (Emit w d k)
  obtain ys where "runDriver keepAll [] (k w None) = (ys, w', u, None)"
    using Emit.prems runDriver_keepAll [of "[d]" "k w None"] by (auto simp: keepAll_step simp del: runDriver.simps(2) split: prod.splits)
  then have rest: "\<exists>ds. runDriver keepAll s' (captureRun errText label c' (k w None)) = (ds, w', u, None)" for s' c'
    using Emit.IH [of "k w" "k w None" ys s' c'] by simp
  show ?case
    using rest by (cases "flushDelta (captured c d)") (simp_all add: Let_def keepAll_step del: runDriver.simps(2))
qed


theorem zai_reasoning_roundtrip_witness:
  "assistantReasoningExtra (Some providerReasoningExtra) (bareModel ''m'') (emptyMessage\<lparr>mProviderReasoning := zaiEnvelope ''m'' ''hm''\<rparr>)
     = Inr [(reasoningContentKey, jsonString ''hm'')]"
proof -
  have "ascii ''m''" "ascii ''hm''" by code_simp+
  then have v: "validUTF8 ''m''" "validUTF8 ''hm''" by (simp_all add: validUTF8_ascii)
  show ?thesis
    using zai_reasoning_roundtrip [OF v, of "emptyMessage\<lparr>mProviderReasoning := zaiEnvelope ''m'' ''hm''\<rparr>" "bareModel ''m''"]
    by (simp add: bareModel_def)
qed

end
