(* ===== verification/AnthropicModels.thy ===== *)
theory AnthropicModels
  imports DriverCommon
begin

text \<open>
  What the Anthropic driver knows about models (\<open>drivers/anthropic/models.go\<close>) and the
  reasoning and sampling checks it makes when it builds a request
  (\<open>applyReasoning\<close>, \<open>validateGenerationParams\<close>).
\<close>

section \<open>The table\<close>

abbreviation modelSonnet5 :: string where "modelSonnet5 \<equiv> ''claude-sonnet-5''"
abbreviation modelFable5 :: string where "modelFable5 \<equiv> ''claude-fable-5''"
abbreviation modelMythos5 :: string where "modelMythos5 \<equiv> ''claude-mythos-5''"
abbreviation modelOpus5 :: string where "modelOpus5 \<equiv> ''claude-opus-5''"
abbreviation modelMythosPreview :: string where "modelMythosPreview \<equiv> ''claude-mythos-preview''"
abbreviation modelOpus48 :: string where "modelOpus48 \<equiv> ''claude-opus-4-8''"
abbreviation modelOpus47 :: string where "modelOpus47 \<equiv> ''claude-opus-4-7''"
abbreviation modelOpus46 :: string where "modelOpus46 \<equiv> ''claude-opus-4-6''"
abbreviation modelSonnet46 :: string where "modelSonnet46 \<equiv> ''claude-sonnet-4-6''"
abbreviation modelHaiku45 :: string where "modelHaiku45 \<equiv> ''claude-haiku-4-5''"
abbreviation modelOpus45 :: string where "modelOpus45 \<equiv> ''claude-opus-4-5''"
abbreviation modelSonnet45 :: string where "modelSonnet45 \<equiv> ''claude-sonnet-4-5''"

definition knownModelIDs :: "string list" where
  "knownModelIDs = [modelSonnet5, modelFable5, modelMythos5, modelOpus5, modelMythosPreview, modelOpus48, modelOpus47,
     modelOpus46, modelSonnet46, modelHaiku45, modelOpus45, modelSonnet45]"

definition canonicalModelID :: "string \<Rightarrow> string" where
  "canonicalModelID i =
     (case find (\<lambda>known. i = known \<or> hasPrefix i (known @ ''-'')) knownModelIDs of Some known \<Rightarrow> known | None \<Rightarrow> i)"

definition anthropicContextSize :: int where
  "anthropicContextSize = 200000"

definition contextSize :: "string \<Rightarrow> int" where
  "contextSize i = (if canonicalModelID i \<notin> set knownModelIDs then 0 else anthropicContextSize)"

definition isEffortModel :: "string \<Rightarrow> bool" where
  "isEffortModel i = (canonicalModelID i \<in> {modelSonnet5, modelFable5, modelMythos5, modelOpus5, modelMythosPreview,
     modelOpus48, modelOpus47, modelOpus46, modelSonnet46, modelOpus45})"

definition supportsXHighEffort :: "string \<Rightarrow> bool" where
  "supportsXHighEffort i = (canonicalModelID i \<in> {modelFable5, modelMythos5, modelOpus5, modelOpus48, modelOpus47, modelSonnet5})"

definition supportsMaxEffort :: "string \<Rightarrow> bool" where
  "supportsMaxEffort i = (canonicalModelID i \<in> {modelFable5, modelMythos5, modelOpus5, modelOpus48, modelMythosPreview,
     modelOpus47, modelOpus46, modelSonnet5, modelSonnet46})"

definition anthropic_maxReasoningEffort :: "string \<Rightarrow> reasoningEffort" where
  "anthropic_maxReasoningEffort i =
     (if supportsMaxEffort i then ReasoningEffortMax else if isEffortModel i then ReasoningEffortHigh else ReasoningEffortUnset)"

definition anthropic_LookupModel :: "string \<Rightarrow> model" where
  "anthropic_LookupModel i =
     (let m = (bareModel i)\<lparr>mdContextSize := contextSize i\<rparr>
      in if isEffortModel i then
           m\<lparr>mdSupportsReasoning := True,
             mdReasoningLevels := \<lparr>rlMin = ReasoningEffortLow, rlLow = ReasoningEffortLow, rlMedium = ReasoningEffortMedium,
               rlHigh = ReasoningEffortHigh, rlMax = anthropic_maxReasoningEffort i\<rparr>\<rparr>
         else m)"

definition anthropic_KnownModels :: "model list" where
  "anthropic_KnownModels = map anthropic_LookupModel knownModelIDs"

section \<open>Capabilities\<close>

definition samplingRestrictedModelIDs :: "string list" where
  "samplingRestrictedModelIDs = [modelSonnet5, modelFable5, modelMythos5, modelMythosPreview, modelOpus5, modelOpus48, modelOpus47]"

definition anthropic_supportsSamplingParams :: "string \<Rightarrow> bool" where
  "anthropic_supportsSamplingParams i = (canonicalModelID i \<notin> set samplingRestrictedModelIDs)"

definition supportsStructuredOutput :: "string \<Rightarrow> bool" where
  "supportsStructuredOutput i = (canonicalModelID i \<in> set knownModelIDs)"

definition anthropic_supportsDisablingReasoning :: "string \<Rightarrow> bool" where
  "anthropic_supportsDisablingReasoning i =
     (let canonical = canonicalModelID i
      in canonical \<noteq> modelFable5 \<and> canonical \<noteq> modelMythos5 \<and> canonical \<noteq> modelMythosPreview)"

definition anthropic_isSupportedReasoningEffort :: "string \<Rightarrow> reasoningEffort \<Rightarrow> bool" where
  "anthropic_isSupportedReasoningEffort i e =
     (if \<not> isEffortModel i then False
      else if e = ReasoningEffortLow \<or> e = ReasoningEffortMedium \<or> e = ReasoningEffortHigh then True
      else if e = ReasoningEffortXHigh then supportsXHighEffort i
      else if e = ReasoningEffortMax then supportsMaxEffort i
      else False)"

definition anthropic_capabilities :: "model \<Rightarrow> capabilities" where
  "anthropic_capabilities m =
     (let i = mdID m; known = supportsStructuredOutput i
      in \<lparr>SupportsResponseFormatJSONSchema = known, SupportsResponseFormatJSONObject = False,
          SupportsStrictToolArguments = known, SupportsToolChoice = True, SupportsParallelToolCalls = True,
          SupportsSeed = False, SupportsSamplingPenalties = False, SupportsSamplingParams = anthropic_supportsSamplingParams i,
          SupportsReasoningEffort = isEffortModel i, SupportsDisablingReasoning = anthropic_supportsDisablingReasoning i,
          SupportsPromptCaching = True, StreamingUnsupported = False,
          SupportsImageInput = True, SupportsAudioInput = False, SupportsFileInput = True,
          MaxReasoningEffort = anthropic_maxReasoningEffort i\<rparr>)"

section \<open>Reasoning\<close>

abbreviation anthropicUnsupported :: "string \<Rightarrow> err" where
  "anthropicUnsupported msg \<equiv> Wrap (Sentinel ErrAnthropicUnsupportedParameter) msg"

abbreviation anthropicUnsupportedf :: "string \<Rightarrow> fmt_arg list \<Rightarrow> err" where
  "anthropicUnsupportedf f as \<equiv> Wrapf (Sentinel ErrAnthropicUnsupportedParameter) f as"

text \<open>What the request says about thinking: nothing, off, or adaptive at an effort.\<close>

datatype anThinking = ThinkingUnset | ThinkingDisabled | ThinkingAdaptive string

definition applyReasoning :: "string \<Rightarrow> reasoningEffort \<Rightarrow> err + anThinking" where
  "applyReasoning i effort =
     (if effort = ReasoningEffortUnset then Inr ThinkingUnset
      else if effort = ReasoningEffortNone then
        (if \<not> anthropic_supportsDisablingReasoning i then
           Inl (anthropicUnsupportedf ''Anthropic reasoning cannot be disabled for model %q'' [ArgStr i])
         else Inr ThinkingDisabled)
      else if \<not> isEffortModel i \<or> \<not> anthropic_isSupportedReasoningEffort i effort then
        Inl (anthropicUnsupportedf ''Anthropic reasoning effort %q'' [ArgStr effort])
      else Inr (ThinkingAdaptive effort))"

section \<open>The two effort checks\<close>

lemma anthropic_LookupModel_ID [simp]: "mdID (anthropic_LookupModel i) = i"
  by (simp add: anthropic_LookupModel_def bareModel_def Let_def)

lemma max_effort_models: "supportsMaxEffort i \<Longrightarrow> isEffortModel i" "supportsXHighEffort i \<Longrightarrow> supportsMaxEffort i"
  unfolding supportsMaxEffort_def supportsXHighEffort_def isEffortModel_def by blast+

lemma effort_ranks:
  "reasoningEffortRank ReasoningEffortMinimal = 1" "reasoningEffortRank ReasoningEffortLow = 2"
  "reasoningEffortRank ReasoningEffortMedium = 3" "reasoningEffortRank ReasoningEffortHigh = 4"
  "reasoningEffortRank ReasoningEffortXHigh = 5" "reasoningEffortRank ReasoningEffortMax = 6"
  by (simp_all add: reasoningEffortRank_def)

lemma effort_levels: "isEffortModel i \<Longrightarrow> mdReasoningLevels (anthropic_LookupModel i) =
    \<lparr>rlMin = ReasoningEffortLow, rlLow = ReasoningEffortLow, rlMedium = ReasoningEffortMedium,
      rlHigh = ReasoningEffortHigh, rlMax = anthropic_maxReasoningEffort i\<rparr>"
  by (simp add: anthropic_LookupModel_def Let_def)

lemma max_effort_ranked: "isEffortModel i \<Longrightarrow> anthropic_maxReasoningEffort i \<in> rankedEfforts"
  by (simp add: anthropic_maxReasoningEffort_def rankedEfforts_def)

lemma effort_lookup:
  "isEffortModel i \<Longrightarrow> ReasoningLevelMin (anthropic_LookupModel i) = ReasoningEffortLow"
  "isEffortModel i \<Longrightarrow> listedEfforts (mdReasoningLevels (anthropic_LookupModel i)) \<subseteq> rankedEfforts"
  using max_effort_ranked [of i]
  by (simp_all add: level_getters effort_levels listedEfforts_def) (auto simp: rankedEfforts_def)

lemma ranked_cases:
  "0 < reasoningEffortRank e \<Longrightarrow> e = ReasoningEffortMinimal \<or> e = ReasoningEffortLow \<or> e = ReasoningEffortMedium
     \<or> e = ReasoningEffortHigh \<or> e = ReasoningEffortXHigh \<or> e = ReasoningEffortMax"
  by (simp only: ranked_iff rankedEfforts_def insert_iff empty_iff) simp

text \<open>The efforts each side takes, for a model that has efforts at all.\<close>

lemma driver_takes:
  assumes "isEffortModel i"
  shows "anthropic_isSupportedReasoningEffort i e \<longleftrightarrow>
     reasoningEffortRank e \<in> {2, 3, 4} \<or> (reasoningEffortRank e = 5 \<and> supportsXHighEffort i)
     \<or> (reasoningEffortRank e = 6 \<and> supportsMaxEffort i)"
  using assms by (auto simp: anthropic_isSupportedReasoningEffort_def reasoningEffortRank_def)

lemma engine_takes:
  assumes "e \<noteq> ReasoningEffortUnset" and "e \<noteq> ReasoningEffortNone"
  shows "validateReasoningConfiguration (anthropic_LookupModel i) e (anthropic_capabilities (anthropic_LookupModel i)) = None
    \<longleftrightarrow> isEffortModel i \<and> 2 \<le> reasoningEffortRank e \<and> (supportsMaxEffort i \<or> reasoningEffortRank e \<le> 4)"
proof (cases "isEffortModel i")
  case False
  then show ?thesis using assms by (simp add: validateReasoningConfiguration_def anthropic_capabilities_def Let_def)
next
  case True
  have known: "isKnownReasoningEffort (anthropic_LookupModel i) e \<longleftrightarrow> 0 < reasoningEffortRank e"
    using effort_lookup(2) [OF True] unfolding known_effort_iff ranked_iff by blast
  have le6: "reasoningEffortRank e \<le> 6" by (simp add: reasoningEffortRank_def)
  have max: "reasoningEffortRank (anthropic_maxReasoningEffort i) = (if supportsMaxEffort i then 6 else 4)"
    using True by (simp add: anthropic_maxReasoningEffort_def effort_ranks)
  have caps: "SupportsReasoningEffort (anthropic_capabilities (anthropic_LookupModel i))"
    "MaxReasoningEffort (anthropic_capabilities (anthropic_LookupModel i)) = anthropic_maxReasoningEffort i"
    using True by (simp_all add: anthropic_capabilities_def Let_def)
  show ?thesis
    using assms True known le6 max caps(1)
    unfolding validateReasoningConfiguration_def Let_def caps(2) effort_lookup(1) [OF True] effort_ranks by auto
qed

lemma anthropic_effort_checks_core:
  assumes "m = anthropic_LookupModel i"
  shows "((\<exists>t. applyReasoning i e = Inr t) \<longleftrightarrow>
       validateReasoningConfiguration m e (anthropic_capabilities m) = None
       \<and> \<not> (e = ReasoningEffortXHigh \<and> supportsMaxEffort i \<and> \<not> supportsXHighEffort i))
    \<and> (mdSupportsReasoning m \<and> e \<in> set (advertised m) \<longrightarrow>
       applyReasoning i e = Inr (ThinkingAdaptive e) \<and> validateReasoningConfiguration m e (anthropic_capabilities m) = None)"
proof (cases "e = ReasoningEffortUnset \<or> e = ReasoningEffortNone")
  case True
  have "e \<notin> set (advertised m)" if "mdSupportsReasoning m"
    using that True assms
    by (auto simp: advertised_def level_getters anthropic_LookupModel_def bareModel_def anthropic_maxReasoningEffort_def Let_def
        split: if_splits)
  then show ?thesis using True assms
    by (auto simp: applyReasoning_def validateReasoningConfiguration_def anthropic_capabilities_def Let_def)
next
  case False
  then have eng: "validateReasoningConfiguration m e (anthropic_capabilities m) = None
    \<longleftrightarrow> isEffortModel i \<and> 2 \<le> reasoningEffortRank e \<and> (supportsMaxEffort i \<or> reasoningEffortRank e \<le> 4)"
    using engine_takes assms by simp
  have drv: "applyReasoning i e = Inr t \<longleftrightarrow> t = ThinkingAdaptive e \<and> isEffortModel i \<and> anthropic_isSupportedReasoningEffort i e" for t
    using False by (auto simp: applyReasoning_def)
  have xh: "e = ReasoningEffortXHigh \<longleftrightarrow> reasoningEffortRank e = 5" by (simp add: reasoningEffortRank_def)
  have le6: "reasoningEffortRank e \<le> 6" by (simp add: reasoningEffortRank_def)
  have adv: "isEffortModel i \<and> (reasoningEffortRank e \<in> {2, 3, 4} \<or> reasoningEffortRank e = 6 \<and> supportsMaxEffort i)"
    if "mdSupportsReasoning m" "e \<in> set (advertised m)"
    using that assms
    by (auto simp: advertised_def level_getters anthropic_LookupModel_def bareModel_def anthropic_maxReasoningEffort_def Let_def
        effort_ranks split: if_splits)
  show ?thesis
  proof (cases "isEffortModel i")
    case True
    have "(\<exists>t. applyReasoning i e = Inr t) \<longleftrightarrow>
       validateReasoningConfiguration m e (anthropic_capabilities m) = None
       \<and> \<not> (e = ReasoningEffortXHigh \<and> supportsMaxEffort i \<and> \<not> supportsXHighEffort i)"
      unfolding drv eng driver_takes [OF True] xh using True le6 max_effort_models(2) [of i] by auto
    moreover have "mdSupportsReasoning m \<and> e \<in> set (advertised m) \<longrightarrow>
       applyReasoning i e = Inr (ThinkingAdaptive e) \<and> validateReasoningConfiguration m e (anthropic_capabilities m) = None"
      using adv unfolding drv eng driver_takes [OF True] by auto
    ultimately show ?thesis by blast
  next
    case False
    then show ?thesis using adv unfolding drv eng by blast
  qed
qed

section \<open>Properties\<close>

text \<open>
  The engine and the Anthropic driver agree on reasoning for looked-up models with one
  exception: an extra-high effort on a model that takes the maximum but not extra-high passes
  the engine and is refused by the driver. Everything the driver takes, the engine takes, and
  every level a model advertises passes both.
\<close>

theorem anthropic_effort_checks:
  assumes "m = anthropic_LookupModel i"
  shows "((\<exists>t. applyReasoning i e = Inr t) \<longleftrightarrow>
       validateReasoningConfiguration m e (anthropic_capabilities m) = None
       \<and> \<not> (e = ReasoningEffortXHigh \<and> supportsMaxEffort i \<and> \<not> supportsXHighEffort i))
    \<and> (mdSupportsReasoning m \<and> e \<in> set (advertised m) \<longrightarrow>
       applyReasoning i e = Inr (ThinkingAdaptive e) \<and> validateReasoningConfiguration m e (anthropic_capabilities m) = None)"
  by (rule anthropic_effort_checks_core [OF assms])

theorem anthropic_effort_checks_witness:
  "applyReasoning ''claude-opus-4-6'' ReasoningEffortMax = Inr (ThinkingAdaptive ReasoningEffortMax)
   \<and> (\<nexists>t. applyReasoning ''claude-opus-4-6'' ReasoningEffortXHigh = Inr t)
   \<and> validateReasoningConfiguration (anthropic_LookupModel ''claude-opus-4-6'') ReasoningEffortXHigh
       (anthropic_capabilities (anthropic_LookupModel ''claude-opus-4-6'')) = None"
proof -
  let ?i = "''claude-opus-4-6''"
  have "mdSupportsReasoning (anthropic_LookupModel ?i)" "ReasoningEffortMax \<in> set (advertised (anthropic_LookupModel ?i))"
    "supportsMaxEffort ?i" "\<not> supportsXHighEffort ?i"
    "validateReasoningConfiguration (anthropic_LookupModel ?i) ReasoningEffortXHigh
       (anthropic_capabilities (anthropic_LookupModel ?i)) = None" by code_simp+
  with anthropic_effort_checks [OF refl, of ?i ReasoningEffortMax] anthropic_effort_checks [OF refl, of ?i ReasoningEffortXHigh]
  show ?thesis by simp
qed

end
