(* ===== verification/AnthropicTranslate.thy ===== *)
theory AnthropicTranslate
  imports AnthropicModels "HOL-Library.Char_ord" "HOL-Library.List_Lexorder"
begin

text \<open>
  Translation of a driver request into a Messages API request
  (\<open>drivers/anthropic/translate.go\<close> and \<open>content.go\<close>). The types here are the SDK's request
  types with the fields the driver sets. Decoded JSON is carried as its text; what decoding
  needs beyond validity (the SDK's own decoders, the stored reasoning envelope) is collected
  in \<open>anthropicEnv\<close>.
\<close>

section \<open>The wire\<close>

datatype anCache = NoCache | Ephemeral bool \<comment> \<open>whether the one-hour lifetime is asked for\<close>

datatype anSource = URLSource string | Base64Source string string \<comment> \<open>media type, data\<close>

datatype anResultPart = ResultText string | ResultImage anSource

datatype anBlock =
    AnText string anCache
  | AnImage anSource
  | AnPDF string
  | AnPlainText string
  | AnToolUse string string string anCache \<comment> \<open>id, input, name\<close>
  | AnToolResult string "anResultPart list" bool anCache \<comment> \<open>id, content, error flag\<close>
  | AnMidConvSystem string anCache
  | AnReasoning string \<comment> \<open>a replayed reasoning block\<close>

datatype anMessage = AnUser "anBlock list" | AnAssistant "anBlock list" | AnSystem "anBlock list"

datatype anToolChoice = AnChoiceUnset | AnAuto bool | AnNone | AnAny bool | AnTool string bool

record anTool =
  atName :: string
  atDescription :: string
  atSchema :: string
  atStrict :: "bool option"

record anRequest =
  aqModel :: string
  aqMaxTokens :: int
  aqMessages :: "anMessage list"
  aqSystem :: "(string \<times> anCache) list"
  aqTools :: "anTool list"
  aqTemperature :: "rat option"
  aqTopP :: "rat option"
  aqTopK :: "int option"
  aqStop :: "string list"
  aqToolChoice :: anToolChoice
  aqThinking :: anThinking
  aqFormat :: "string option"

text \<open>A stored reasoning envelope: provider, version, model, blocks with their indices.\<close>

record anEnvelope =
  evProvider :: string
  evVersion :: int
  evModel :: string
  evBlocks :: "(int \<times> string) list"

record anthropicEnv =
  aePayloadOrder :: "partType list"
  aeNumbersFit :: "string \<Rightarrow> bool"
  aeToolSchema :: "string \<Rightarrow> err option" \<comment> \<open>the SDK decoding a tool's input schema\<close>
  aeEnvelope :: "string \<Rightarrow> anEnvelope option" \<comment> \<open>\<open>decodeProviderReasoningEnvelope\<close>\<close>
  aeBlockType :: "string \<Rightarrow> string" \<comment> \<open>\<open>reasoningBlockType\<close>: the block's type field, empty when it does not decode\<close>
  aeBlock :: "string \<Rightarrow> err option" \<comment> \<open>the SDK decoding a block\<close>

section \<open>Content\<close>

definition anthropicImageMediaTypes :: "string list" where
  "anthropicImageMediaTypes = [''image/jpeg'', ''image/png'', ''image/gif'', ''image/webp'']"

definition toImageSource :: "imageSource \<Rightarrow> err + anSource" where
  "toImageSource s =
     (if imgURL s \<noteq> [] \<and> \<not> IsDataURI s then Inr (URLSource (imgURL s))
      else case DecodeDataURI s of
          Inl e \<Rightarrow> Inl (Wrap e ''decode image source'')
        | Inr (mediaType, dat) \<Rightarrow>
            if mediaType \<notin> set anthropicImageMediaTypes then
              Inl (anthropicUnsupportedf ''image media type %q; anthropic accepts jpeg, png, gif and webp'' [ArgStr mediaType])
            else Inr (Base64Source mediaType (b64_encode dat)))"

definition toDocumentBlock :: "fileSource \<Rightarrow> err + anBlock" where
  "toDocumentBlock s =
     (if filFileID s \<noteq> [] then
        Inl (Wrap (Sentinel ErrUnsupportedContent) ''anthropic has no file-id document source; send the bytes'')
      else if filMediaType s = ''application/pdf'' then Inr (AnPDF (b64_encode (filData s)))
      else if filMediaType s = ''text/plain'' then Inr (AnPlainText (filData s))
      else Inl (anthropicUnsupportedf ''document media type %q; anthropic accepts %s and %s''
             [ArgStr (filMediaType s), ArgStr ''application/pdf'', ArgStr ''text/plain'']))"

text \<open>The payload pointers are dereferenced after validation, which is what makes them non-nil.\<close>

definition toContentBlock :: "part \<Rightarrow> err + anBlock" where
  "toContentBlock p =
     (if ptType p = PartTypeText then Inr (AnText (ptText p) NoCache)
      else if ptType p = PartTypeImage then map_sum id AnImage (toImageSource (the (ptImage p)))
      else if ptType p = PartTypeAudio then
        Inl (Wrap (Sentinel ErrUnsupportedContent) ''anthropic has no audio block; send audio to an OpenAI model'')
      else if ptType p = PartTypeFile then toDocumentBlock (the (ptFile p))
      else Inl (Wrapf (Sentinel ErrPartTypeUnknown) ''%q'' [ArgStr (ptType p)]))"

definition toUserBlocks :: "partType list \<Rightarrow> message \<Rightarrow> err + anBlock list" where
  "toUserBlocks order m =
     (case validateContent order (mContent m) of
        Some e \<Rightarrow> Inl (Wrap e ''validate content'')
      | None \<Rightarrow> collect toContentBlock (mContent m))"

section \<open>Cache hints\<close>

definition maxCacheBreakpoints :: nat where
  "maxCacheBreakpoints = 4"

definition countCacheBreakpoint :: "message \<Rightarrow> nat \<Rightarrow> err + nat" where
  "countCacheBreakpoint m breakpoints =
     (if mCacheHint m \<noteq> CacheHintNone \<and> mCacheHint m \<noteq> CacheHintShort \<and> mCacheHint m \<noteq> CacheHintLong then
        Inl (anthropicUnsupportedf ''Anthropic cache hint %q'' [ArgStr (mCacheHint m)])
      else if mCacheHint m = CacheHintNone then Inr breakpoints
      else if breakpoints + 1 > maxCacheBreakpoints then
        Inl (invalidTranscriptf ''Anthropic supports at most %d cache breakpoints'' [ArgInt (int maxCacheBreakpoints)])
      else Inr (breakpoints + 1))"

definition cacheControl :: "string \<Rightarrow> anCache" where
  "cacheControl hint = Ephemeral (hint = CacheHintLong)"

definition applyTextCacheHint :: "string \<Rightarrow> string \<Rightarrow> string \<times> anCache" where
  "applyTextCacheHint text hint = (text, if hint = CacheHintNone then NoCache else cacheControl hint)"

definition applyBlockCacheHint :: "anBlock \<Rightarrow> string \<Rightarrow> anBlock" where
  "applyBlockCacheHint b hint =
     (if hint = CacheHintNone then b
      else case b of
          AnText t _ \<Rightarrow> AnText t (cacheControl hint)
        | AnToolUse i input name _ \<Rightarrow> AnToolUse i input name (cacheControl hint)
        | AnToolResult i content isError _ \<Rightarrow> AnToolResult i content isError (cacheControl hint)
        | AnMidConvSystem t _ \<Rightarrow> AnMidConvSystem t (cacheControl hint)
        | _ \<Rightarrow> b)"

definition applyLastBlockCacheHint :: "anBlock list \<Rightarrow> string \<Rightarrow> anBlock list" where
  "applyLastBlockCacheHint bs hint =
     (if length bs = 0 then bs else bs[length bs - 1 := applyBlockCacheHint (bs ! (length bs - 1)) hint])"

section \<open>Messages\<close>

definition isReasoningBlockType :: "string \<Rightarrow> bool" where
  "isReasoningBlockType t \<longleftrightarrow> t = ''thinking'' \<or> t = ''redacted_thinking''"

fun decodeReasoningBlocks :: "anthropicEnv \<Rightarrow> (int \<times> string) list \<Rightarrow> err + anBlock list" where
  "decodeReasoningBlocks ae [] = Inr []"
| "decodeReasoningBlocks ae ((i, raw) # rest) =
     (if \<not> isReasoningBlockType (aeBlockType ae raw) then
        Inl (invalidTranscriptf ''provider reasoning carries a %q block'' [ArgStr (aeBlockType ae raw)])
      else case aeBlock ae raw of
          Some e \<Rightarrow> Inl (Wrap e ''decode Anthropic provider reasoning block'')
        | None \<Rightarrow>
            (case decodeReasoningBlocks ae rest of Inl e \<Rightarrow> Inl e | Inr bs \<Rightarrow> Inr (AnReasoning raw # bs)))"

definition providerReasoningVersion :: int where
  "providerReasoningVersion = 1"

text \<open>The replayed blocks are put in front, ordered by index; the sort is stable.\<close>

definition insertProviderReasoning :: "anthropicEnv \<Rightarrow> string \<Rightarrow> anBlock list \<Rightarrow> string \<Rightarrow> err + anBlock list" where
  "insertProviderReasoning ae modelID blocks raw =
     (if \<not> HasProviderReasoning raw then Inr blocks
      else case aeEnvelope ae raw of
          None \<Rightarrow> Inr blocks
        | Some ev \<Rightarrow>
            if evProvider ev \<noteq> ''anthropic'' \<or> evVersion ev \<noteq> providerReasoningVersion \<or> evModel ev \<noteq> modelID then Inr blocks
            else (case decodeReasoningBlocks ae (sort_key fst (evBlocks ev)) of
                    Inl e \<Rightarrow> Inl e
                  | Inr reasoning \<Rightarrow> Inr (reasoning @ blocks)))"

definition toToolUseBlock :: "anthropicEnv \<Rightarrow> toolCall \<Rightarrow> err + anBlock" where
  "toToolUseBlock ae c =
     (let arguments = (if length (tcArguments c) = 0 then ''{}'' else tcArguments c)
      in if \<not> decodesObject (aeNumbersFit ae) arguments then
           Inl (invalidTranscriptf ''decode arguments for tool call %q: %v'' [ArgStr (tcID c)])
         else Inr (AnToolUse (tcID c) arguments (tcName c) NoCache))"

definition toAssistantBlocks :: "anthropicEnv \<Rightarrow> string \<Rightarrow> message \<Rightarrow> err + anBlock list" where
  "toAssistantBlocks ae modelID m =
     (case collect (toToolUseBlock ae) (mToolCalls m) of
        Inl e \<Rightarrow> Inl e
      | Inr uses \<Rightarrow>
          insertProviderReasoning ae modelID ((if messageText m \<noteq> [] then [AnText (messageText m) NoCache] else []) @ uses)
            (mProviderReasoning m))"

definition toMidConvSystemMessage :: "message \<Rightarrow> anMessage" where
  "toMidConvSystemMessage m = AnSystem [applyBlockCacheHint (AnMidConvSystem (messageText m) NoCache) (mCacheHint m)]"

fun toolResultImages :: "nat \<Rightarrow> imageSource list \<Rightarrow> err + anResultPart list" where
  "toolResultImages index [] = Inr []"
| "toolResultImages index (s # ss) =
     (case toImageSource s of
        Inl e \<Rightarrow> Inl (Wrapf e ''tool result image %d'' [ArgInt (int index)])
      | Inr src \<Rightarrow>
          (case toolResultImages (Suc index) ss of Inl e \<Rightarrow> Inl e | Inr ps \<Rightarrow> Inr (ResultImage src # ps)))"

definition toToolResultBlock :: "message \<Rightarrow> err + anBlock" where
  "toToolResultBlock m =
     (let images = ToolImages m; text = messageText m
      in if length images = 0 then Inr (AnToolResult (mToolCallID m) [ResultText text] (mToolResultIsError m) NoCache)
         else case toolResultImages 0 images of
             Inl e \<Rightarrow> Inl e
           | Inr parts \<Rightarrow>
               Inr (AnToolResult (mToolCallID m) ((if text \<noteq> [] then [ResultText text] else []) @ parts) (mToolResultIsError m) NoCache))"

text \<open>The run of results: blocks, how many were consumed, and the breakpoints counted.\<close>

fun toToolResultLoop :: "nat \<Rightarrow> nat \<Rightarrow> message list \<Rightarrow> err + anBlock list \<times> nat \<times> nat" where
  "toToolResultLoop consumed breakpoints [] = Inr ([], consumed, breakpoints)"
| "toToolResultLoop consumed breakpoints (m # ms) =
     (if mRole m \<noteq> RoleTool then Inr ([], consumed, breakpoints)
      else case (if consumed > 0 then countCacheBreakpoint m breakpoints else Inr breakpoints) of
          Inl e \<Rightarrow> Inl e
        | Inr bp \<Rightarrow>
            (case toToolResultBlock m of
               Inl e \<Rightarrow> Inl e
             | Inr block \<Rightarrow>
                 (case toToolResultLoop (Suc consumed) bp ms of
                    Inl e \<Rightarrow> Inl e
                  | Inr (blocks, n, bp') \<Rightarrow> Inr (applyBlockCacheHint block (mCacheHint m) # blocks, n, bp'))))"

definition toToolResultMessage :: "message list \<Rightarrow> nat \<Rightarrow> err + anMessage \<times> nat \<times> nat" where
  "toToolResultMessage ms breakpoints =
     (case toToolResultLoop 0 breakpoints ms of
        Inl e \<Rightarrow> Inl e
      | Inr (blocks, consumed, bp) \<Rightarrow> Inr (AnUser blocks, consumed, bp))"

definition toAnthropicMessage :: "anthropicEnv \<Rightarrow> string \<Rightarrow> message \<Rightarrow> err + anMessage" where
  "toAnthropicMessage ae modelID m =
     (if mRole m = RoleUser then
        (case toUserBlocks (aePayloadOrder ae) m of
           Inl e \<Rightarrow> Inl e
         | Inr blocks \<Rightarrow> Inr (AnUser (applyLastBlockCacheHint blocks (mCacheHint m))))
      else if mRole m = RoleAssistant then
        (case toAssistantBlocks ae modelID m of
           Inl e \<Rightarrow> Inl e
         | Inr blocks \<Rightarrow> Inr (AnAssistant (applyLastBlockCacheHint blocks (mCacheHint m))))
      else if mRole m = RoleTool then
        Inl (invalidTranscriptf ''tool result %q must be coalesced, not translated alone'' [ArgStr (mToolCallID m)])
      else if mRole m = RoleSystem then Inr (toMidConvSystemMessage m)
      else Inl (invalidTranscriptf ''unsupported role %q'' [ArgStr (mRole m)]))"

text \<open>The loop over the transcript, from position \<open>index\<close>.\<close>

function toAnthropicMessagesLoop ::
  "anthropicEnv \<Rightarrow> string \<Rightarrow> nat \<Rightarrow> nat \<Rightarrow> message list \<Rightarrow> err + anMessage list \<times> (string \<times> anCache) list \<times> nat" where
  "toAnthropicMessagesLoop ae modelID index breakpoints [] = Inr ([], [], breakpoints)"
| "toAnthropicMessagesLoop ae modelID index breakpoints (m # ms) =
     (case countCacheBreakpoint m breakpoints of
        Inl e \<Rightarrow> Inl e
      | Inr bp \<Rightarrow>
          if index = 0 \<and> mRole m = RoleSystem then
            (case toAnthropicMessagesLoop ae modelID (index + 1) bp ms of
               Inl e \<Rightarrow> Inl e
             | Inr (converted, system, n) \<Rightarrow> Inr (converted, applyTextCacheHint (messageText m) (mCacheHint m) # system, n))
          else if mRole m = RoleTool then
            (case toToolResultMessage (m # ms) bp of
               Inl e \<Rightarrow> Inl (Wrapf e ''translate tool results at %d'' [ArgInt (int index)])
             | Inr (results, consumed, bp') \<Rightarrow>
                 (case toAnthropicMessagesLoop ae modelID (index + consumed) bp' (drop (consumed - 1) ms) of
                    Inl e \<Rightarrow> Inl e
                  | Inr (converted, system, n) \<Rightarrow> Inr (results # converted, system, n)))
          else
            (case toAnthropicMessage ae modelID m of
               Inl e \<Rightarrow> Inl (Wrapf e ''translate message %d'' [ArgInt (int index)])
             | Inr x \<Rightarrow>
                 (case toAnthropicMessagesLoop ae modelID (index + 1) bp ms of
                    Inl e \<Rightarrow> Inl e
                  | Inr (converted, system, n) \<Rightarrow> Inr (x # converted, system, n))))"
  by pat_completeness auto
termination by (relation "measure (\<lambda>(ae, modelID, index, breakpoints, ms). length ms)") auto

definition toAnthropicMessages ::
  "anthropicEnv \<Rightarrow> string \<Rightarrow> message list \<Rightarrow> err + anMessage list \<times> (string \<times> anCache) list" where
  "toAnthropicMessages ae modelID ms =
     (case toAnthropicMessagesLoop ae modelID 0 0 ms of
        Inl e \<Rightarrow> Inl e
      | Inr (converted, system, n) \<Rightarrow> Inr (converted, system))"

section \<open>Tools and parameters\<close>

definition toAnthropicTool :: "anthropicEnv \<Rightarrow> string \<Rightarrow> 'w tool \<Rightarrow> err + anTool" where
  "toAnthropicTool ae modelID t =
     (if tlStrictArguments t \<and> \<not> supportsStructuredOutput modelID then
        Inl (anthropicUnsupportedf ''Anthropic strict tool arguments for model %q'' [ArgStr modelID])
      else let rawSchema = (if length (tlArgumentsSchema t) = 0 then ''{}'' else tlArgumentsSchema t)
           in case aeToolSchema ae rawSchema of
                Some e \<Rightarrow> Inl (Wrapf e ''decode argument schema for tool %q'' [ArgStr (tlName t)])
              | None \<Rightarrow> Inr \<lparr>atName = tlName t, atDescription = tlDescription t, atSchema = rawSchema,
                           atStrict = (if tlStrictArguments t then Some True else None)\<rparr>)"

definition toAnthropicTools :: "anthropicEnv \<Rightarrow> string \<Rightarrow> 'w tool list \<Rightarrow> err + anTool list" where
  "toAnthropicTools ae modelID tools = collect (toAnthropicTool ae modelID) tools"

definition hasSamplingParams :: "generationParams \<Rightarrow> bool" where
  "hasSamplingParams p \<longleftrightarrow> gpTemperature p \<noteq> None \<or> gpTopP p \<noteq> None
     \<or> map_of (gpExtra p) ''top_k'' \<notin> {None, Some AnyNil}"

definition validateGenerationParams :: "string \<Rightarrow> generationParams \<Rightarrow> err option" where
  "validateGenerationParams modelID p =
     (if gpFrequencyPenalty p \<noteq> None \<or> gpPresencePenalty p \<noteq> None then
        Some (anthropicUnsupported ''Anthropic does not support sampling penalties'')
      else if gpSeed p \<noteq> None then Some (anthropicUnsupported ''Anthropic does not support deterministic seeds'')
      else if hasSamplingParams p \<and> \<not> anthropic_supportsSamplingParams modelID then
        Some (anthropicUnsupportedf ''Anthropic sampling parameters for model %q'' [ArgStr modelID])
      else None)"

text \<open>
  A float is an exact rational here. The upper bound of the range check is the \<open>float64\<close>
  nearest to the largest \<open>int64\<close>, which is \<open>2 ^ 63\<close>: that one value passes the check and the
  conversion overflows, taken here as on amd64.
\<close>

definition integerValue :: "any \<Rightarrow> err + int" where
  "integerValue v =
     (case v of
        AnyInt n \<Rightarrow> Inr n
      | AnyFloat x \<Rightarrow>
          if of_int \<lfloor>x\<rfloor> \<noteq> x then Inl (Wrap (Sentinel ErrInvalidRequest) ''value must be an integer'')
          else if x < - (2 ^ 63) \<or> x > 2 ^ 63 then Inl (Wrap (Sentinel ErrInvalidRequest) ''value is outside the integer range'')
          else Inr (wrap64 \<lfloor>x\<rfloor>)
      | AnyNumber s \<Rightarrow>
          (case parseInt64 s of None \<Rightarrow> Inl (Wrap (Opaque ''strconv'') ''parse integer'') | Some n \<Rightarrow> Inr n)
      | _ \<Rightarrow> Inl (Wrap (Sentinel ErrInvalidRequest) ''value must be an integer''))"

fun applyExtraLoop :: "(string \<times> any) list \<Rightarrow> string list \<Rightarrow> int option \<Rightarrow> err + int option" where
  "applyExtraLoop extra [] topK = Inr topK"
| "applyExtraLoop extra (key # keys) topK =
     (if key \<noteq> ''top_k'' then Inl (anthropicUnsupportedf ''Anthropic parameter %q'' [ArgStr key])
      else case integerValue (the (map_of extra key)) of
          Inl e \<Rightarrow> Inl (Wrap e ''Anthropic top_k'')
        | Inr k \<Rightarrow>
            if k \<le> 0 then Inl (anthropicUnsupported ''Anthropic top_k must be positive'')
            else applyExtraLoop extra keys (Some k))"

definition applyExtraParams :: "(string \<times> any) list \<Rightarrow> err + int option" where
  "applyExtraParams extra = applyExtraLoop extra (sort (map fst extra)) None"

definition anthropic_applyToolChoice :: "generationParams \<Rightarrow> err + anToolChoice" where
  "anthropic_applyToolChoice p =
     (let disableParallel = (gpParallelToolCalls p = Some False); mode = chMode (gpToolChoice p)
      in if mode = ToolChoiceModeUnset then
           Inr (if gpParallelToolCalls p \<noteq> None then AnAuto disableParallel else AnChoiceUnset)
         else if mode = ToolChoiceModeAuto then Inr (AnAuto disableParallel)
         else if mode = ToolChoiceModeNone then Inr AnNone
         else if mode = ToolChoiceModeRequired then Inr (AnAny disableParallel)
         else if mode = ToolChoiceModeTool then Inr (AnTool (chName (gpToolChoice p)) disableParallel)
         else Inl (anthropicUnsupportedf ''Anthropic tool choice %q'' [ArgStr mode]))"

definition applyResponseFormat :: "anthropicEnv \<Rightarrow> string \<Rightarrow> responseFormat option \<Rightarrow> err + string option" where
  "applyResponseFormat ae modelID fmt =
     (case fmt of
        None \<Rightarrow> Inr None
      | Some f \<Rightarrow>
          if rfType f = ResponseFormatTypeUnset then Inr None
          else if rfType f \<noteq> ResponseFormatTypeJSONSchema then
            Inl (anthropicUnsupportedf ''Anthropic response format %q'' [ArgStr (rfType f)])
          else if \<not> supportsStructuredOutput modelID then
            Inl (anthropicUnsupportedf ''Anthropic structured output for model %q'' [ArgStr modelID])
          else if \<not> decodesObject (aeNumbersFit ae) (rfSchema f) then
            Inl (Wrap jsonError ''decode Anthropic response JSON schema'')
          else Inr (Some (rfSchema f)))"

definition anthropic_applyGenerationParams :: "anthropicEnv \<Rightarrow> string \<Rightarrow> anRequest \<Rightarrow> generationParams \<Rightarrow> err + anRequest" where
  "anthropic_applyGenerationParams ae modelID q p =
     (case validateGenerationParams modelID p of
        Some e \<Rightarrow> Inl e
      | None \<Rightarrow>
          let q1 = q\<lparr>aqTemperature := gpTemperature p, aqTopP := gpTopP p, aqStop := gpStop p\<rparr>
          in case applyExtraParams (gpExtra p) of
               Inl e \<Rightarrow> Inl e
             | Inr topK \<Rightarrow>
                 (case anthropic_applyToolChoice p of
                    Inl e \<Rightarrow> Inl e
                  | Inr choice \<Rightarrow>
                      (case applyReasoning modelID (gpReasoningEffort p) of
                         Inl e \<Rightarrow> Inl e
                       | Inr thinking \<Rightarrow>
                           (case applyResponseFormat ae modelID (gpResponseFormat p) of
                              Inl e \<Rightarrow> Inl e
                            | Inr fmt \<Rightarrow> Inr (q1\<lparr>aqTopK := topK, aqToolChoice := choice, aqThinking := thinking, aqFormat := fmt\<rparr>)))))"

definition defaultMaxOutputTokens :: int where
  "defaultMaxOutputTokens = 4096"

definition emptyRequest :: "string \<Rightarrow> int \<Rightarrow> anRequest" where
  "emptyRequest i n = \<lparr>aqModel = i, aqMaxTokens = n, aqMessages = [], aqSystem = [], aqTools = [], aqTemperature = None,
     aqTopP = None, aqTopK = None, aqStop = [], aqToolChoice = AnChoiceUnset, aqThinking = ThinkingUnset, aqFormat = None\<rparr>"

text \<open>The rest of the translation, once the output limit is settled.\<close>

definition buildRequest :: "anthropicEnv \<Rightarrow> 'w driverRequest \<Rightarrow> anRequest \<Rightarrow> err + anRequest" where
  "buildRequest ae req q =
     (let i = mdID (drModel req)
      in case toAnthropicMessages ae i (drMessages req) of
           Inl e \<Rightarrow> Inl e
         | Inr (messages, system) \<Rightarrow>
             (case toAnthropicTools ae i (drTools req) of
                Inl e \<Rightarrow> Inl e
              | Inr tools \<Rightarrow>
                  anthropic_applyGenerationParams ae i (q\<lparr>aqMessages := messages, aqSystem := system, aqTools := tools\<rparr>)
                    (drParams req)))"

definition toMessageParams :: "anthropicEnv \<Rightarrow> 'w driverRequest \<Rightarrow> err + anRequest" where
  "toMessageParams ae req =
     (let i = mdID (drModel req)
      in if i = [] then Inl (Wrap (Sentinel ErrInvalidTranscript) ''Anthropic request has no model id'')
         else case anthropic_validateTranscript (drMessages req) of
             Some e \<Rightarrow> Inl e
           | None \<Rightarrow>
               (case gpMaxOutputTokens (drParams req) of
                  Some n \<Rightarrow>
                    if n \<le> 0 then Inl (anthropicUnsupportedf ''MaxOutputTokens must be positive, got %d'' [ArgInt n])
                    else buildRequest ae req (emptyRequest i n)
                | None \<Rightarrow> buildRequest ae req (emptyRequest i defaultMaxOutputTokens)))"

section \<open>The wire transcript\<close>

fun blockUse :: "anBlock \<Rightarrow> string list" where
  "blockUse (AnToolUse i input name c) = [i]"
| "blockUse _ = []"

fun blockResult :: "anBlock \<Rightarrow> string list" where
  "blockResult (AnToolResult i content err c) = [i]"
| "blockResult _ = []"

fun toolUses :: "anMessage \<Rightarrow> string list" where
  "toolUses (AnAssistant bs) = concat (map blockUse bs)"
| "toolUses _ = []"

fun toolResults :: "anMessage \<Rightarrow> string list" where
  "toolResults (AnUser bs) = concat (map blockResult bs)"
| "toolResults _ = []"

text \<open>What the API demands: the message after a turn with calls answers all of them, once each, and no other.\<close>

fun anLegal :: "string set \<Rightarrow> anMessage list \<Rightarrow> bool" where
  "anLegal pend [] = (pend = {})"
| "anLegal pend (m # ms) =
     (set (toolResults m) = pend \<and> distinct (toolResults m) \<and> distinct (toolUses m) \<and> anLegal (set (toolUses m)) ms)"

lemma hint_block [simp]:
  "blockUse (applyBlockCacheHint b h) = blockUse b" "blockResult (applyBlockCacheHint b h) = blockResult b"
  by (cases b; simp add: applyBlockCacheHint_def)+

lemma concat_map_update:
  "f y = f (xs ! i) \<Longrightarrow> concat (map f (xs[i := y])) = concat (map f xs)"
  by (metis list_update_id map_update)

lemma hint_blocks [simp]:
  "concat (map blockUse (applyLastBlockCacheHint bs h)) = concat (map blockUse bs)"
  "concat (map blockResult (applyLastBlockCacheHint bs h)) = concat (map blockResult bs)"
  by (simp_all add: applyLastBlockCacheHint_def concat_map_update)

lemma user_blocks:
  assumes "toUserBlocks order m = Inr bs"
  shows "concat (map blockResult bs) = []"
proof -
  have "blockResult b = []" if "toContentBlock p = Inr b" for p b
    using that
    by (auto simp: toContentBlock_def toDocumentBlock_def split: if_splits sum.splits)
      (cases "toImageSource (the (ptImage p))"; auto)
  moreover have "list_all2 (\<lambda>p b. toContentBlock p = Inr b) (mContent m) bs"
    using assms by (auto simp: toUserBlocks_def collect_Inr split: option.splits)
  ultimately show ?thesis by (fastforce simp: list_all2_conv_all_nth in_set_conv_nth)
qed

lemma decodeReasoningBlocks_Inr:
  "decodeReasoningBlocks ae xs = Inr bs \<Longrightarrow>
   bs = map (AnReasoning \<circ> snd) xs \<and> list_all (\<lambda>x. isReasoningBlockType (aeBlockType ae (snd x))) xs"
  by (induction ae xs arbitrary: bs rule: decodeReasoningBlocks.induct) (auto split: if_splits option.splits sum.splits)

lemma insertProviderReasoning_Inr:
  assumes "insertProviderReasoning ae i blocks raw = Inr bs"
  shows "bs = blocks \<or> (\<exists>ev. aeEnvelope ae raw = Some ev \<and> evProvider ev = ''anthropic'' \<and> evVersion ev = providerReasoningVersion
      \<and> evModel ev = i \<and> bs = map (AnReasoning \<circ> snd) (sort_key fst (evBlocks ev)) @ blocks
      \<and> list_all (\<lambda>x. isReasoningBlockType (aeBlockType ae (snd x))) (evBlocks ev))"
  using assms decodeReasoningBlocks_Inr
  by (auto simp: insertProviderReasoning_def list_all_iff split: if_splits option.splits sum.splits)

lemma assistant_blocks:
  assumes "toAssistantBlocks ae i m = Inr bs"
  shows "concat (map blockUse bs) = map tcID (mToolCalls m)"
proof -
  obtain uses where u: "list_all2 (\<lambda>c b. toToolUseBlock ae c = Inr b) (mToolCalls m) uses"
    "insertProviderReasoning ae i ((if messageText m \<noteq> [] then [AnText (messageText m) NoCache] else []) @ uses)
       (mProviderReasoning m) = Inr bs"
    using assms by (auto simp: toAssistantBlocks_def collect_Inr split: sum.splits)
  have "concat (map blockUse uses) = map tcID (mToolCalls m)"
    using u(1) by (induction rule: list_all2_induct) (auto simp: toToolUseBlock_def Let_def split: if_splits)
  moreover have "concat (map blockUse (map (AnReasoning \<circ> snd) xs)) = []" for xs :: "(int \<times> string) list"
    by (induction xs) simp_all
  ultimately show ?thesis using insertProviderReasoning_Inr [OF u(2)] by auto
qed

definition hinted :: "message \<Rightarrow> bool" where
  "hinted m \<longleftrightarrow> mCacheHint m \<noteq> CacheHintNone"

lemma countCacheBreakpoint_Inr:
  "countCacheBreakpoint m bp = Inr n \<Longrightarrow> n = bp + (if hinted m then 1 else 0) \<and> (hinted m \<longrightarrow> n \<le> maxCacheBreakpoints)"
  by (auto simp: countCacheBreakpoint_def hinted_def split: if_splits)

lemma toToolResultBlock_id: "toToolResultBlock m = Inr b \<Longrightarrow> blockResult b = [mToolCallID m] \<and> blockUse b = []"
  by (auto simp: toToolResultBlock_def Let_def split: if_splits sum.splits)

lemma toToolResultLoop_Inr:
  "toToolResultLoop c bp ms = Inr (bs, n, bp') \<Longrightarrow>
   n = c + length (takeWhile isToolResult ms)
   \<and> concat (map blockResult bs) = map mToolCallID (takeWhile isToolResult ms)
   \<and> bp' = bp + length (filter hinted (if c > 0 then takeWhile isToolResult ms else tl (takeWhile isToolResult ms)))
   \<and> (bp \<le> maxCacheBreakpoints \<longrightarrow> bp' \<le> maxCacheBreakpoints)"
proof (induction c bp ms arbitrary: bs n bp' rule: toToolResultLoop.induct)
  case (1 c bp)
  then show ?case by simp
next
  case (2 c bp m ms)
  show ?case
  proof (cases "mRole m = RoleTool")
    case False
    then show ?thesis using "2.prems" by auto
  next
    case True
    obtain bp1 where c: "(if c > 0 then countCacheBreakpoint m bp else Inr bp) = Inr bp1"
      using "2.prems" True by (auto split: sum.splits if_splits)
    obtain b where b: "toToolResultBlock m = Inr b" using "2.prems" True c by (auto split: sum.splits)
    obtain bs1 where r: "toToolResultLoop (Suc c) bp1 ms = Inr (bs1, n, bp')" "bs = applyBlockCacheHint b (mCacheHint m) # bs1"
      using "2.prems" True c b by (auto split: sum.splits)
    have n: "\<not> mRole m \<noteq> RoleTool" using True by simp
    have bp1: "bp1 = bp + (if c > 0 \<and> hinted m then 1 else 0)" "bp \<le> maxCacheBreakpoints \<longrightarrow> bp1 \<le> maxCacheBreakpoints"
      using c countCacheBreakpoint_Inr [of m bp bp1] by (auto split: if_splits)
    from "2.IH" [OF n c b r(1)] True r(2) toToolResultBlock_id [OF b] bp1 show ?thesis by auto
  qed
qed

lemma takeWhile_pending:
  assumes "anthropicLoop i ms pend ans = None" and "finite pend" and "pend \<noteq> {}" and "pend \<inter> ans = {}"
  shows "takeWhile isToolResult ms = take (card pend) ms \<and> mToolCallID ` set (take (card pend) ms) = pend
    \<and> distinct (map mToolCallID (take (card pend) ms)) \<and> length (take (card pend) ms) = card pend
    \<and> anthropicLoop (i + card pend) (drop (card pend) ms) {} (ans \<union> pend) = None"
proof -
  let ?rs = "take (card pend) ms" and ?rest = "drop (card pend) ms"
  have p: "length ?rs = card pend" "list_all isToolResult ?rs" "mToolCallID ` set ?rs = pend"
    "anthropicLoop (i + card pend) ?rest {} (ans \<union> pend) = None"
    using assms anthropic_pending [of pend ans i ms] by (auto simp: Let_def)
  have h: "\<not> isToolResult x" if "?rest = x # xs" for x xs
    using p(4) that
    by (auto simp: anthropic_validateTranscriptMessage_def anthropic_validateToolMessage_def split: sum.splits)
  have "takeWhile isToolResult (?rs @ ?rest) = ?rs"
    using p(2) h by (cases ?rest) (auto simp: list_all_iff takeWhile_eq_all_conv takeWhile_append)
  moreover have "distinct (map mToolCallID ?rs)"
    using p(1,3) by (intro card_distinct) simp
  ultimately show ?thesis using p by simp
qed

lemma assistant_step:
  assumes "mRole m = RoleAssistant" and "anthropicLoop k (m # ms) {} ans = None"
  shows "distinct (map tcID (mToolCalls m)) \<and> anthropicLoop (Suc k) ms (tcID ` set (mToolCalls m)) ans = None"
proof (cases "anthropic_validateAssistantMessage k (mToolCalls m) {}")
  case (Inr p)
  then have "p = tcID ` set (mToolCalls m)" "distinct (map tcID (mToolCalls m))" by (simp_all add: anthropic_calls_ok)
  with assms Inr show ?thesis by (simp add: anthropic_validateTranscriptMessage_def)
qed (use assms in \<open>simp add: anthropic_validateTranscriptMessage_def\<close>)

lemma loop_anLegal:
  "toAnthropicMessagesLoop ae i idx bp ms = Inr (conv, sys, n) \<Longrightarrow>
   anthropicLoop k ms pend ans = None \<Longrightarrow> finite pend \<Longrightarrow> anLegal pend conv"
proof (induction ae i idx bp ms arbitrary: conv sys n k pend ans rule: toAnthropicMessagesLoop.induct)
  case (1 ae i idx bp)
  then show ?case by (simp split: if_splits)
next
  case (2 ae i idx bp m ms)
  have disj: "pend \<inter> ans = {}" using "2.prems"(2) anthropic_reused_id by blast
  obtain bp1 where c: "countCacheBreakpoint m bp = Inr bp1" using "2.prems"(1) by (auto split: sum.splits)
  show ?case
  proof (cases "pend = {}")
    case False
    then have run: "takeWhile isToolResult (m # ms) = take (card pend) (m # ms)"
      "mToolCallID ` set (take (card pend) (m # ms)) = pend" "distinct (map mToolCallID (take (card pend) (m # ms)))"
      "length (take (card pend) (m # ms)) = card pend"
      "anthropicLoop (k + card pend) (drop (card pend) (m # ms)) {} (ans \<union> pend) = None"
      using takeWhile_pending [OF "2.prems"(2,3) _ disj] by auto
    obtain q where q: "card pend = Suc q" using False "2.prems"(3) by (metis card_gt_0_iff gr0_implies_Suc)
    have tool: "mRole m = RoleTool" using run(1) q by (auto split: if_splits)
    then have ns: "\<not> (idx = 0 \<and> mRole m = RoleSystem)" by simp
    obtain res consumed bp2 where r: "toToolResultMessage (m # ms) bp1 = Inr (res, consumed, bp2)"
      using "2.prems"(1) c tool by (auto split: sum.splits)
    obtain conv' sys' where rec: "toAnthropicMessagesLoop ae i (idx + consumed) bp2 (drop (consumed - 1) ms) = Inr (conv', sys', n)"
      "conv = res # conv'" using "2.prems"(1) c tool r by (auto split: sum.splits)
    obtain bs where bs: "toToolResultLoop 0 bp1 (m # ms) = Inr (bs, consumed, bp2)" "res = AnUser bs"
      using r by (auto simp: toToolResultMessage_def split: sum.splits)
    have con: "consumed = card pend" and ids: "toolResults res = map mToolCallID (take (card pend) (m # ms))"
      using toToolResultLoop_Inr [OF bs(1)] run(1,4) bs(2) by auto
    have "drop (consumed - 1) ms = drop (card pend) (m # ms)" using con q by simp
    then have "anLegal {} conv'"
      using "2.IH"(2) [OF c ns tool r refl refl rec(1), of "k + card pend" "{}" "ans \<union> pend"] run(5) by simp
    moreover have "toolUses res = []" using bs(2) by simp
    ultimately show ?thesis using rec(2) ids run(2,3) by simp
  next
    case True
    have nt: "mRole m \<noteq> RoleTool"
      using "2.prems"(2) True
      by (auto simp: anthropic_validateTranscriptMessage_def anthropic_validateToolMessage_def split: sum.splits)
    show ?thesis
    proof (cases "idx = 0 \<and> mRole m = RoleSystem")
      case sys: True
      obtain sys' where rec: "toAnthropicMessagesLoop ae i (idx + 1) bp1 ms = Inr (conv, sys', n)"
        using "2.prems"(1) c sys by (auto split: sum.splits)
      have "anthropicLoop (Suc k) ms pend ans = None"
        using "2.prems"(2) sys True by (auto simp: anthropic_validateTranscriptMessage_def)
      from "2.IH"(1) [OF c sys rec this "2.prems"(3)] show ?thesis .
    next
      case ns: False
      obtain x where x: "toAnthropicMessage ae i m = Inr x" using "2.prems"(1) c nt ns by (auto split: sum.splits)
      obtain conv' sys' where rec: "toAnthropicMessagesLoop ae i (idx + 1) bp1 ms = Inr (conv', sys', n)" "conv = x # conv'"
        using "2.prems"(1) c nt ns x by (auto split: sum.splits)
      have xr: "toolResults x = []" and xu: "toolUses x = (if mRole m = RoleAssistant then map tcID (mToolCalls m) else [])"
        using x nt
        by (auto simp: toAnthropicMessage_def toMidConvSystemMessage_def user_blocks assistant_blocks split: if_splits sum.splits)
      have "distinct (toolUses x) \<and> (\<exists>ans'. anthropicLoop (Suc k) ms (set (toolUses x)) ans' = None)"
        using "2.prems"(2) True nt xu
        using assistant_step [of m k ms ans]
        by (cases "mRole m = RoleAssistant") (auto simp: anthropic_validateTranscriptMessage_def split: if_splits)
      with "2.IH"(3) [OF c ns nt x rec(1)] xr rec(2) True show ?thesis by auto
    qed
  qed
qed

lemma loop_breakpoints:
  "toAnthropicMessagesLoop ae i idx bp ms = Inr (conv, sys, n) \<Longrightarrow>
   n = bp + length (filter hinted ms) \<and> (bp \<le> maxCacheBreakpoints \<longrightarrow> n \<le> maxCacheBreakpoints)"
proof (induction ae i idx bp ms arbitrary: conv sys n rule: toAnthropicMessagesLoop.induct)
  case (1 ae i idx bp)
  then show ?case by simp
next
  case (2 ae i idx bp m ms)
  obtain bp1 where c: "countCacheBreakpoint m bp = Inr bp1" using "2.prems" by (auto split: sum.splits)
  have bp1: "bp1 = bp + (if hinted m then 1 else 0)" "bp \<le> maxCacheBreakpoints \<longrightarrow> bp1 \<le> maxCacheBreakpoints"
    using countCacheBreakpoint_Inr [OF c] by (auto split: if_splits)
  show ?case
  proof (cases "mRole m = RoleTool")
    case True
    then have ns: "\<not> (idx = 0 \<and> mRole m = RoleSystem)" by simp
    obtain res consumed bp2 where r: "toToolResultMessage (m # ms) bp1 = Inr (res, consumed, bp2)"
      using "2.prems" c True by (auto split: sum.splits)
    obtain conv' sys' where rec: "toAnthropicMessagesLoop ae i (idx + consumed) bp2 (drop (consumed - 1) ms) = Inr (conv', sys', n)"
      using "2.prems" c True r by (auto split: sum.splits)
    obtain bs where bs: "toToolResultLoop 0 bp1 (m # ms) = Inr (bs, consumed, bp2)"
      using r by (auto simp: toToolResultMessage_def split: sum.splits)
    have b2: "consumed = Suc (length (takeWhile isToolResult ms))" "bp2 = bp1 + length (filter hinted (takeWhile isToolResult ms))"
      "bp1 \<le> maxCacheBreakpoints \<longrightarrow> bp2 \<le> maxCacheBreakpoints"
      using toToolResultLoop_Inr [OF bs] True by auto
    have d: "drop (consumed - 1) ms = dropWhile isToolResult ms" using b2(1) by (simp add: dropWhile_eq_drop)
    have "length (filter hinted ms) = length (filter hinted (takeWhile isToolResult ms)) + length (filter hinted (dropWhile isToolResult ms))"
      by (metis filter_append length_append takeWhile_dropWhile_id)
    with "2.IH"(2) [OF c ns True r refl refl rec] b2 bp1 d show ?thesis by auto
  next
    case False
    have step: "\<exists>conv' sys'. toAnthropicMessagesLoop ae i (idx + 1) bp1 ms = Inr (conv', sys', n)"
      using "2.prems" c False by (auto split: sum.splits if_splits)
    then obtain conv' sys' where rec: "toAnthropicMessagesLoop ae i (idx + 1) bp1 ms = Inr (conv', sys', n)" by blast
    have "n = bp1 + length (filter hinted ms) \<and> (bp1 \<le> maxCacheBreakpoints \<longrightarrow> n \<le> maxCacheBreakpoints)"
    proof (cases "idx = 0 \<and> mRole m = RoleSystem")
      case True
      from "2.IH"(1) [OF c True rec] show ?thesis .
    next
      case ns: False
      obtain x where x: "toAnthropicMessage ae i m = Inr x" using "2.prems" c False ns by (auto split: sum.splits)
      from "2.IH"(3) [OF c ns False x rec] show ?thesis .
    qed
    with bp1 show ?thesis by auto
  qed
qed

section \<open>What a request carries\<close>

lemma buildRequest_Inr:
  assumes "buildRequest ae req q0 = Inr q"
  shows "\<exists>sys. toAnthropicMessages ae (mdID (drModel req)) (drMessages req) = Inr (aqMessages q, sys)
    \<and> aqSystem q = sys \<and> aqMaxTokens q = aqMaxTokens q0 \<and> aqModel q = aqModel q0"
  using assms
  by (auto simp: buildRequest_def anthropic_applyGenerationParams_def Let_def split: sum.splits option.splits)

lemma toMessageParams_Inr:
  assumes "toMessageParams ae req = Inr q"
  shows "anthropic_validateTranscript (drMessages req) = None
    \<and> (\<exists>sys. toAnthropicMessages ae (mdID (drModel req)) (drMessages req) = Inr (aqMessages q, sys))
    \<and> 0 < aqMaxTokens q"
  using assms
  by (auto simp: toMessageParams_def emptyRequest_def defaultMaxOutputTokens_def Let_def dest!: buildRequest_Inr
      split: if_splits option.splits)

section \<open>Properties\<close>

text \<open>
  C26. What the Anthropic driver sends is a conversation the API accepts: the message after an
  assistant turn with calls is one user message that answers all of them, once each, no other
  message carries results, at most four messages carry a cache hint, and a positive output
  limit is always set.
\<close>

theorem anthropic_wire_transcript:
  assumes "toMessageParams ae req = Inr q"
  shows "anLegal {} (aqMessages q) \<and> length (filter hinted (drMessages req)) \<le> maxCacheBreakpoints \<and> 0 < aqMaxTokens q"
proof -
  obtain sys n where l: "toAnthropicMessagesLoop ae (mdID (drModel req)) 0 0 (drMessages req) = Inr (aqMessages q, sys, n)"
    using toMessageParams_Inr [OF assms] by (auto simp: toAnthropicMessages_def split: sum.splits)
  have "anthropicLoop 0 (drMessages req) {} {} = None"
    using toMessageParams_Inr [OF assms] by (simp add: anthropic_validateTranscript_def)
  from loop_anLegal [OF l this] loop_breakpoints [OF l] toMessageParams_Inr [OF assms] show ?thesis by simp
qed

definition anSampleEnv :: anthropicEnv where
  "anSampleEnv = \<lparr>aePayloadOrder = payloadTypes, aeNumbersFit = \<lambda>_. True, aeToolSchema = \<lambda>_. None,
     aeEnvelope = \<lambda>_. Some \<lparr>evProvider = ''anthropic'', evVersion = 1, evModel = ''claude-opus-5'',
       evBlocks = [(2, ''B''), (0, ''A'')]\<rparr>,
     aeBlockType = \<lambda>_. ''thinking'', aeBlock = \<lambda>_. None\<rparr>"

text \<open>A system prompt, a turn with two parallel calls and stored reasoning, its results, one with a cache hint.\<close>

definition parallelExchange :: "message list" where
  "parallelExchange =
    [emptyMessage\<lparr>mRole := RoleSystem, mContent := Text ''s'', mCacheHint := CacheHintLong\<rparr>,
     emptyMessage\<lparr>mRole := RoleUser, mContent := Text ''hi''\<rparr>,
     emptyMessage\<lparr>mRole := RoleAssistant, mContent := Text ''ok'', mProviderReasoning := ''{}'',
       mToolCalls := [\<lparr>tcID = ''a'', tcName = ''f'', tcArguments = []\<rparr>, \<lparr>tcID = ''b'', tcName = ''f'', tcArguments = ''{}''\<rparr>]\<rparr>,
     emptyMessage\<lparr>mRole := RoleTool, mToolCallID := ''b'', mContent := Text ''y''\<rparr>,
     emptyMessage\<lparr>mRole := RoleTool, mToolCallID := ''a'', mContent := Text ''x'', mCacheHint := CacheHintShort\<rparr>]"

definition parallelRequest :: "unit driverRequest" where
  "parallelRequest = \<lparr>drModel = anthropic_LookupModel ''claude-opus-5'', drMessages = parallelExchange, drTools = [],
     drParams = zeroParams\<rparr>"

theorem anthropic_wire_transcript_witness:
  "\<exists>q. toMessageParams anSampleEnv parallelRequest = Inr q \<and> anLegal {} (aqMessages q) \<and> length (aqMessages q) = 3
     \<and> aqMaxTokens q = 4096"
proof -
  have "case toMessageParams anSampleEnv parallelRequest of Inl e \<Rightarrow> False | Inr q \<Rightarrow> length (aqMessages q) = 3 \<and> aqMaxTokens q = 4096"
    by code_simp
  then obtain q where "toMessageParams anSampleEnv parallelRequest = Inr q" "length (aqMessages q) = 3" "aqMaxTokens q = 4096"
    by (auto split: sum.splits)
  with anthropic_wire_transcript [of anSampleEnv parallelRequest q] show ?thesis by auto
qed

text \<open>
  C27. Stored reasoning cannot speak for the model: whatever the opaque payload holds, an
  assistant turn is sent as replayed blocks of a reasoning type, in the order of their
  recorded indices, followed by exactly the turn's own text and calls; and only a payload this
  driver stored for this very model is replayed at all.
\<close>

theorem anthropic_reasoning_replay:
  assumes "toAssistantBlocks ae i m = Inr bs"
  shows "\<exists>rs uses. bs = map AnReasoning rs @ (if messageText m \<noteq> [] then [AnText (messageText m) NoCache] else []) @ uses
    \<and> collect (toToolUseBlock ae) (mToolCalls m) = Inr uses
    \<and> list_all (\<lambda>raw. isReasoningBlockType (aeBlockType ae raw)) rs
    \<and> (rs = [] \<or> (\<exists>ev. aeEnvelope ae (mProviderReasoning m) = Some ev \<and> evProvider ev = ''anthropic''
         \<and> evVersion ev = providerReasoningVersion \<and> evModel ev = i \<and> rs = map snd (sort_key fst (evBlocks ev))))"
proof -
  let ?own = "\<lambda>uses. (if messageText m \<noteq> [] then [AnText (messageText m) NoCache] else []) @ uses"
  obtain uses where u: "collect (toToolUseBlock ae) (mToolCalls m) = Inr uses"
    and ins: "insertProviderReasoning ae i (?own uses) (mProviderReasoning m) = Inr bs"
    using assms by (auto simp: toAssistantBlocks_def split: sum.splits)
  from insertProviderReasoning_Inr [OF ins] show ?thesis
  proof
    assume "bs = ?own uses"
    then show ?thesis using u by (intro exI [of _ "[]"] exI [of _ uses]) simp
  next
    assume "\<exists>ev. aeEnvelope ae (mProviderReasoning m) = Some ev \<and> evProvider ev = ''anthropic'' \<and> evVersion ev = providerReasoningVersion
      \<and> evModel ev = i \<and> bs = map (AnReasoning \<circ> snd) (sort_key fst (evBlocks ev)) @ ?own uses
      \<and> list_all (\<lambda>x. isReasoningBlockType (aeBlockType ae (snd x))) (evBlocks ev)"
    then obtain ev where ev: "aeEnvelope ae (mProviderReasoning m) = Some ev" "evProvider ev = ''anthropic''"
      "evVersion ev = providerReasoningVersion" "evModel ev = i" "bs = map (AnReasoning \<circ> snd) (sort_key fst (evBlocks ev)) @ ?own uses"
      "list_all (\<lambda>x. isReasoningBlockType (aeBlockType ae (snd x))) (evBlocks ev)" by blast
    then show ?thesis using u
      by (intro exI [of _ "map snd (sort_key fst (evBlocks ev))"] exI [of _ uses]) (auto simp: list_all_iff)
  qed
qed

theorem anthropic_reasoning_replay_witness:
  "\<exists>bs. toAssistantBlocks anSampleEnv ''claude-opus-5'' (parallelExchange ! 2) = Inr bs
     \<and> take 2 bs = [AnReasoning ''A'', AnReasoning ''B'']
     \<and> (\<exists>rs. list_all (\<lambda>raw. isReasoningBlockType (aeBlockType anSampleEnv raw)) rs \<and> take (length rs) bs = map AnReasoning rs)"
proof -
  let ?m = "parallelExchange ! 2"
  have "case toAssistantBlocks anSampleEnv ''claude-opus-5'' ?m of Inl e \<Rightarrow> False
     | Inr bs \<Rightarrow> take 2 bs = [AnReasoning ''A'', AnReasoning ''B'']" by code_simp
  then obtain bs where b: "toAssistantBlocks anSampleEnv ''claude-opus-5'' ?m = Inr bs"
    "take 2 bs = [AnReasoning ''A'', AnReasoning ''B'']" by (auto split: sum.splits)
  obtain rs xs where "bs = map AnReasoning rs @ xs" "list_all (\<lambda>raw. isReasoningBlockType (aeBlockType anSampleEnv raw)) rs"
    using anthropic_reasoning_replay [OF b(1)] by blast
  with b show ?thesis by (intro exI [of _ bs]) auto
qed

section \<open>The engine's checks and this driver\<close>

definition servesAnthropic :: "'w request \<Rightarrow> bool" where
  "servesAnthropic r \<longleftrightarrow> clientCapabilities (rqClient r) = anthropic_capabilities"

text \<open>What the engine lets through and this driver does not translate.\<close>

definition anthropicRefuses :: "'w request \<Rightarrow> string \<Rightarrow> bool" where
  "anthropicRefuses r i \<longleftrightarrow> gpExtra (rqParams r) \<noteq> []
     \<or> (\<exists>n. gpMaxOutputTokens (rqParams r) = Some n \<and> n \<le> 0)
     \<or> (\<exists>f. gpResponseFormat (rqParams r) = Some f \<and> rfType f = ResponseFormatTypeText)
     \<or> (gpReasoningEffort (rqParams r) = ReasoningEffortXHigh \<and> supportsMaxEffort i \<and> \<not> supportsXHighEffort i)"

lemma driverParams_more:
  "gpExtra (driverParams r s tools) = gpExtra (rqParams r)"
  "gpParallelToolCalls (driverParams r s tools) = (if tools = [] then None else gpParallelToolCalls (rqParams r))"
  by (simp_all add: driverParams_def Let_def)

lemma anthropic_generation_accepted:
  assumes "validateCapabilities env r m (Some tools) = None" and "servesAnthropic r" and "m = anthropic_LookupModel i"
    and "stModel s = m" and "\<not> anthropicRefuses r i" and "aeNumbersFit ae = enNumbersFit env"
  shows "\<exists>c t f. anthropic_applyGenerationParams ae i q (driverParams r s tools) =
    Inr (q\<lparr>aqTemperature := gpTemperature (rqParams r), aqTopP := gpTopP (rqParams r), aqStop := gpStop (rqParams r),
      aqTopK := None, aqToolChoice := c, aqThinking := t, aqFormat := f\<rparr>)"
proof -
  let ?c = "anthropic_capabilities m" and ?p = "driverParams r s tools"
  have i: "mdID m = i" using assms(3) by simp
  have c: "validateParameterCapabilities r ?c = None" "validateReasoningConfiguration m (gpReasoningEffort (rqParams r)) ?c = None"
    "validateResponseFormat env (gpResponseFormat (rqParams r)) ?c = None" "validateToolCapabilities r tools ?c = None"
    using assms(1,2) by (simp_all add: validateCapabilities_def servesAnthropic_def Let_def)
  have caps: "\<not> SupportsSeed ?c" "\<not> SupportsSamplingPenalties ?c" "SupportsSamplingParams ?c = anthropic_supportsSamplingParams i"
    "\<not> SupportsResponseFormatJSONObject ?c" "SupportsResponseFormatJSONSchema ?c = supportsStructuredOutput i"
    by (simp_all add: anthropic_capabilities_def i Let_def)
  have extra: "gpExtra (rqParams r) = []" using assms(5) by (simp add: anthropicRefuses_def)
  have params: "gpSeed (rqParams r) = None" "gpFrequencyPenalty (rqParams r) = None" "gpPresencePenalty (rqParams r) = None"
    "gpTemperature (rqParams r) = None \<and> gpTopP (rqParams r) = None \<or> anthropic_supportsSamplingParams i"
    using c(1) caps by (auto simp: validateParameterCapabilities_def Let_def split: if_splits)
  have v: "validateGenerationParams i ?p = None"
    using params extra by (auto simp: validateGenerationParams_def hasSamplingParams_def driverParams_more)
  have x: "applyExtraParams (gpExtra ?p) = Inr None" using extra by (simp add: applyExtraParams_def driverParams_more)
  have tc: "\<exists>y. anthropic_applyToolChoice ?p = Inr y"
  proof (cases "tools = []")
    case True
    then show ?thesis by (simp add: anthropic_applyToolChoice_def driverParams_def Let_def)
  next
    case False
    then have "gpToolChoice ?p = gpToolChoice (rqParams r)" by (simp add: driverParams_def Let_def)
    moreover have "validateToolChoice (gpToolChoice (rqParams r)) tools (SupportsToolChoice ?c) = None"
      using c(4) by (simp add: validateToolCapabilities_def)
    ultimately show ?thesis by (auto simp: anthropic_applyToolChoice_def validateToolChoice_def Let_def split: if_splits)
  qed
  have e: "\<exists>t. applyReasoning i (gpReasoningEffort ?p) = Inr t"
  proof (cases "gpReasoningEffort ?p = ReasoningEffortUnset")
    case True
    then show ?thesis by (simp add: applyReasoning_def)
  next
    case False
    then have "gpReasoningEffort ?p = gpReasoningEffort (rqParams r)"
      by (auto simp: driverParams_def Let_def split: if_splits)
    with c(2) anthropic_effort_checks_core [OF assms(3), of "gpReasoningEffort (rqParams r)"] assms(5) show ?thesis
      by (auto simp: anthropicRefuses_def)
  qed
  have f: "\<exists>y. applyResponseFormat ae i (gpResponseFormat ?p) = Inr y"
  proof (cases "gpResponseFormat (rqParams r)")
    case None
    then show ?thesis by (simp add: applyResponseFormat_def)
  next
    case (Some g)
    then have "rfType g \<noteq> ResponseFormatTypeText" using assms(5) by (auto simp: anthropicRefuses_def)
    moreover have "decodesObject (aeNumbersFit ae) (rfSchema g)" if "isJSONObject env (rfSchema g)"
      using that assms(6) by (cases "dropWhile jspace (rfSchema g)") (auto simp: isJSONObject_def decodesObject_def)
    ultimately show ?thesis using Some c(3) caps
      by (auto simp: applyResponseFormat_def validateResponseFormat_def split: if_splits)
  qed
  obtain ch t fm where "anthropic_applyToolChoice ?p = Inr ch" "applyReasoning i (gpReasoningEffort ?p) = Inr t"
    "applyResponseFormat ae i (gpResponseFormat ?p) = Inr fm" using tc e f by blast
  then have "anthropic_applyGenerationParams ae i q ?p =
    Inr (q\<lparr>aqTemperature := gpTemperature (rqParams r), aqTopP := gpTopP (rqParams r), aqStop := gpStop (rqParams r),
      aqTopK := None, aqToolChoice := ch, aqThinking := t, aqFormat := fm\<rparr>)"
    using v x by (simp add: anthropic_applyGenerationParams_def Let_def)
  then show ?thesis by blast
qed

lemma anthropic_tools_accepted:
  assumes "validateStrictToolArguments tools (anthropic_capabilities m) = None" and "mdID m = i"
    and "list_all (\<lambda>t. aeToolSchema ae (if length (tlArgumentsSchema t) = 0 then ''{}'' else tlArgumentsSchema t) = None) tools"
  shows "\<exists>ts. toAnthropicTools ae i tools = Inr ts \<and> map atName ts = map tlName tools"
proof -
  have strict: "supportsStructuredOutput i \<or> \<not> tlStrictArguments t" if "t \<in> set tools" for t
    using assms(1,2) that by (auto simp: validateStrictToolArguments_def anthropic_capabilities_def Let_def list_ex_iff split: if_splits)
  have "\<exists>ts. collect (toAnthropicTool ae i) ts' = Inr ts \<and> map atName ts = map tlName ts'" if "set ts' \<subseteq> set tools" for ts'
    using that
  proof (induction ts')
    case (Cons t ts')
    then obtain ts where ts: "collect (toAnthropicTool ae i) ts' = Inr ts" "map atName ts = map tlName ts'" by auto
    have "\<exists>x. toAnthropicTool ae i t = Inr x \<and> atName x = tlName t"
      using strict [of t] assms(3) Cons.prems by (auto simp: toAnthropicTool_def Let_def list_all_iff)
    with ts show ?case by auto
  qed simp
  then show ?thesis by (auto simp: toAnthropicTools_def)
qed


definition anthropicRequest :: "unit request" where
  "anthropicRequest = WithReasoningEffort ''high'' (WithModel (anthropic_LookupModel ''claude-opus-5'')
     (WithPrompt (UserText NewPrompt ''hi'')
       (NewRequest (NewClient (Some (echoDriver\<lparr>dvCapabilities := anthropic_capabilities\<rparr>)) []))))"


end
