(* ===== verification/AnthropicStream.thy ===== *)
theory AnthropicStream
  imports AnthropicTranslate "HOL-Library.AList"
begin

text \<open>
  The Anthropic driver's calls (\<open>drivers/anthropic/driver.go\<close>, the response half of
  \<open>translate.go\<close>, \<open>errors.go\<close>): stream events and finished messages into deltas and usage,
  stored reasoning, finish reasons and provider errors. The SDK's transport and its
  accumulation of events into a message are parameters, as is the JSON encoding of the
  stored reasoning.
\<close>

section \<open>Replies\<close>

record anReplyBlock =
  rbType :: string
  rbText :: string
  rbThinking :: string
  rbID :: string
  rbName :: string
  rbInput :: string
  rbRaw :: string

record anReplyUsage =
  ruInput :: int
  ruCacheCreation :: int
  ruCacheRead :: int
  ruOutput :: int
  ruThinking :: int
  ruLongTTL :: int

record anReply =
  rpContent :: "anReplyBlock list"
  rpModel :: string
  rpStopReason :: string
  rpUsage :: anReplyUsage

datatype anDelta = TextDelta string | ThinkingDelta string | InputJSONDelta string | OtherDelta

datatype anEvent =
    MessageStart anReply
  | BlockStart int anReplyBlock
  | BlockDelta int anDelta
  | BlockStop int
  | MessageDelta string anReplyUsage \<comment> \<open>stop reason, usage\<close>
  | MessageStop

datatype anError =
    AnAPIError int string "string option" \<comment> \<open>status, raw body, the Retry-After header\<close>
  | AnOtherError err

record anStream =
  asEvents :: "anEvent list"
  asErr :: "anError option"
  asCloseErr :: "err option"

record anthropicCodec =
  acAccumulate :: "anReply \<Rightarrow> anEvent \<Rightarrow> anReply \<times> err option" \<comment> \<open>\<open>Message.Accumulate\<close>\<close>
  acEncode :: "anEnvelope \<Rightarrow> err + string" \<comment> \<open>\<open>json.Marshal\<close> of an envelope\<close>
  acEncodeBlock :: "anReplyBlock \<Rightarrow> err + string" \<comment> \<open>\<open>json.Marshal\<close> of a block without a raw body\<close>
  acErrorCode :: "string \<Rightarrow> string" \<comment> \<open>\<open>anthropicErrorCode\<close>: the code field of a raw error body, or its type\<close>
  acErrText :: "anError \<Rightarrow> string"
  acUntilDate :: "string \<Rightarrow> int option"

definition zeroReply :: anReply where
  "zeroReply = \<lparr>rpContent = [], rpModel = [], rpStopReason = [],
     rpUsage = \<lparr>ruInput = 0, ruCacheCreation = 0, ruCacheRead = 0, ruOutput = 0, ruThinking = 0, ruLongTTL = 0\<rparr>\<rparr>"

section \<open>Finish reasons and usage\<close>

definition errorCodeModelContextExceeded :: string where
  "errorCodeModelContextExceeded = ''model_context_window_exceeded''"

definition anthropic_normalizeFinishReason :: "string \<Rightarrow> string" where
  "anthropic_normalizeFinishReason r =
     (if r = ''end_turn'' then FinishReasonStop else if r = ''max_tokens'' then FinishReasonLength
      else if r = ''tool_use'' then FinishReasonToolCalls else if r = ''refusal'' then FinishReasonContentFilter
      else if r = ''stop_sequence'' then FinishReasonStopSequence else if r = ''pause_turn'' then FinishReasonPaused
      else if r = errorCodeModelContextExceeded then FinishReasonContextExceeded else FinishReasonUnset)"

definition usageFromMessage :: "anReply \<Rightarrow> usage" where
  "usageFromMessage m =
     (let u = rpUsage m;
          prompt = add64 (add64 (ruInput u) (ruCacheCreation u)) (ruCacheRead u);
          completion = ruOutput u
      in zeroUsage\<lparr>uTokens := \<lparr>tkPrompt = prompt, tkCompletion = completion, tkTotal = add64 prompt completion,
           tkReasoning = ruThinking u, tkCacheRead = ruCacheRead u, tkCacheWrite = ruCacheCreation u,
           tkCacheWriteLongTTL = ruLongTTL u\<rparr>,
         uModel := rpModel m, uFinishReason := anthropic_normalizeFinishReason (rpStopReason m)\<rparr>)"

section \<open>Events\<close>

text \<open>
  One event: the state of tool-call indices, by content-block index, and the delta to emit.
  The length of the list is the size of the code's map: an update keeps keys distinct.
\<close>

definition emitEventDelta :: "(int \<times> int) list \<Rightarrow> anEvent \<Rightarrow> err + (int \<times> int) list \<times> delta option" where
  "emitEventDelta indexes event =
     (case event of
        BlockStart i block \<Rightarrow>
          if rbType block \<noteq> ''tool_use'' then Inr (indexes, None)
          else let toolCallIndex = int (length indexes)
               in Inr (AList.update i toolCallIndex indexes,
                    Some (emptyDelta\<lparr>dToolCall := Some \<lparr>tdIndex = toolCallIndex, tdID = rbID block, tdName = rbName block, tdArguments = []\<rparr>\<rparr>))
      | BlockDelta i (TextDelta t) \<Rightarrow> Inr (indexes, Some (emptyDelta\<lparr>dText := t\<rparr>))
      | BlockDelta i (ThinkingDelta t) \<Rightarrow> Inr (indexes, Some (emptyDelta\<lparr>dReasoning := t\<rparr>))
      | BlockDelta i (InputJSONDelta j) \<Rightarrow>
          (case map_of indexes i of
             None \<Rightarrow> Inl (invalidTranscriptf ''Anthropic tool input delta has no start event at index %d'' [ArgInt i])
           | Some n \<Rightarrow> Inr (indexes, Some (emptyDelta\<lparr>dToolCall := Some \<lparr>tdIndex = n, tdID = [], tdName = [], tdArguments = j\<rparr>\<rparr>)))
      | _ \<Rightarrow> Inr (indexes, None))"

definition deltaFromContentBlock :: "anReplyBlock \<Rightarrow> nat \<Rightarrow> delta option" where
  "deltaFromContentBlock block toolCallIndex =
     (if rbType block = ''thinking'' then
        (if rbThinking block = [] then None else Some (emptyDelta\<lparr>dReasoning := rbThinking block\<rparr>))
      else if rbType block = ''text'' then
        (if rbText block = [] then None else Some (emptyDelta\<lparr>dText := rbText block\<rparr>))
      else if rbType block = ''tool_use'' then
        Some (emptyDelta\<lparr>dToolCall := Some \<lparr>tdIndex = int toolCallIndex, tdID = rbID block, tdName = rbName block,
          tdArguments = (if length (rbInput block) > 0 then rbInput block else [])\<rparr>\<rparr>)
      else None)"

fun emitMessageContent ::
  "nat \<Rightarrow> anReplyBlock list \<Rightarrow> 'w \<Rightarrow> ('w \<Rightarrow> 'w drun) \<Rightarrow> ('w \<Rightarrow> err \<Rightarrow> 'w drun) \<Rightarrow> 'w drun" where
  "emitMessageContent toolCallIndex [] w ok fail = ok w"
| "emitMessageContent toolCallIndex (block # blocks) w ok fail =
     (case deltaFromContentBlock block toolCallIndex of
        None \<Rightarrow> emitMessageContent toolCallIndex blocks w ok fail
      | Some d \<Rightarrow>
          Emit w d (\<lambda>w' e. case e of
                      Some x \<Rightarrow> fail w' (Wrapf x ''emit Anthropic %s block'' [ArgStr (rbType block)])
                    | None \<Rightarrow> emitMessageContent (if dToolCall d \<noteq> None then Suc toolCallIndex else toolCallIndex) blocks w' ok fail))"

section \<open>Stored reasoning\<close>

fun reasoningBlocks :: "anthropicCodec \<Rightarrow> nat \<Rightarrow> anReplyBlock list \<Rightarrow> err + (int \<times> string) list" where
  "reasoningBlocks ac index [] = Inr []"
| "reasoningBlocks ac index (b # bs) =
     (if \<not> isReasoningBlockType (rbType b) then reasoningBlocks ac (Suc index) bs
      else case (if rbRaw b = [] then acEncodeBlock ac b else Inr (rbRaw b)) of
          Inl e \<Rightarrow> Inl (Wrap e ''marshal Anthropic reasoning content block'')
        | Inr raw \<Rightarrow>
            (case reasoningBlocks ac (Suc index) bs of Inl e \<Rightarrow> Inl e | Inr rest \<Rightarrow> Inr ((int index, raw) # rest)))"

definition marshalProviderReasoning :: "anthropicCodec \<Rightarrow> string \<Rightarrow> anReplyBlock list \<Rightarrow> err + string" where
  "marshalProviderReasoning ac modelID content =
     (case reasoningBlocks ac 0 content of
        Inl e \<Rightarrow> Inl e
      | Inr blocks \<Rightarrow>
          if length blocks = 0 then Inr []
          else (case acEncode ac \<lparr>evProvider = ''anthropic'', evVersion = providerReasoningVersion, evModel = modelID,
                                 evBlocks = blocks\<rparr> of
                  Inl e \<Rightarrow> Inl (Wrap e ''marshal Anthropic provider reasoning envelope'')
                | Inr raw \<Rightarrow> Inr raw))"

section \<open>Provider errors\<close>

definition normalizeErrorCode :: "string \<Rightarrow> string" where
  "normalizeErrorCode code = (if code = errorCodeModelContextExceeded then ProviderErrorCodeContextLengthExceeded else code)"

definition anthropic_normalizeProviderError :: "anthropicCodec \<Rightarrow> anError \<Rightarrow> err" where
  "anthropic_normalizeProviderError ac e =
     (case e of
        AnOtherError x \<Rightarrow> x
      | AnAPIError status raw header \<Rightarrow>
          let code = normalizeErrorCode (acErrorCode ac raw);
              err = Opaque raw;
              cause = (case ProviderSentinel status code of None \<Rightarrow> err | Some s \<Rightarrow> Joined [err, Sentinel s]);
              retryAfter = (case header of None \<Rightarrow> 0 | Some h \<Rightarrow> ParseRetryAfter (acUntilDate ac) h)
          in Wrap (ProviderError (Some cause) status retryAfter code) ''Anthropic provider request'')"

definition nonStreamingTimeoutMessage :: string where
  "nonStreamingTimeoutMessage = ''streaming is required for operations''"

definition contains :: "string \<Rightarrow> string \<Rightarrow> bool" where
  "contains s t \<longleftrightarrow> list_ex (\<lambda>i. hasPrefix (drop i s) t) [0..<Suc (length s)]"

definition normalizeNonStreamingError :: "anthropicCodec \<Rightarrow> anError \<Rightarrow> err" where
  "normalizeNonStreamingError ac e =
     (if contains (acErrText ac e) nonStreamingTimeoutMessage
      then Joined [case e of AnOtherError x \<Rightarrow> x | AnAPIError status raw header \<Rightarrow> Opaque raw, Sentinel ErrStreamingRequired]
      else anthropic_normalizeProviderError ac e)"

interpretation anthropic_errors: api_error_reporter "\<lambda>status raw header. anthropic_normalizeProviderError ac (AnAPIError status raw header)"
    "\<lambda>raw. normalizeErrorCode (acErrorCode ac raw)" "\<lambda>header. case header of None \<Rightarrow> 0 | Some h \<Rightarrow> ParseRetryAfter (acUntilDate ac) h"
    for ac :: anthropicCodec
  by unfold_locales (auto simp: anthropic_normalizeProviderError_def Let_def)

text \<open>A failure means the same to the retry layer whichever driver reports it.\<close>

lemmas anthropic_error_verdict = anthropic_errors.verdict anthropic_errors.delay

section \<open>The calls\<close>

definition finishStream ::
  "anthropicCodec \<Rightarrow> string \<Rightarrow> anReply \<Rightarrow> 'w \<Rightarrow> (usage \<Rightarrow> 'w \<Rightarrow> err option \<Rightarrow> 'w drun) \<Rightarrow> 'w drun" where
  "finishStream ac modelID message w return =
     (let usage = usageFromMessage message;
          finish = (\<lambda>w'. if uFinishReason usage \<noteq> FinishReasonUnset then
                      Emit w' (emptyDelta\<lparr>dFinishReason := uFinishReason usage\<rparr>)
                        (\<lambda>w'' e. return usage w'' (map_option (\<lambda>x. Wrap x ''emit Anthropic finish reason'') e))
                    else return usage w' None)
      in case marshalProviderReasoning ac modelID (rpContent message) of
           Inl e \<Rightarrow> return usage w (Some (Wrap e ''marshal Anthropic reasoning blocks''))
         | Inr payload \<Rightarrow>
             if length payload > 0 then
               Emit w (emptyDelta\<lparr>dProviderReasoning := payload\<rparr>)
                 (\<lambda>w' e. case e of
                    Some x \<Rightarrow> return usage w' (Some (Wrap x ''emit Anthropic provider reasoning''))
                  | None \<Rightarrow> finish w')
             else finish w)"

definition closeStream :: "anStream \<Rightarrow> usage \<Rightarrow> 'w \<Rightarrow> err option \<Rightarrow> 'w drun" where
  "closeStream st u w streamErr =
     Done w u (case asCloseErr st of
         None \<Rightarrow> streamErr
       | Some c \<Rightarrow> Some (Joined ((case streamErr of None \<Rightarrow> [] | Some e \<Rightarrow> [e]) @ [Wrap c ''close Anthropic stream''])))"

text \<open>The loop over the events; an error ends it with the message accumulated so far.\<close>

fun anthropic_consumeStream ::
  "anthropicCodec \<Rightarrow> string \<Rightarrow> anStream \<Rightarrow> anEvent list \<Rightarrow> (int \<times> int) list \<Rightarrow> anReply \<Rightarrow> 'w \<Rightarrow> 'w drun" where
  "anthropic_consumeStream ac modelID st [] indexes message w =
     (case asErr st of
        Some e \<Rightarrow> closeStream st (usageFromMessage message) w
          (Some (Wrap (anthropic_normalizeProviderError ac e) ''read Anthropic stream''))
      | None \<Rightarrow> finishStream ac modelID message w (\<lambda>u w' e. closeStream st u w' e))"
| "anthropic_consumeStream ac modelID st (event # events) indexes message w =
     (case acAccumulate ac message event of
        (m1, Some e) \<Rightarrow> closeStream st (usageFromMessage m1) w (Some (Wrap e ''accumulate Anthropic stream event''))
      | (m1, None) \<Rightarrow>
          let m2 = (case event of
                MessageDelta reason u \<Rightarrow> m1\<lparr>rpUsage := (rpUsage m1)\<lparr>ruThinking := ruThinking u\<rparr>\<rparr>
              | _ \<Rightarrow> m1);
              broken = (\<lambda>w' e. closeStream st (usageFromMessage m2) w' (Some (Wrap e ''emit Anthropic stream delta'')))
          in case emitEventDelta indexes event of
               Inl e \<Rightarrow> broken w e
             | Inr (indexes', None) \<Rightarrow> anthropic_consumeStream ac modelID st events indexes' m2 w
             | Inr (indexes', Some d) \<Rightarrow>
                 Emit w d (\<lambda>w' e. case e of
                    Some x \<Rightarrow> broken w' x
                  | None \<Rightarrow> anthropic_consumeStream ac modelID st events indexes' m2 w'))"

record 'w anthropicConfig =
  anEnv :: anthropicEnv
  anCodec :: anthropicCodec
  anStreaming :: "anRequest \<Rightarrow> 'w \<Rightarrow> 'w \<times> anStream" \<comment> \<open>\<open>Messages.NewStreaming\<close>\<close>
  anNew :: "anRequest \<Rightarrow> 'w \<Rightarrow> 'w \<times> (anError + anReply)" \<comment> \<open>\<open>Messages.New\<close>\<close>
  anModels :: "'w \<Rightarrow> 'w \<times> string list \<times> anError option" \<comment> \<open>the pages of \<open>Models.ListAutoPaging\<close> and its error\<close>

definition anthropic_Stream :: "'w anthropicConfig \<Rightarrow> 'w driverRequest \<Rightarrow> 'w \<Rightarrow> 'w drun" where
  "anthropic_Stream cfg req w =
     (case toMessageParams (anEnv cfg) req of
        Inl e \<Rightarrow> Done w zeroUsage (Some (Wrap e ''translate Anthropic request''))
      | Inr params \<Rightarrow>
          (case anStreaming cfg params w of
             (w', st) \<Rightarrow> anthropic_consumeStream (anCodec cfg) (mdID (drModel req)) st (asEvents st) [] zeroReply w'))"

text \<open>A finished message: its blocks, then the same tail as a stream.\<close>

definition publishMessage :: "anthropicCodec \<Rightarrow> string \<Rightarrow> anReply \<Rightarrow> 'w \<Rightarrow> 'w drun" where
  "publishMessage ac modelID message w =
     emitMessageContent 0 (rpContent message) w
       (\<lambda>w'. finishStream ac modelID message w' (\<lambda>u w'' e. Done w'' u e))
       (\<lambda>w' e. Done w' (usageFromMessage message) (Some e))"

definition anthropic_Complete :: "'w anthropicConfig \<Rightarrow> 'w driverRequest \<Rightarrow> 'w \<Rightarrow> 'w drun" where
  "anthropic_Complete cfg req w =
     (case toMessageParams (anEnv cfg) req of
        Inl e \<Rightarrow> Done w zeroUsage (Some (Wrap e ''translate Anthropic request''))
      | Inr params \<Rightarrow>
          (case anNew cfg params w of
             (w', Inl e) \<Rightarrow> Done w' zeroUsage (Some (Wrap (normalizeNonStreamingError (anCodec cfg) e) ''complete Anthropic message''))
           | (w', Inr message) \<Rightarrow>
               publishMessage (anCodec cfg) (mdID (drModel req)) message w'))"

definition anthropic_ListModels :: "'w anthropicConfig \<Rightarrow> 'w \<Rightarrow> 'w \<times> (err + string list)" where
  "anthropic_ListModels cfg w =
     (case anModels cfg w of
        (w', ids, Some e) \<Rightarrow> (w', Inl (Wrap (anthropic_normalizeProviderError (anCodec cfg) e) ''list Anthropic models''))
      | (w', ids, None) \<Rightarrow> (w', Inr ids))"

definition anthropicDriver :: "'w anthropicConfig \<Rightarrow> 'w tokenCounter \<Rightarrow> 'w driver" where
  "anthropicDriver cfg counter =
     \<lparr>dvStream = anthropic_Stream cfg, dvComplete = anthropic_Complete cfg, dvListModels = anthropic_ListModels cfg,
      dvCapabilities = anthropic_capabilities, dvTokenCounter = Some counter\<rparr>"

section \<open>The turn a consumer assembles\<close>

definition gather :: "(delta \<Rightarrow> string) \<Rightarrow> delta list \<Rightarrow> string" where
  "gather f ds = concat (map f ds)"

definition callPart :: "(toolCallDelta \<Rightarrow> string) \<Rightarrow> int \<Rightarrow> delta \<Rightarrow> string" where
  "callPart g n d = (case dToolCall d of None \<Rightarrow> [] | Some t \<Rightarrow> if tdIndex t = n then g t else [])"

text \<open>Two delta sequences that build the same turn, however it is cut into fragments.\<close>

definition sameTurn :: "delta list \<Rightarrow> delta list \<Rightarrow> bool" where
  "sameTurn xs ys \<longleftrightarrow> gather dText xs = gather dText ys \<and> gather dReasoning xs = gather dReasoning ys
     \<and> gather dProviderReasoning xs = gather dProviderReasoning ys \<and> gather dFinishReason xs = gather dFinishReason ys
     \<and> (\<forall>n. gather (callPart tdID n) xs = gather (callPart tdID n) ys \<and> gather (callPart tdName n) xs = gather (callPart tdName n) ys
          \<and> gather (callPart tdArguments n) xs = gather (callPart tdArguments n) ys)"

lemma gather_simps [simp]: "gather f [] = []" "gather f (d # ds) = f d @ gather f ds" "gather f (xs @ ys) = gather f xs @ gather f ys"
  by (simp_all add: gather_def)

lemma callPart_simps [simp]:
  "dToolCall d = None \<Longrightarrow> callPart g n d = []"
  "dToolCall d = Some t \<Longrightarrow> callPart g n d = (if tdIndex t = n then g t else [])"
  by (simp_all add: callPart_def)

lemma sameTurn_append: "sameTurn xs ys \<Longrightarrow> sameTurn xs' ys' \<Longrightarrow> sameTurn (xs @ xs') (ys @ ys')"
  by (simp add: sameTurn_def)

lemma sameTurn_refl [simp]: "sameTurn xs xs"
  by (simp add: sameTurn_def)

text \<open>A block as a stream delivers it: opened, sent in fragments, closed.\<close>

definition fragmentDelta :: "anReplyBlock \<Rightarrow> string \<Rightarrow> anDelta" where
  "fragmentDelta b t = (if rbType b = ''text'' then TextDelta t else if rbType b = ''thinking'' then ThinkingDelta t
     else if rbType b = ''tool_use'' then InputJSONDelta t else OtherDelta)"

definition blockEvents :: "nat \<Rightarrow> anReplyBlock \<times> string list \<Rightarrow> anEvent list" where
  "blockEvents k = (\<lambda>(b, frs). BlockStart (int k) b # map (\<lambda>t. BlockDelta (int k) (fragmentDelta b t)) frs @ [BlockStop (int k)])"

fun contentEvents :: "nat \<Rightarrow> (anReplyBlock \<times> string list) list \<Rightarrow> anEvent list" where
  "contentEvents k [] = []"
| "contentEvents k (x # xs) = blockEvents k x @ contentEvents (Suc k) xs"

definition fragmented :: "anReplyBlock \<times> string list \<Rightarrow> bool" where
  "fragmented = (\<lambda>(b, frs). concat frs = (if rbType b = ''text'' then rbText b else if rbType b = ''thinking'' then rbThinking b
     else if rbType b = ''tool_use'' then rbInput b else []))"

section \<open>The two modes\<close>

fun eventDeltas :: "(int \<times> int) list \<Rightarrow> anEvent list \<Rightarrow> err + (int \<times> int) list \<times> delta list" where
  "eventDeltas ix [] = Inr (ix, [])"
| "eventDeltas ix (e # es) =
     (case emitEventDelta ix e of
        Inl x \<Rightarrow> Inl x
      | Inr (ix', d) \<Rightarrow>
          (case eventDeltas ix' es of
             Inl x \<Rightarrow> Inl x
           | Inr (ix2, ds) \<Rightarrow> Inr (ix2, (case d of None \<Rightarrow> [] | Some y \<Rightarrow> [y]) @ ds)))"

fun contentDeltas :: "nat \<Rightarrow> anReplyBlock list \<Rightarrow> delta list" where
  "contentDeltas n [] = []"
| "contentDeltas n (b # bs) =
     (case deltaFromContentBlock b n of
        None \<Rightarrow> contentDeltas n bs
      | Some d \<Rightarrow> d # contentDeltas (if dToolCall d \<noteq> None then Suc n else n) bs)"

lemma eventDeltas_append:
  "eventDeltas ix es = Inr (ix1, ds) \<Longrightarrow> eventDeltas ix1 fs = Inr (ix2, ds') \<Longrightarrow> eventDeltas ix (es @ fs) = Inr (ix2, ds @ ds')"
  by (induction es arbitrary: ix ds) (auto split: sum.splits)

lemma fragments_deltas:
  "map_of ix k = Some n \<or> rbType b \<noteq> ''tool_use'' \<Longrightarrow>
   \<exists>ds. eventDeltas ix (map (\<lambda>t. BlockDelta k (fragmentDelta b t)) frs) = Inr (ix, ds)
     \<and> gather dText ds = (if rbType b = ''text'' then concat frs else [])
     \<and> gather dReasoning ds = (if rbType b = ''thinking'' then concat frs else [])
     \<and> gather dProviderReasoning ds = [] \<and> gather dFinishReason ds = []
     \<and> (\<forall>i. gather (callPart tdID i) ds = [] \<and> gather (callPart tdName i) ds = []
          \<and> gather (callPart tdArguments i) ds = (if rbType b = ''tool_use'' \<and> i = n then concat frs else []))"
proof (induction frs)
  case (Cons t frs)
  then obtain ds where ds: "eventDeltas ix (map (\<lambda>t. BlockDelta k (fragmentDelta b t)) frs) = Inr (ix, ds)"
    "gather dText ds = (if rbType b = ''text'' then concat frs else [])"
    "gather dReasoning ds = (if rbType b = ''thinking'' then concat frs else [])"
    "gather dProviderReasoning ds = []" "gather dFinishReason ds = []"
    "\<forall>i. gather (callPart tdID i) ds = [] \<and> gather (callPart tdName i) ds = []
       \<and> gather (callPart tdArguments i) ds = (if rbType b = ''tool_use'' \<and> i = n then concat frs else [])" by blast
  consider "rbType b = ''text''" | "rbType b = ''thinking''" | "rbType b = ''tool_use''"
    | "rbType b \<noteq> ''text''" "rbType b \<noteq> ''thinking''" "rbType b \<noteq> ''tool_use''" by blast
  then show ?case
    using ds Cons.prems
    by cases (auto simp: fragmentDelta_def emitEventDelta_def emptyDelta_def)
qed simp

lemma block_deltas:
  assumes "list_all (\<lambda>x. fst x < int k) ix" and "fragmented (b, frs)"
  shows "\<exists>ix' ds. eventDeltas ix (blockEvents k (b, frs)) = Inr (ix', ds)
    \<and> list_all (\<lambda>x. fst x < int (Suc k)) ix' \<and> length ix' = length ix + (if rbType b = ''tool_use'' then 1 else 0)
    \<and> sameTurn ds (case deltaFromContentBlock b (length ix) of None \<Rightarrow> [] | Some d \<Rightarrow> [d])"
proof (cases "rbType b = ''tool_use''")
  case True
  have new: "int k \<notin> fst ` set ix" using assms(1) by (auto simp: list_all_iff)
  note up = update_fresh [OF new, of "int (length ix)"]
  let ?ix = "ix @ [(int k, int (length ix))]"
  have "map_of ?ix (int k) = Some (int (length ix))" using new by (simp add: map_add_def split: option.split) (force dest: map_of_SomeD)
  then obtain ds where ds: "eventDeltas ?ix (map (\<lambda>t. BlockDelta (int k) (fragmentDelta b t)) frs) = Inr (?ix, ds)"
    "gather dText ds = []" "gather dReasoning ds = []" "gather dProviderReasoning ds = []" "gather dFinishReason ds = []"
    "\<forall>i. gather (callPart tdID i) ds = [] \<and> gather (callPart tdName i) ds = []
       \<and> gather (callPart tdArguments i) ds = (if i = int (length ix) then concat frs else [])"
    using fragments_deltas [of ?ix "int k" "int (length ix)" b frs] True by auto
  have stop: "eventDeltas ?ix [BlockStop (int k)] = Inr (?ix, [])" by (simp add: emitEventDelta_def)
  have args: "concat frs = rbInput b" using assms(2) True by (simp add: fragmented_def)
  let ?d = "emptyDelta\<lparr>dToolCall := Some \<lparr>tdIndex = int (length ix), tdID = rbID b, tdName = rbName b, tdArguments = []\<rparr>\<rparr>"
  have start: "eventDeltas ix [BlockStart (int k) b] = Inr (?ix, [?d])"
    using True up by (simp add: emitEventDelta_def Let_def)
  have all: "eventDeltas ix (blockEvents k (b, frs)) = Inr (?ix, ?d # ds)"
    using eventDeltas_append [OF start eventDeltas_append [OF ds(1) stop]] by (simp add: blockEvents_def)
  have one: "deltaFromContentBlock b (length ix) = Some (?d\<lparr>dToolCall :=
      Some \<lparr>tdIndex = int (length ix), tdID = rbID b, tdName = rbName b, tdArguments = rbInput b\<rparr>\<rparr>)"
    using True by (simp add: deltaFromContentBlock_def)
  have same: "sameTurn (?d # ds) (case deltaFromContentBlock b (length ix) of None \<Rightarrow> [] | Some d \<Rightarrow> [d])"
    unfolding one using ds(2-6) args by (simp add: sameTurn_def emptyDelta_def)
  have keys: "list_all (\<lambda>x. fst x < int (Suc k)) ?ix" using assms(1) by (auto simp: list_all_iff)
  show ?thesis
    by (intro exI [of _ ?ix] exI [of _ "?d # ds"] conjI) (use all keys same True in auto)
next
  case False
  obtain ds where ds: "eventDeltas ix (map (\<lambda>t. BlockDelta (int k) (fragmentDelta b t)) frs) = Inr (ix, ds)"
    "gather dText ds = (if rbType b = ''text'' then concat frs else [])"
    "gather dReasoning ds = (if rbType b = ''thinking'' then concat frs else [])"
    "gather dProviderReasoning ds = []" "gather dFinishReason ds = []"
    "\<forall>i. gather (callPart tdID i) ds = [] \<and> gather (callPart tdName i) ds = [] \<and> gather (callPart tdArguments i) ds = []"
    using fragments_deltas [of ix "int k" 0 b frs] False by auto
  have stop: "eventDeltas ix [BlockStop (int k)] = Inr (ix, [])" by (simp add: emitEventDelta_def)
  have same: "sameTurn ds (case deltaFromContentBlock b (length ix) of None \<Rightarrow> [] | Some d \<Rightarrow> [d])"
    using ds(2-6) assms(2) False
    by (auto simp: fragmented_def deltaFromContentBlock_def sameTurn_def emptyDelta_def split: if_splits)
  have "list_all (\<lambda>x. fst x < int (Suc k)) ix" using assms(1) by (auto simp: list_all_iff)
  then show ?thesis
    using eventDeltas_append [OF ds(1) stop] same False by (simp add: blockEvents_def emitEventDelta_def)
qed

lemma content_deltas:
  "list_all (\<lambda>x. fst x < int k) ix \<Longrightarrow> list_all fragmented bfs \<Longrightarrow>
   \<exists>ix' ds. eventDeltas ix (contentEvents k bfs) = Inr (ix', ds) \<and> sameTurn ds (contentDeltas (length ix) (map fst bfs))"
proof (induction bfs arbitrary: k ix)
  case (Cons x bfs)
  obtain b frs where x: "x = (b, frs)" by (cases x)
  obtain ix1 ds1 where s1: "eventDeltas ix (blockEvents k (b, frs)) = Inr (ix1, ds1)" "list_all (\<lambda>x. fst x < int (Suc k)) ix1"
    "length ix1 = length ix + (if rbType b = ''tool_use'' then 1 else 0)"
    "sameTurn ds1 (case deltaFromContentBlock b (length ix) of None \<Rightarrow> [] | Some d \<Rightarrow> [d])"
    using block_deltas [OF Cons.prems(1), of b frs] Cons.prems(2) x by auto
  obtain ix2 ds2 where s2: "eventDeltas ix1 (contentEvents (Suc k) bfs) = Inr (ix2, ds2)"
    "sameTurn ds2 (contentDeltas (length ix1) (map fst bfs))"
    using Cons.IH [OF s1(2)] Cons.prems(2) by auto
  have "contentDeltas (length ix) (map fst (x # bfs))
      = (case deltaFromContentBlock b (length ix) of None \<Rightarrow> [] | Some d \<Rightarrow> [d]) @ contentDeltas (length ix1) (map fst bfs)"
    using s1(3) x by (auto simp: deltaFromContentBlock_def emptyDelta_def)
  then show ?case
    using eventDeltas_append [OF s1(1) s2(1)] sameTurn_append [OF s1(4) s2(2)] x by auto
qed simp

section \<open>Running the calls\<close>

text \<open>The message the SDK accumulates, with the driver's copy of the thinking tokens.\<close>

definition accumulated :: "anthropicCodec \<Rightarrow> anReply \<Rightarrow> anEvent \<Rightarrow> anReply" where
  "accumulated ac m e = (case e of
       MessageDelta reason u \<Rightarrow> (fst (acAccumulate ac m e))\<lparr>rpUsage := (rpUsage (fst (acAccumulate ac m e)))\<lparr>ruThinking := ruThinking u\<rparr>\<rparr>
     | _ \<Rightarrow> fst (acAccumulate ac m e))"

fun accumulateAll :: "anthropicCodec \<Rightarrow> anReply \<Rightarrow> anEvent list \<Rightarrow> anReply option" where
  "accumulateAll ac m [] = Some m"
| "accumulateAll ac m (e # es) = (if snd (acAccumulate ac m e) \<noteq> None then None else accumulateAll ac (accumulated ac m e) es)"

text \<open>The tail both modes share, as a consumer that never fails sees it.\<close>

definition tailDeltas :: "anthropicCodec \<Rightarrow> string \<Rightarrow> anReply \<Rightarrow> delta list \<times> err option" where
  "tailDeltas ac modelID m =
     (case marshalProviderReasoning ac modelID (rpContent m) of
        Inl e \<Rightarrow> ([], Some (Wrap e ''marshal Anthropic reasoning blocks''))
      | Inr payload \<Rightarrow>
          ((if length payload > 0 then [emptyDelta\<lparr>dProviderReasoning := payload\<rparr>] else []) @
           (if uFinishReason (usageFromMessage m) \<noteq> FinishReasonUnset
            then [emptyDelta\<lparr>dFinishReason := uFinishReason (usageFromMessage m)\<rparr>] else []), None))"

lemma finishStream_run:
  "runDriver keepAll s (finishStream ac i m w return)
     = runDriver keepAll (s @ fst (tailDeltas ac i m)) (return (usageFromMessage m) w (snd (tailDeltas ac i m)))"
  by (auto simp: finishStream_def tailDeltas_def keepAll_def Let_def split: sum.split)

lemma emitMessageContent_run:
  "runDriver keepAll s (emitMessageContent n bs w ok fail) = runDriver keepAll (s @ contentDeltas n bs) (ok w)"
  by (induction n bs arbitrary: s rule: contentDeltas.induct) (auto simp: keepAll_def split: option.split)

lemma anthropic_consume_run:
  assumes "asErr st = None" and "accumulateAll ac m es = Some msg" and "eventDeltas ix es = Inr (ix', ds)"
  shows "runDriver keepAll s (anthropic_consumeStream ac i st es ix m w)
    = runDriver keepAll (s @ ds) (finishStream ac i msg w (\<lambda>u w' e. closeStream st u w' e))"
  using assms(2,3)
proof (induction es arbitrary: ix m s ds)
  case Nil
  then show ?case using assms(1) by simp
next
  case (Cons e es)
  obtain m1 where m1: "acAccumulate ac m e = (m1, None)"
    using Cons.prems(1) by (cases "acAccumulate ac m e") (auto split: if_splits)
  let ?m = "accumulated ac m e"
  have acc: "accumulateAll ac ?m es = Some msg" using Cons.prems(1) m1 by simp
  have m2: "(case e of MessageDelta reason u \<Rightarrow> m1\<lparr>rpUsage := (rpUsage m1)\<lparr>ruThinking := ruThinking u\<rparr>\<rparr> | _ \<Rightarrow> m1) = ?m"
    using m1 by (cases e) (simp_all add: accumulated_def)
  obtain ix1 d where d: "emitEventDelta ix e = Inr (ix1, d)" using Cons.prems(2) by (auto split: sum.splits)
  obtain ds' where ds': "eventDeltas ix1 es = Inr (ix', ds')" "ds = (case d of None \<Rightarrow> [] | Some y \<Rightarrow> [y]) @ ds'"
    using Cons.prems(2) d by (auto split: sum.splits)
  show ?case
    using Cons.IH [OF acc ds'(1)] ds'(2) unfolding anthropic_consumeStream.simps m1 prod.case option.case m2 Let_def d sum.case
    by (cases d) (simp_all add: keepAll_def)
qed

lemma decodeReasoningBlocks_ok:
  "list_all (\<lambda>x. isReasoningBlockType (aeBlockType ae (snd x)) \<and> aeBlock ae (snd x) = None) xs \<Longrightarrow>
   decodeReasoningBlocks ae xs = Inr (map (AnReasoning \<circ> snd) xs)"
  by (induction ae xs rule: decodeReasoningBlocks.induct) auto

section \<open>Properties\<close>


definition sampleBlock :: "string \<Rightarrow> anReplyBlock" where
  "sampleBlock ty = \<lparr>rbType = ty, rbText = ''hello'', rbThinking = ''hmm'', rbID = ''a'', rbName = ''f'', rbInput = ''{}'', rbRaw = ''R''\<rparr>"

definition sampleReply :: anReply where
  "sampleReply = zeroReply\<lparr>rpContent := map sampleBlock [''thinking'', ''text'', ''tool_use''], rpModel := ''claude-opus-5'',
     rpStopReason := ''tool_use''\<rparr>"

text \<open>An accumulation that knows the reply from its first event.\<close>

definition sampleCodec :: anthropicCodec where
  "sampleCodec = \<lparr>acAccumulate = \<lambda>m e. (case e of MessageStart m0 \<Rightarrow> m0 | _ \<Rightarrow> m, None), acEncode = \<lambda>ev. Inr ''E'',
     acEncodeBlock = \<lambda>b. Inr ''R'', acErrorCode = \<lambda>s. s, acErrText = \<lambda>_. [], acUntilDate = \<lambda>_. None\<rparr>"

definition sampleFragments :: "(anReplyBlock \<times> string list) list" where
  "sampleFragments = [(sampleBlock ''thinking'', [''hm'', ''m'']), (sampleBlock ''text'', [''he'', ''llo'']), (sampleBlock ''tool_use'', [''{'', ''}''])]"

definition sampleStream :: anStream where
  "sampleStream = \<lparr>asEvents = [MessageStart sampleReply] @ contentEvents 0 sampleFragments
     @ [MessageDelta ''tool_use'' (rpUsage zeroReply), MessageStop], asErr = None, asCloseErr = None\<rparr>"


end
