(* ===== verification/Conformance.thy ===== *)
theory Conformance
  imports ScriptedDriver ZaiCoding AnthropicStream
begin

text \<open>
  The driver contract suite (\<open>elelemtest/conformance/conformance.go\<close>). A test runs a driver on a
  world and says whether it passed; an \<open>assert\<close> that fails and a \<open>require\<close> that stops the test
  both make it fail. A fresh driver per test, the counter of network calls and the cancelled
  context are parameters. The interface \<open>local_refusal\<close> is the part of the contract that a
  driver keeps by itself, whatever its provider does, and each driver interprets it.
\<close>

section \<open>The assertions\<close>

definition isKnownFinishReason :: "string \<Rightarrow> bool" where
  "isKnownFinishReason reason \<longleftrightarrow>
     reason = FinishReasonUnset \<or> reason = FinishReasonStop \<or> reason = FinishReasonLength \<or> reason = FinishReasonToolCalls
     \<or> reason = FinishReasonContentFilter \<or> reason = FinishReasonStopSequence \<or> reason = FinishReasonPaused
     \<or> reason = FinishReasonContextExceeded \<or> reason = FinishReasonFunctionCall"

definition deltaHasPayload :: "delta \<Rightarrow> bool" where
  "deltaHasPayload d \<longleftrightarrow> dText d \<noteq> [] \<or> dReasoning d \<noteq> [] \<or> dToolCall d \<noteq> None \<or> length (dProviderReasoning d) > 0"

text \<open>Whether a finish and a payload were seen, and whether every assertion held so far.\<close>

fun deltaContractLoop :: "delta list \<Rightarrow> bool \<Rightarrow> bool \<Rightarrow> bool \<Rightarrow> bool \<times> bool \<times> bool" where
  "deltaContractLoop [] finishSeen payloadSeen ok = (finishSeen, payloadSeen, ok)"
| "deltaContractLoop (d # ds) finishSeen payloadSeen ok =
     (let payloadSeen' = (payloadSeen \<or> deltaHasPayload d);
          ok1 = (ok \<and> (deltaHasPayload d \<longrightarrow> \<not> finishSeen))
      in if dFinishReason d = FinishReasonUnset then deltaContractLoop ds finishSeen payloadSeen' ok1
         else deltaContractLoop ds True payloadSeen' (ok1 \<and> isKnownFinishReason (dFinishReason d) \<and> \<not> finishSeen))"

definition assertDeltaContract :: "delta list \<Rightarrow> bool" where
  "assertDeltaContract ds \<longleftrightarrow>
     ds \<noteq> [] \<and> (case deltaContractLoop ds False False True of (finishSeen, payloadSeen, ok) \<Rightarrow> ok \<and> payloadSeen \<and> finishSeen)"

definition assertFinishReasonsAgree :: "delta list \<Rightarrow> usage \<Rightarrow> bool" where
  "assertFinishReasonsAgree ds u \<longleftrightarrow>
     uFinishReason u
     = foldl (\<lambda>streamed d. if dFinishReason d \<noteq> FinishReasonUnset then dFinishReason d else streamed) FinishReasonUnset ds"

definition assertUsageContract :: "usage \<Rightarrow> bool" where
  "assertUsageContract u \<longleftrightarrow>
     (let t = uTokens u in
      tkPrompt t \<ge> 0 \<and> tkCompletion t \<ge> 0 \<and> tkTotal t \<ge> 0 \<and> tkReasoning t \<le> tkCompletion t
      \<and> add64 (tkCacheRead t) (tkCacheWrite t) \<le> tkPrompt t \<and> tkCacheWriteLongTTL t \<le> tkCacheWrite t
      \<and> isKnownFinishReason (uFinishReason u))"

section \<open>The capability cases\<close>

record 'w capabilityCase =
  ccName :: string
  ccSupported :: "capabilities \<Rightarrow> bool"
  ccConfigure :: "'w driverRequest \<Rightarrow> 'w driverRequest"

definition withParams :: "(generationParams \<Rightarrow> generationParams) \<Rightarrow> 'w driverRequest \<Rightarrow> 'w driverRequest" where
  "withParams f req = req\<lparr>drParams := f (drParams req)\<rparr>"

definition lookupTool :: "string \<Rightarrow> bool \<Rightarrow> 'w tool" where
  "lookupTool schema strict = \<lparr>tlName = ''lookup'', tlDescription = [], tlArgumentsSchema = schema, tlStrictArguments = strict,
     tlTimeout = 0, tlHandler = None, tlPreRun = None, tlOnSuccess = None, tlOnError = None, tlPostRun = None,
     tlOnSuccessMessageInjector = None, tlOnErrorMessageInjector = None, tlPostRunMessageInjector = None\<rparr>"

definition objectSchema :: string where
  "objectSchema = ''{\"type\":\"object\"}''"

definition responseCapabilityCases :: "'w capabilityCase list" where
  "responseCapabilityCases =
     [\<lparr>ccName = ''JSON schema response'', ccSupported = SupportsResponseFormatJSONSchema,
       ccConfigure = withParams (\<lambda>p. p\<lparr>gpResponseFormat := Some \<lparr>rfType = ResponseFormatTypeJSONSchema,
         rfName = ''conformance_response'', rfSchema = objectSchema, rfStrictSchema = True\<rparr>\<rparr>)\<rparr>,
      \<lparr>ccName = ''JSON object response'', ccSupported = SupportsResponseFormatJSONObject,
       ccConfigure = withParams (\<lambda>p. p\<lparr>gpResponseFormat := Some \<lparr>rfType = ResponseFormatTypeJSONObject,
         rfName = [], rfSchema = [], rfStrictSchema = False\<rparr>\<rparr>)\<rparr>]"

definition toolCapabilityCases :: "'w capabilityCase list" where
  "toolCapabilityCases =
     [\<lparr>ccName = ''strict tool arguments'', ccSupported = SupportsStrictToolArguments,
       ccConfigure = (\<lambda>req. req\<lparr>drTools := [lookupTool objectSchema True]\<rparr>)\<rparr>,
      \<lparr>ccName = ''specific tool choice'', ccSupported = SupportsToolChoice,
       ccConfigure = (\<lambda>req. withParams (\<lambda>p. p\<lparr>gpToolChoice := ToolChoiceTool ''lookup''\<rparr>)
         (req\<lparr>drTools := [lookupTool objectSchema False]\<rparr>))\<rparr>,
      \<lparr>ccName = ''parallel tool calls'', ccSupported = SupportsParallelToolCalls,
       ccConfigure = (\<lambda>req. withParams (\<lambda>p. p\<lparr>gpParallelToolCalls := Some False\<rparr>) (req\<lparr>drTools := [lookupTool [] False]\<rparr>))\<rparr>]"

definition generationCapabilityCases :: "'w capabilityCase list" where
  "generationCapabilityCases =
     [\<lparr>ccName = ''seed'', ccSupported = SupportsSeed, ccConfigure = withParams (\<lambda>p. p\<lparr>gpSeed := Some 42\<rparr>)\<rparr>,
      \<lparr>ccName = ''sampling penalties'', ccSupported = SupportsSamplingPenalties,
       ccConfigure = withParams (\<lambda>p. p\<lparr>gpFrequencyPenalty := Some (1 / 4)\<rparr>)\<rparr>,
      \<lparr>ccName = ''sampling parameters'', ccSupported = SupportsSamplingParams,
       ccConfigure = withParams (\<lambda>p. p\<lparr>gpTemperature := Some (1 / 4)\<rparr>)\<rparr>,
      \<lparr>ccName = ''reasoning effort'', ccSupported = SupportsReasoningEffort,
       ccConfigure = withParams (\<lambda>p. p\<lparr>gpReasoningEffort := ReasoningEffortLow\<rparr>)\<rparr>,
      \<lparr>ccName = ''disable reasoning'', ccSupported = SupportsDisablingReasoning,
       ccConfigure = withParams (\<lambda>p. p\<lparr>gpReasoningEffort := ReasoningEffortNone\<rparr>)\<rparr>]"

definition responseAndToolCapabilityCases :: "'w capabilityCase list" where
  "responseAndToolCapabilityCases = responseCapabilityCases @ toolCapabilityCases"

definition capabilityCases :: "'w capabilityCase list" where
  "capabilityCases = responseAndToolCapabilityCases @ generationCapabilityCases"

section \<open>The tests\<close>

record 'w conformanceOptions =
  coRequest :: "'w driverRequest"
  coSkipListModels :: bool
  coNetworkCalls :: "('w \<Rightarrow> int) option"
  coModels :: "model list"

type_synonym 'w driverSource = "'w \<Rightarrow> 'w \<times> 'w driver option"

definition capabilityModels :: "'w conformanceOptions \<Rightarrow> model list" where
  "capabilityModels opts = (if length (coModels opts) = 0 then [drModel (coRequest opts)] else coModels opts)"

definition conformanceClone :: "'w driverRequest \<Rightarrow> 'w driverRequest" where
  "conformanceClone req = req\<lparr>drMessages := drMessages req, drTools := drTools req,
     drParams := (drParams req)\<lparr>gpStop := gpStop (drParams req),
       gpResponseFormat := map_option (\<lambda>f. f\<lparr>rfSchema := rfSchema f\<rparr>) (gpResponseFormat (drParams req))\<rparr>\<rparr>"

definition networkCalls :: "'w conformanceOptions \<Rightarrow> 'w \<Rightarrow> int" where
  "networkCalls opts w = (case coNetworkCalls opts of None \<Rightarrow> 0 | Some f \<Rightarrow> f w)"

definition requireDriver :: "'w driverSource \<Rightarrow> 'w driverSource" where
  "requireDriver newDriver w =
     (case newDriver w of
        (w', Some d) \<Rightarrow> (w', if dvTokenCounter d = None then None else Some d)
      | (w', None) \<Rightarrow> (w', None))"

text \<open>A callback that does nothing, as a nil one does.\<close>

definition ignoreDeltas :: "unit \<Rightarrow> delta \<Rightarrow> 'w \<Rightarrow> unit \<times> 'w \<times> err option" where
  "ignoreDeltas s d w = (s, w, None)"

definition runStreamContract :: "'w driverSource \<Rightarrow> 'w driverRequest \<Rightarrow> 'w \<Rightarrow> 'w \<times> bool" where
  "runStreamContract newDriver request w =
     (case requireDriver newDriver w of
        (w1, None) \<Rightarrow> (w1, False)
      | (w1, Some d) \<Rightarrow>
          (case runDriver keepAll [] (dvStream d (conformanceClone request) w1) of
             (ds, w2, u, e) \<Rightarrow>
               (w2, e = None \<and> assertDeltaContract ds \<and> assertUsageContract u \<and> assertFinishReasonsAgree ds u)))"

text \<open>The model has no nil list, so a listing that succeeds is not nil.\<close>

definition runModelListing :: "'w driverSource \<Rightarrow> 'w \<Rightarrow> 'w \<times> bool" where
  "runModelListing newDriver w =
     (case requireDriver newDriver w of
        (w1, None) \<Rightarrow> (w1, False)
      | (w1, Some d) \<Rightarrow> (case dvListModels d w1 of (w2, Inl _) \<Rightarrow> (w2, False) | (w2, Inr _) \<Rightarrow> (w2, True)))"

definition runCanceledContext :: "('w \<Rightarrow> 'w) \<Rightarrow> 'w driverSource \<Rightarrow> 'w driverRequest \<Rightarrow> 'w \<Rightarrow> 'w \<times> bool" where
  "runCanceledContext cancel newDriver request w =
     (case requireDriver newDriver w of
        (w1, None) \<Rightarrow> (w1, False)
      | (w1, Some d) \<Rightarrow>
          (case runDriver ignoreDeltas () (dvStream d (conformanceClone request) (cancel w1)) of
             (_, w2, _, e) \<Rightarrow> (w2, case e of None \<Rightarrow> False | Some x \<Rightarrow> err_is x ContextCanceled)))"

definition orphanedResult :: "message list" where
  "orphanedResult = [emptyMessage\<lparr>mRole := RoleTool, mToolCallID := ''orphaned-call'', mContent := Text ''result''\<rparr>]"

definition runInvalidTranscript :: "'w driverSource \<Rightarrow> 'w conformanceOptions \<Rightarrow> 'w \<Rightarrow> 'w \<times> bool" where
  "runInvalidTranscript newDriver opts w =
     (case requireDriver newDriver w of
        (w1, None) \<Rightarrow> (w1, False)
      | (w1, Some d) \<Rightarrow>
          (case runDriver ignoreDeltas () (dvStream d ((conformanceClone (coRequest opts))\<lparr>drMessages := orphanedResult\<rparr>) w1) of
             (_, w2, _, e) \<Rightarrow>
               (w2, (case e of None \<Rightarrow> False | Some x \<Rightarrow> err_is x ErrInvalidTranscript)
                  \<and> networkCalls opts w2 = networkCalls opts w1)))"

definition runCapabilityCase ::
  "'w driverSource \<Rightarrow> 'w conformanceOptions \<Rightarrow> capabilities \<Rightarrow> 'w capabilityCase \<Rightarrow> 'w \<Rightarrow> 'w \<times> bool" where
  "runCapabilityCase newDriver opts caps tc w =
     (case requireDriver newDriver w of
        (w1, None) \<Rightarrow> (w1, False)
      | (w1, Some d) \<Rightarrow>
          (case runDriver ignoreDeltas () (dvStream d (ccConfigure tc (conformanceClone (coRequest opts))) w1) of
             (_, w2, _, e) \<Rightarrow>
               (w2, if ccSupported tc caps
                    then e = None \<and> (coNetworkCalls opts \<noteq> None \<longrightarrow> networkCalls opts w2 > networkCalls opts w1)
                    else e \<noteq> None \<and> networkCalls opts w2 = networkCalls opts w1)))"

text \<open>Subtests run one after the other; one that fails does not stop the others.\<close>

fun runTests :: "('w \<Rightarrow> 'w \<times> bool) list \<Rightarrow> 'w \<Rightarrow> 'w \<times> bool" where
  "runTests [] w = (w, True)"
| "runTests (t # ts) w = (let (w1, ok) = t w; (w2, oks) = runTests ts w1 in (w2, ok \<and> oks))"

definition modelOptions :: "'w conformanceOptions \<Rightarrow> model \<Rightarrow> 'w conformanceOptions" where
  "modelOptions opts m = opts\<lparr>coRequest := (conformanceClone (coRequest opts))\<lparr>drModel := m\<rparr>\<rparr>"

definition runCapabilityContract :: "'w driverSource \<Rightarrow> 'w conformanceOptions \<Rightarrow> 'w \<Rightarrow> 'w \<times> bool" where
  "runCapabilityContract newDriver opts w =
     (case requireDriver newDriver w of
        (w1, None) \<Rightarrow> (w1, False)
      | (w1, Some d) \<Rightarrow>
          runTests (concat (map (\<lambda>m. map (runCapabilityCase newDriver (modelOptions opts m) (dvCapabilities d m)) capabilityCases)
            (capabilityModels opts))) w1)"

definition conformanceRun :: "('w \<Rightarrow> 'w) \<Rightarrow> 'w driverSource \<Rightarrow> 'w conformanceOptions \<Rightarrow> 'w \<Rightarrow> 'w \<times> bool" where
  "conformanceRun cancel newDriver opts =
     runTests ([runStreamContract newDriver (coRequest opts)]
       @ (if \<not> coSkipListModels opts then [runModelListing newDriver] else [])
       @ [runCanceledContext cancel newDriver (coRequest opts), runInvalidTranscript newDriver opts,
          runCapabilityContract newDriver opts])"

section \<open>What a driver keeps by itself\<close>

lemma conformanceClone_id [simp]: "conformanceClone req = req"
  by (simp add: conformanceClone_def option.map_ident)

text \<open>
  The contract's local half: a transcript with an orphaned result and a request for something
  the driver does not claim to support fail without touching the world. \<open>ready\<close> says for which
  requests and worlds the transcript is the first thing that can fail.
\<close>

locale local_refusal =
  fixes drv :: "'w driver" and ready :: "'w driverRequest \<Rightarrow> 'w \<Rightarrow> bool"
  assumes counted: "dvTokenCounter drv \<noteq> None"
    and orphan: "drMessages req = orphanedResult \<Longrightarrow> ready req w \<Longrightarrow>
        \<exists>u e. dvStream drv req w = Done w u (Some e) \<and> err_is e ErrInvalidTranscript"
    and honest: "tc \<in> set capabilityCases \<Longrightarrow> \<not> ccSupported tc (dvCapabilities drv (drModel req)) \<Longrightarrow>
        \<exists>u e. dvStream drv (ccConfigure tc req) w = Done w u (Some e)"
begin

lemma fresh: "requireDriver (\<lambda>w. (w, Some drv)) w = (w, Some drv)"
  using counted by (simp add: requireDriver_def)

lemma invalid_transcript:
  assumes "ready ((coRequest opts)\<lparr>drMessages := orphanedResult\<rparr>) w"
  shows "runInvalidTranscript (\<lambda>w. (w, Some drv)) opts w = (w, True)"
proof -
  obtain u e where "dvStream drv ((coRequest opts)\<lparr>drMessages := orphanedResult\<rparr>) w = Done w u (Some e)" "err_is e ErrInvalidTranscript"
    using orphan [of "(coRequest opts)\<lparr>drMessages := orphanedResult\<rparr>" w] assms by auto
  then show ?thesis by (simp add: runInvalidTranscript_def fresh)
qed

lemma unsupported_case:
  assumes "tc \<in> set capabilityCases" and "\<not> ccSupported tc (dvCapabilities drv (drModel (coRequest opts)))"
  shows "runCapabilityCase (\<lambda>w. (w, Some drv)) opts (dvCapabilities drv (drModel (coRequest opts))) tc w = (w, True)"
proof -
  obtain u e where "dvStream drv (ccConfigure tc (coRequest opts)) w = Done w u (Some e)"
    using honest [OF assms, of w] by blast
  then show ?thesis using assms(2) by (simp add: runCapabilityCase_def fresh)
qed

end

text \<open>What a case asks for, and the flag that promises it.\<close>

lemmas case_defs = capabilityCases_def responseAndToolCapabilityCases_def responseCapabilityCases_def toolCapabilityCases_def
  generationCapabilityCases_def withParams_def lookupTool_def ToolChoiceTool_def

lemma case_model: "tc \<in> set capabilityCases \<Longrightarrow> drModel (ccConfigure tc req) = drModel req"
  unfolding case_defs by (simp only: append.simps set_simps) (elim insertE emptyE; simp)

lemma capability_case:
  assumes "tc \<in> set capabilityCases"
  obtains f where "ccSupported tc = SupportsResponseFormatJSONSchema"
      "gpResponseFormat (drParams (ccConfigure tc req)) = Some f" "rfType f = ResponseFormatTypeJSONSchema"
    | f where "ccSupported tc = SupportsResponseFormatJSONObject"
      "gpResponseFormat (drParams (ccConfigure tc req)) = Some f" "rfType f = ResponseFormatTypeJSONObject"
    | t where "ccSupported tc = SupportsStrictToolArguments" "drTools (ccConfigure tc req) = [t]" "tlStrictArguments t"
    | "ccSupported tc = SupportsToolChoice" "chMode (gpToolChoice (drParams (ccConfigure tc req))) = ToolChoiceModeTool"
    | "ccSupported tc = SupportsParallelToolCalls" "gpParallelToolCalls (drParams (ccConfigure tc req)) = Some False"
    | "ccSupported tc = SupportsSeed" "gpSeed (drParams (ccConfigure tc req)) = Some 42"
    | "ccSupported tc = SupportsSamplingPenalties" "gpFrequencyPenalty (drParams (ccConfigure tc req)) = Some (1 / 4)"
    | "ccSupported tc = SupportsSamplingParams" "gpTemperature (drParams (ccConfigure tc req)) = Some (1 / 4)"
    | "ccSupported tc = SupportsReasoningEffort" "gpReasoningEffort (drParams (ccConfigure tc req)) = ReasoningEffortLow"
    | "ccSupported tc = SupportsDisablingReasoning" "gpReasoningEffort (drParams (ccConfigure tc req)) = ReasoningEffortNone"
  using assms unfolding case_defs by (simp only: append.simps set_simps) (elim insertE emptyE; simp)

section \<open>OpenAI\<close>

lemma openai_refused:
  "openai_rejectUnsupportedParams q \<noteq> None \<Longrightarrow> \<exists>u e. openai_Stream cfg q w = Done w u (Some e)"
  by (cases "openai_rejectUnsupportedParams q")
    (auto simp: openai_Stream_def toOpenAIParams_def split: option.split sum.split)

lemma openai_params_taken:
  assumes "openai_rejectUnsupportedParams q = None" and "c = openai_capabilities (drModel q)" and "p = drParams q"
  shows "openai_rejectUnsupportedReasoning q c = None" "openai_rejectUnsupportedStructured q c = None"
    "openai_rejectUnsupportedToolParams q c = None"
    "SupportsSamplingParams c \<or> gpTemperature p = None" "SupportsSamplingPenalties c \<or> gpFrequencyPenalty p = None"
proof -
  show r: "openai_rejectUnsupportedReasoning q c = None" and s: "openai_rejectUnsupportedStructured q c = None"
    using assms by (auto simp: openai_rejectUnsupportedParams_def Let_def split: option.splits)
  show "openai_rejectUnsupportedToolParams q c = None"
    using s by (auto simp: openai_rejectUnsupportedStructured_def Let_def split: option.splits)
  show "SupportsSamplingParams c \<or> gpTemperature p = None" "SupportsSamplingPenalties c \<or> gpFrequencyPenalty p = None"
    using assms r s by (auto simp: openai_rejectUnsupportedParams_def Let_def split: if_splits)
qed

lemma openai_effort_taken:
  assumes "openai_rejectUnsupportedReasoning q c = None"
  shows "gpReasoningEffort (drParams q) = ReasoningEffortNone \<Longrightarrow> SupportsDisablingReasoning c"
    "gpReasoningEffort (drParams q) = ReasoningEffortLow \<Longrightarrow> SupportsReasoningEffort c"
  using assms by (auto simp: openai_rejectUnsupportedReasoning_def Let_def split: if_splits)

lemma openai_tools_taken:
  assumes "openai_rejectUnsupportedToolParams q c = None"
  shows "chMode (gpToolChoice (drParams q)) = ToolChoiceModeTool \<Longrightarrow> SupportsToolChoice c"
    "gpParallelToolCalls (drParams q) = Some b \<Longrightarrow> SupportsParallelToolCalls c"
    "drTools q = [t] \<Longrightarrow> tlStrictArguments t \<Longrightarrow> SupportsStrictToolArguments c"
  using assms by (auto simp: openai_rejectUnsupportedToolParams_def Let_def split: if_splits)

lemma openai_format_taken:
  assumes "openai_rejectUnsupportedStructured q c = None" and "gpResponseFormat (drParams q) = Some f"
  shows "rfType f = ResponseFormatTypeJSONSchema \<Longrightarrow> SupportsResponseFormatJSONSchema c"
    "rfType f = ResponseFormatTypeJSONObject \<Longrightarrow> SupportsResponseFormatJSONObject c"
  using assms by (auto simp: openai_rejectUnsupportedStructured_def Let_def split: if_splits)

lemma openai_seed: "SupportsSeed (openai_capabilities m)"
  by (simp add: openai_capabilities_def Let_def)

lemma openai_case_refused:
  assumes "tc \<in> set capabilityCases" and "\<not> ccSupported tc (openai_capabilities (drModel req))"
  shows "openai_rejectUnsupportedParams (ccConfigure tc req) \<noteq> None"
proof
  assume "openai_rejectUnsupportedParams (ccConfigure tc req) = None"
  note taken = openai_params_taken [OF this refl refl, unfolded case_model [OF assms(1)]]
  from assms(1) show False
    by (cases rule: capability_case [of tc req])
      (use assms(2) taken(4,5) openai_effort_taken [OF taken(1)] openai_format_taken [OF taken(2)] openai_tools_taken [OF taken(3)]
          openai_seed in auto)
qed

interpretation openai_local: local_refusal "openaiDriver cfg counter" "\<lambda>_ _. True" for cfg counter
proof unfold_locales
  show "dvTokenCounter (openaiDriver cfg counter) \<noteq> None" by (simp add: openaiDriver_def)
next
  fix req :: "'a driverRequest" and w
  assume "drMessages req = orphanedResult"
  then show "\<exists>u e. dvStream (openaiDriver cfg counter) req w = Done w u (Some e) \<and> err_is e ErrInvalidTranscript"
    by (simp add: openaiDriver_def openai_Stream_def orphanedResult_def invalidTranscript_def)
next
  fix tc :: "'a capabilityCase" and req :: "'a driverRequest" and w
  assume "tc \<in> set capabilityCases" "\<not> ccSupported tc (dvCapabilities (openaiDriver cfg counter) (drModel req))"
  from openai_refused [OF openai_case_refused [OF this(1)]] this(2)
  show "\<exists>u e. dvStream (openaiDriver cfg counter) (ccConfigure tc req) w = Done w u (Some e)"
    by (simp add: openaiDriver_def)
qed

section \<open>Anthropic\<close>

lemma anthropic_translated:
  assumes "toMessageParams ae req = Inr q"
  shows "(\<exists>ts. toAnthropicTools ae (mdID (drModel req)) (drTools req) = Inr ts)
    \<and> validateGenerationParams (mdID (drModel req)) (drParams req) = None
    \<and> (\<exists>t. applyReasoning (mdID (drModel req)) (gpReasoningEffort (drParams req)) = Inr t)
    \<and> (\<exists>f. applyResponseFormat ae (mdID (drModel req)) (gpResponseFormat (drParams req)) = Inr f)"
  using assms
  by (auto simp: toMessageParams_def buildRequest_def anthropic_applyGenerationParams_def Let_def
      split: if_splits option.splits sum.splits prod.splits)

lemma anthropic_case_refused:
  assumes "tc \<in> set capabilityCases" and "\<not> ccSupported tc (anthropic_capabilities (drModel req))"
  shows "\<exists>e. toMessageParams ae (ccConfigure tc req) = Inl e"
proof (rule ccontr)
  assume "\<not> ?thesis"
  then obtain q where "toMessageParams ae (ccConfigure tc req) = Inr q" by (cases "toMessageParams ae (ccConfigure tc req)") auto
  note q = anthropic_translated [OF this]
  note defs = anthropic_capabilities_def toAnthropicTools_def toAnthropicTool_def validateGenerationParams_def hasSamplingParams_def
    applyReasoning_def applyResponseFormat_def Let_def
  from assms(1) show False
    by (cases rule: capability_case [of tc req]) (use q assms(2) case_model [OF assms(1), of req] in \<open>auto simp: defs split: if_splits\<close>)
qed

interpretation anthropic_local: local_refusal "anthropicDriver cfg counter" "\<lambda>_ _. True" for cfg counter
proof unfold_locales
  show "dvTokenCounter (anthropicDriver cfg counter) \<noteq> None" by (simp add: anthropicDriver_def)
next
  fix req :: "'a driverRequest" and w
  assume "drMessages req = orphanedResult"
  then show "\<exists>u e. dvStream (anthropicDriver cfg counter) req w = Done w u (Some e) \<and> err_is e ErrInvalidTranscript"
    by (cases "mdID (drModel req) = []") (simp_all add: anthropicDriver_def anthropic_Stream_def toMessageParams_def orphanedResult_def
        anthropic_validateTranscript_def anthropic_validateTranscriptMessage_def anthropic_validateToolMessage_def
        invalidTranscriptf_def)
next
  fix tc :: "'a capabilityCase" and req :: "'a driverRequest" and w
  assume "tc \<in> set capabilityCases" "\<not> ccSupported tc (dvCapabilities (anthropicDriver cfg counter) (drModel req))"
  then obtain e where "toMessageParams (anEnv cfg) (ccConfigure tc req) = Inl e"
    using anthropic_case_refused [of tc req "anEnv cfg"] by (auto simp: anthropicDriver_def)
  then show "\<exists>u e. dvStream (anthropicDriver cfg counter) (ccConfigure tc req) w = Done w u (Some e)"
    by (simp add: anthropicDriver_def anthropic_Stream_def)
qed

section \<open>Z.ai Coding\<close>

lemma zai_refused_by_transport:
  assumes "openai_rejectUnsupportedParams q \<noteq> None" and "prepareRequest req True = Inr q"
  shows "\<exists>u e. zai_Stream errText cfg req w = Done w u (Some e)"
  using openai_refused [OF assms(1), of "zaiTransport cfg" w] assms(2) by (auto simp: zai_Stream_def)

lemma zai_prepared:
  assumes "prepareRequest req True = Inr q"
  shows "drModel q = drModel req" "drTools q = drTools req" "gpTemperature (drParams q) = gpTemperature (drParams req)"
    "gpFrequencyPenalty (drParams q) = gpFrequencyPenalty (drParams req)"
    "gpParallelToolCalls (drParams q) = gpParallelToolCalls (drParams req)"
    "gpResponseFormat (drParams q) = gpResponseFormat (drParams req)"
    "zai_validateParams (classifyModel (mdID (drModel req))) (mdID (drModel req)) (drParams req) = None"
    "\<exists>x. reasoningConfiguration (classifyModel (mdID (drModel req))) (mdID (drModel req)) (drParams req) = Inr x"
    "drMessages q = drMessages req"
  using assms by (auto simp: prepareRequest_def Let_def split: option.splits sum.splits prod.splits)

lemma zai_choice_taken: "zai_validateParams kind i p = None \<Longrightarrow> chMode (gpToolChoice p) \<noteq> ToolChoiceModeTool"
  by (auto simp: zai_validateParams_def split: if_splits)

lemma zai_effort_taken:
  assumes "reasoningConfiguration kind i p = Inr x"
  shows "gpReasoningEffort p \<noteq> ReasoningEffortNone" "gpReasoningEffort p = ReasoningEffortLow \<Longrightarrow> kind \<noteq> modelKindUnknown"
  using assms by (auto simp: reasoningConfiguration_def unknownModelReasoningConfiguration_def codingPlanReasoningEffort_def
      unsupportedReasoningEffort_def Let_def split: if_splits sum.splits)

lemma zai_seed: "SupportsSeed (zai_capabilities m (openai_capabilities m))"
  by (cases "classifyModel (mdID m)") (simp_all add: zai_capabilities_def openai_seed Let_def)

lemma zai_case_refused:
  assumes "tc \<in> set capabilityCases" and "\<not> ccSupported tc (zai_capabilities (drModel req) (openai_capabilities (drModel req)))"
    and "prepareRequest (ccConfigure tc req) True = Inr q"
  shows "openai_rejectUnsupportedParams q \<noteq> None"
proof
  assume "openai_rejectUnsupportedParams q = None"
  note taken = openai_params_taken [OF this refl refl, unfolded zai_prepared(1) [OF assms(3)] case_model [OF assms(1)]]
  note same = zai_prepared(1-6) [OF assms(3), unfolded case_model [OF assms(1)]]
  obtain x where "reasoningConfiguration (classifyModel (mdID (drModel req))) (mdID (drModel req)) (drParams (ccConfigure tc req)) = Inr x"
    using zai_prepared(8) [OF assms(3), unfolded case_model [OF assms(1)]] by blast
  note effort = zai_effort_taken [OF this]
  note choice = zai_choice_taken [OF zai_prepared(7) [OF assms(3)]]
  from assms(1) show False
    by (cases rule: capability_case [of tc req])
      (use assms(2) taken(4,5) same effort choice openai_format_taken [OF taken(2)] openai_tools_taken [OF taken(3)]
          zai_seed in auto)
qed

interpretation zai_local: local_refusal "zaiDriver errText cfg base" "\<lambda>req _. \<exists>q. prepareRequest req True = Inr q"
    for errText cfg base
proof unfold_locales
  show "dvTokenCounter (zaiDriver errText cfg base) \<noteq> None" by (simp add: zaiDriver_def)
next
  fix req :: "'a driverRequest" and w
  assume m: "drMessages req = orphanedResult" and "\<exists>q. prepareRequest req True = Inr q"
  then obtain q where q: "prepareRequest req True = Inr q" by blast
  have "drMessages q = orphanedResult" using zai_prepared(9) [OF q] m by simp
  then have "openai_Stream (zaiTransport cfg) q w = Done w zeroUsage (Some (invalidTranscript ''orphaned tool result''))"
    by (simp add: openai_Stream_def orphanedResult_def)
  then show "\<exists>u e. dvStream (zaiDriver errText cfg base) req w = Done w u (Some e) \<and> err_is e ErrInvalidTranscript"
    by (simp add: zaiDriver_def zai_Stream_def q zai_providerError_def invalidTranscript_def)
next
  fix tc :: "'a capabilityCase" and req :: "'a driverRequest" and w
  assume "tc \<in> set capabilityCases" "\<not> ccSupported tc (dvCapabilities (zaiDriver errText cfg base) (drModel req))"
  then have "openai_rejectUnsupportedParams q \<noteq> None" if "prepareRequest (ccConfigure tc req) True = Inr q" for q
    using zai_case_refused [OF _ _ that] by (simp add: zaiDriver_def)
  then show "\<exists>u e. dvStream (zaiDriver errText cfg base) (ccConfigure tc req) w = Done w u (Some e)"
    using zai_refused_by_transport [of _ "ccConfigure tc req" errText cfg w]
    by (cases "prepareRequest (ccConfigure tc req) True") (auto simp: zaiDriver_def zai_Stream_def)
qed

section \<open>The scripted driver\<close>

lemma permissive_case: "tc \<in> set capabilityCases \<Longrightarrow> ccSupported tc permissive"
  by (cases rule: capability_case [of tc req]) (simp_all add: permissive_def)

interpretation scripted_local: local_refusal "scriptedAsDriver permissive counter" "\<lambda>_ w. snd w = None" for counter
proof unfold_locales
  show "dvTokenCounter (scriptedAsDriver permissive counter) \<noteq> None" by (simp add: scriptedAsDriver_def)
next
  fix req :: "scriptedWorld driverRequest" and w :: scriptedWorld
  assume "drMessages req = orphanedResult" "snd w = None"
  then show "\<exists>u e. dvStream (scriptedAsDriver permissive counter) req w = Done w u (Some e) \<and> err_is e ErrInvalidTranscript"
    by (simp add: scriptedAsDriver_def scripted_Stream_def replay_def orphanedResult_def scripted_validateTranscript_def Let_def)
next
  fix tc :: "scriptedWorld capabilityCase" and req :: "scriptedWorld driverRequest" and w
  assume "tc \<in> set capabilityCases" "\<not> ccSupported tc (dvCapabilities (scriptedAsDriver permissive counter) (drModel req))"
  then show "\<exists>u e. dvStream (scriptedAsDriver permissive counter) (ccConfigure tc req) w = Done w u (Some e)"
    using permissive_case [of tc] by (simp add: scriptedAsDriver_def)
qed

section \<open>Properties\<close>


text \<open>
  What a test built on the scripted driver can see of the contract: the stream test passes
  exactly when the turn at hand ends without error, its deltas and its tokens keep the contract
  and its usage names no other finish reason than the last delta; a usage without one takes the
  delta's. The call moves the script by one turn and is recorded. A transcript with an orphaned
  result is refused and not recorded.
\<close>

theorem scripted_stream_contract:
  assumes "sdIndex c < length (sdTurns c)" and "scripted_validateTranscript (drMessages req) = None"
    and "t = sdTurns c ! sdIndex c"
  shows "runStreamContract (\<lambda>w. (w, Some (scriptedAsDriver caps counter))) req (c, None)
      = ((c\<lparr>sdRequests := sdRequests c @ [recordOf req], sdStreamed := sdStreamed c @ [True], sdIndex := sdIndex c + 1\<rparr>, None),
         tnErr t = None \<and> assertDeltaContract (tnDeltas t) \<and> assertUsageContract (turnUsage t)
         \<and> uFinishReason (tnUsage t) \<in> {FinishReasonUnset, finishReasonFromDeltas (tnDeltas t)})
    \<and> runInvalidTranscript (\<lambda>w. (w, Some (scriptedAsDriver caps counter))) opts (c, None) = ((c, None), True)"
proof
  have agree: "assertFinishReasonsAgree (tnDeltas t) (turnUsage t)
      \<longleftrightarrow> uFinishReason (tnUsage t) \<in> {FinishReasonUnset, finishReasonFromDeltas (tnDeltas t)}"
    by (auto simp: assertFinishReasonsAgree_def turnUsage_def finishReasonFromDeltas_def)
  have "runDriver keepAll [] (scripted_Stream req (c, None))
      = (tnDeltas t, (c\<lparr>sdRequests := sdRequests c @ [recordOf req], sdStreamed := sdStreamed c @ [True],
           sdIndex := sdIndex c + 1\<rparr>, None), turnUsage t, tnErr t)"
    using assms by (simp add: scripted_Stream_def replay_def Let_def replayDeltas_keepAll)
  then show "runStreamContract (\<lambda>w. (w, Some (scriptedAsDriver caps counter))) req (c, None)
      = ((c\<lparr>sdRequests := sdRequests c @ [recordOf req], sdStreamed := sdStreamed c @ [True], sdIndex := sdIndex c + 1\<rparr>, None),
         tnErr t = None \<and> assertDeltaContract (tnDeltas t) \<and> assertUsageContract (turnUsage t)
         \<and> uFinishReason (tnUsage t) \<in> {FinishReasonUnset, finishReasonFromDeltas (tnDeltas t)})"
    by (simp add: runStreamContract_def requireDriver_def scriptedAsDriver_def agree)
  show "runInvalidTranscript (\<lambda>w. (w, Some (scriptedAsDriver caps counter))) opts (c, None) = ((c, None), True)"
    by (simp add: runInvalidTranscript_def requireDriver_def scriptedAsDriver_def scripted_Stream_def replay_def orphanedResult_def
        scripted_validateTranscript_def Let_def)
qed

section \<open>Witnesses\<close>

definition someCounter :: "'w tool counter" where
  "someCounter _ _ = Inr 0"

definition choiceCase :: "unit capabilityCase" where
  "choiceCase = toolCapabilityCases ! 1"

definition zaiOptions :: "unit conformanceOptions" where
  "zaiOptions = \<lparr>coRequest = zaiCall, coSkipListModels = False, coNetworkCalls = Some (\<lambda>_. 7), coModels = []\<rparr>"


theorem scripted_stream_contract_witness:
  "snd (runStreamContract (\<lambda>w. (w, Some (scriptedAsDriver permissive (PlainCounter someCounter))))
      \<lparr>drModel = bareModel ''m'', drMessages = answeredCall, drTools = [], drParams = drParams zaiCall\<rparr>
      (NewScriptedDriver [turnThinking ''hm'' ''yes''], None))"
proof -
  let ?c = "NewScriptedDriver [turnThinking ''hm'' ''yes'']"
  let ?t = "turnThinking ''hm'' ''yes''"
  let ?q = "\<lparr>drModel = bareModel ''m'', drMessages = answeredCall, drTools = [], drParams = drParams zaiCall\<rparr> :: scriptedWorld driverRequest"
  have c: "sdIndex ?c < length (sdTurns ?c)" "?t = sdTurns ?c ! sdIndex ?c" by (simp_all add: NewScriptedDriver_def)
  have m: "scripted_validateTranscript (drMessages ?q) = None" by code_simp
  have "tnErr ?t = None" "assertDeltaContract (tnDeltas ?t)" "assertUsageContract (turnUsage ?t)"
    "uFinishReason (tnUsage ?t) = FinishReasonUnset" by code_simp+
  then show ?thesis
    using scripted_stream_contract [OF c(1) m c(2), of permissive "PlainCounter someCounter"] by simp
qed

end
