(* ===== verification/Sha256.thy ===== *)
theory Sha256
  imports GoStrings "HOL-Library.Word"
begin

text \<open>
  The SHA-256 hash of Go's standard library (\<open>crypto/sha256\<close>, \<open>encoding/hex\<close>), which the names
  of remote tools are built with. The round constants are computed the way they are chosen: the
  first 32 bits behind the point of the cube roots of the first 64 primes, and of the square
  roots of the first eight for the start value.
\<close>

unbundle bit_operations_syntax

section \<open>Integer roots\<close>

text \<open>The largest number whose power is within the bound, found bit by bit.\<close>

fun rootBits :: "nat \<Rightarrow> nat \<Rightarrow> nat \<Rightarrow> nat \<Rightarrow> nat" where
  "rootBits k n 0 acc = acc"
| "rootBits k n (Suc b) acc = rootBits k n b (if (acc + 2 ^ b) ^ k \<le> n then acc + 2 ^ b else acc)"

lemma rootBits_root:
  "acc ^ k \<le> n \<Longrightarrow> n < (acc + 2 ^ b) ^ k \<Longrightarrow> rootBits k n b acc ^ k \<le> n \<and> n < Suc (rootBits k n b acc) ^ k"
proof (induction b arbitrary: acc)
  case (Suc b)
  have "n < (acc + 2 ^ b + 2 ^ b) ^ k" using Suc.prems(2) by (simp add: mult_2 add.assoc)
  then show ?case using Suc.IH [of "acc + 2 ^ b"] Suc.IH [of acc] Suc.prems(1) by (cases "(acc + 2 ^ b) ^ k \<le> n") simp_all
qed simp

definition fraction :: "nat \<Rightarrow> nat \<Rightarrow> 32 word" where
  "fraction k p = word_of_nat (rootBits k (p * 2 ^ (32 * k)) 40 0)"

definition smallPrimes :: "nat list" where
  "smallPrimes = filter (\<lambda>p. list_all (\<lambda>d. p mod d \<noteq> 0) [2..<p]) [2..<312]"

definition roundConstants :: "32 word list" where
  "roundConstants = map (fraction 3) smallPrimes"

definition startValue :: "32 word list" where
  "startValue = map (fraction 2) (take 8 smallPrimes)"

section \<open>The compression function\<close>

definition chooseBits :: "32 word \<Rightarrow> 32 word \<Rightarrow> 32 word \<Rightarrow> 32 word" where
  "chooseBits e f g = (e AND f) XOR ((NOT e) AND g)"

definition majority :: "32 word \<Rightarrow> 32 word \<Rightarrow> 32 word \<Rightarrow> 32 word" where
  "majority a b c = (a AND b) XOR (a AND c) XOR (b AND c)"

definition turns :: "nat \<Rightarrow> nat \<Rightarrow> nat \<Rightarrow> 32 word \<Rightarrow> 32 word" where
  "turns i j k w = word_rotr i w XOR word_rotr j w XOR word_rotr k w"

definition mix :: "nat \<Rightarrow> nat \<Rightarrow> nat \<Rightarrow> 32 word \<Rightarrow> 32 word" where
  "mix i j k w = word_rotr i w XOR word_rotr j w XOR drop_bit k w"

fun schedule :: "nat \<Rightarrow> 32 word list \<Rightarrow> 32 word list" where
  "schedule 0 ws = ws"
| "schedule (Suc n) ws =
     (let l = length ws in
      schedule n (ws @ [mix 17 19 10 (ws ! (l - 2)) + ws ! (l - 7) + mix 7 18 3 (ws ! (l - 15)) + ws ! (l - 16)]))"

fun hashRound :: "32 word list \<Rightarrow> 32 word \<times> 32 word \<Rightarrow> 32 word list" where
  "hashRound [a, b, c, d, e, f, g, h] (k, w) =
     (let t1 = h + turns 6 11 25 e + chooseBits e f g + k + w;
          t2 = turns 2 13 22 a + majority a b c
      in [t1 + t2, a, b, c, d + t1, e, f, g])"
| "hashRound s _ = s"

definition hashBlock :: "32 word list \<Rightarrow> 32 word list \<Rightarrow> 32 word list" where
  "hashBlock s block = map2 (+) s (foldl hashRound s (zip roundConstants (schedule 48 block)))"

section \<open>The message\<close>

definition padding :: "nat \<Rightarrow> nat list" where
  "padding l = 0x80 # replicate ((119 - l mod 64) mod 64) 0 @ map (\<lambda>i. (8 * l) div 256 ^ (7 - i) mod 256) [0..<8]"

definition messageWords :: "nat list \<Rightarrow> 32 word list" where
  "messageWords bs = map (\<lambda>i. word_of_nat (foldl (\<lambda>n b. 256 * n + b) 0 (take 4 (drop (4 * i) bs)))) [0..<length bs div 4]"

definition sha256 :: "string \<Rightarrow> 32 word list" where
  "sha256 s =
     (let bs = map byte_of s; ws = messageWords (bs @ padding (length bs))
      in foldl (\<lambda>state i. hashBlock state (take 16 (drop (16 * i) ws))) startValue [0..<length ws div 16])"

definition hexWord :: "32 word \<Rightarrow> string" where
  "hexWord w = map (\<lambda>i. hexDigit (unat w div 16 ^ (7 - i) mod 16)) [0..<8]"

definition sha256Hex :: "string \<Rightarrow> string" where
  "sha256Hex s = concat (map hexWord (sha256 s))"

section \<open>The shape of a digest\<close>

lemma hashRound_length: "length (hashRound s kw) = length s"
  by (induction s kw rule: hashRound.induct) (simp_all add: Let_def)

lemma hashRounds_length: "length (foldl hashRound s kws) = length s"
  by (induction kws arbitrary: s) (simp_all add: hashRound_length)

lemma startValue_length: "length startValue = 8"
proof -
  let ?prime = "\<lambda>p :: nat. list_all (\<lambda>d. p mod d \<noteq> 0) [2..<p]"
  have l: "length (filter ?prime [2..<20]) = 8" by code_simp
  have s: "[2..<312] = [2..<20] @ [20..<312 :: nat]"
    using upt_add_eq_append [of 2 20 292] by (simp only: numeral_plus_numeral) (simp del: upt_rec_numeral)
  have "8 \<le> length smallPrimes"
    unfolding smallPrimes_def s filter_append length_append l by (rule le_add1)
  then show ?thesis by (simp only: startValue_def length_map length_take min_absorb2)
qed

lemma sha256_length: "length (sha256 s) = 8"
proof -
  have "length (foldl (\<lambda>state i. hashBlock state (f i)) v xs) = length v" for f v and xs :: "nat list"
    by (induction xs arbitrary: v) (simp_all add: hashBlock_def hashRounds_length)
  then show ?thesis by (simp add: sha256_def Let_def startValue_length)
qed

definition hexChars :: "char set" where
  "hexChars = set ''0123456789abcdef''"

lemma hexDigit_hexChars: "n < 16 \<Longrightarrow> hexDigit n \<in> hexChars"
proof -
  have "list_all (\<lambda>n. hexDigit n \<in> hexChars) [0..<16]" by code_simp
  then show "n < 16 \<Longrightarrow> ?thesis" by (simp add: list_all_iff)
qed

lemma sha256Hex_shape: "length (sha256Hex s) = 64" "set (sha256Hex s) \<subseteq> hexChars"
proof -
  have "length (concat (map hexWord ws)) = 8 * length ws" for ws
    by (induction ws) (simp_all add: hexWord_def)
  then show "length (sha256Hex s) = 64" by (simp add: sha256Hex_def sha256_length)
  show "set (sha256Hex s) \<subseteq> hexChars"
    by (auto simp: sha256Hex_def hexWord_def intro: hexDigit_hexChars)
qed

end
