(* ===== verification/McpNames.thy ===== *)
theory McpNames
  imports Sha256
begin

text \<open>
  The names the model sees for the tools of MCP servers (\<open>mcp/names.go\<close>, \<open>constants.go\<close>). The
  regular expression of a server name is written out.
\<close>

section \<open>The names\<close>

definition ToolNamePrefix :: string where "ToolNamePrefix = ''mcp__''"
definition toolNameSeparator :: string where "toolNameSeparator = ''__''"
abbreviation MaxToolNameLength :: nat where "MaxToolNameLength \<equiv> 64"
abbreviation MaxServerNameLength :: nat where "MaxServerNameLength \<equiv> 32"
abbreviation toolNameHashLength :: nat where "toolNameHashLength \<equiv> 8"
definition toolNameHashMark :: string where "toolNameHashMark = ''_''"
abbreviation toolNameReplacement :: rune where "toolNameReplacement \<equiv> 95"

definition isToolNameCharacter :: "rune \<Rightarrow> bool" where
  "isToolNameCharacter r \<longleftrightarrow>
     97 \<le> r \<and> r \<le> 122 \<or> 65 \<le> r \<and> r \<le> 90 \<or> 48 \<le> r \<and> r \<le> 57 \<or> r = 95 \<or> r = 45"

definition serverNamePattern :: "string \<Rightarrow> bool" where
  "serverNamePattern name \<longleftrightarrow>
     name \<noteq> [] \<and> list_all (\<lambda>c. let b = byte_of c in 65 \<le> b \<and> b \<le> 90 \<or> 97 \<le> b \<and> b \<le> 122 \<or> 48 \<le> b \<and> b \<le> 57 \<or> b = 45) name"

definition validServerName :: "string \<Rightarrow> bool" where
  "validServerName name \<longleftrightarrow> length name \<le> MaxServerNameLength \<and> serverNamePattern name"

definition cleanedName :: "string \<Rightarrow> string" where
  "cleanedName tool = string_of_runes (map (\<lambda>r. if isToolNameCharacter r then r else toolNameReplacement) (runes tool))"

definition ToolName :: "string \<Rightarrow> string \<Rightarrow> string" where
  "ToolName server tool =
     (let prefix = ToolNamePrefix @ server @ toolNameSeparator;
          cleaned = cleanedName tool
      in if cleaned = tool \<and> length prefix + length tool \<le> MaxToolNameLength then prefix @ tool
         else let suffix = toolNameHashMark @ take toolNameHashLength (sha256Hex tool);
                  room = MaxToolNameLength - length prefix - length suffix;
                  cut = (if length cleaned > room then take room cleaned else cleaned)
              in prefix @ cut @ suffix)"

definition IsToolName :: "string \<Rightarrow> bool" where
  "IsToolName name \<longleftrightarrow> hasPrefix name ToolNamePrefix"

section \<open>Characters\<close>

definition plainName :: "string \<Rightarrow> bool" where
  "plainName s \<longleftrightarrow> list_all (\<lambda>c. isToolNameCharacter (byte_of c)) s"

lemma plainName_simps [simp]:
  "plainName []" "plainName (c # s) \<longleftrightarrow> isToolNameCharacter (byte_of c) \<and> plainName s"
  "plainName (s @ t) \<longleftrightarrow> plainName s \<and> plainName t"
  by (auto simp: plainName_def)

lemma plainName_take: "plainName s \<Longrightarrow> plainName (take n s)"
  by (auto simp: plainName_def list_all_iff dest: in_set_takeD)

lemma plainName_ascii: "plainName s \<Longrightarrow> ascii s"
  by (auto simp: plainName_def list_all_iff ascii_def isToolNameCharacter_def)

lemma toolNameCharacter_small: "isToolNameCharacter r \<Longrightarrow> r < 0x80"
  by (auto simp: isToolNameCharacter_def)

lemma replacement_plain: "isToolNameCharacter toolNameReplacement"
  by (simp add: isToolNameCharacter_def)

lemma plain_runes: "list_all isToolNameCharacter rs \<Longrightarrow> plainName (string_of_runes rs)"
proof (induction rs)
  case (Cons r rs)
  then have "r < 0x80" using toolNameCharacter_small by simp
  then have "string_of_runes (r # rs) = of_byte r # string_of_runes rs"
    by (simp add: string_of_runes_def encodeRune_def Let_def)
  with Cons \<open>r < 0x80\<close> show ?case by simp
qed (simp add: string_of_runes_def)

definition cleanRune :: "rune \<Rightarrow> rune" where
  "cleanRune r = (if isToolNameCharacter r then r else toolNameReplacement)"

lemma cleanRune_ok: "isToolNameCharacter (cleanRune r)" "isToolNameCharacter r \<Longrightarrow> cleanRune r = r"
  using replacement_plain by (simp_all add: cleanRune_def)

lemma cleanedName_runes: "cleanedName tool = string_of_runes (map cleanRune (runes tool))"
  unfolding cleanedName_def cleanRune_def by (rule refl)

lemma cleanedName_plain: "plainName (cleanedName tool)"
  unfolding cleanedName_runes by (rule plain_runes) (simp add: list_all_iff cleanRune_ok)

lemma cleanedName_id: "plainName s \<Longrightarrow> cleanedName s = s"
proof -
  assume p: "plainName s"
  then have "map cleanRune (map byte_of s) = map byte_of s"
    by (intro map_idI) (auto simp: plainName_def list_all_iff cleanRune_ok)
  then show ?thesis
    unfolding cleanedName_runes runes_ascii [OF plainName_ascii [OF p]]
    by (simp only: string_of_runes_ascii [OF plainName_ascii [OF p]])
qed

lemma cleanedName_iff: "cleanedName s = s \<longleftrightarrow> plainName s"
  using cleanedName_plain [of s] cleanedName_id by metis

lemma server_plain: "validServerName s \<Longrightarrow> plainName s \<and> CHR ''_'' \<notin> set s"
proof -
  assume v: "validServerName s"
  have "byte_of (CHR ''_'') = 95" by code_simp
  then show ?thesis using v
    by (auto simp: validServerName_def serverNamePattern_def plainName_def list_all_iff isToolNameCharacter_def Let_def)
qed

lemma hexChars_plain: "set s \<subseteq> hexChars \<Longrightarrow> plainName s"
proof -
  have "list_all (\<lambda>c. isToolNameCharacter (byte_of c)) ''0123456789abcdef''" by code_simp
  then show "set s \<subseteq> hexChars \<Longrightarrow> ?thesis" by (auto simp: plainName_def list_all_iff hexChars_def)
qed

lemma suffix_plain:
  "plainName (toolNameHashMark @ take n (sha256Hex t))" "length (toolNameHashMark @ take toolNameHashLength (sha256Hex t)) = 9"
proof -
  have "plainName (take n (sha256Hex t))"
    using sha256Hex_shape(2) [of t] set_take_subset [of n "sha256Hex t"] by (intro hexChars_plain) blast
  moreover have "plainName toolNameHashMark" by code_simp
  ultimately show "plainName (toolNameHashMark @ take n (sha256Hex t))" by simp
  show "length (toolNameHashMark @ take toolNameHashLength (sha256Hex t)) = 9"
    by (simp add: sha256Hex_shape toolNameHashMark_def)
qed

section \<open>Properties\<close>

definition namePrefix :: "string \<Rightarrow> string" where
  "namePrefix server = ToolNamePrefix @ server @ toolNameSeparator"

definition keepsName :: "string \<Rightarrow> string \<Rightarrow> bool" where
  "keepsName server tool \<longleftrightarrow> plainName tool \<and> length (namePrefix server) + length tool \<le> MaxToolNameLength"

lemma namePrefix_length: "length (namePrefix s) = length s + 7"
  by (simp add: namePrefix_def ToolNamePrefix_def toolNameSeparator_def)

lemma ToolName_kept: "keepsName s t \<Longrightarrow> ToolName s t = namePrefix s @ t"
  by (simp add: ToolName_def Let_def keepsName_def cleanedName_iff namePrefix_def)

lemma ToolName_changed:
  assumes "\<not> keepsName s t"
  shows "ToolName s t = namePrefix s @ take (55 - length (namePrefix s)) (cleanedName t)
      @ toolNameHashMark @ take toolNameHashLength (sha256Hex t)"
proof -
  let ?suffix = "toolNameHashMark @ take toolNameHashLength (sha256Hex t)"
  have room: "64 - length (namePrefix s) - length ?suffix = 55 - length (namePrefix s)" unfolding suffix_plain(2) by simp
  have "(if length (cleanedName t) > n then take n (cleanedName t) else cleanedName t) = take n (cleanedName t)" for n by simp
  then have "ToolName s t = namePrefix s @ take (64 - length (namePrefix s) - length ?suffix) (cleanedName t) @ ?suffix"
    unfolding ToolName_def Let_def namePrefix_def [symmetric] cleanedName_iff keepsName_def [symmetric] if_not_P [OF assms]
    by (simp only:)
  then show ?thesis unfolding room .
qed

lemma tool_name_shape:
  assumes "validServerName s"
  obtains n where "ToolName s t = namePrefix s @ n" "plainName n" "length (namePrefix s) + length n \<le> MaxToolNameLength"
    "keepsName s n" "ToolName s n = ToolName s t"
proof -
  have s: "length (namePrefix s) \<le> 39" using assms by (simp add: validServerName_def namePrefix_length)
  obtain n where n: "ToolName s t = namePrefix s @ n" "plainName n" "length (namePrefix s) + length n \<le> MaxToolNameLength"
  proof (cases "keepsName s t")
    case True
    then show ?thesis using that [of t] ToolName_kept [OF True] by (simp add: keepsName_def)
  next
    case False
    let ?n = "take (55 - length (namePrefix s)) (cleanedName t) @ toolNameHashMark @ take toolNameHashLength (sha256Hex t)"
    have "plainName ?n" using suffix_plain(1) plainName_take [OF cleanedName_plain] by simp
    moreover have "length (namePrefix s) + length ?n \<le> MaxToolNameLength"
      unfolding length_append [of "take _ _"] suffix_plain(2) using s by simp
    ultimately show ?thesis using that [of ?n] ToolName_changed [OF False] by simp
  qed
  then have k: "keepsName s n" by (simp add: keepsName_def)
  show ?thesis using that [OF n k] ToolName_kept [OF k] n(1) by simp
qed

text \<open>The server of a name can be read off it, because a server name has no underscore.\<close>

lemma server_unique:
  assumes "validServerName s" and "validServerName s'" and "namePrefix s @ n = namePrefix s' @ n'"
  shows "s = s' \<and> n = n'"
proof -
  have "takeWhile (\<lambda>c. c \<noteq> CHR ''_'') (s @ toolNameSeparator @ n) = s"
    "takeWhile (\<lambda>c. c \<noteq> CHR ''_'') (s' @ toolNameSeparator @ n') = s'"
    using server_plain [OF assms(1)] server_plain [OF assms(2)] by (auto simp: toolNameSeparator_def takeWhile_tail)
  moreover have "s @ toolNameSeparator @ n = s' @ toolNameSeparator @ n'" using assms(3) by (simp add: namePrefix_def)
  ultimately have "s = s'" by metis
  then show ?thesis using assms(3) by simp
qed

lemma tool_name_fits:
  assumes "validServerName s"
  shows "length (ToolName s t) \<le> MaxToolNameLength" "plainName (ToolName s t)" "IsToolName (ToolName s t)"
proof -
  obtain n where n: "ToolName s t = namePrefix s @ n" "plainName n" "length (namePrefix s) + length n \<le> MaxToolNameLength"
    using tool_name_shape [OF assms] by blast
  have "plainName ToolNamePrefix" "plainName toolNameSeparator" by code_simp+
  then have "plainName (namePrefix s)" using server_plain [OF assms] by (simp add: namePrefix_def)
  then show "length (ToolName s t) \<le> MaxToolNameLength" "plainName (ToolName s t)" using n by simp_all
  show "IsToolName (ToolName s t)" unfolding n(1) by (simp add: IsToolName_def hasPrefix_def namePrefix_def)
qed

text \<open>
  C36. The names of MCP tools. For a valid server name a name is one the providers take: at most 64
  characters of their alphabet, and known as an MCP name. It says which server it belongs to, a
  tool name that needs no change is kept, and two tools of a server share a name only when one
  of them was changed; when both were, the first eight digits of their hashes agree.
\<close>

theorem tool_names:
  assumes "validServerName s"
  shows "length (ToolName s t) \<le> MaxToolNameLength \<and> plainName (ToolName s t) \<and> IsToolName (ToolName s t)
    \<and> (validServerName s' \<and> ToolName s t = ToolName s' t' \<longrightarrow> s = s')
    \<and> (keepsName s t \<longrightarrow> ToolName s t = namePrefix s @ t)
    \<and> (ToolName s t = ToolName s t' \<and> t \<noteq> t' \<longrightarrow> \<not> keepsName s t \<or> \<not> keepsName s t')
    \<and> (ToolName s t = ToolName s t' \<and> \<not> keepsName s t \<and> \<not> keepsName s t' \<longrightarrow>
         take toolNameHashLength (sha256Hex t) = take toolNameHashLength (sha256Hex t'))"
proof -
  obtain n where n: "ToolName s t = namePrefix s @ n" using tool_name_shape [OF assms] by blast
  have srv: "s = s'" if "validServerName s'" "ToolName s t = ToolName s' t'"
  proof -
    obtain n' where "ToolName s' t' = namePrefix s' @ n'" using tool_name_shape [OF \<open>validServerName s'\<close>] by blast
    then show ?thesis using server_unique [OF assms that(1), of n n'] that(2) n by simp
  qed
  have kept: "t = t'" if "ToolName s t = ToolName s t'" "keepsName s t" "keepsName s t'"
    using that by (simp add: ToolName_kept)
  have hash: "take toolNameHashLength (sha256Hex t) = take toolNameHashLength (sha256Hex t')"
    if "ToolName s t = ToolName s t'" "\<not> keepsName s t" "\<not> keepsName s t'"
  proof -
    let ?h = "\<lambda>t. toolNameHashMark @ take toolNameHashLength (sha256Hex t)"
    have "(xs @ ?h t = ys @ ?h t') \<longrightarrow> ?h t = ?h t'" for xs ys
      using suffix_plain(2) [of t] suffix_plain(2) [of t'] by (metis append_eq_append_conv)
    then show ?thesis using that by (simp add: ToolName_changed)
  qed
  show ?thesis using tool_name_fits [OF assms, of t] srv kept hash by (auto simp: ToolName_kept)
qed

text \<open>Every changed name is also the name of another tool: the one that is called what the change produced.\<close>

theorem changed_name_taken:
  assumes "validServerName s" and "\<not> keepsName s t"
  shows "\<exists>t'. t' \<noteq> t \<and> keepsName s t' \<and> ToolName s t' = ToolName s t"
  using tool_name_shape [OF assms(1), of t] assms(2) by metis

theorem tool_names_witness:
  "length (ToolName ''git'' ''read file'') \<le> MaxToolNameLength \<and> ToolName ''git'' ''log'' = ''mcp__git__log''"
proof -
  have v: "validServerName ''git''" and k: "keepsName ''git'' ''log''" and n: "namePrefix ''git'' @ ''log'' = ''mcp__git__log''"
    by code_simp+
  show ?thesis
    using tool_names [OF v, of "''read file''" "''git''" "[]"] tool_names [OF v, of "''log''" "''git''" "[]"] k n by simp
qed

end
