(* ===== verification/McpServer.thy ===== *)
theory McpServer
  imports McpNames JsonCodec Tools
begin

text \<open>
  An MCP server as the caller describes it, the transport that reaches it and what its tools
  and their results become (\<open>mcp/connection.go\<close>, \<open>mcp/result.go\<close>). The MCP SDK and the
  round tripper of an HTTP transport are not the repository's: the values the SDK hands over
  are the records below, its operations are arguments. \<open>marshal\<close> is \<open>json.Marshal\<close> of a value
  decoded from JSON, and \<open>isPrint\<close> Go's table of printable runes. A Go map is an association
  list, and a loop over one may visit its entries in any order.
\<close>

section \<open>The server\<close>

record mcpServer =
  msName :: string
  msCommand :: string
  msArgs :: "string list"
  msEnv :: "string list option"
  msDir :: string
  msStopTimeout :: int
  msURL :: string
  msHeaders :: "(string \<times> string) list"
  msBearerToken :: string
  msTools :: "string list"
  msClientName :: string

definition HeaderNameAuthorization :: string where "HeaderNameAuthorization = ''Authorization''"
definition AuthSchemeBearer :: string where "AuthSchemeBearer = ''Bearer ''"
abbreviation DefaultStopTimeout :: int where "DefaultStopTimeout \<equiv> 5000000000"
definition defaultClientName :: string where "defaultClientName = ''elelem''"
abbreviation maxStderrLogBytes :: nat where "maxStderrLogBytes \<equiv> 4096"

definition validateServer :: "mcpServer \<Rightarrow> err option" where
  "validateServer server =
     (if \<not> validServerName (msName server) then
        Some (Wrapf (Sentinel ErrInvalidServer) ''name %q must be letters, digits, and hyphens, at most %d''
          [ArgStr (msName server), ArgInt (int MaxServerNameLength)])
      else if (trimSpace (msCommand server) \<noteq> []) = (msURL server \<noteq> []) then
        Some (Wrap (Sentinel ErrInvalidServer) ''set exactly one of Command and URL'')
      else if \<exists>(name, value) \<in> set (msHeaders server).
           foldName name = foldName HeaderNameAuthorization \<and> msBearerToken server \<noteq> [] then
        Some (Wrap (Sentinel ErrInvalidServer) ''set either BearerToken or an Authorization header'')
      else None)"

section \<open>The transport\<close>

datatype sdkTransport =
    StreamableClientTransport (endpoint: string) (fixedHeaders: "(string \<times> string) list") (disableStandaloneSSE: bool)
  | CommandTransport (cmdPath: string) (cmdArgs: "string list") (cmdDir: string) (cmdEnv: "string list")
      (setpgid: bool) (waitDelay: int) (terminateDuration: int)

definition transport :: "mcpServer \<Rightarrow> sdkTransport" where
  "transport server =
     (if msURL server \<noteq> [] then
        let headers = (if msBearerToken server \<noteq> []
              then AList.update HeaderNameAuthorization (AuthSchemeBearer @ msBearerToken server) (msHeaders server)
              else msHeaders server)
        in StreamableClientTransport (msURL server) headers True
      else
        let stopTimeout = (if msStopTimeout server \<le> 0 then DefaultStopTimeout else msStopTimeout server);
            env = (case msEnv server of None \<Rightarrow> [] | Some env \<Rightarrow> env)
        in CommandTransport (msCommand server) (msArgs server) (msDir server) env True stopTimeout stopTimeout)"

text \<open>\<open>http.Header.Set\<close> puts a name in its canonical form when all its bytes are allowed in one.\<close>

definition headerByte :: "char \<Rightarrow> bool" where
  "headerByte c \<longleftrightarrow> (let b = byte_of c in 48 \<le> b \<and> b \<le> 57 \<or> 65 \<le> b \<and> b \<le> 90 \<or> 97 \<le> b \<and> b \<le> 122
     \<or> b \<in> {33, 35, 36, 37, 38, 39, 42, 43, 45, 46, 94, 95, 96, 124, 126})"

fun canonicalBytes :: "bool \<Rightarrow> string \<Rightarrow> string" where
  "canonicalBytes upper [] = []"
| "canonicalBytes upper (c # cs) =
     (let b = byte_of c;
          d = (if upper \<and> 97 \<le> b \<and> b \<le> 122 then of_byte (b - 32)
               else if \<not> upper \<and> 65 \<le> b \<and> b \<le> 90 then of_byte (b + 32) else c)
      in d # canonicalBytes (c = CHR ''-'') cs)"

definition canonicalHeaderKey :: "string \<Rightarrow> string" where
  "canonicalHeaderKey s = (if list_all headerByte s then canonicalBytes True s else s)"

type_synonym httpHeader = "(string \<times> string list) list"

definition headerSet :: "httpHeader \<Rightarrow> string \<Rightarrow> string \<Rightarrow> httpHeader" where
  "headerSet h name value = AList.update (canonicalHeaderKey name) [value] h"

text \<open>The request \<open>RoundTrip\<close> sends, for one order of the loop over the fixed headers.\<close>

definition roundTripHeaders :: "(string \<times> string) list \<Rightarrow> httpHeader \<Rightarrow> httpHeader" where
  "roundTripHeaders visited h = foldl (\<lambda>h (name, value). headerSet h name value) h visited"

definition RoundTrip :: "(httpHeader \<Rightarrow> err + 'r) \<Rightarrow> (string \<times> string) list \<Rightarrow> httpHeader \<Rightarrow> err + 'r" where
  "RoundTrip base visited h =
     (case base (roundTripHeaders visited h) of
        Inl e \<Rightarrow> Inl (Wrap e ''send MCP request'')
      | Inr response \<Rightarrow> Inr response)"

text \<open>One chunk of a server's stderr: what is logged and the number of bytes reported written.\<close>

definition stderrWrite :: "string \<Rightarrow> string \<times> nat" where
  "stderrWrite chunk =
     (let logged = (if length chunk > maxStderrLogBytes then take maxStderrLogBytes chunk else chunk)
      in (logged, length chunk))"

section \<open>Results\<close>

record sdkResource =
  srURI :: string
  srMIMEType :: string
  srText :: string
  srBlob :: string

datatype sdkContent =
    TextContent string
  | ImageContent string string \<comment> \<open>data, media type\<close>
  | AudioContent string \<comment> \<open>media type\<close>
  | ResourceLink string
  | EmbeddedResource "sdkResource option"
  | OtherContent string \<comment> \<open>a content of another Go type, by the text of \<open>%T\<close>\<close>

record callToolResult =
  ctContent :: "sdkContent list"
  ctStructuredContent :: any
  ctIsError :: bool

definition unknownContent :: "string \<Rightarrow> string" where
  "unknownContent goType = ''[content of type '' @ goType @ '' is not supported]''"

definition embeddedResourceText :: "sdkResource option \<Rightarrow> string" where
  "embeddedResourceText resource =
     (case resource of
        None \<Rightarrow> unknownContent ''*mcp.EmbeddedResource''
      | Some r \<Rightarrow>
          if srText r \<noteq> [] \<or> srBlob r = [] then srText r
          else ''[embedded binary resource '' @ srURI r @ '' ('' @ srMIMEType r @ '') is not supported]'')"

fun contentText :: "sdkContent \<Rightarrow> string" where
  "contentText (TextContent text) = text"
| "contentText (AudioContent mime) = ''[audio content ('' @ mime @ '') is not supported]''"
| "contentText (ResourceLink uri) = ''[resource link: '' @ uri @ '']''"
| "contentText (EmbeddedResource r) = embeddedResourceText r"
| "contentText (OtherContent goType) = unknownContent goType"
| "contentText (ImageContent data mime) = unknownContent ''*mcp.ImageContent''"

definition resultPartSeparator :: string where "resultPartSeparator = [of_byte 10]"

definition zeroToolResult :: toolResult where
  "zeroToolResult = \<lparr>trContent = [], trIsError = False, trImages = [], trMetadata = []\<rparr>"

fun convertContents :: "sdkContent list \<Rightarrow> imageSource list \<Rightarrow> string list \<Rightarrow> imageSource list \<times> string list" where
  "convertContents [] images parts = (images, parts)"
| "convertContents (content # rest) images parts =
     (case content of
        ImageContent data mime \<Rightarrow>
          convertContents rest (images @ [\<lparr>imgURL = [], imgData = data, imgMediaType = mime, imgDetail = []\<rparr>]) parts
      | _ \<Rightarrow> convertContents rest images (parts @ [contentText content]))"

definition convertResult :: "(any \<Rightarrow> err + string) \<Rightarrow> callToolResult \<Rightarrow> err + toolResult" where
  "convertResult marshal result =
     (let (images, parts) = convertContents (ctContent result) [] [];
          converted = zeroToolResult\<lparr>trIsError := ctIsError result, trImages := images\<rparr>
      in case (if ctContent result = [] \<and> ctStructuredContent result \<noteq> AnyNil
               then (case marshal (ctStructuredContent result) of
                       Inl e \<Rightarrow> Inl (Wrap e ''encode structured tool result'')
                     | Inr encoded \<Rightarrow> Inr (parts @ [encoded]))
               else Inr parts) of
           Inl e \<Rightarrow> Inl e
         | Inr parts \<Rightarrow> Inr (converted\<lparr>trContent := join resultPartSeparator parts\<rparr>))"

section \<open>What the server may be\<close>

lemma validateServer_None:
  "validateServer server = None \<longleftrightarrow> validServerName (msName server)
     \<and> (trimSpace (msCommand server) \<noteq> []) \<noteq> (msURL server \<noteq> [])
     \<and> (msBearerToken server \<noteq> [] \<longrightarrow>
          (\<forall>n \<in> fst ` set (msHeaders server). foldName n \<noteq> foldName HeaderNameAuthorization))"
  by (force simp: validateServer_def split: if_splits)

lemma validateServer_is: "validateServer server = Some e \<Longrightarrow> err_is e ErrInvalidServer"
  by (auto simp: validateServer_def split: if_splits)

section \<open>Header names\<close>

lemma headerByte_small: "headerByte c \<Longrightarrow> byte_of c < 0x80"
  by (auto simp: headerByte_def Let_def)

lemma canonicalBytes_fold:
  "list_all headerByte s \<Longrightarrow> ascii (canonicalBytes u s)
     \<and> map (\<lambda>c. foldRune (byte_of c)) (canonicalBytes u s) = map (\<lambda>c. foldRune (byte_of c)) s"
proof (induction s arbitrary: u)
  case (Cons c s)
  have c: "byte_of c < 0x80" using Cons.prems headerByte_small by simp
  then show ?case
    using Cons by (auto simp: ascii_def foldRune_def Let_def)
qed (simp add: ascii_def)

lemma headerBytes_ascii: "list_all headerByte s \<Longrightarrow> ascii s"
  by (auto simp: ascii_def list_all_iff dest: headerByte_small)

lemma foldName_ascii: "ascii s \<Longrightarrow> foldName s = map (\<lambda>c. foldRune (byte_of c)) s"
  by (simp add: foldName_def runes_ascii)

lemma foldName_canonical: "foldName (canonicalHeaderKey n) = foldName n"
  using canonicalBytes_fold [of n True] headerBytes_ascii [of n]
  by (simp add: canonicalHeaderKey_def foldName_ascii)

lemma headerSet_get: "map_of (headerSet h n v) k = (if k = canonicalHeaderKey n then Some [v] else map_of h k)"
  by (simp add: headerSet_def update_conv')

lemma roundTripHeaders_get:
  assumes "\<forall>(n, v) \<in> set visited. canonicalHeaderKey n = k \<longrightarrow> v = value"
  shows "map_of (roundTripHeaders visited h) k =
     (if \<exists>n \<in> fst ` set visited. canonicalHeaderKey n = k then Some [value] else map_of h k)"
  using assms
proof (induction visited arbitrary: h)
  case (Cons nv visited)
  obtain n v where nv: "nv = (n, v)" by fastforce
  have "roundTripHeaders (nv # visited) h = roundTripHeaders visited (headerSet h n v)"
    by (simp add: roundTripHeaders_def nv)
  then show ?case using Cons nv by (auto simp: headerSet_get)
qed (simp add: roundTripHeaders_def)

lemma authorization_canonical: "canonicalHeaderKey HeaderNameAuthorization = HeaderNameAuthorization"
  by code_simp

text \<open>
  The credentials of an HTTP server. A server that passes the validation and has a bearer
  token is reached with exactly that token: whatever headers the request already carries and in
  whatever order the loop visits the fixed ones, the request that is sent says
  \<open>Authorization: Bearer <token>\<close>, and no fixed header the caller gave, however it is
  capitalised, replaces it. The other fixed headers do not touch headers of another name.
\<close>

theorem mcp_bearer_sent:
  assumes "validateServer server = None" and "msURL server \<noteq> []" and "msBearerToken server \<noteq> []"
    and "set visited = set (fixedHeaders (transport server))"
  shows "endpoint (transport server) = msURL server
    \<and> map_of (roundTripHeaders visited h) HeaderNameAuthorization = Some [AuthSchemeBearer @ msBearerToken server]
    \<and> (k \<notin> canonicalHeaderKey ` fst ` set visited \<longrightarrow> map_of (roundTripHeaders visited h) k = map_of h k)"
proof -
  let ?A = HeaderNameAuthorization and ?V = "AuthSchemeBearer @ msBearerToken server"
  have t: "transport server = StreamableClientTransport (msURL server) (AList.update ?A ?V (msHeaders server)) True"
    using assms(2,3) by (simp add: transport_def)
  have other: "foldName n \<noteq> foldName ?A" if "n \<in> fst ` set (msHeaders server)" for n
    using assms(1,3) that by (auto simp: validateServer_None)
  then have "?A \<notin> fst ` set (msHeaders server)" by blast
  then have "AList.update ?A ?V (msHeaders server) = msHeaders server @ [(?A, ?V)]"
    by (rule update_fresh)
  then have v: "set visited = insert (?A, ?V) (set (msHeaders server))" using assms(4) t by simp
  have "canonicalHeaderKey n \<noteq> ?A" if "n \<in> fst ` set (msHeaders server)" for n
  proof
    assume "canonicalHeaderKey n = ?A"
    then have "foldName ?A = foldName n" using foldName_canonical [of n] by (simp only:)
    then show False using other [OF that] by (simp only:)
  qed
  then have "\<forall>(n, w) \<in> set visited. canonicalHeaderKey n = ?A \<longrightarrow> w = ?V" unfolding v by force
  moreover have "\<exists>n \<in> fst ` set visited. canonicalHeaderKey n = ?A"
    unfolding v using authorization_canonical by auto
  ultimately have "map_of (roundTripHeaders visited h) ?A = Some [?V]" by (simp only: roundTripHeaders_get if_True)
  moreover have "map_of (roundTripHeaders visited h) k = map_of h k" if "k \<notin> canonicalHeaderKey ` fst ` set visited"
  proof -
    have no: "\<not> (\<exists>n \<in> fst ` set visited. canonicalHeaderKey n = k)" using that by blast
    then have "\<forall>(n, w) \<in> set visited. canonicalHeaderKey n = k \<longrightarrow> w = []" by force
    then show ?thesis using no by (simp only: roundTripHeaders_get if_False)
  qed
  ultimately show ?thesis using t by simp
qed

definition remoteServer :: mcpServer where
  "remoteServer = \<lparr>msName = ''git'', msCommand = [], msArgs = [], msEnv = None, msDir = [], msStopTimeout = 0,
     msURL = ''https://mcp'', msHeaders = [(''X-Team'', ''a'')], msBearerToken = ''t0ken'', msTools = [], msClientName = []\<rparr>"

lemma remoteServer_valid: "validateServer remoteServer = None"
  by code_simp

theorem mcp_bearer_sent_witness:
  "map_of (roundTripHeaders [(''X-Team'', ''a''), (''Authorization'', ''Bearer t0ken'')] [(''Authorization'', [''stale''])])
     HeaderNameAuthorization = Some [AuthSchemeBearer @ ''t0ken'']"
proof -
  have "msURL remoteServer \<noteq> []" "msBearerToken remoteServer = ''t0ken''"
    "set [(''X-Team'', ''a''), (''Authorization'', ''Bearer t0ken'')] = set (fixedHeaders (transport remoteServer))"
    by code_simp+
  then show ?thesis
    using mcp_bearer_sent [OF remoteServer_valid, of "[(''X-Team'', ''a''), (''Authorization'', ''Bearer t0ken'')]"] by simp
qed

section \<open>What becomes of a result\<close>

fun imageOf :: "sdkContent \<Rightarrow> imageSource option" where
  "imageOf (ImageContent data mime) = Some \<lparr>imgURL = [], imgData = data, imgMediaType = mime, imgDetail = []\<rparr>"
| "imageOf content = None"

lemma convertContents_parts:
  "convertContents contents images parts =
     (images @ List.map_filter imageOf contents, parts @ map contentText (filter (\<lambda>c. imageOf c = None) contents))"
  by (induction contents arbitrary: images parts) (auto simp: map_filter_simps split: sdkContent.splits)

lemma convertResult_parts:
  assumes "ctContent r \<noteq> [] \<or> ctStructuredContent r = AnyNil"
  shows "convertResult marshal r = Inr \<lparr>
    trContent = join resultPartSeparator (map contentText (filter (\<lambda>c. imageOf c = None) (ctContent r))),
    trIsError = ctIsError r, trImages = List.map_filter imageOf (ctContent r), trMetadata = []\<rparr>"
  using assms by (auto simp: convertResult_def convertContents_parts zeroToolResult_def)

lemma convertResult_structured:
  assumes "ctContent r = []" and "ctStructuredContent r \<noteq> AnyNil" and "marshal (ctStructuredContent r) = Inr s"
  shows "convertResult marshal r = Inr \<lparr>trContent = s, trIsError = ctIsError r, trImages = [], trMetadata = []\<rparr>"
  using assms by (simp add: convertResult_def zeroToolResult_def)

end
