(* ===== verification/Progress.thy ===== *)
theory Progress
  imports Prelude
begin

text \<open>
  Progress of one goroutine among others. Steps carry a label, and an execution is an infinite
  sequence of states in which each position either takes a step or does nothing. A goroutine is
  scheduled fairly when it takes a step of its own whenever it can take one from some point on.
  The locale is the contract under which a fair goroutine finishes: its own steps bring its rank
  down, the steps of others do not raise it and do not stop it.
\<close>

definition execution :: "('l \<Rightarrow> 's \<Rightarrow> 's \<Rightarrow> bool) \<Rightarrow> (nat \<Rightarrow> 's) \<Rightarrow> (nat \<Rightarrow> 'l option) \<Rightarrow> bool" where
  "execution step run lab \<longleftrightarrow>
     (\<forall>i. case lab i of None \<Rightarrow> run (Suc i) = run i | Some l \<Rightarrow> step l (run i) (run (Suc i)))"

definition scheduledFairly ::
  "('l \<Rightarrow> 's \<Rightarrow> 's \<Rightarrow> bool) \<Rightarrow> ('l \<Rightarrow> bool) \<Rightarrow> (nat \<Rightarrow> 's) \<Rightarrow> (nat \<Rightarrow> 'l option) \<Rightarrow> bool" where
  "scheduledFairly step mine run lab \<longleftrightarrow>
     (\<forall>i. (\<forall>j\<ge>i. \<exists>l s'. mine l \<and> step l (run j) s') \<longrightarrow> (\<exists>j\<ge>i. \<exists>l. lab j = Some l \<and> mine l))"

lemma execution_step:
  "execution step run lab \<Longrightarrow> lab i = Some l \<Longrightarrow> step l (run i) (run (Suc i))"
  by (drule execution_def [THEN iffD1, rule_format, of _ _ _ i]) simp

lemma execution_induct:
  assumes "execution step run lab" and "P (run i)" and "\<And>l s s'. step l s s' \<Longrightarrow> P s \<Longrightarrow> P s'" and "i \<le> j"
  shows "P (run j)"
  using assms(4)
proof (induction j rule: dec_induct)
  case (step n)
  then show ?case
    using assms(1,3) unfolding execution_def by (cases "lab n") (auto dest: spec [of _ n])
qed (rule assms(2))

locale worker =
  fixes step :: "'l \<Rightarrow> 's \<Rightarrow> 's \<Rightarrow> bool" and mine :: "'l \<Rightarrow> bool" and rank :: "'s \<Rightarrow> nat" and ready :: "'s \<Rightarrow> bool"
  assumes mine_down: "step l s s' \<Longrightarrow> ready s \<Longrightarrow> mine l \<Longrightarrow> rank s' < rank s"
    and others_keep: "step l s s' \<Longrightarrow> ready s \<Longrightarrow> rank s' \<le> rank s"
    and stays_ready: "step l s s' \<Longrightarrow> ready s \<Longrightarrow> ready s'"
    and can_go: "ready s \<Longrightarrow> 0 < rank s \<Longrightarrow> \<exists>l s'. mine l \<and> step l s s'"
begin

lemma rank_le:
  assumes "execution step run lab" and "ready (run i)" and "i \<le> j"
  shows "ready (run j) \<and> rank (run j) \<le> rank (run i)"
  using execution_induct [OF assms(1), of "\<lambda>s. ready s \<and> rank s \<le> rank (run i)"] assms(2,3) others_keep stays_ready
  by (meson order.trans order_refl)

lemma finishes:
  assumes "execution step run lab" and "scheduledFairly step mine run lab" and "ready (run i)"
  shows "\<exists>j\<ge>i. \<forall>k\<ge>j. ready (run k) \<and> rank (run k) = 0"
  using assms(3)
proof (induction "rank (run i)" arbitrary: i rule: less_induct)
  case less
  show ?case
  proof (cases "\<exists>j\<ge>i. rank (run j) = 0")
    case True
    then obtain j where j: "i \<le> j" "rank (run j) = 0" by blast
    have "ready (run j)" using rank_le [OF assms(1) less.prems j(1)] by blast
    then have "\<forall>k\<ge>j. ready (run k) \<and> rank (run k) = 0" using rank_le [OF assms(1)] j(2) by fastforce
    then show ?thesis using j(1) by blast
  next
    case False
    have "\<exists>l s'. mine l \<and> step l (run j) s'" if "i \<le> j" for j
      using can_go [of "run j"] rank_le [OF assms(1) less.prems that] False that by blast
    then obtain j l where j: "i \<le> j" "lab j = Some l" "mine l"
      using assms(2) unfolding scheduledFairly_def by blast
    have s: "step l (run j) (run (Suc j))" using execution_step [OF assms(1) j(2)] .
    have r: "ready (run j)" "rank (run j) \<le> rank (run i)" using rank_le [OF assms(1) less.prems j(1)] by blast+
    have "rank (run (Suc j)) < rank (run i)" using mine_down [OF s r(1) j(3)] r(2) by simp
    then obtain m where "m \<ge> Suc j" "\<forall>k\<ge>m. ready (run k) \<and> rank (run k) = 0"
      using less.hyps stays_ready [OF s r(1)] by blast
    then show ?thesis using j(1) by (meson Suc_leD order.trans)
  qed
qed

end

end
