(* ===== verification/McpConnection.thy ===== *)
theory McpConnection
  imports McpServer Progress
begin

text \<open>
  A connection to an MCP server (\<open>mcp/connection.go\<close>): connecting, listing and calling its
  tools, and the goroutines that end it. The session is the SDK's: what a listing yields and
  what a call answers are arguments. The connection's mutex makes each group of assignments
  under it one operation below; the operations of the caller of \<open>Close\<close>, of the watch and of
  \<open>RefreshTools\<close> interleave as steps of a labelled relation.
\<close>

section \<open>The tools of a server\<close>

record sdkTool =
  stName :: string
  stDescription :: string
  stInputSchema :: any

record 'w mcpSession =
  sessErr :: "'w \<Rightarrow> err option" \<comment> \<open>\<open>Connection.Err\<close>, read when a tool is called\<close>
  sessCallTool :: "string \<Rightarrow> string \<Rightarrow> 'w \<Rightarrow> 'w \<times> (err + callToolResult)" \<comment> \<open>name, arguments\<close>

definition allowed :: "mcpServer \<Rightarrow> string \<Rightarrow> bool" where
  "allowed server name \<longleftrightarrow> msTools server = [] \<or> name \<in> set (msTools server)"

definition inputSchemaTypeKey :: string where "inputSchemaTypeKey = ''type''"
definition inputSchemaTypeObject :: string where "inputSchemaTypeObject = ''object''"
definition emptyArguments :: string where "emptyArguments = ''{}''"

text \<open>\<open>marshal\<close> writes a map with its keys in order.\<close>

definition inputSchema :: "(any \<Rightarrow> err + string) \<Rightarrow> any \<Rightarrow> err + string" where
  "inputSchema marshal schema =
     (case (if schema = AnyNil then AnyMap [] else schema) of
        AnyMap obj \<Rightarrow>
          (let obj = (if inputSchemaTypeKey \<notin> fst ` set obj then obj @ [(inputSchemaTypeKey, AnyString inputSchemaTypeObject)] else obj)
           in case marshal (AnyMap obj) of
                Inl e \<Rightarrow> Inl (Wrap e ''encode input schema'')
              | Inr encoded \<Rightarrow> Inr encoded)
      | _ \<Rightarrow> Inl (Wrap (Sentinel ErrConnectFailed) ''input schema is not a JSON object''))"

definition mcpHandler :: "'w mcpSession \<Rightarrow> (any \<Rightarrow> err + string) \<Rightarrow> string \<Rightarrow> 'w toolHandler" where
  "mcpHandler sess marshal remoteName call w =
     (case sessErr sess w of
        Some e \<Rightarrow> (w, HandlerReturned zeroToolResult (Some e))
      | None \<Rightarrow>
          let arguments = (if tiArguments call = [] then emptyArguments else tiArguments call)
          in case sessCallTool sess remoteName arguments w of
               (w, Inl e) \<Rightarrow> (w, HandlerReturned zeroToolResult (Some (Wrapf e ''call MCP tool %s'' [ArgStr remoteName])))
             | (w, Inr result) \<Rightarrow>
                 (case convertResult marshal result of
                    Inl e \<Rightarrow> (w, HandlerReturned zeroToolResult (Some e))
                  | Inr converted \<Rightarrow> (w, HandlerReturned converted None)))"

definition mcpTool :: "'w mcpSession \<Rightarrow> (any \<Rightarrow> err + string) \<Rightarrow> mcpServer \<Rightarrow> sdkTool \<Rightarrow> string \<Rightarrow> 'w tool" where
  "mcpTool sess marshal server tool schema =
     \<lparr>tlName = ToolName (msName server) (stName tool),
      tlDescription = trimSpace (''Tool '' @ stName tool @ '' from the MCP server '' @ msName server @ ''. '' @ stDescription tool),
      tlArgumentsSchema = schema, tlStrictArguments = False, tlTimeout = 0,
      tlHandler = Some (mcpHandler sess marshal (stName tool)),
      tlPreRun = None, tlOnSuccess = None, tlOnError = None, tlPostRun = None,
      tlOnSuccessMessageInjector = None, tlOnErrorMessageInjector = None, tlPostRunMessageInjector = None\<rparr>"

text \<open>The loop over what the SDK's iterator yields, a tool or an error at a time.\<close>

fun listToolsLoop ::
  "'w mcpSession \<Rightarrow> (any \<Rightarrow> err + string) \<Rightarrow> mcpServer \<Rightarrow> (err + sdkTool) list \<Rightarrow> 'w tool list \<Rightarrow> string list
     \<Rightarrow> err + 'w tool list \<times> string list" where
  "listToolsLoop sess marshal server [] tools offered = Inr (tools, offered)"
| "listToolsLoop sess marshal server (Inl e # rest) tools offered =
     Inl (Wrap (Joined [Sentinel ErrConnectFailed, e]) ''list tools'')"
| "listToolsLoop sess marshal server (Inr tool # rest) tools offered =
     (let offered = offered @ [stName tool]
      in if \<not> allowed server (stName tool) then listToolsLoop sess marshal server rest tools offered
         else case inputSchema marshal (stInputSchema tool) of
                Inl e \<Rightarrow> Inl (Wrapf e ''tool %q'' [ArgStr (stName tool)])
              | Inr schema \<Rightarrow>
                  listToolsLoop sess marshal server rest (tools @ [mcpTool sess marshal server tool schema]) offered)"

definition missingWarnings :: "(rune \<Rightarrow> bool) \<Rightarrow> string list \<Rightarrow> string list \<Rightarrow> string list" where
  "missingWarnings isPrint wanted offered =
     map (\<lambda>name. ''the server does not offer the allowed tool '' @ quote isPrint name) (filter (\<lambda>name. name \<notin> set offered) wanted)"

definition listTools ::
  "'w mcpSession \<Rightarrow> (any \<Rightarrow> err + string) \<Rightarrow> (rune \<Rightarrow> bool) \<Rightarrow> mcpServer \<Rightarrow> (err + sdkTool) list
     \<Rightarrow> err + 'w tool list \<times> string list" where
  "listTools sess marshal isPrint server yields =
     (case listToolsLoop sess marshal server yields [] [] of
        Inl e \<Rightarrow> Inl e
      | Inr (tools, offered) \<Rightarrow> Inr (tools, missingWarnings isPrint (msTools server) offered))"

section \<open>The connection\<close>

text \<open>
  The fields of \<open>Connection\<close>, then where its goroutines are: the one that runs the body of
  \<open>Close\<close>, the watch, the \<open>RefreshTools\<close> calls that are listing, and whether the session and
  the lifetime context still live.
\<close>

datatype closePhase =
    NotClosed
  | Marked bool \<comment> \<open>\<open>closing\<close> is set; whether the connection had ended\<close>
  | SessionClosed
  | ClosedFully

datatype watchPhase =
    NotWatching
  | Waiting
  | Woken "err option" \<comment> \<open>\<open>session.Wait\<close> returned\<close>
  | Ending \<comment> \<open>only the deferred calls are left\<close>
  | Finished

record 'w connection =
  ccServer :: mcpServer
  ccTools :: "'w tool list"
  ccWarnings :: "string list"
  ccDone :: bool
  ccClosing :: bool
  ccCloseErr :: "err option"
  ccErr :: "err option"
  ccCloser :: closePhase
  ccWatch :: watchPhase
  ccPanicked :: bool
  ccRefreshing :: nat
  ccUp :: bool
  ccStopped :: bool

definition newConnection :: "mcpServer \<Rightarrow> 'w connection" where
  "newConnection server =
     \<lparr>ccServer = server, ccTools = [], ccWarnings = [], ccDone = False, ccClosing = False, ccCloseErr = None, ccErr = None,
      ccCloser = NotClosed, ccWatch = NotWatching, ccPanicked = False, ccRefreshing = 0, ccUp = True, ccStopped = False\<rparr>"

text \<open>\<open>Close\<close>: the part under the lock, the end of \<open>session.Close\<close> and \<open>stop\<close>.\<close>

definition closeMark :: "'w connection \<Rightarrow> 'w connection" where
  "closeMark c = c\<lparr>ccClosing := True, ccCloser := Marked (ccErr c \<noteq> None)\<rparr>"

definition closeSession :: "err option \<Rightarrow> bool \<Rightarrow> 'w connection \<Rightarrow> 'w connection" where
  "closeSession e ended c =
     c\<lparr>ccUp := False, ccCloser := SessionClosed,
       ccCloseErr := (case e of
          Some x \<Rightarrow> if \<not> ended then Some (Wrapf x ''close MCP server %s'' [ArgStr (msName (ccServer c))]) else ccCloseErr c
        | None \<Rightarrow> ccCloseErr c)\<rparr>"

definition closeStop :: "'w connection \<Rightarrow> 'w connection" where
  "closeStop c = c\<lparr>ccStopped := True, ccCloser := ClosedFully\<rparr>"

text \<open>A call of \<open>Close\<close> that nothing interleaves with; \<open>e\<close> is what \<open>session.Close\<close> returns.\<close>

definition Close :: "err option \<Rightarrow> 'w connection \<Rightarrow> 'w connection \<times> err option" where
  "Close e c =
     (let c' = (if ccCloser c = NotClosed then closeStop (closeSession e (ccErr c \<noteq> None) (closeMark c)) else c)
      in (c', ccCloseErr c'))"

text \<open>The watch: the critical section after \<open>session.Wait\<close>, and the deferred \<open>close(done)\<close>.\<close>

definition watchRecord :: "err option \<Rightarrow> 'w connection \<Rightarrow> 'w connection" where
  "watchRecord e c =
     (if ccClosing c then c\<lparr>ccWatch := Ending\<rparr>
      else c\<lparr>ccWatch := Ending,
             ccErr := Some (Wrap (Joined (Sentinel ErrServerStopped # (case e of None \<Rightarrow> [] | Some x \<Rightarrow> [x])))
               ''MCP connection ended'')\<rparr>)"

definition watchClose :: "'w connection \<Rightarrow> 'w connection" where
  "watchClose c = c\<lparr>ccDone := True, ccWatch := Finished\<rparr>"

definition storeTools :: "'w tool list \<times> string list \<Rightarrow> 'w connection \<Rightarrow> 'w connection" where
  "storeTools listed c = c\<lparr>ccTools := fst listed, ccWarnings := snd listed\<rparr>"

text \<open>\<open>RefreshTools\<close> in one go; its parts are steps below.\<close>

definition RefreshTools ::
  "'w mcpSession \<Rightarrow> (any \<Rightarrow> err + string) \<Rightarrow> (rune \<Rightarrow> bool) \<Rightarrow> (err + sdkTool) list \<Rightarrow> 'w connection \<Rightarrow> 'w connection \<times> err option" where
  "RefreshTools sess marshal isPrint yields c =
     (case ccErr c of
        Some e \<Rightarrow> (c, Some e)
      | None \<Rightarrow>
          (case listTools sess marshal isPrint (ccServer c) yields of
             Inl e \<Rightarrow> (c, Some (Wrap e ''refresh MCP server tools''))
           | Inr listed \<Rightarrow> (storeTools listed c, None)))"

text \<open>
  \<open>open\<close> and \<open>Connect\<close>: the SDK's \<open>Connect\<close> takes the client's name and the transport. When the
  listing fails the connection is closed; \<open>closeResult\<close> is what \<open>session.Close\<close> then returns. The
  result comes with the connection built, if one was.
\<close>

definition openSession :: "(string \<Rightarrow> sdkTransport \<Rightarrow> err + 'w mcpSession) \<Rightarrow> mcpServer \<Rightarrow> err + 'w mcpSession" where
  "openSession sdkConnect server =
     (let clientName = (if msClientName server = [] then defaultClientName else msClientName server)
      in case sdkConnect clientName (transport server) of
           Inl e \<Rightarrow> Inl (Wrap (Joined [Sentinel ErrConnectFailed, e]) ''connect'')
         | Inr sess \<Rightarrow> Inr sess)"

definition Connect ::
  "(string \<Rightarrow> sdkTransport \<Rightarrow> err + 'w mcpSession) \<Rightarrow> (any \<Rightarrow> err + string) \<Rightarrow> (rune \<Rightarrow> bool)
     \<Rightarrow> (err + sdkTool) list \<Rightarrow> err option \<Rightarrow> mcpServer \<Rightarrow> (err + 'w connection) \<times> 'w connection option" where
  "Connect sdkConnect marshal isPrint yields closeResult server =
     (case validateServer server of
        Some e \<Rightarrow> (Inl e, None)
      | None \<Rightarrow>
          (case openSession sdkConnect server of
             Inl e \<Rightarrow> (Inl e, None)
           | Inr sess \<Rightarrow>
               let c = newConnection server
               in case listTools sess marshal isPrint server yields of
                    Inl e \<Rightarrow>
                      (let (c, closeErr) = Close closeResult c
                       in (Inl (Wrap (Joined (e # (case closeErr of None \<Rightarrow> [] | Some x \<Rightarrow> [x]))) ''list MCP server tools''), Some c))
                  | Inr listed \<Rightarrow>
                      (let c = (storeTools listed c)\<lparr>ccWatch := Waiting\<rparr> in (Inr c, Some c))))"

section \<open>The steps of its goroutines\<close>

text \<open>
  The first call of \<open>Close\<close> takes \<open>CloseBegin\<close>, \<open>SessionClose\<close> and \<open>LifetimeStop\<close>; later calls wait
  for it. \<open>session.Wait\<close> returns only once the session is down, as the SDK documents, unless it
  panics, which the watch recovers from. Any number of \<open>RefreshTools\<close> calls may be listing.
\<close>

datatype mcpLabel =
    CloseBegin
  | SessionClose "err option"
  | LifetimeStop
  | ServerGone
  | WatchWake "err option"
  | WatchPanic
  | WatchRecord
  | WatchClose
  | RefreshBegin
  | RefreshEnd "(err + sdkTool) list"

inductive mcpStep ::
  "'w mcpSession \<Rightarrow> (any \<Rightarrow> err + string) \<Rightarrow> (rune \<Rightarrow> bool) \<Rightarrow> mcpLabel \<Rightarrow> 'w connection \<Rightarrow> 'w connection \<Rightarrow> bool"
  for sess marshal isPrint where
  close_begin: "ccCloser c = NotClosed \<Longrightarrow> mcpStep sess marshal isPrint CloseBegin c (closeMark c)"
| session_close: "ccCloser c = Marked ended \<Longrightarrow> mcpStep sess marshal isPrint (SessionClose e) c (closeSession e ended c)"
| lifetime_stop: "ccCloser c = SessionClosed \<Longrightarrow> mcpStep sess marshal isPrint LifetimeStop c (closeStop c)"
| server_gone: "ccUp c \<Longrightarrow> mcpStep sess marshal isPrint ServerGone c (c\<lparr>ccUp := False\<rparr>)"
| watch_wake: "ccWatch c = Waiting \<Longrightarrow> \<not> ccUp c \<Longrightarrow> mcpStep sess marshal isPrint (WatchWake e) c (c\<lparr>ccWatch := Woken e\<rparr>)"
| watch_panic: "ccWatch c = Waiting \<Longrightarrow> mcpStep sess marshal isPrint WatchPanic c (c\<lparr>ccWatch := Ending, ccPanicked := True\<rparr>)"
| watch_record: "ccWatch c = Woken e \<Longrightarrow> mcpStep sess marshal isPrint WatchRecord c (watchRecord e c)"
| watch_close: "ccWatch c = Ending \<Longrightarrow> mcpStep sess marshal isPrint WatchClose c (watchClose c)"
| refresh_begin: "ccErr c = None \<Longrightarrow> mcpStep sess marshal isPrint RefreshBegin c (c\<lparr>ccRefreshing := Suc (ccRefreshing c)\<rparr>)"
| refresh_end: "ccRefreshing c = Suc n \<Longrightarrow> mcpStep sess marshal isPrint (RefreshEnd yields) c
     ((case listTools sess marshal isPrint (ccServer c) yields of Inl e \<Rightarrow> c | Inr listed \<Rightarrow> storeTools listed c)\<lparr>ccRefreshing := n\<rparr>)"

inductive_cases mcpStepE: "mcpStep sess marshal isPrint l c c'"

lemmas connection_defs = closeMark_def closeSession_def closeStop_def watchRecord_def watchClose_def storeTools_def

text \<open>The states a connection can be in: \<open>Connect\<close> returned it, and then steps.\<close>

inductive mcpReachable ::
  "'w mcpSession \<Rightarrow> (any \<Rightarrow> err + string) \<Rightarrow> (rune \<Rightarrow> bool) \<Rightarrow> mcpServer \<Rightarrow> 'w connection \<Rightarrow> bool"
  for sess marshal isPrint server where
  connected: "Connect (\<lambda>name t. Inr sess) marshal isPrint yields closeResult server = (Inr c, d)
     \<Longrightarrow> mcpReachable sess marshal isPrint server c"
| stepped: "mcpReachable sess marshal isPrint server c \<Longrightarrow> mcpStep sess marshal isPrint l c c'
     \<Longrightarrow> mcpReachable sess marshal isPrint server c'"

inductive mcpLater ::
  "'w mcpSession \<Rightarrow> (any \<Rightarrow> err + string) \<Rightarrow> (rune \<Rightarrow> bool) \<Rightarrow> 'w connection \<Rightarrow> 'w connection \<Rightarrow> bool"
  for sess marshal isPrint where
  later_refl: "mcpLater sess marshal isPrint c c"
| later_step: "mcpLater sess marshal isPrint c c' \<Longrightarrow> mcpStep sess marshal isPrint l c' c'' \<Longrightarrow> mcpLater sess marshal isPrint c c''"

text \<open>\<open>Close\<close> and \<open>RefreshTools\<close> taken in one go are runs of the steps.\<close>

lemma later_trans1: "mcpStep sess marshal isPrint l c c' \<Longrightarrow> mcpLater sess marshal isPrint c c'"
  by (meson later_refl later_step)

lemma Close_steps: "mcpLater sess marshal isPrint c (fst (Close e c))"
proof (cases "ccCloser c = NotClosed")
  case True
  let ?m = "closeMark c" and ?ended = "ccErr c \<noteq> None"
  have "mcpStep sess marshal isPrint CloseBegin c ?m" using True by (rule close_begin)
  moreover have "mcpStep sess marshal isPrint (SessionClose e) ?m (closeSession e ?ended ?m)"
    by (rule session_close) (simp add: closeMark_def)
  moreover have "mcpStep sess marshal isPrint LifetimeStop (closeSession e ?ended ?m) (closeStop (closeSession e ?ended ?m))"
    by (rule lifetime_stop) (simp add: closeSession_def)
  ultimately have "mcpLater sess marshal isPrint c (closeStop (closeSession e ?ended ?m))" by (meson later_refl later_step)
  then show ?thesis using True by (simp add: Close_def Let_def)
qed (simp add: Close_def later_refl)

lemma RefreshTools_steps: "mcpLater sess marshal isPrint c (fst (RefreshTools sess marshal isPrint yields c))"
proof (cases "ccErr c")
  case None
  let ?b = "c\<lparr>ccRefreshing := Suc (ccRefreshing c)\<rparr>"
  have "mcpStep sess marshal isPrint RefreshBegin c ?b" using None by (rule refresh_begin)
  moreover have "mcpStep sess marshal isPrint (RefreshEnd yields) ?b (fst (RefreshTools sess marshal isPrint yields c))"
    using refresh_end [of ?b "ccRefreshing c" sess marshal isPrint yields] None
    by (cases "listTools sess marshal isPrint (ccServer c) yields") (simp_all add: RefreshTools_def storeTools_def)
  ultimately show ?thesis by (meson later_refl later_step)
qed (simp add: RefreshTools_def later_refl)

section \<open>What holds of every reachable connection\<close>

definition endsInv :: "'w connection \<Rightarrow> bool" where
  "endsInv c \<longleftrightarrow>
     (ccDone c \<longleftrightarrow> ccWatch c = Finished) \<and> ccWatch c \<noteq> NotWatching
     \<and> (\<forall>e. ccWatch c = Woken e \<longrightarrow> \<not> ccUp c)
     \<and> (\<forall>e. ccErr c = Some e \<longrightarrow> err_is e ErrServerStopped \<and> \<not> ccUp c \<and> ccWatch c \<in> {Ending, Finished})
     \<and> (ccWatch c \<in> {Ending, Finished} \<longrightarrow> ccPanicked c \<or> \<not> ccUp c \<and> (ccErr c = None \<longrightarrow> ccClosing c))"

definition closesInv :: "'w connection \<Rightarrow> bool" where
  "closesInv c \<longleftrightarrow>
     (ccCloser c = NotClosed \<longleftrightarrow> \<not> ccClosing c) \<and> (ccCloser c = ClosedFully \<longleftrightarrow> ccStopped c)
     \<and> (ccCloser c \<in> {SessionClosed, ClosedFully} \<longrightarrow> \<not> ccUp c)
     \<and> (\<forall>ended. ccCloser c = Marked ended \<longrightarrow> ended = (ccErr c \<noteq> None))
     \<and> (ccCloseErr c \<noteq> None \<longrightarrow> ccErr c = None \<and> ccCloser c \<in> {SessionClosed, ClosedFully})"

definition listedInv :: "'w mcpSession \<Rightarrow> (any \<Rightarrow> err + string) \<Rightarrow> (rune \<Rightarrow> bool) \<Rightarrow> mcpServer \<Rightarrow> 'w connection \<Rightarrow> bool" where
  "listedInv sess marshal isPrint server c \<longleftrightarrow>
     ccServer c = server \<and> validateServer server = None
     \<and> (\<exists>yields. listTools sess marshal isPrint server yields = Inr (ccTools c, ccWarnings c))"

lemma endsInv_step: "mcpStep sess marshal isPrint l c c' \<Longrightarrow> endsInv c \<Longrightarrow> endsInv c'"
  by (erule mcpStepE) (auto simp: endsInv_def connection_defs split: sum.splits)

lemma closesInv_step: "mcpStep sess marshal isPrint l c c' \<Longrightarrow> closesInv c \<Longrightarrow> closesInv c'"
  by (erule mcpStepE) (auto simp: closesInv_def connection_defs split: sum.splits option.splits)

lemma listedInv_step:
  "mcpStep sess marshal isPrint l c c' \<Longrightarrow> listedInv sess marshal isPrint server c \<Longrightarrow> listedInv sess marshal isPrint server c'"
  by (erule mcpStepE) (auto simp: listedInv_def connection_defs split: sum.splits)

lemma Connect_Inr:
  "Connect sdkConnect marshal isPrint yields closeResult server = (Inr c, d) \<longleftrightarrow>
     validateServer server = None \<and> (\<exists>sess listed. openSession sdkConnect server = Inr sess
       \<and> listTools sess marshal isPrint server yields = Inr listed
       \<and> c = (storeTools listed (newConnection server))\<lparr>ccWatch := Waiting\<rparr> \<and> d = Some c)"
  by (auto simp: Connect_def Let_def split: option.splits sum.splits prod.splits)

lemma Connect_inv:
  assumes "Connect (\<lambda>name t. Inr sess) marshal isPrint yields closeResult server = (Inr c, d)"
  shows "endsInv c \<and> closesInv c \<and> listedInv sess marshal isPrint server c"
  using assms
  by (auto simp: Connect_Inr openSession_def newConnection_def storeTools_def endsInv_def closesInv_def listedInv_def)

lemma reachable_inv:
  "mcpReachable sess marshal isPrint server c \<Longrightarrow> endsInv c \<and> closesInv c \<and> listedInv sess marshal isPrint server c"
proof (induction rule: mcpReachable.induct)
  case (stepped c l c')
  then show ?case using endsInv_step closesInv_step listedInv_step by blast
qed (rule Connect_inv)

lemma reachable_later:
  "mcpLater sess marshal isPrint c c' \<Longrightarrow> mcpReachable sess marshal isPrint server c \<Longrightarrow> mcpReachable sess marshal isPrint server c'"
  by (induction rule: mcpLater.induct) (auto intro: stepped)

section \<open>The end of a connection\<close>

lemma err_stays: "mcpLater sess marshal isPrint c c' \<Longrightarrow> endsInv c \<Longrightarrow> ccErr c = Some e \<Longrightarrow> ccErr c' = Some e \<and> endsInv c'"
proof (induction rule: mcpLater.induct)
  case (later_step c c' l c'')
  then have i: "ccErr c' = Some e" "endsInv c'" by auto
  then have "\<not> (\<exists>x. ccWatch c' = Woken x)" by (auto simp: endsInv_def)
  then have "ccErr c'' = Some e" using later_step.hyps(2) i(1)
    by (elim mcpStepE) (auto simp: connection_defs split: sum.splits)
  then show ?case using endsInv_step [OF later_step.hyps(2) i(2)] by simp
qed simp

lemma err_after_closing:
  "mcpLater sess marshal isPrint c c' \<Longrightarrow> ccClosing c \<Longrightarrow> ccClosing c' \<and> ccErr c' = ccErr c"
proof (induction rule: mcpLater.induct)
  case (later_step c c' l c'')
  then show ?case by (auto elim!: mcpStepE simp: connection_defs split: sum.splits)
qed simp

text \<open>
  C33. How a connection ends. In every reachable state \<open>Done\<close> is closed only when the session is
  down, and then either \<open>Close\<close> was called or \<open>Err\<close> gives an \<open>ErrServerStopped\<close> (unless the SDK's
  \<open>Wait\<close> panicked); \<open>Err\<close> is never set while the session is up; the lifetime context is cancelled
  only by a \<open>Close\<close> that has ended the session. The end is reported once: never both by \<open>Err\<close> and by \<open>Close\<close>'s error. The
  tools and warnings shown are always those of one listing of this server.
\<close>

theorem mcp_connection_ends:
  assumes "mcpReachable sess marshal isPrint server c"
  shows "(ccDone c \<and> \<not> ccPanicked c \<longrightarrow> \<not> ccUp c \<and> (ccClosing c \<or> (\<exists>e. ccErr c = Some e \<and> err_is e ErrServerStopped)))
    \<and> (ccErr c \<noteq> None \<longrightarrow> \<not> ccUp c \<and> ccCloseErr c = None)
    \<and> (ccStopped c \<longrightarrow> ccClosing c \<and> \<not> ccUp c)
    \<and> (\<exists>yields. listTools sess marshal isPrint server yields = Inr (ccTools c, ccWarnings c))"
proof -
  have e: "endsInv c" and k: "closesInv c" and l: "listedInv sess marshal isPrint server c" using reachable_inv [OF assms] by blast+
  have "ccDone c \<and> \<not> ccPanicked c \<Longrightarrow> \<not> ccUp c \<and> (ccClosing c \<or> (\<exists>e. ccErr c = Some e \<and> err_is e ErrServerStopped))"
    using e by (cases "ccErr c") (auto simp: endsInv_def)
  moreover have "ccErr c \<noteq> None \<Longrightarrow> \<not> ccUp c" using e unfolding endsInv_def by blast
  moreover have "ccErr c \<noteq> None \<Longrightarrow> ccCloseErr c = None" using k by (cases "ccCloseErr c") (simp_all add: closesInv_def)
  moreover have "ccStopped c \<Longrightarrow> ccClosing c \<and> \<not> ccUp c" using k unfolding closesInv_def by force
  moreover have "\<exists>yields. listTools sess marshal isPrint server yields = Inr (ccTools c, ccWarnings c)"
    using l unfolding listedInv_def by blast
  ultimately show ?thesis by blast
qed

section \<open>Its tools\<close>

lemma inputSchema_Inr: "inputSchema marshal schema = Inr s \<Longrightarrow> \<exists>obj. marshal (AnyMap obj) = Inr s \<and> inputSchemaTypeKey \<in> fst ` set obj"
  by (auto simp: inputSchema_def Let_def split: any.splits sum.splits if_splits)

definition listed :: "'w mcpSession \<Rightarrow> (any \<Rightarrow> err + string) \<Rightarrow> mcpServer \<Rightarrow> 'w tool \<Rightarrow> bool" where
  "listed sess marshal server t \<longleftrightarrow>
     (\<exists>tool schema. allowed server (stName tool) \<and> inputSchema marshal (stInputSchema tool) = Inr schema
       \<and> t = mcpTool sess marshal server tool schema)"

lemma listToolsLoop_Inr:
  assumes "listToolsLoop sess marshal server yields tools offered = Inr (tools', offered')"
  shows "\<exists>new. tools' = tools @ new \<and> list_all (listed sess marshal server) new
    \<and> offered' = offered @ map stName (map projr yields) \<and> list_all (\<lambda>y. \<not> isl y) yields
    \<and> map (\<lambda>t. (tlName t, tlHandler t)) new = map (\<lambda>n. (ToolName (msName server) n, Some (mcpHandler sess marshal n)))
         (filter (allowed server) (map stName (map projr yields)))"
  using assms
proof (induction yields arbitrary: tools offered)
  case (Cons y yields)
  then obtain tool where y: "y = Inr tool" by (cases y) simp_all
  show ?case
  proof (cases "allowed server (stName tool)")
    case False
    then have "listToolsLoop sess marshal server yields tools (offered @ [stName tool]) = Inr (tools', offered')"
      using Cons.prems y by (simp add: Let_def)
    from Cons.IH [OF this] show ?thesis using y False by simp
  next
    case True
    then obtain schema where s: "inputSchema marshal (stInputSchema tool) = Inr schema"
      using Cons.prems y by (auto simp: Let_def split: sum.splits)
    have rest: "listToolsLoop sess marshal server yields (tools @ [mcpTool sess marshal server tool schema]) (offered @ [stName tool])
        = Inr (tools', offered')" using Cons.prems y True s by (simp add: Let_def)
    obtain new where "tools' = (tools @ [mcpTool sess marshal server tool schema]) @ new" "list_all (listed sess marshal server) new"
      "offered' = (offered @ [stName tool]) @ map stName (map projr yields)" "list_all (\<lambda>y. \<not> isl y) yields"
      "map (\<lambda>t. (tlName t, tlHandler t)) new = map (\<lambda>n. (ToolName (msName server) n, Some (mcpHandler sess marshal n)))
         (filter (allowed server) (map stName (map projr yields)))"
      using Cons.IH [OF rest] by blast
    moreover have "listed sess marshal server (mcpTool sess marshal server tool schema)"
      using True s by (auto simp: listed_def)
    ultimately show ?thesis using y True
      by (intro exI [of _ "mcpTool sess marshal server tool schema # new"]) (simp add: mcpTool_def)
  qed
qed simp

lemma listed_handler: "listed sess marshal server t \<Longrightarrow> \<exists>n. tlHandler t = Some (mcpHandler sess marshal n)"
  by (auto simp: listed_def mcpTool_def)

lemma handler_stopped:
  "sessErr sess w = Some e \<Longrightarrow> mcpHandler sess marshal remote call w = (w, HandlerReturned zeroToolResult (Some e))"
  by (simp add: mcpHandler_def)

lemma listed_tools:
  assumes "listTools sess marshal isPrint server yields = Inr (tools, warnings)"
  shows "list_all (listed sess marshal server) tools \<and> list_all (\<lambda>y. \<not> isl y) yields
    \<and> map (\<lambda>t. (tlName t, tlHandler t)) tools = map (\<lambda>n. (ToolName (msName server) n, Some (mcpHandler sess marshal n)))
         (filter (allowed server) (map stName (map projr yields)))
    \<and> warnings = missingWarnings isPrint (msTools server) (map stName (map projr yields))"
proof -
  obtain offered where o: "listToolsLoop sess marshal server yields [] [] = Inr (tools, offered)"
      "warnings = missingWarnings isPrint (msTools server) offered"
    using assms by (auto simp: listTools_def split: sum.splits)
  show ?thesis using listToolsLoop_Inr [OF o(1)] o(2) by auto
qed

text \<open>
  C35. A server that went away is not called again. Once \<open>Err\<close> gives an error in a reachable
  state, it gives that error in every later state, whatever \<open>Close\<close>, \<open>RefreshTools\<close> and the watch
  still do; a refresh then fails with it and keeps the list; and every tool this connection ever
  listed answers a call with it, an \<open>ErrServerStopped\<close>, without touching the session.
\<close>

theorem mcp_stopped_not_called:
  assumes "mcpReachable sess marshal isPrint server c" and "ccErr c = Some e"
    and "mcpLater sess marshal isPrint c c'" and "sessErr sess w = ccErr c'"
    and "listTools sess marshal isPrint server yields = Inr (tools, warnings)" and "t \<in> set tools"
  shows "err_is e ErrServerStopped \<and> RefreshTools sess marshal isPrint yields' c' = (c', Some e)
    \<and> (\<exists>handle. tlHandler t = Some handle \<and> (\<forall>call. handle call w = (w, HandlerReturned zeroToolResult (Some e))))"
proof -
  have i: "endsInv c" using reachable_inv [OF assms(1)] by blast
  have e: "ccErr c' = Some e" using err_stays [OF assms(3) i assms(2)] by blast
  obtain n where "tlHandler t = Some (mcpHandler sess marshal n)"
    using listed_tools [OF assms(5)] assms(6) unfolding list_all_iff by (blast dest: listed_handler)
  moreover have "sessErr sess w = Some e" using assms(4) e by simp
  then have "\<forall>call. mcpHandler sess marshal n call w = (w, HandlerReturned zeroToolResult (Some e))" by (simp add: handler_stopped)
  moreover have "RefreshTools sess marshal isPrint yields' c' = (c', Some e)" using e by (simp add: RefreshTools_def)
  moreover have "err_is e ErrServerStopped" using i assms(2) by (auto simp: endsInv_def)
  ultimately show ?thesis by blast
qed

text \<open>
  C34. From the name the model uses to the server. Registered in a tool set, an offered tool that
  the caller allowed is found under its \<open>ToolName\<close>, if no other allowed tool of the server has
  that name; while the connection is up its handler calls the server's tool by the server's own
  name for it, with the call's arguments or \<open>{}\<close>, passes a failure on with its cause, and gives
  the model every text part in order, joined by newlines, every image in order and the server's
  error flag.
\<close>

theorem mcp_tool_reaches_server:
  assumes "listTools sess marshal isPrint server yields = Inr (tools, warnings)"
    and "Inr tool \<in> set yields" and "allowed server (stName tool)"
    and "\<And>n. n \<in> stName ` projr ` set yields \<Longrightarrow> allowed server n \<Longrightarrow>
          ToolName (msName server) n = ToolName (msName server) (stName tool) \<Longrightarrow> n = stName tool"
    and "sessErr sess w = None"
    and "sessCallTool sess (stName tool) (if tiArguments call = [] then emptyArguments else tiArguments call) w = (w', answer)"
  shows "\<exists>t handle. toolSetGet (Some (NewToolSet tools)) (ToolName (msName server) (stName tool)) = Some t
    \<and> tlName t = ToolName (msName server) (stName tool) \<and> tlHandler t = Some handle
    \<and> (\<forall>e. answer = Inl e \<longrightarrow> (\<exists>m args. handle call w = (w', HandlerReturned zeroToolResult (Some (Wrapf e m args)))))
    \<and> (\<forall>r. answer = Inr r \<and> (ctContent r \<noteq> [] \<or> ctStructuredContent r = AnyNil) \<longrightarrow>
         handle call w = (w', HandlerReturned
           \<lparr>trContent = join resultPartSeparator (map contentText (filter (\<lambda>c. imageOf c = None) (ctContent r))),
            trIsError = ctIsError r, trImages = List.map_filter imageOf (ctContent r), trMetadata = []\<rparr> None))"
proof -
  let ?n = "stName tool" and ?N = "ToolName (msName server) (stName tool)"
  let ?h = "mcpHandler sess marshal (stName tool)" and ?names = "filter (allowed server) (map stName (map projr yields))"
  have pairs: "map (\<lambda>t. (tlName t, tlHandler t)) tools = map (\<lambda>n. (ToolName (msName server) n, Some (mcpHandler sess marshal n))) ?names"
    using listed_tools [OF assms(1)] by blast
  have "?n \<in> set ?names" using assms(2,3) by (auto simp: image_iff intro!: bexI [of _ "Inr tool"])
  then have "(?N, Some ?h) \<in> set (map (\<lambda>t. (tlName t, tlHandler t)) tools)" unfolding pairs by auto
  then have "?N \<in> tlName ` set tools" by auto
  then have "?N \<in> fst ` set (rev (map (\<lambda>t. (tlName t, t)) tools))" by force
  then have "map_of (rev (map (\<lambda>t. (tlName t, t)) tools)) ?N \<noteq> None" unfolding map_of_eq_None_iff by blast
  then obtain t where t: "map_of (rev (map (\<lambda>t. (tlName t, t)) tools)) ?N = Some t" by blast
  then have in_tools: "t \<in> set tools" "tlName t = ?N" by (auto dest!: map_of_SomeD)
  then have "(?N, tlHandler t) \<in> set (map (\<lambda>t. (tlName t, tlHandler t)) tools)" by force
  then have "\<exists>n \<in> set ?names. (?N, tlHandler t) = (ToolName (msName server) n, Some (mcpHandler sess marshal n))"
    unfolding pairs by (simp only: set_map image_iff)
  then obtain n where n: "n \<in> set ?names" "(?N, tlHandler t) = (ToolName (msName server) n, Some (mcpHandler sess marshal n))"
    by blast
  have "n = ?n" using assms(4) [of n] n by auto
  then have h: "tlHandler t = Some ?h" using n(2) by simp
  have get: "toolSetGet (Some (NewToolSet tools)) ?N = Some t"
    using t by (simp add: toolSetGet_def NewToolSet_register ts.register_get)
  have run: "?h call w = (case answer of
        Inl e \<Rightarrow> (w', HandlerReturned zeroToolResult (Some (Wrapf e ''call MCP tool %s'' [ArgStr ?n])))
      | Inr result \<Rightarrow> (case convertResult marshal result of
            Inl e \<Rightarrow> (w', HandlerReturned zeroToolResult (Some e))
          | Inr converted \<Rightarrow> (w', HandlerReturned converted None)))"
    using assms(5,6) by (cases answer) (simp_all add: mcpHandler_def Let_def)
  have "answer = Inl e \<Longrightarrow> \<exists>m args. ?h call w = (w', HandlerReturned zeroToolResult (Some (Wrapf e m args)))" for e
    unfolding run by simp
  moreover have "answer = Inr r \<and> (ctContent r \<noteq> [] \<or> ctStructuredContent r = AnyNil) \<Longrightarrow>
      ?h call w = (w', HandlerReturned
        \<lparr>trContent = join resultPartSeparator (map contentText (filter (\<lambda>c. imageOf c = None) (ctContent r))),
         trIsError = ctIsError r, trImages = List.map_filter imageOf (ctContent r), trMetadata = []\<rparr> None)" for r
    unfolding run by (simp add: convertResult_parts)
  ultimately show ?thesis using get in_tools(2) h by blast
qed

text \<open>
  C37. What a connection offers is usable as it is. Every tool a connection ever shows has a name
  the providers take and that marks it as an MCP tool, a schema that is the JSON of an object with
  a type, a handler, no bound of its own and no hook or injector, and belongs to a tool the caller
  allowed; the server it came from has exactly one of a command and a URL.
\<close>

theorem mcp_tools_well_formed:
  assumes "mcpReachable sess marshal isPrint server c" and "t \<in> set (ccTools c)"
  shows "length (tlName t) \<le> MaxToolNameLength \<and> plainName (tlName t) \<and> IsToolName (tlName t)
    \<and> (\<exists>obj. marshal (AnyMap obj) = Inr (tlArgumentsSchema t) \<and> inputSchemaTypeKey \<in> fst ` set obj)
    \<and> (\<exists>n. allowed server n \<and> tlName t = ToolName (msName server) n \<and> tlHandler t = Some (mcpHandler sess marshal n))
    \<and> tlTimeout t = 0 \<and> \<not> tlStrictArguments t
    \<and> tlPreRun t = None \<and> tlOnSuccess t = None \<and> tlOnError t = None \<and> tlPostRun t = None
    \<and> tlOnSuccessMessageInjector t = None \<and> tlOnErrorMessageInjector t = None \<and> tlPostRunMessageInjector t = None
    \<and> (trimSpace (msCommand server) \<noteq> []) \<noteq> (msURL server \<noteq> [])"
proof -
  have l: "listedInv sess marshal isPrint server c" using reachable_inv [OF assms(1)] by blast
  then have v: "validServerName (msName server)" "(trimSpace (msCommand server) \<noteq> []) \<noteq> (msURL server \<noteq> [])"
    by (auto simp: listedInv_def validateServer_None)
  obtain yields where "listTools sess marshal isPrint server yields = Inr (ccTools c, ccWarnings c)"
    using l unfolding listedInv_def by blast
  then have "listed sess marshal server t" using listed_tools assms(2) unfolding list_all_iff by blast
  then obtain tool schema where t: "allowed server (stName tool)" "inputSchema marshal (stInputSchema tool) = Inr schema"
    "t = mcpTool sess marshal server tool schema" unfolding listed_def by blast
  show ?thesis
    using tool_name_fits [OF v(1), of "stName tool"] inputSchema_Inr [OF t(2)] t(1) v(2) unfolding t(3)
    by (intro conjI exI [of _ "stName tool"]) (simp_all add: mcpTool_def)
qed

section \<open>Every end is announced\<close>

fun isWatchLabel :: "mcpLabel \<Rightarrow> bool" where
  "isWatchLabel (WatchWake e) = True"
| "isWatchLabel WatchPanic = True"
| "isWatchLabel WatchRecord = True"
| "isWatchLabel WatchClose = True"
| "isWatchLabel l = False"

fun isCloseLabel :: "mcpLabel \<Rightarrow> bool" where
  "isCloseLabel (SessionClose e) = True"
| "isCloseLabel LifetimeStop = True"
| "isCloseLabel l = False"

definition watchRank :: "'w connection \<Rightarrow> nat" where
  "watchRank c = (case ccWatch c of NotWatching \<Rightarrow> 0 | Waiting \<Rightarrow> 3 | Woken e \<Rightarrow> 2 | Ending \<Rightarrow> 1 | Finished \<Rightarrow> 0)"

definition closeRank :: "'w connection \<Rightarrow> nat" where
  "closeRank c = (case ccCloser c of NotClosed \<Rightarrow> 3 | Marked ended \<Rightarrow> 2 | SessionClosed \<Rightarrow> 1 | ClosedFully \<Rightarrow> 0)"

lemma watchRank_0: "watchRank c = 0 \<longleftrightarrow> ccWatch c \<in> {NotWatching, Finished}"
  by (simp add: watchRank_def split: watchPhase.splits)

lemma closeRank_0: "closeRank c = 0 \<longleftrightarrow> ccCloser c = ClosedFully"
  by (simp add: closeRank_def split: closePhase.splits)

interpretation watcher: worker "mcpStep sess marshal isPrint" isWatchLabel watchRank "\<lambda>c. \<not> ccUp c \<and> ccWatch c \<noteq> NotWatching"
  for sess marshal isPrint
proof (unfold_locales, goal_cases)
  case (1 l c c')
  then show ?case by (auto elim!: mcpStepE simp: watchRank_def connection_defs)
next
  case (2 l c c')
  then show ?case by (auto elim!: mcpStepE simp: watchRank_def connection_defs split: sum.splits)
next
  case (3 l c c')
  then show ?case by (auto elim!: mcpStepE simp: connection_defs split: sum.splits if_splits)
next
  case (4 c)
  then have up: "\<not> ccUp c" and "ccWatch c \<noteq> NotWatching" "ccWatch c \<noteq> Finished" by (auto simp: watchRank_def)
  then consider "ccWatch c = Waiting" | e where "ccWatch c = Woken e" | "ccWatch c = Ending" by (cases "ccWatch c") auto
  then show ?case
  proof cases
    case 1
    then show ?thesis using watch_wake [OF 1 up] isWatchLabel.simps(1) by blast
  next
    case 2
    then show ?thesis using watch_record [OF 2] isWatchLabel.simps(3) by blast
  next
    case 3
    then show ?thesis using watch_close [OF 3] isWatchLabel.simps(4) by blast
  qed
qed

interpretation closer: worker "mcpStep sess marshal isPrint" isCloseLabel closeRank "\<lambda>c. ccCloser c \<noteq> NotClosed"
  for sess marshal isPrint
proof (unfold_locales, goal_cases)
  case (1 l c c')
  then show ?case by (auto elim!: mcpStepE simp: closeRank_def connection_defs)
next
  case (2 l c c')
  then show ?case by (auto elim!: mcpStepE simp: closeRank_def connection_defs split: sum.splits)
next
  case (3 l c c')
  then show ?case by (auto elim!: mcpStepE simp: connection_defs split: sum.splits if_splits)
next
  case (4 c)
  then have "ccCloser c \<noteq> NotClosed" "ccCloser c \<noteq> ClosedFully" by (auto simp: closeRank_def)
  then consider ended where "ccCloser c = Marked ended" | "ccCloser c = SessionClosed" by (cases "ccCloser c") auto
  then show ?case
  proof cases
    case 1
    then show ?thesis using session_close [OF 1] isCloseLabel.simps(1) by blast
  next
    case 2
    then show ?thesis using lifetime_stop [OF 2] isCloseLabel.simps(2) by blast
  qed
qed

lemma execution_reachable:
  assumes "execution (mcpStep sess marshal isPrint) run lab" and "mcpReachable sess marshal isPrint server (run 0)"
  shows "mcpReachable sess marshal isPrint server (run i)"
  using execution_induct [OF assms(1), of "mcpReachable sess marshal isPrint server" 0 i] assms(2) stepped by blast

lemma watch_finishes:
  assumes "execution (mcpStep sess marshal isPrint) run lab" and "mcpReachable sess marshal isPrint server (run 0)"
    and "scheduledFairly (mcpStep sess marshal isPrint) isWatchLabel run lab" and "\<not> ccUp (run i)"
  shows "\<exists>j\<ge>i. \<forall>k\<ge>j. ccDone (run k)"
proof -
  have inv: "endsInv (run k)" for k using reachable_inv execution_reachable [OF assms(1,2)] by blast
  then have "\<not> ccUp (run i) \<and> ccWatch (run i) \<noteq> NotWatching" using assms(4) by (simp add: endsInv_def)
  then obtain j where j: "i \<le> j" "\<forall>k\<ge>j. ccWatch (run k) \<noteq> NotWatching \<and> watchRank (run k) = 0"
    using watcher.finishes [OF assms(1,3)] by blast
  have "ccDone (run k)" if "j \<le> k" for k
    using j(2) that inv [of k] by (auto simp: watchRank_0 endsInv_def)
  then show ?thesis using j(1) by blast
qed

text \<open>
  C32. The end of a connection is announced. In every execution in which the watch is scheduled
  fairly, a session that goes down leads to a \<open>Done\<close> that is closed and stays closed; and if the
  call of \<open>Close\<close> is scheduled fairly too (so that \<open>session.Close\<close> returns), a connection someone
  began to close ends with \<open>Done\<close> closed, the session down and its lifetime context cancelled,
  whatever else runs meanwhile.
\<close>

theorem mcp_done_closes:
  assumes "execution (mcpStep sess marshal isPrint) run lab" and "mcpReachable sess marshal isPrint server (run 0)"
    and "scheduledFairly (mcpStep sess marshal isPrint) isWatchLabel run lab"
  shows "(\<not> ccUp (run i) \<longrightarrow> (\<exists>j\<ge>i. \<forall>k\<ge>j. ccDone (run k)))
    \<and> (ccClosing (run i) \<and> scheduledFairly (mcpStep sess marshal isPrint) isCloseLabel run lab \<longrightarrow>
         (\<exists>j\<ge>i. \<forall>k\<ge>j. ccDone (run k) \<and> ccStopped (run k) \<and> \<not> ccUp (run k)))"
proof -
  have inv: "closesInv (run k)" for k using reachable_inv execution_reachable [OF assms(1,2)] by blast
  have "\<exists>j\<ge>i. \<forall>k\<ge>j. ccDone (run k) \<and> ccStopped (run k) \<and> \<not> ccUp (run k)"
    if "ccClosing (run i)" and fair: "scheduledFairly (mcpStep sess marshal isPrint) isCloseLabel run lab"
  proof -
    have "ccCloser (run i) \<noteq> NotClosed" using that(1) inv [of i] by (simp add: closesInv_def)
    then obtain j where j: "i \<le> j" "\<forall>k\<ge>j. ccCloser (run k) \<noteq> NotClosed \<and> closeRank (run k) = 0"
      using closer.finishes [OF assms(1) fair] by blast
    have closed: "ccStopped (run k) \<and> \<not> ccUp (run k)" if "j \<le> k" for k
    proof -
      have "ccCloser (run k) = ClosedFully" using j(2) that by (simp add: closeRank_0)
      then show ?thesis using inv [of k] by (simp add: closesInv_def)
    qed
    then obtain m where "j \<le> m" "\<forall>k\<ge>m. ccDone (run k)" using watch_finishes [OF assms, of j] by blast
    then show ?thesis using closed j(1) by (meson order.trans)
  qed
  then show ?thesis using watch_finishes [OF assms] by blast
qed

section \<open>A concrete connection\<close>

text \<open>The world is the names of the tools called so far and what \<open>Err\<close> gives.\<close>

definition demoSession :: "(string list \<times> err option) mcpSession" where
  "demoSession = \<lparr>sessErr = snd, sessCallTool = (\<lambda>n a w. ((fst w @ [n], snd w),
     Inr \<lparr>ctContent = [TextContent ''a'', ImageContent ''png'' ''image/png'', ResourceLink ''b''],
          ctStructuredContent = AnyNil, ctIsError = False\<rparr>))\<rparr>"

abbreviation demoMarshal :: "any \<Rightarrow> err + string" where "demoMarshal \<equiv> \<lambda>x. Inr ''{}''"
abbreviation demoPrint :: "rune \<Rightarrow> bool" where "demoPrint \<equiv> \<lambda>r. True"

definition demoRemote :: sdkTool where
  "demoRemote = \<lparr>stName = ''log'', stDescription = ''The log.'', stInputSchema = AnyNil\<rparr>"

abbreviation demoTool :: "(string list \<times> err option) tool" where
  "demoTool \<equiv> mcpTool demoSession demoMarshal remoteServer demoRemote ''{}''"

abbreviation "demoStep \<equiv> mcpStep demoSession demoMarshal demoPrint"

definition demoConnection :: "(string list \<times> err option) connection" where
  "demoConnection = (storeTools ([demoTool], []) (newConnection remoteServer))\<lparr>ccWatch := Waiting\<rparr>"

lemma demo_lists: "listTools demoSession demoMarshal demoPrint remoteServer [Inr demoRemote] = Inr ([demoTool], [])"
  by (simp add: listTools_def Let_def allowed_def remoteServer_def inputSchema_def demoRemote_def missingWarnings_def)

lemma demo_reachable: "mcpReachable demoSession demoMarshal demoPrint remoteServer demoConnection"
  by (rule connected [where yields = "[Inr demoRemote]" and closeResult = None and d = "Some demoConnection"])
    (simp add: Connect_Inr remoteServer_valid openSession_def demo_lists demoConnection_def)

theorem mcp_connection_ends_witness:
  "\<exists>c. c = fst (Close None demoConnection) \<and> ccStopped c \<and> ccClosing c \<and> \<not> ccUp c"
proof -
  let ?c = "fst (Close None demoConnection)"
  have "mcpReachable demoSession demoMarshal demoPrint remoteServer ?c"
    using reachable_later [OF Close_steps demo_reachable] .
  moreover have "ccStopped ?c"
    by (simp add: Close_def Let_def connection_defs demoConnection_def newConnection_def)
  ultimately show ?thesis using mcp_connection_ends [of demoSession demoMarshal demoPrint remoteServer ?c] by blast
qed

theorem mcp_tools_well_formed_witness:
  "demoTool \<in> set (ccTools demoConnection) \<and> IsToolName (tlName demoTool) \<and> length (tlName demoTool) \<le> MaxToolNameLength"
proof -
  have "demoTool \<in> set (ccTools demoConnection)" by (simp add: demoConnection_def storeTools_def)
  with mcp_tools_well_formed [OF demo_reachable this] show ?thesis by blast
qed

text \<open>The connection after its server went away and the watch recorded it.\<close>

definition demoGone :: "(string list \<times> err option) connection" where
  "demoGone = watchRecord None (demoConnection\<lparr>ccUp := False, ccWatch := Woken None\<rparr>)"

lemma demo_gone: "mcpReachable demoSession demoMarshal demoPrint remoteServer demoGone"
proof -
  have "demoStep ServerGone demoConnection (demoConnection\<lparr>ccUp := False\<rparr>)"
    by (rule server_gone) (simp add: demoConnection_def storeTools_def newConnection_def)
  moreover have "demoStep (WatchWake None) (demoConnection\<lparr>ccUp := False\<rparr>) (demoConnection\<lparr>ccUp := False, ccWatch := Woken None\<rparr>)"
    using watch_wake [of "demoConnection\<lparr>ccUp := False\<rparr>" demoSession demoMarshal demoPrint None] by (simp add: demoConnection_def)
  moreover have "demoStep WatchRecord (demoConnection\<lparr>ccUp := False, ccWatch := Woken None\<rparr>) demoGone"
    unfolding demoGone_def by (rule watch_record) simp
  ultimately show ?thesis using stepped demo_reachable by meson
qed

theorem mcp_stopped_not_called_witness:
  "\<exists>e handle. err_is e ErrServerStopped \<and> tlHandler demoTool = Some handle
     \<and> (\<forall>call. handle call ([], Some e) = (([], Some e), HandlerReturned zeroToolResult (Some e)))"
proof -
  obtain e where e: "ccErr demoGone = Some e" by (simp add: demoGone_def watchRecord_def demoConnection_def storeTools_def newConnection_def)
  let ?c = "fst (Close None demoGone)"
  have "ccErr ?c = Some e" using e by (simp add: Close_def Let_def connection_defs)
  then show ?thesis
    using mcp_stopped_not_called [OF demo_gone e Close_steps, of "([], Some e)" None "[Inr demoRemote]" "[demoTool]" "[]" demoTool "[]"]
      demo_lists by (fastforce simp: demoSession_def)
qed

theorem mcp_tool_reaches_server_witness:
  "\<exists>t handle. toolSetGet (Some (NewToolSet [demoTool])) ''mcp__git__log'' = Some t \<and> tlHandler t = Some handle
     \<and> handle \<lparr>tiName = ''mcp__git__log'', tiCallID = ''c1'', tiArguments = []\<rparr> ([], None) =
         (([''log''], None), HandlerReturned
           \<lparr>trContent = ''a'' @ [of_byte 10] @ ''[resource link: b]'', trIsError = False,
            trImages = [\<lparr>imgURL = [], imgData = ''png'', imgMediaType = ''image/png'', imgDetail = []\<rparr>], trMetadata = []\<rparr> None)"
proof -
  have "keepsName ''git'' ''log''" and "namePrefix ''git'' @ ''log'' = ''mcp__git__log''" by code_simp+
  then have n: "ToolName ''git'' ''log'' = ''mcp__git__log''" by (simp add: ToolName_kept)
  show ?thesis
    using mcp_tool_reaches_server [OF demo_lists, of demoRemote "([], None)"
        "\<lparr>tiName = ''mcp__git__log'', tiCallID = ''c1'', tiArguments = []\<rparr>" "([''log''], None)"] n
    by (auto simp: demoRemote_def demoSession_def allowed_def remoteServer_def resultPartSeparator_def map_filter_simps)
qed

text \<open>An execution in which the connection is closed and then nothing happens any more.\<close>

definition demoLabels :: "mcpLabel list" where
  "demoLabels = [CloseBegin, SessionClose None, LifetimeStop, WatchWake None, WatchRecord, WatchClose]"

definition demoStates :: "(string list \<times> err option) connection list" where
  "demoStates =
     (let c1 = closeMark demoConnection; c2 = closeSession None False c1; c3 = closeStop c2; c4 = c3\<lparr>ccWatch := Woken None\<rparr>;
          c5 = watchRecord None c4
      in [demoConnection, c1, c2, c3, c4, c5, watchClose c5])"

definition demoRun :: "nat \<Rightarrow> (string list \<times> err option) connection" where
  "demoRun i = demoStates ! min i 6"

definition demoLab :: "nat \<Rightarrow> mcpLabel option" where
  "demoLab i = (if i < 6 then Some (demoLabels ! i) else None)"

lemma demo_phases:
  "ccCloser demoConnection = NotClosed" "ccErr demoConnection = None" "ccWatch demoConnection = Waiting" "\<not> ccClosing demoConnection"
  by (simp_all add: demoConnection_def storeTools_def newConnection_def)

lemma demo_execution: "execution demoStep demoRun demoLab"
proof -
  let ?s = "\<lambda>i. demoStep (demoLabels ! i) (demoStates ! i) (demoStates ! Suc i)"
  note [simp] = demoLabels_def demoStates_def Let_def
  have s0: "?s 0" using close_begin [of demoConnection] demo_phases by simp
  have s1: "?s 1" using session_close [of "demoStates ! 1" False] demo_phases by (simp add: closeMark_def)
  have s2: "?s 2" using lifetime_stop [of "demoStates ! 2"] by (simp add: closeSession_def)
  have s3: "?s 3" using watch_wake [of "demoStates ! 3"] demo_phases by (simp add: connection_defs)
  have s4: "?s 4" using watch_record [of "demoStates ! 4" None] by simp
  have s5: "?s 5" using watch_close [of "demoStates ! 5"] by (simp add: watchRecord_def numeral_eq_Suc)
  show ?thesis unfolding execution_def
  proof
    fix i :: nat
    consider "i \<in> {0, 1, 2, 3, 4, 5}" | "i \<ge> 6" by fastforce
    then show "case demoLab i of None \<Rightarrow> demoRun (Suc i) = demoRun i | Some l \<Rightarrow> demoStep l (demoRun i) (demoRun (Suc i))"
    proof cases
      case 1
      then have "?s i" and "i < 6" using s0 s1 s2 s3 s4 s5 by auto
      then show ?thesis by (simp add: demoLab_def demoRun_def min_def del: demoLabels_def demoStates_def)
    next
      case 2
      then show ?thesis by (simp add: demoLab_def demoRun_def min_def)
    qed
  qed
qed

lemma demo_fair:
  assumes "\<And>l c'. mine l \<Longrightarrow> \<not> demoStep l (demoStates ! 6) c'"
  shows "scheduledFairly demoStep mine demoRun demoLab"
proof -
  have "\<not> (\<forall>j\<ge>i. \<exists>l s'. mine l \<and> demoStep l (demoRun j) s')" for i
  proof
    assume "\<forall>j\<ge>i. \<exists>l s'. mine l \<and> demoStep l (demoRun j) s'"
    then have "\<exists>l s'. mine l \<and> demoStep l (demoRun (max i 6)) s'" by simp
    moreover have "demoRun (max i 6) = demoStates ! 6" by (simp add: demoRun_def)
    ultimately show False using assms by metis
  qed
  then show ?thesis unfolding scheduledFairly_def by blast
qed

lemma demo_end: "ccWatch (demoStates ! 6) = Finished \<and> ccCloser (demoStates ! 6) = ClosedFully"
  using demo_phases by (simp add: demoStates_def Let_def connection_defs numeral_eq_Suc)

theorem mcp_done_closes_witness:
  "\<exists>j. \<forall>k\<ge>j. ccDone (demoRun k) \<and> ccStopped (demoRun k) \<and> \<not> ccUp (demoRun k)"
proof -
  have "scheduledFairly demoStep isWatchLabel demoRun demoLab" and "scheduledFairly demoStep isCloseLabel demoRun demoLab"
    using demo_end by (auto intro!: demo_fair elim!: mcpStepE)
  moreover have "mcpReachable demoSession demoMarshal demoPrint remoteServer (demoRun 0)"
    using demo_reachable by (simp add: demoRun_def demoStates_def Let_def)
  moreover have "ccClosing (demoRun 1)" by (simp add: demoRun_def demoStates_def Let_def closeMark_def)
  ultimately show ?thesis using mcp_done_closes [OF demo_execution, of remoteServer 1] by blast
qed

end
