(* ===== verification/JsonArrays.thy ===== *)
theory JsonArrays
  imports JsonCodec
begin

text \<open>
  Arrays and integers of the JSON codec: what is written reads back, wherever it stands in a
  document.
\<close>

section \<open>Integers\<close>

lemma jdigit_of_byte: "n < 10 \<Longrightarrow> jdigit (of_byte (48 + n))"
  by (simp add: jdigit_def digit_val_of_byte)

lemma digits_of_jdigit: "list_all jdigit (digits_of n)"
proof (induction n rule: digits_of.induct)
  case (1 n)
  then show ?case by (subst digits_of.simps) (simp add: jdigit_of_byte)
qed

lemma digits_of_nonzero: "0 < n \<Longrightarrow> \<exists>d ds. 0 < d \<and> d < 10 \<and> digits_of n = of_byte (48 + d) # ds"
proof (induction n rule: digits_of.induct)
  case (1 n)
  show ?case
  proof (cases "n < 10")
    case True
    then show ?thesis using 1(2) by (subst digits_of.simps) auto
  next
    case False
    then have "0 < n div 10" by (simp add: div_greater_zero_iff)
    then obtain d ds where "0 < d" "d < 10" "digits_of (n div 10) = of_byte (48 + d) # ds" using 1(1) False by blast
    with False show ?thesis by (subst digits_of.simps) auto
  qed
qed

lemma jdigit_char:
  assumes "jdigit c"
  shows "c \<notin> {CHR 0x22, CHR ''{'', CHR '']'', CHR ''['', CHR ''}'', CHR ''-'', CHR ''t'', CHR ''f'', CHR ''n''}" "\<not> jspace c" "\<not> jdelim c"
proof -
  have b: "48 \<le> byte_of c" "byte_of c \<le> 57" using assms by (auto simp: jdigit_def digit_val_def Let_def split: if_splits)
  show "c \<notin> {CHR 0x22, CHR ''{'', CHR '']'', CHR ''['', CHR ''}'', CHR ''-'', CHR ''t'', CHR ''f'', CHR ''n''}" "\<not> jspace c" "\<not> jdelim c"
    using b by (auto simp: byte_of_def jspace_def jdelim_def)
qed

lemma staysOpen_digits: "list_all jdigit ds \<Longrightarrow> staysOpen ds"
proof (induction ds)
  case (Cons c ds)
  then have "staysOpen [c]" using jdigit_char(1) [of c] by (intro staysOpen_char) auto
  then show ?case using Cons staysOpen_append [of "[c]" ds] by simp
qed (simp add: staysOpen_Nil)

lemma digits_of_not_Nil: "digits_of n \<noteq> []"
  using digits_of_head [of n] by auto

lemma rawValue_digits: "rawValue (digits_of n)"
proof -
  let ?v = "digits_of n"
  obtain c cs where v: "?v = c # cs" using digits_of_not_Nil [of n] by (cases ?v) auto
  have d: "list_all jdigit ?v" by (rule digits_of_jdigit)
  have "takeWhile (\<lambda>x. \<not> jdelim x) ?v = ?v \<and> dropWhile (\<lambda>x. \<not> jdelim x) ?v = []"
    using d jdigit_char(3) by (auto simp: takeWhile_eq_all_conv dropWhile_eq_Nil_conv list_all_iff)
  moreover have "c \<noteq> CHR 0x22" "c \<noteq> CHR ''{''" "c \<noteq> CHR ''[''" using d v jdigit_char(1) [of c] by auto
  ultimately have "skipValue ?v = Some (?v, [])" using v by (simp add: skipValue_def)
  moreover have "skipRest (1, 0) (?v @ ''}'') = Some (?v @ ''}'', [])"
    using staysOpen_digits [OF d] by (simp add: staysOpen_def skipStep_def)
  ultimately show ?thesis using digits_of_not_Nil by (simp add: rawValue_def)
qed

lemma jrun_J1_digits: "list_all jdigit ds \<Longrightarrow> jrun (J1, k) ds = Some (J1, k)"
  by (induction ds) auto

lemma valueAt_digits: "valueAt k (digits_of n)"
proof (cases "n = 0")
  case True
  have "digits_of 0 = ''0''" by code_simp
  then have "digits_of n = ''0''" using True by simp
  then show ?thesis by (simp add: valueAt_def beginValue_def jspace_def)
next
  case False
  then obtain d ds where d: "0 < d" "d < 10" "digits_of n = of_byte (48 + d) # ds" using digits_of_nonzero [of n] by auto
  let ?c = "of_byte (48 + d)"
  have c: "jdigit ?c" using d(2) by (rule jdigit_of_byte)
  have "byte_of ?c = 48 + d" "byte_of (CHR ''0'') = 48" using d(2) by (simp, code_simp)
  then have "?c \<noteq> CHR ''0''" using d(1) by auto
  then have "beginValue ?c k = Some (J1, k)" using c jdigit_char [OF c] by (simp add: beginValue_def)
  moreover have "list_all jdigit ds" using digits_of_jdigit [of n] d(3) by simp
  ultimately show ?thesis by (simp add: valueAt_def d(3) jrun_J1_digits)
qed

lemma itoa_int [simp]: "itoa (int n) = digits_of n"
  by (simp add: itoa_def)

lemma storeInt_itoa: "n < 2 ^ 63 \<Longrightarrow> storeInt old (digits_of n) = Some (int n)"
proof -
  assume n: "n < 2 ^ 63"
  obtain c cs where v: "digits_of n = c # cs" using digits_of_not_Nil [of n] by (cases "digits_of n") auto
  then have "jdigit c" using digits_of_jdigit [of n] by simp
  then have "\<not> isNull (digits_of n)" using v jdigit_char(1) [of c] by (auto simp: isNull_def)
  moreover have "int n < 2 ^ 63" using n by (metis of_nat_less_iff of_nat_numeral of_nat_power)
  then have "parseInt64 (digits_of n) = Some (int n)"
    using parseInt64_itoa [of "int n"] by (simp add: int64_def)
  ultimately show ?thesis using v \<open>jdigit c\<close> by (simp add: storeInt_def)
qed

section \<open>Arrays\<close>

lemma joined_items:
  "join '','' (v # vs) @ t = v @ (if vs = [] then t else CHR '','' # join '','' vs @ t)"
  by (simp add: join_Cons)

lemma arrayItems_members:
  assumes "vs \<noteq> []" and "list_all rawValue vs" and "\<forall>v \<in> set vs. hd v \<noteq> CHR '']''"
  shows "arrayItems (join '','' vs @ CHR '']'' # t) = Some vs"
  using assms
proof (induction vs)
  case (Cons v vs)
  have raw: "rawValue v" using Cons.prems by simp
  define u where "u = (if vs = [] then CHR '']'' # t else CHR '','' # join '','' vs @ CHR '']'' # t)"
  obtain d u' where u: "u = d # u'" and d: "d = (if vs = [] then CHR '']'' else CHR '','')"
    by (cases "vs = []") (simp_all add: u_def)
  have jd: "jdelim d" "\<not> jspace d" using d by (auto simp: jdelim_def jspace_def)
  obtain c cs where v: "v = c # cs" using rawValue_head(2) [OF raw] by (cases v) auto
  have c: "c \<noteq> CHR '']''" using Cons.prems(3) v by simp
  have "dropWhile jspace (v @ u) = c # cs @ u" using rawValue_head(1) [OF raw, of u] v by simp
  moreover have "skipValue (c # cs @ u) = Some (v, u)" using skipValue_raw [OF raw jd(1), of u'] u v by simp
  ultimately have r: "arrayItems (v @ u) = (if d = CHR '','' then map_option (\<lambda>xs. v # xs) (arrayItems u') else Some [v])"
    using u jd(2) c by (subst arrayItems.simps) simp
  have s: "join '','' (v # vs) @ CHR '']'' # t = v @ u" unfolding joined_items u_def ..
  show ?case
  proof (cases "vs = []")
    case True
    then show ?thesis unfolding s r using d by simp
  next
    case False
    then have "u' = join '','' vs @ CHR '']'' # t" using u by (auto simp: u_def)
    then have "arrayItems u' = Some vs" using Cons.IH Cons.prems False by simp
    then show ?thesis unfolding s r using d False by simp
  qed
qed simp

lemma arrayItems_encode:
  assumes "list_all rawValue vs" and "\<forall>v \<in> set vs. hd v \<noteq> CHR '']''"
  shows "arrayItems (tl (encodeArray vs)) = Some vs"
proof (cases "vs = []")
  case True
  then show ?thesis by (subst arrayItems.simps) (simp add: encodeArray_def jspace_def)
next
  case False
  then show ?thesis using arrayItems_members [OF False assms, of "[]"] by (simp add: encodeArray_def)
qed

lemma staysOpen_items: "list_all staysOpen vs \<Longrightarrow> staysOpen (join '','' vs)"
proof (induction vs)
  case (Cons v vs)
  have "staysOpen ([CHR '',''] @ join '','' vs)"
    using Cons by (intro staysOpen_append staysOpen_char) simp_all
  then show ?case using Cons staysOpen_append [of v "[CHR '',''] @ join '','' vs"] by (auto simp: join_Cons)
qed (simp add: staysOpen_Nil)

lemma rawValue_array:
  assumes "list_all rawValue vs"
  shows "rawValue (encodeArray vs)"
proof -
  have "list_all staysOpen vs" using assms rawValue_staysOpen by (auto simp: list_all_iff)
  note o = staysOpen_items [OF this, unfolded staysOpen_def]
  have "skipRest (1, 0) (join '','' vs @ '']'') = Some (join '','' vs @ '']'', [])"
    using o by (simp add: skipStep_def)
  moreover have "skipRest (2, 0) (join '','' vs @ '']}'') = Some (join '','' vs @ '']}'', [])"
    using o by (simp add: skipStep_def)
  ultimately show ?thesis by (simp add: rawValue_def encodeArray_def skipValue_def skipStep_def numeral_2_eq_2)
qed

lemma jrun_items:
  assumes "vs \<noteq> []" and "list_all (valueAt (ParseArrayValue # st)) vs"
  shows "jrun (JBeginValue, ParseArrayValue # st) (join '','' vs @ CHR '']'' # t) = jrun (if st = [] then JEndTop else JEndValue, st) t"
  using assms
proof (induction vs)
  case (Cons v vs)
  have va: "valueAt (ParseArrayValue # st) v" using Cons.prems by simp
  show ?case
  proof (cases "vs = []")
    case True
    then show ?thesis using jrun_valueAt [OF va, of "CHR '']''" t] by (simp add: endValue_def jspace_def jpop_def)
  next
    case False
    then show ?thesis using jrun_valueAt [OF va, of "CHR '',''"] Cons.IH [OF False] Cons.prems
      unfolding joined_items by (simp add: endValue_def jspace_def)
  qed
qed simp

lemma valueAt_array:
  assumes "list_all (valueAt (ParseArrayValue # st)) vs" and "\<forall>v \<in> set vs. v \<noteq> [] \<and> hd v \<noteq> CHR '']'' \<and> \<not> jspace (hd v)"
    and "length st < maxNestingDepth" and "st \<noteq> []"
  shows "valueAt st (encodeArray vs)"
proof (cases "vs = []")
  case True
  then show ?thesis using assms(3,4)
    by (simp add: valueAt_def encodeArray_def beginValue_def jspace_def jpush_def endValue_def jpop_def)
next
  case False
  then obtain c x where j: "join '','' vs = c # x" "c \<noteq> CHR '']''" "\<not> jspace c"
  proof -
    obtain v ws where v: "vs = v # ws" using False by (cases vs) auto
    obtain c cs where "v = c # cs" "c \<noteq> CHR '']''" "\<not> jspace c" using assms(2) v by (cases v) auto
    then show ?thesis using that v by (simp add: join_Cons)
  qed
  have "jrun (JBeginValueOrEmpty, ParseArrayValue # st) (join '','' vs @ '']'') = jrun (JBeginValue, ParseArrayValue # st) (join '','' vs @ '']'')"
    using j by simp
  then show ?thesis using jrun_items [OF False assms(1), of "[]"] assms(3,4)
    by (simp add: valueAt_def encodeArray_def beginValue_def jspace_def jpush_def)
qed

end
