(* ===== verification/AnthropicCodec.thy ===== *)
theory AnthropicCodec
  imports AnthropicStream OpenAIReasoning JsonArrays
begin

text \<open>
  The JSON the Anthropic driver itself reads and writes (\<open>drivers/anthropic/translate.go\<close>,
  \<open>errors.go\<close>): the envelope of stored reasoning, the type of a stored block and the code of an
  error body, and with them the driver's token counter (\<open>tokens.go\<close>). They fill the places the
  call and translation models leave open for a codec; what the SDK decodes stays an argument.
\<close>

section \<open>Reading\<close>

text \<open>
  An array decodes item by item into the items the target already has, which are none unless
  the member comes twice.
\<close>

fun storeItems :: "('a \<Rightarrow> string \<Rightarrow> 'a option) \<Rightarrow> 'a \<Rightarrow> 'a list \<Rightarrow> string list \<Rightarrow> 'a list option" where
  "storeItems f z old [] = Some []"
| "storeItems f z old (x # xs) =
     (case f (case old of [] \<Rightarrow> z | y # _ \<Rightarrow> y) x of
        None \<Rightarrow> None
      | Some y \<Rightarrow> map_option (\<lambda>ys. y # ys) (storeItems f z (tl old) xs))"

abbreviation blockFields :: "string list" where
  "blockFields \<equiv> [''index'', ''block'']"

definition setBlock :: "string \<Rightarrow> string \<Rightarrow> int \<times> string \<Rightarrow> (int \<times> string) option" where
  "setBlock name v b = (if name = ''index'' then map_option (\<lambda>i. (i, snd b)) (storeInt (fst b) v) else Some (fst b, v))"

definition storeBlocks :: "(int \<times> string) list \<Rightarrow> string \<Rightarrow> (int \<times> string) list option" where
  "storeBlocks old raw =
     (if isNull raw then Some []
      else if opens (CHR ''['') raw then
        Option.bind (arrayItems (tl raw)) (storeItems (storeStruct blockFields setBlock) (0, []) old)
      else None)"

abbreviation envelopeFields :: "string list" where
  "envelopeFields \<equiv> [''provider'', ''version'', ''model'', ''blocks'']"

definition setAnEnvelope :: "string \<Rightarrow> string \<Rightarrow> anEnvelope \<Rightarrow> anEnvelope option" where
  "setAnEnvelope name v e =
     (if name = ''provider'' then map_option (\<lambda>x. e\<lparr>evProvider := x\<rparr>) (storeString (evProvider e) v)
      else if name = ''version'' then map_option (\<lambda>x. e\<lparr>evVersion := x\<rparr>) (storeInt (evVersion e) v)
      else if name = ''model'' then map_option (\<lambda>x. e\<lparr>evModel := x\<rparr>) (storeString (evModel e) v)
      else map_option (\<lambda>x. e\<lparr>evBlocks := x\<rparr>) (storeBlocks (evBlocks e) v))"

definition decodeProviderReasoningEnvelope :: "string \<Rightarrow> anEnvelope option" where
  "decodeProviderReasoningEnvelope raw =
     unmarshal (storeStruct envelopeFields setAnEnvelope \<lparr>evProvider = [], evVersion = 0, evModel = [], evBlocks = []\<rparr>) raw"

definition reasoningBlockType :: "string \<Rightarrow> string" where
  "reasoningBlockType raw =
     (case unmarshal (storeStruct [''type''] (\<lambda>_ v s. storeString s v) []) raw of None \<Rightarrow> [] | Some t \<Rightarrow> t)"

text \<open>The code of an error body, or else the type the SDK gives the error.\<close>

definition anthropicErrorCode :: "(string \<Rightarrow> string) \<Rightarrow> string \<Rightarrow> string" where
  "anthropicErrorCode sdkType raw =
     (case unmarshal (storeStruct [''error''] (\<lambda>_ v s. storeStruct [''code''] (\<lambda>_ v s. storeString s v) s v) []) raw of
        Some code \<Rightarrow> if code \<noteq> [] then code else sdkType raw
      | None \<Rightarrow> sdkType raw)"

section \<open>Writing\<close>

definition encodeBlock :: "int \<times> string \<Rightarrow> string option" where
  "encodeBlock b = map_option (\<lambda>raw. encodeObject [(''index'', itoa (fst b)), (''block'', raw)]) (marshalRaw (snd b))"

definition encodeEnvelope :: "anEnvelope \<Rightarrow> err + string" where
  "encodeEnvelope e =
     (case those (map encodeBlock (evBlocks e)) of
        None \<Rightarrow> Inl jsonError
      | Some items \<Rightarrow> Inr (encodeObject
          [(''provider'', jsonString (evProvider e)), (''version'', itoa (evVersion e)), (''model'', jsonString (evModel e)),
           (''blocks'', encodeArray items)]))"

text \<open>The driver's own codec in the places the models have for it.\<close>

definition anthropicJSONCodec :: "(string \<Rightarrow> string) \<Rightarrow> anthropicCodec \<Rightarrow> anthropicCodec" where
  "anthropicJSONCodec sdkType ac = ac\<lparr>acEncode := encodeEnvelope, acErrorCode := anthropicErrorCode sdkType\<rparr>"

definition anthropicJSONEnv :: "anthropicEnv \<Rightarrow> anthropicEnv" where
  "anthropicJSONEnv ae = ae\<lparr>aeEnvelope := decodeProviderReasoningEnvelope, aeBlockType := reasoningBlockType\<rparr>"

section \<open>Counting tokens\<close>

text \<open>
  A message is counted with the thinking blocks that would be replayed with it and without its
  reasoning text. \<open>encodeBlocks\<close> is \<open>json.Marshal\<close> of the SDK's blocks and \<open>base\<close> the default
  counter. Without a model the envelope's own model is assumed.
\<close>

definition anthropicCountedMessage ::
  "anthropicEnv \<Rightarrow> (anBlock list \<Rightarrow> err + string) \<Rightarrow> string \<Rightarrow> message \<Rightarrow> err + message" where
  "anthropicCountedMessage ae encodeBlocks modelID m =
     (let stripped = m\<lparr>mReasoning := [], mProviderReasoning := []\<rparr> in
      if mRole m \<noteq> RoleAssistant \<or> \<not> HasProviderReasoning (mProviderReasoning m) then Inr stripped
      else
        let modelID = (if modelID = [] then (case aeEnvelope ae (mProviderReasoning m) of None \<Rightarrow> [] | Some ev \<Rightarrow> evModel ev)
                       else modelID)
        in case insertProviderReasoning ae modelID [] (mProviderReasoning m) of
             Inl e \<Rightarrow> Inl (Wrap e ''project counted thinking blocks'')
           | Inr blocks \<Rightarrow>
               if length blocks = 0 then Inr stripped
               else (case encodeBlocks blocks of
                       Inl e \<Rightarrow> Inl (Wrap e ''encode counted thinking blocks'')
                     | Inr encoded \<Rightarrow> Inr (stripped\<lparr>mProviderReasoning := encoded\<rparr>)))"

definition anthropicTokenCount ::
  "anthropicEnv \<Rightarrow> (anBlock list \<Rightarrow> err + string) \<Rightarrow> 't counter \<Rightarrow> model \<Rightarrow> 't counter" where
  "anthropicTokenCount ae encodeBlocks base mdl messages tools =
     (case collect (anthropicCountedMessage ae encodeBlocks (mdID mdl)) messages of
        Inl e \<Rightarrow> Inl e
      | Inr normalized \<Rightarrow>
          (case base normalized tools of Inl e \<Rightarrow> Inl (Wrap e ''count Anthropic wire messages'') | Inr n \<Rightarrow> Inr n))"

definition anthropicTokenCounter ::
  "anthropicEnv \<Rightarrow> (anBlock list \<Rightarrow> err + string) \<Rightarrow> 'w tool counter \<Rightarrow> 'w tokenCounter" where
  "anthropicTokenCounter ae encodeBlocks base =
     ModelCounter (anthropicTokenCount ae encodeBlocks base (bareModel [])) (anthropicTokenCount ae encodeBlocks base)"

section \<open>What is written reads back\<close>

text \<open>
  A stored block: the JSON of a reasoning block as \<open>Marshal\<close> writes it, not nested deeper than
  the scanner allows inside an envelope.
\<close>

definition storedBlock :: "string \<Rightarrow> bool" where
  "storedBlock raw \<longleftrightarrow> json_valid raw \<and> jcompact 0 raw = raw \<and> rawValue raw
     \<and> valueAt [ParseObjectValue, ParseArrayValue, ParseObjectValue] raw"

abbreviation blockMembers :: "nat \<times> string \<Rightarrow> (string \<times> string) list" where
  "blockMembers b \<equiv> [(''index'', digits_of (fst b)), (''block'', snd b)]"

lemma block_names: "ascii ''index'' \<and> ascii ''block''"
  by code_simp

lemma encodeBlock_stored:
  "storedBlock raw \<Longrightarrow> encodeBlock (int n, raw) = Some (encodeObject (blockMembers (n, raw)))"
  by (simp add: encodeBlock_def marshalRaw_def storedBlock_def)

lemma blockMembers_raw:
  assumes "storedBlock raw"
  shows "list_all (\<lambda>(k, v). rawValue v) (blockMembers (n, raw))"
    "list_all (\<lambda>(k, v). valueAt [ParseObjectValue, ParseArrayValue, ParseObjectValue] v) (blockMembers (n, raw))"
  using assms rawValue_digits valueAt_digits by (simp_all add: storedBlock_def)

lemma storeBlock_stored:
  assumes "storedBlock raw" and "n < 2 ^ 63"
  shows "storeStruct blockFields setBlock (0, []) (encodeObject (blockMembers (n, raw))) = Some (int n, raw)"
proof -
  have f: "fieldOf blockFields ''index'' = Some ''index''" "fieldOf blockFields ''block'' = Some ''block''" by code_simp+
  have r: "readKey ''index'' = ''index''" "readKey ''block'' = ''block''" using block_names readKey_ascii by blast+
  have s: "setBlock ''index'' (digits_of n) (0, []) = Some (int n, [])" "setBlock ''block'' raw (int n, []) = Some (int n, raw)"
    using storeInt_itoa [OF assms(2)] by (simp_all add: setBlock_def)
  show ?thesis
    using storeStruct_object [OF blockMembers_raw(1) [OF assms(1), of n], of blockFields setBlock "(0, [])"]
    by (simp only: list.map prod.case fst_conv snd_conv r storeFields.simps f option.case s Option.bind.bind_lunit)
qed

lemma blocks_roundtrip:
  assumes "list_all (\<lambda>(n, raw). storedBlock raw \<and> n < 2 ^ 63) bs"
  shows "\<exists>items. those (map encodeBlock (map (\<lambda>(n, raw). (int n, raw)) bs)) = Some items
    \<and> rawValue (encodeArray items) \<and> valueAt [ParseObjectValue] (encodeArray items)
    \<and> storeBlocks [] (encodeArray items) = Some (map (\<lambda>(n, raw). (int n, raw)) bs)"
proof -
  let ?item = "\<lambda>b. encodeObject (blockMembers b)"
  let ?items = "map ?item bs"
  have st: "storedBlock raw" "n < 2 ^ 63" if "(n, raw) \<in> set bs" for n raw
    using assms that by (auto simp: list_all_iff)
  have h: "v \<noteq> [] \<and> hd v \<noteq> CHR '']'' \<and> \<not> jspace (hd v)" if "v \<in> set ?items" for v
    using that by (auto simp: encodeObject_def jspace_def)
  have "rawValue (?item b)" if "b \<in> set bs" for b
  proof -
    obtain n raw where b: "b = (n, raw)" by (cases b)
    show ?thesis unfolding b using rawValue_object [OF blockMembers_raw(1) [OF st(1)]] that b by blast
  qed
  then have raws: "list_all rawValue ?items" by (auto simp: list_all_iff)
  have "map encodeBlock (map (\<lambda>(n, raw). (int n, raw)) bs) = map (\<lambda>b. Some (?item b)) bs"
    using encodeBlock_stored st(1) by auto
  then have "those (map encodeBlock (map (\<lambda>(n, raw). (int n, raw)) bs)) = Some ?items" by (simp only: those_map_Some)
  moreover have "rawValue (encodeArray ?items)" by (rule rawValue_array [OF raws])
  moreover have "valueAt [ParseArrayValue, ParseObjectValue] (?item b)" if "b \<in> set bs" for b
  proof -
    obtain n raw where b: "b = (n, raw)" by (cases b)
    have "storedBlock raw" using st(1) that b by blast
    from valueAt_object [OF blockMembers_raw(2) [OF this]] show ?thesis unfolding b by (simp add: maxNestingDepth_def)
  qed
  then have "valueAt [ParseObjectValue] (encodeArray ?items)"
    using h by (intro valueAt_array) (auto simp: list_all_iff maxNestingDepth_def)
  moreover have "storeItems (storeStruct blockFields setBlock) (0, []) [] (map ?item xs) = Some (map (\<lambda>(n, raw). (int n, raw)) xs)"
    if "set xs \<subseteq> set bs" for xs
    using that
  proof (induction xs)
    case (Cons x xs)
    obtain n raw where x: "x = (n, raw)" by (cases x)
    then have "storeStruct blockFields setBlock (0, []) (?item x) = Some (int n, raw)"
      using storeBlock_stored [OF st [of n raw]] Cons.prems by simp
    then show ?case using Cons x by simp
  qed simp
  then have "storeBlocks [] (encodeArray ?items) = Some (map (\<lambda>(n, raw). (int n, raw)) bs)"
    using arrayItems_encode [OF raws] h by (simp add: storeBlocks_def isNull_def opens_def encodeArray_def)
  ultimately show ?thesis by blast
qed

definition reasoningEnvelopeOf :: "string \<Rightarrow> (nat \<times> string) list \<Rightarrow> anEnvelope" where
  "reasoningEnvelopeOf i bs = \<lparr>evProvider = ''anthropic'', evVersion = providerReasoningVersion, evModel = i,
     evBlocks = map (\<lambda>(n, raw). (int n, raw)) bs\<rparr>"

lemma envelope_roundtrip:
  assumes "list_all (\<lambda>(n, raw). storedBlock raw \<and> n < 2 ^ 63) bs" and "validUTF8 i"
  shows "\<exists>payload. encodeEnvelope (reasoningEnvelopeOf i bs) = Inr payload \<and> HasProviderReasoning payload
    \<and> decodeProviderReasoningEnvelope payload = Some (reasoningEnvelopeOf i bs)"
proof -
  obtain items where items: "those (map encodeBlock (map (\<lambda>(n, raw). (int n, raw)) bs)) = Some items"
    "rawValue (encodeArray items)" "valueAt [ParseObjectValue] (encodeArray items)"
    "storeBlocks [] (encodeArray items) = Some (map (\<lambda>(n, raw). (int n, raw)) bs)"
    using blocks_roundtrip [OF assms(1)] by blast
  have v: "itoa providerReasoningVersion = ''1''" "providerReasoningVersion = 1"
    by (code_simp, simp add: providerReasoningVersion_def)
  let ?es = "[(''provider'', jsonString ''anthropic''), (''version'', ''1''), (''model'', jsonString i), (''blocks'', encodeArray items)]"
  let ?zero = "\<lparr>evProvider = [], evVersion = 0, evModel = [], evBlocks = []\<rparr> :: anEnvelope"
  have enc: "encodeEnvelope (reasoningEnvelopeOf i bs) = Inr (encodeObject ?es)"
    using items(1) v(1) by (simp add: encodeEnvelope_def reasoningEnvelopeOf_def)
  have raw: "list_all (\<lambda>(k, v). rawValue v) ?es" and val: "list_all (\<lambda>(k, v). valueAt [ParseObjectValue] v) ?es"
    using items(2,3) by (simp_all add: rawValue_jsonString valueAt_jsonString small_numbers)
  have "ascii ''provider''" "ascii ''version''" "ascii ''model''" "ascii ''blocks''" by code_simp+
  then have keys: "readKey ''provider'' = ''provider''" "readKey ''version'' = ''version''" "readKey ''model'' = ''model''"
    "readKey ''blocks'' = ''blocks''" using readKey_ascii by blast+
  have f: "fieldOf envelopeFields ''provider'' = Some ''provider''" "fieldOf envelopeFields ''version'' = Some ''version''"
    "fieldOf envelopeFields ''model'' = Some ''model''" "fieldOf envelopeFields ''blocks'' = Some ''blocks''" by code_simp+
  have "ascii ''anthropic''" by code_simp
  then have a: "string_of_runes (runes ''anthropic'') = ''anthropic''" by (simp only: runes_ascii string_of_runes_ascii)
  have s: "setAnEnvelope ''provider'' (jsonString ''anthropic'') e = Some (e\<lparr>evProvider := ''anthropic''\<rparr>)"
    "setAnEnvelope ''model'' (jsonString i) e = Some (e\<lparr>evModel := i\<rparr>)" for e
    by (simp_all add: setAnEnvelope_def storeString_jsonString a string_of_runes_valid [OF assms(2)])
  have s2: "evVersion e = 0 \<Longrightarrow> setAnEnvelope ''version'' ''1'' e = Some (e\<lparr>evVersion := 1\<rparr>)"
    "evBlocks e = [] \<Longrightarrow> setAnEnvelope ''blocks'' (encodeArray items) e = Some (e\<lparr>evBlocks := map (\<lambda>(n, raw). (int n, raw)) bs\<rparr>)" for e
    by (simp_all add: setAnEnvelope_def small_numbers items(4))
  have "decodeProviderReasoningEnvelope (encodeObject ?es) = storeFields envelopeFields setAnEnvelope ?es ?zero"
    using storeStruct_object [OF raw, of envelopeFields setAnEnvelope ?zero] keys
    by (simp add: decodeProviderReasoningEnvelope_def unmarshal_object [OF val])
  also have "\<dots> = Some (reasoningEnvelopeOf i bs)"
    by (simp add: f s s2 reasoningEnvelopeOf_def v(2))
  finally show ?thesis using enc HasProviderReasoning_object by blast
qed

lemma reasoningBlocks_json:
  assumes "list_all (\<lambda>b. isReasoningBlockType (rbType b) \<longrightarrow> rbRaw b \<noteq> []) content"
  shows "\<exists>ns. reasoningBlocks ac n content = Inr (map (\<lambda>(n, raw). (int n, raw))
      (zip ns (map rbRaw (filter (\<lambda>b. isReasoningBlockType (rbType b)) content))))
    \<and> length ns = length (filter (\<lambda>b. isReasoningBlockType (rbType b)) content)
    \<and> sorted ns \<and> list_all (\<lambda>k. n \<le> k \<and> k < n + length content) ns"
  using assms
proof (induction content arbitrary: n)
  case (Cons b content)
  obtain ns where ns: "reasoningBlocks ac (Suc n) content = Inr (map (\<lambda>(n, raw). (int n, raw))
      (zip ns (map rbRaw (filter (\<lambda>b. isReasoningBlockType (rbType b)) content))))"
    "length ns = length (filter (\<lambda>b. isReasoningBlockType (rbType b)) content)" "sorted ns"
    "list_all (\<lambda>k. Suc n \<le> k \<and> k < Suc n + length content) ns"
    using Cons.IH [of "Suc n"] Cons.prems by auto
  show ?case
  proof (cases "isReasoningBlockType (rbType b)")
    case False
    then show ?thesis using ns by (intro exI [of _ ns]) (auto simp: list_all_iff)
  next
    case True
    then show ?thesis using ns Cons.prems by (intro exI [of _ "n # ns"]) (auto simp: list_all_iff)
  qed
qed simp

lemma sorted_blocks_decode:
  assumes "sorted ns" and "length ns = length raws"
    and "\<And>raw. raw \<in> set raws \<Longrightarrow> isReasoningBlockType (aeBlockType ae raw) \<and> aeBlock ae raw = None"
  shows "decodeReasoningBlocks ae (sort_key fst (map (\<lambda>(n, raw). (int n, raw)) (zip ns raws))) = Inr (map AnReasoning raws)"
proof -
  let ?xs = "map (\<lambda>(n, raw). (int n, raw)) (zip ns raws)"
  have "map fst ?xs = map int (map fst (zip ns raws))" and "map snd ?xs = map snd (zip ns raws)" by (simp_all add: split_def)
  then have fs: "map fst ?xs = map int ns" "map snd ?xs = raws" using assms(2) by simp_all
  then have "sorted (map fst ?xs)" using assms(1) by (simp add: sorted_map)
  then have "sort_key fst ?xs = ?xs" by (rule sort_key_id_if_sorted)
  moreover have "decodeReasoningBlocks ae ?xs = Inr (map (AnReasoning \<circ> snd) ?xs)"
    using assms(3) fs(2) by (intro decodeReasoningBlocks_ok) (auto simp: list_all_iff dest: set_zip_rightD)
  moreover have "map (AnReasoning \<circ> snd) ?xs = map AnReasoning (map snd ?xs)" by (simp add: comp_assoc)
  ultimately show ?thesis by (simp only: fs(2))
qed

text \<open>
  C30. Reasoning survives storage. The blocks of a reply whose JSON the provider sent are stored
  under the model that produced them, and a later turn of that model replays exactly those
  blocks, byte for byte and in their order, in front of its own; for another model nothing is
  replayed. A reply without reasoning stores nothing.
\<close>

theorem anthropic_reasoning_roundtrip:
  assumes "\<And>b. b \<in> set content \<Longrightarrow> isReasoningBlockType (rbType b) \<Longrightarrow>
      storedBlock (rbRaw b) \<and> reasoningBlockType (rbRaw b) = rbType b \<and> aeBlock ae (rbRaw b) = None"
    and "validUTF8 i" and "length content < 2 ^ 63"
  shows "\<exists>payload. marshalProviderReasoning (anthropicJSONCodec sdkType ac) i content = Inr payload
    \<and> insertProviderReasoning (anthropicJSONEnv ae) i own payload =
        Inr (map (AnReasoning \<circ> rbRaw) (filter (\<lambda>b. isReasoningBlockType (rbType b)) content) @ own)
    \<and> (j \<noteq> i \<longrightarrow> insertProviderReasoning (anthropicJSONEnv ae) j own payload = Inr own)
    \<and> (payload = [] \<longleftrightarrow> filter (\<lambda>b. isReasoningBlockType (rbType b)) content = [])"
proof -
  let ?ac = "anthropicJSONCodec sdkType ac" and ?ae = "anthropicJSONEnv ae"
  let ?blocks = "filter (\<lambda>b. isReasoningBlockType (rbType b)) content"
  have "list_all (\<lambda>b. isReasoningBlockType (rbType b) \<longrightarrow> rbRaw b \<noteq> []) content"
    using assms(1) by (auto simp: list_all_iff storedBlock_def rawValue_def)
  from reasoningBlocks_json [OF this, of ?ac 0] obtain ns where ns:
    "reasoningBlocks ?ac 0 content = Inr (map (\<lambda>(n, raw). (int n, raw)) (zip ns (map rbRaw ?blocks)))"
    "length ns = length ?blocks" "sorted ns" "list_all (\<lambda>k. k < length content) ns" by auto
  let ?bs = "zip ns (map rbRaw ?blocks)"
  have "storedBlock raw \<and> n < 2 ^ 63" if "(n, raw) \<in> set ?bs" for n raw
  proof -
    have "n \<in> set ns" "raw \<in> set (map rbRaw ?blocks)" using that by (auto dest: set_zip_leftD set_zip_rightD)
    then show ?thesis using assms(1,3) ns(4) by (fastforce simp: list_all_iff)
  qed
  then have st: "list_all (\<lambda>(n, raw). storedBlock raw \<and> n < 2 ^ 63) ?bs" by (auto simp: list_all_iff)
  obtain payload where p: "encodeEnvelope (reasoningEnvelopeOf i ?bs) = Inr payload" "HasProviderReasoning payload"
    "decodeProviderReasoningEnvelope payload = Some (reasoningEnvelopeOf i ?bs)"
    using envelope_roundtrip [OF st assms(2)] by blast
  show ?thesis
  proof (cases "?blocks = []")
    case True
    moreover have "\<not> HasProviderReasoning []" by code_simp
    ultimately show ?thesis using ns by (simp add: marshalProviderReasoning_def insertProviderReasoning_def)
  next
    case False
    have m: "marshalProviderReasoning ?ac i content = Inr payload"
      using ns(1,2) p(1) False by (simp add: marshalProviderReasoning_def anthropicJSONCodec_def reasoningEnvelopeOf_def)
    have "\<not> HasProviderReasoning []" by code_simp
    then have pn: "payload \<noteq> []" using p(2) by blast
    have "isReasoningBlockType (aeBlockType ?ae raw) \<and> aeBlock ?ae raw = None" if "raw \<in> set (map rbRaw ?blocks)" for raw
      using that assms(1) by (fastforce simp: anthropicJSONEnv_def)
    then have d: "decodeReasoningBlocks ?ae (sort_key fst (map (\<lambda>(n, raw). (int n, raw)) ?bs)) = Inr (map (AnReasoning \<circ> rbRaw) ?blocks)"
      using sorted_blocks_decode [OF ns(3), of "map rbRaw ?blocks" ?ae] ns(2) by simp
    have env: "aeEnvelope ?ae payload = Some (reasoningEnvelopeOf i ?bs)" using p(3) by (simp add: anthropicJSONEnv_def)
    have "insertProviderReasoning ?ae i own payload = Inr (map (AnReasoning \<circ> rbRaw) ?blocks @ own)"
      using env p(2) d by (simp add: insertProviderReasoning_def reasoningEnvelopeOf_def)
    moreover have "insertProviderReasoning ?ae j own payload = Inr own" if "j \<noteq> i"
      using env p(2) that by (simp add: insertProviderReasoning_def reasoningEnvelopeOf_def)
    ultimately show ?thesis using m pn False by blast
  qed
qed

lemma thinkingBlock_stored:
  "storedBlock ''{\"type\":\"thinking\",\"thinking\":\"hm\",\"signature\":\"s\"}''
   \<and> reasoningBlockType ''{\"type\":\"thinking\",\"thinking\":\"hm\",\"signature\":\"s\"}'' = ''thinking''"
  by code_simp

definition thinkingReply :: "anReplyBlock list" where
  "thinkingReply = [(sampleBlock ''thinking'')\<lparr>rbRaw := ''{\"type\":\"thinking\",\"thinking\":\"hm\",\"signature\":\"s\"}''\<rparr>]"

theorem anthropic_reasoning_roundtrip_witness:
  "\<exists>payload. marshalProviderReasoning (anthropicJSONCodec (\<lambda>_. []) sampleCodec) ''claude-opus-5'' thinkingReply = Inr payload
    \<and> insertProviderReasoning (anthropicJSONEnv anSampleEnv) ''claude-opus-5'' [AnText ''x'' NoCache] payload =
        Inr [AnReasoning ''{\"type\":\"thinking\",\"thinking\":\"hm\",\"signature\":\"s\"}'', AnText ''x'' NoCache]
    \<and> insertProviderReasoning (anthropicJSONEnv anSampleEnv) ''claude-fable-5'' [AnText ''x'' NoCache] payload = Inr [AnText ''x'' NoCache]"
proof -
  have t: "isReasoningBlockType (rbType (sampleBlock ''thinking''))" "rbType (sampleBlock ''thinking'') = ''thinking''" by code_simp+
  have h: "storedBlock (rbRaw b) \<and> reasoningBlockType (rbRaw b) = rbType b \<and> aeBlock anSampleEnv (rbRaw b) = None"
    if "b \<in> set thinkingReply" "isReasoningBlockType (rbType b)" for b
    using that thinkingBlock_stored t by (auto simp: thinkingReply_def anSampleEnv_def)
  have "ascii ''claude-opus-5''" by code_simp
  then have v: "validUTF8 ''claude-opus-5''" by (rule validUTF8_ascii)
  have n: "''claude-fable-5'' \<noteq> ''claude-opus-5''" by code_simp
  have f: "filter (\<lambda>b. isReasoningBlockType (rbType b)) thinkingReply = thinkingReply" using t by (simp add: thinkingReply_def)
  have l: "length thinkingReply < 2 ^ 63" by (simp add: thinkingReply_def)
  have "map (AnReasoning \<circ> rbRaw) thinkingReply @ [AnText ''x'' NoCache]
      = [AnReasoning ''{\"type\":\"thinking\",\"thinking\":\"hm\",\"signature\":\"s\"}'', AnText ''x'' NoCache]"
    by (simp add: thinkingReply_def)
  then show ?thesis
    using anthropic_reasoning_roundtrip [OF h v l, where sdkType = "\<lambda>_. []" and ac = sampleCodec and own = "[AnText ''x'' NoCache]"
        and j = "''claude-fable-5''"] n unfolding f by metis
qed

section \<open>What is counted is what is sent\<close>

lemma insertProviderReasoning_own:
  "insertProviderReasoning ae i own raw =
     (case insertProviderReasoning ae i [] raw of Inl e \<Rightarrow> Inl e | Inr rs \<Rightarrow> Inr (rs @ own))"
  by (simp add: insertProviderReasoning_def split: option.splits sum.splits)

lemma insertProviderReasoning_blocks:
  "insertProviderReasoning ae i [] raw = Inr rs \<Longrightarrow> \<exists>raws. rs = map AnReasoning raws"
  by (auto dest!: insertProviderReasoning_Inr) (metis map_map)

text \<open>
  The Anthropic driver's counter prices what the driver sends. When a turn of the assistant
  translates for the model, the thinking blocks in front of the translation are exactly what its
  counted form carries in place of the reasoning, encoded; nothing is counted when none is
  replayed, and the readable reasoning text, which is never sent, is never counted.
\<close>

theorem anthropic_counts_what_it_sends:
  assumes "toAssistantBlocks ae (mdID mdl) m = Inr bs" and "mRole m = RoleAssistant" and "mdID mdl \<noteq> []"
    and "\<And>xs. encodeBlocks xs = Inr (enc xs)"
  shows "\<exists>raws own. bs = map AnReasoning raws @ own \<and> (\<forall>raw. AnReasoning raw \<notin> set own)
    \<and> anthropicTokenCount ae encodeBlocks base mdl [m] tools =
        (case base [m\<lparr>mReasoning := [], mProviderReasoning := if raws = [] then [] else enc (map AnReasoning raws)\<rparr>] tools of
           Inl e \<Rightarrow> Inl (Wrap e ''count Anthropic wire messages'') | Inr n \<Rightarrow> Inr n)"
proof -
  obtain uses where u: "list_all2 (\<lambda>c b. toToolUseBlock ae c = Inr b) (mToolCalls m) uses"
    and ins: "insertProviderReasoning ae (mdID mdl) ((if messageText m \<noteq> [] then [AnText (messageText m) NoCache] else []) @ uses)
       (mProviderReasoning m) = Inr bs"
    using assms(1) by (auto simp: toAssistantBlocks_def collect_Inr split: sum.splits)
  let ?own = "(if messageText m \<noteq> [] then [AnText (messageText m) NoCache] else []) @ uses"
  obtain rs where rs: "insertProviderReasoning ae (mdID mdl) [] (mProviderReasoning m) = Inr rs" "bs = rs @ ?own"
    using ins insertProviderReasoning_own [of ae "mdID mdl" ?own] by (auto split: sum.splits)
  obtain raws where raws: "rs = map AnReasoning raws" using insertProviderReasoning_blocks [OF rs(1)] by blast
  have "AnReasoning raw \<notin> set uses" for raw
    using u by (induction rule: list_all2_induct) (auto simp: toToolUseBlock_def Let_def split: if_splits)
  then have own: "\<forall>raw. AnReasoning raw \<notin> set ?own" by auto
  have none: "raws = []" if "\<not> HasProviderReasoning (mProviderReasoning m)"
    using rs(1) raws that by (simp add: insertProviderReasoning_def)
  have "anthropicCountedMessage ae encodeBlocks (mdID mdl) m =
      Inr (m\<lparr>mReasoning := [], mProviderReasoning := if raws = [] then [] else enc (map AnReasoning raws)\<rparr>)"
    using assms(2-4) rs(1) raws none by (auto simp: anthropicCountedMessage_def Let_def)
  then have "anthropicTokenCount ae encodeBlocks base mdl [m] tools =
        (case base [m\<lparr>mReasoning := [], mProviderReasoning := if raws = [] then [] else enc (map AnReasoning raws)\<rparr>] tools of
           Inl e \<Rightarrow> Inl (Wrap e ''count Anthropic wire messages'') | Inr n \<Rightarrow> Inr n)"
    by (simp add: anthropicTokenCount_def)
  then show ?thesis using rs(2) raws own by blast
qed

definition thinkingTurn :: message where
  "thinkingTurn = emptyMessage\<lparr>mRole := RoleAssistant, mContent := Text ''hi'', mReasoning := ''hm'', mProviderReasoning := ''E''\<rparr>"

definition thinkingEnv :: anthropicEnv where
  "thinkingEnv = anSampleEnv\<lparr>
     aeEnvelope := \<lambda>p. if p = ''E'' then Some \<lparr>evProvider = ''anthropic'', evVersion = 1, evModel = ''claude-opus-5'', evBlocks = [(0, ''R'')]\<rparr> else None,
     aeBlockType := \<lambda>raw. ''thinking'', aeBlock := \<lambda>raw. None\<rparr>"

theorem anthropic_counts_what_it_sends_witness:
  "\<exists>raws own. [AnReasoning ''R'', AnText ''hi'' NoCache] = map AnReasoning raws @ own
    \<and> anthropicTokenCount thinkingEnv (\<lambda>xs. Inr ''[R]'') (\<lambda>ms ts. Inr (int (length (mProviderReasoning (hd ms))))) (bareModel ''claude-opus-5'')
        [thinkingTurn] [] = Inr (if raws = [] then 0 else 3)"
proof -
  have h: "HasProviderReasoning ''E''" "isReasoningBlockType ''thinking''" by code_simp+
  have t: "messageText thinkingTurn = ''hi''" "mToolCalls thinkingTurn = []" "mProviderReasoning thinkingTurn = ''E''" "mRole thinkingTurn = RoleAssistant"
    by code_simp+
  have m: "mdID (bareModel ''claude-opus-5'') = ''claude-opus-5''" by code_simp
  have b: "toAssistantBlocks thinkingEnv (mdID (bareModel ''claude-opus-5'')) thinkingTurn = Inr [AnReasoning ''R'', AnText ''hi'' NoCache]"
    using h t m by (simp add: toAssistantBlocks_def insertProviderReasoning_def thinkingEnv_def providerReasoningVersion_def)
  have "mdID (bareModel ''claude-opus-5'') \<noteq> []" using m by simp
  from anthropic_counts_what_it_sends [OF b t(4) this, of "\<lambda>xs. Inr ''[R]''" "\<lambda>xs. ''[R]''"
      "\<lambda>ms ts. Inr (int (length (mProviderReasoning (hd ms))))" "[]"]
  show ?thesis by (auto split: if_splits)
qed

end
