(* ===== verification/DriverOptions.thy ===== *)
theory DriverOptions
  imports ZaiCoding
begin

text \<open>
  How the drivers are put together (\<open>NewDriver\<close> and the options of \<open>drivers/openai\<close>,
  \<open>drivers/anthropic\<close> and \<open>drivers/zaicoding\<close>). A functional option is the constructor that
  makes it with its arguments, and applying it is what its closure does. The SDK's request options
  are values the SDKs apply in order, after the ones they derive from the environment, so a later
  one wins; \<open>'c\<close> is an HTTP client and \<open>'o\<close> any other option of the SDK. \<open>sanitize\<close> is
  \<open>SanitizeBaseURL\<close>, which is URL parsing.
\<close>

datatype ('c, 'o) sdkOption =
    MaxRetries int
  | BaseURL string
  | APIKey string
  | AdminAPIKey string
  | Organization string
  | Project string
  | HeaderDel string
  | HTTPClient 'c
  | NoEnvironment
  | OtherOption 'o

section \<open>OpenAI\<close>

record ('c, 'o) openaiDriverConfig =
  dcOptions :: "('c, 'o) sdkOption list"
  dcAssistantMessageExtra :: "assistantMessageExtra option"
  dcFinishReasonMapper :: "finishReasonMapper option"

datatype ('c, 'o) openaiOption =
    OaWithAPIKey string
  | OaWithoutEnvironmentDefaults
  | OaWithBaseURL string
  | OaWithHTTPClient 'c
  | OaWithSDKOptions "('c, 'o) sdkOption list"
  | OaWithAssistantMessageExtra assistantMessageExtra
  | OaWithFinishReasonMapper finishReasonMapper

abbreviation sdkRetryAttempts :: int where "sdkRetryAttempts \<equiv> 0"

text \<open>\<open>strings.Split\<close> on newlines, and the names before the colons.\<close>

fun splitLines :: "string \<Rightarrow> string \<Rightarrow> string list" where
  "splitLines acc [] = [acc]"
| "splitLines acc (c # cs) = (if c = CHR 0x0A then acc # splitLines [] cs else splitLines (acc @ [c]) cs)"

definition environmentHeaderNames :: "string \<Rightarrow> string list" where
  "environmentHeaderNames customHeaders =
     concat (map (\<lambda>line. case cut (CHR '':'') line of (name, _, found) \<Rightarrow>
         if \<not> found then [] else (let name = trimSpace name in if name = [] then [] else [name]))
       (splitLines [] customHeaders))"

definition withoutEnvironment :: "string \<Rightarrow> ('c, 'o) sdkOption list" where
  "withoutEnvironment customHeaders =
     [BaseURL ''https://api.openai.com/v1/'', APIKey [], AdminAPIKey [], Organization [], Project []]
     @ map HeaderDel (environmentHeaderNames customHeaders)"

text \<open>\<open>customHeaders\<close> is the value of \<open>OPENAI_CUSTOM_HEADERS\<close>, empty when it is unset.\<close>

fun applyOpenAIOption ::
  "(string \<Rightarrow> string) \<Rightarrow> string \<Rightarrow> ('c, 'o) openaiOption \<Rightarrow> ('c, 'o) openaiDriverConfig \<Rightarrow> ('c, 'o) openaiDriverConfig" where
  "applyOpenAIOption sanitize customHeaders (OaWithAPIKey key) cfg =
     (if key = [] then cfg else cfg\<lparr>dcOptions := dcOptions cfg @ [APIKey key]\<rparr>)"
| "applyOpenAIOption sanitize customHeaders OaWithoutEnvironmentDefaults cfg =
     cfg\<lparr>dcOptions := dcOptions cfg @ withoutEnvironment customHeaders\<rparr>"
| "applyOpenAIOption sanitize customHeaders (OaWithBaseURL baseURL) cfg =
     (if baseURL = [] then cfg else cfg\<lparr>dcOptions := dcOptions cfg @ [BaseURL (sanitize baseURL)]\<rparr>)"
| "applyOpenAIOption sanitize customHeaders (OaWithHTTPClient client) cfg = cfg\<lparr>dcOptions := dcOptions cfg @ [HTTPClient client]\<rparr>"
| "applyOpenAIOption sanitize customHeaders (OaWithSDKOptions opts) cfg = cfg\<lparr>dcOptions := dcOptions cfg @ opts\<rparr>"
| "applyOpenAIOption sanitize customHeaders (OaWithAssistantMessageExtra extra) cfg = cfg\<lparr>dcAssistantMessageExtra := Some extra\<rparr>"
| "applyOpenAIOption sanitize customHeaders (OaWithFinishReasonMapper mapper) cfg = cfg\<lparr>dcFinishReasonMapper := Some mapper\<rparr>"

text \<open>The driver is its configuration: the SDK's client is made of the options. A nil option is skipped.\<close>

definition openai_NewDriver :: "(string \<Rightarrow> string) \<Rightarrow> string \<Rightarrow> ('c, 'o) openaiOption option list \<Rightarrow> ('c, 'o) openaiDriverConfig" where
  "openai_NewDriver sanitize customHeaders opts =
     foldl (\<lambda>cfg opt. case opt of None \<Rightarrow> cfg | Some o' \<Rightarrow> applyOpenAIOption sanitize customHeaders o' cfg)
       \<lparr>dcOptions = [MaxRetries sdkRetryAttempts], dcAssistantMessageExtra = None, dcFinishReasonMapper = None\<rparr> opts"

section \<open>Anthropic\<close>

datatype ('c, 'o) anthropicOption =
    AnWithAPIKey string
  | AnWithoutEnvironmentDefaults
  | AnWithBaseURL string
  | AnWithHTTPClient 'c
  | AnWithSDKOptions "('c, 'o) sdkOption list"

fun anthropicSDKOptions :: "(string \<Rightarrow> string) \<Rightarrow> ('c, 'o) anthropicOption \<Rightarrow> ('c, 'o) sdkOption list" where
  "anthropicSDKOptions sanitize (AnWithAPIKey key) = [APIKey key]"
| "anthropicSDKOptions sanitize AnWithoutEnvironmentDefaults = [NoEnvironment]"
| "anthropicSDKOptions sanitize (AnWithBaseURL baseURL) = [BaseURL (sanitize baseURL)]"
| "anthropicSDKOptions sanitize (AnWithHTTPClient client) = [HTTPClient client]"
| "anthropicSDKOptions sanitize (AnWithSDKOptions opts) = opts"

definition anthropic_NewDriver :: "(string \<Rightarrow> string) \<Rightarrow> ('c, 'o) anthropicOption option list \<Rightarrow> ('c, 'o) sdkOption list" where
  "anthropic_NewDriver sanitize opts =
     foldl (\<lambda>cfg opt. case opt of None \<Rightarrow> cfg | Some o' \<Rightarrow> cfg @ anthropicSDKOptions sanitize o') [MaxRetries 0] opts"

section \<open>Z.ai Coding\<close>

definition DefaultBaseURL :: string where
  "DefaultBaseURL = ''https://api.z.ai/api/coding/paas/v4''"

record ('c, 'o) zaiDriverConfig =
  zcAPIKey :: string
  zcBaseURL :: string
  zcHTTPClient :: "'c option"
  zcSDKOptions :: "('c, 'o) sdkOption list"

datatype ('c, 'o) zaiOption =
    ZaiWithAPIKey string
  | ZaiWithBaseURL string
  | ZaiWithHTTPClient "'c option"
  | ZaiWithSDKOptions "('c, 'o) sdkOption list"

fun applyZaiOption :: "('c, 'o) zaiOption \<Rightarrow> ('c, 'o) zaiDriverConfig \<Rightarrow> ('c, 'o) zaiDriverConfig" where
  "applyZaiOption (ZaiWithAPIKey apiKey) cfg = cfg\<lparr>zcAPIKey := apiKey\<rparr>"
| "applyZaiOption (ZaiWithBaseURL baseURL) cfg = (if trimSpace baseURL \<noteq> [] then cfg\<lparr>zcBaseURL := baseURL\<rparr> else cfg)"
| "applyZaiOption (ZaiWithHTTPClient client) cfg = cfg\<lparr>zcHTTPClient := client\<rparr>"
| "applyZaiOption (ZaiWithSDKOptions opts) cfg = cfg\<lparr>zcSDKOptions := zcSDKOptions cfg @ opts\<rparr>"

definition zaiConfig :: "('c, 'o) zaiOption option list \<Rightarrow> ('c, 'o) zaiDriverConfig" where
  "zaiConfig opts =
     foldl (\<lambda>cfg opt. case opt of None \<Rightarrow> cfg | Some o' \<Rightarrow> applyZaiOption o' cfg)
       \<lparr>zcAPIKey = [], zcBaseURL = DefaultBaseURL, zcHTTPClient = None, zcSDKOptions = []\<rparr> opts"

definition zai_NewDriver :: "(string \<Rightarrow> string) \<Rightarrow> string \<Rightarrow> ('c, 'o) zaiOption option list \<Rightarrow> ('c, 'o) openaiDriverConfig" where
  "zai_NewDriver sanitize customHeaders opts =
     (let cfg = zaiConfig opts;
          options = [OaWithoutEnvironmentDefaults, OaWithAPIKey (zcAPIKey cfg), OaWithBaseURL (zcBaseURL cfg),
            OaWithAssistantMessageExtra providerReasoningExtra, OaWithFinishReasonMapper zai_finishReason]
            @ (case zcHTTPClient cfg of None \<Rightarrow> [] | Some c \<Rightarrow> [OaWithHTTPClient c])
            @ (if length (zcSDKOptions cfg) > 0 then [OaWithSDKOptions (zcSDKOptions cfg)] else [])
      in openai_NewDriver sanitize customHeaders (map Some options))"

section \<open>The setting that wins\<close>

fun lastSetting :: "('o \<Rightarrow> 'a option) \<Rightarrow> 'o list \<Rightarrow> 'a option" where
  "lastSetting f [] = None"
| "lastSetting f (x # xs) = (case lastSetting f xs of None \<Rightarrow> f x | Some y \<Rightarrow> Some y)"

fun baseURLOf :: "('c, 'o) sdkOption \<Rightarrow> string option" where
  "baseURLOf (BaseURL u) = Some u"
| "baseURLOf opt = None"

fun apiKeyOf :: "('c, 'o) sdkOption \<Rightarrow> string option" where
  "apiKeyOf (APIKey k) = Some k"
| "apiKeyOf opt = None"

fun adminKeyOf :: "('c, 'o) sdkOption \<Rightarrow> string option" where
  "adminKeyOf (AdminAPIKey k) = Some k"
| "adminKeyOf opt = None"

fun organizationOf :: "('c, 'o) sdkOption \<Rightarrow> string option" where
  "organizationOf (Organization k) = Some k"
| "organizationOf opt = None"

fun projectOf :: "('c, 'o) sdkOption \<Rightarrow> string option" where
  "projectOf (Project k) = Some k"
| "projectOf opt = None"

fun retriesOf :: "('c, 'o) sdkOption \<Rightarrow> int option" where
  "retriesOf (MaxRetries n) = Some n"
| "retriesOf opt = None"

lemma lastSetting_append:
  "lastSetting f (xs @ ys) = (case lastSetting f ys of None \<Rightarrow> lastSetting f xs | Some y \<Rightarrow> Some y)"
  by (induction xs) (simp_all split: option.split)

lemma lastSetting_headers [simp]:
  "lastSetting baseURLOf (map HeaderDel ns) = None" "lastSetting apiKeyOf (map HeaderDel ns) = None"
  "lastSetting adminKeyOf (map HeaderDel ns) = None" "lastSetting organizationOf (map HeaderDel ns) = None"
  "lastSetting projectOf (map HeaderDel ns) = None" "lastSetting retriesOf (map HeaderDel ns) = None"
  by (induction ns) simp_all

lemma zai_options:
  "dcOptions (zai_NewDriver sanitize headers opts) =
     [MaxRetries 0] @ withoutEnvironment headers
     @ (if zcAPIKey (zaiConfig opts) = [] then [] else [APIKey (zcAPIKey (zaiConfig opts))])
     @ (if zcBaseURL (zaiConfig opts) = [] then [] else [BaseURL (sanitize (zcBaseURL (zaiConfig opts)))])
     @ (case zcHTTPClient (zaiConfig opts) of None \<Rightarrow> [] | Some c \<Rightarrow> [HTTPClient c]) @ zcSDKOptions (zaiConfig opts)"
  "dcAssistantMessageExtra (zai_NewDriver sanitize headers opts) = Some providerReasoningExtra"
  "dcFinishReasonMapper (zai_NewDriver sanitize headers opts) = Some zai_finishReason"
  by (simp_all add: zai_NewDriver_def openai_NewDriver_def Let_def split: option.splits)

definition zaiBaseURL :: "('c, 'o) zaiOption option list \<Rightarrow> string" where
  "zaiBaseURL opts = (case lastSetting (\<lambda>opt. case opt of Some (ZaiWithBaseURL u) \<Rightarrow> if trimSpace u \<noteq> [] then Some u else None
     | _ \<Rightarrow> None) opts of None \<Rightarrow> DefaultBaseURL | Some u \<Rightarrow> u)"

definition zaiAPIKey :: "('c, 'o) zaiOption option list \<Rightarrow> string" where
  "zaiAPIKey opts = (case lastSetting (\<lambda>opt. case opt of Some (ZaiWithAPIKey k) \<Rightarrow> Some k | _ \<Rightarrow> None) opts of None \<Rightarrow> [] | Some k \<Rightarrow> k)"

lemma zaiConfig_snoc:
  "zaiConfig (opts @ [opt]) = (case opt of None \<Rightarrow> zaiConfig opts | Some o' \<Rightarrow> applyZaiOption o' (zaiConfig opts))"
  by (simp add: zaiConfig_def split: option.split)

lemma zaiConfig_settings: "zcBaseURL (zaiConfig opts) = zaiBaseURL opts \<and> zcAPIKey (zaiConfig opts) = zaiAPIKey opts"
proof (induction opts rule: rev_induct)
  case Nil
  then show ?case by (simp add: zaiConfig_def zaiBaseURL_def zaiAPIKey_def)
next
  case (snoc opt opts)
  then show ?case
    by (cases opt; cases "the opt") (simp_all add: zaiConfig_snoc zaiBaseURL_def zaiAPIKey_def lastSetting_append)
qed

section \<open>What the environment can reach\<close>

lemma zaiBaseURL_nonempty: "zaiBaseURL opts \<noteq> []"
proof (induction opts rule: rev_induct)
  case Nil
  then show ?case by (simp add: zaiBaseURL_def DefaultBaseURL_def)
next
  case (snoc opt opts)
  have "trimSpace [] = []" using blank_Nil unfolding blank_def .
  then show ?case using snoc
    by (cases opt; cases "the opt") (auto simp: zaiBaseURL_def lastSetting_append)
qed

lemma zai_lastSettings:
  assumes "zcSDKOptions (zaiConfig opts) = []"
  shows "lastSetting apiKeyOf (environment @ dcOptions (zai_NewDriver sanitize headers opts)) = Some (zaiAPIKey opts)"
    and "lastSetting baseURLOf (environment @ dcOptions (zai_NewDriver sanitize headers opts)) = Some (sanitize (zaiBaseURL opts))"
    and "lastSetting adminKeyOf (environment @ dcOptions (zai_NewDriver sanitize headers opts)) = Some []"
    and "lastSetting organizationOf (environment @ dcOptions (zai_NewDriver sanitize headers opts)) = Some []"
    and "lastSetting projectOf (environment @ dcOptions (zai_NewDriver sanitize headers opts)) = Some []"
    and "lastSetting retriesOf (environment @ dcOptions (zai_NewDriver sanitize headers opts)) = Some 0"
  unfolding zai_options assms
  by (simp_all add: zaiConfig_settings zaiBaseURL_nonempty withoutEnvironment_def lastSetting_append split: option.split)



end
