(* ===== verification/Spec2Isabelle.thy ===== *)
theory Spec2Isabelle
  imports Structured Conformance McpConnection AnthropicCodec DriverOptions
begin

text \<open>
  A model of elelem, a Go engine for conversations with language models (the root package of
  the repository and its provider drivers), and the theorems that make it correct.

  \<^bold>\<open>The program.\<close> A caller builds an immutable prompt (\<open>prompt.go\<close>) and a request
  (\<open>request.go\<close>) on a client (\<open>client.go\<close>) that holds a driver (\<open>driver.go\<close>). Running the request
  validates it (\<open>request.go\<close>, \<open>structured.go\<close>), then repeats rounds (\<open>engine.go\<close>): drain the
  queue of user turns (\<open>user_message_queue.go\<close>), repair the transcript if asked (\<open>transcript.go\<close>),
  compact it to the token budget (\<open>limit.go\<close>, \<open>tokens.go\<close>), call the driver, assemble its deltas
  into an assistant turn, and either finish or hand out an executor for the turn's tool calls
  (\<open>tool.go\<close>, \<open>toolimages.go\<close>), which records the results and runs the next round. A driver may
  be wrapped in retries (\<open>retry.go\<close>). The OpenAI and Anthropic drivers (\<open>drivers/openai\<close>,
  \<open>drivers/anthropic\<close>) translate a request into the vendor's wire types and the answer back into
  deltas and usage; the Z.ai Coding driver (\<open>drivers/zaicoding\<close>) wraps the OpenAI one. Tools may
  come from MCP servers (\<open>mcp\<close>), whose connections list them and pass calls on. The test
  support (\<open>elelemtest\<close>) is a scripted driver and the suite every driver must pass.

  \<^bold>\<open>Theories and sources.\<close>
  \<^item> Foundations: \<open>Prelude\<close> (64-bit arithmetic, list lemmas, fact collections), \<open>GoStrings\<close>
    (\<open>strings\<close>, \<open>strconv\<close>), \<open>Utf8\<close>, \<open>Json\<close>, \<open>JsonCodec\<close> and \<open>JsonArrays\<close> (\<open>encoding/json\<close>: validity,
    reading, writing), \<open>Base64\<close>, \<open>Sha256\<close>, \<open>Errors\<close> (\<open>errors.go\<close>: sentinels, wrapping, \<open>errors.Is\<close>
    and \<open>errors.As\<close>), \<open>Progress\<close> (executions and fair scheduling).
  \<^item> Data: \<open>Content\<close> (\<open>content.go\<close>), \<open>Messages\<close> (\<open>message.go\<close>, \<open>params.go\<close>, \<open>usage.go\<close>, \<open>model.go\<close>),
    \<open>Prompt\<close> (\<open>prompt.go\<close>), \<open>Tools\<close> (\<open>tool.go\<close>, \<open>toolimages.go\<close>), \<open>UserQueue\<close>, \<open>Driver\<close>, \<open>Requests\<close>
    (\<open>client.go\<close>, the builder methods of \<open>request.go\<close>, \<open>events.go\<close>).
  \<^item> Transcripts: \<open>Transcript\<close> (\<open>transcript.go\<close>: what a legal transcript is, and repair), \<open>Limit\<close>
    (\<open>limit.go\<close>), \<open>Tokens\<close> (\<open>tokens.go\<close>), \<open>Truncate\<close> (tool result truncation of \<open>engine.go\<close>).
  \<^item> The engine: \<open>Validate\<close> (what a request resolves to and what it is refused for), \<open>Assembler\<close>
    (deltas into a turn), \<open>ToolExec\<close> (a round's tool calls), \<open>Engine\<close> (rounds and runs),
    \<open>Session\<close> (every way a caller can drive a run by hand), \<open>Structured\<close> (\<open>RunInto\<close>), \<open>Retry\<close>.
  \<^item> The drivers: \<open>DriverCommon\<close>, \<open>DriverTranscripts\<close> (both drivers' transcript checks),
    \<open>OpenAIModels\<close>, \<open>OpenAITranslate\<close>, \<open>OpenAIStream\<close>, \<open>OpenAIReasoning\<close> (stored reasoning and the
    JSON probes), \<open>AnthropicModels\<close>, \<open>AnthropicTranslate\<close>, \<open>AnthropicStream\<close>, \<open>AnthropicCodec\<close> (its
    JSON and its token counter), \<open>ZaiCoding\<close>, \<open>DriverOptions\<close> (what \<open>NewDriver\<close> makes of its options).
  \<^item> MCP: \<open>McpNames\<close> (\<open>mcp/names.go\<close>), \<open>McpServer\<close> (validation, transports, \<open>mcp/result.go\<close>),
    \<open>McpConnection\<close> (listing, handlers, and the connection as a labelled transition system).
  \<^item> Test support: \<open>ScriptedDriver\<close> (\<open>elelemtest\<close>) and \<open>Conformance\<close> (\<open>elelemtest/conformance\<close>).

  \<^bold>\<open>How state and operations correspond.\<close> A struct is a record with the source's fields in
  order, a method is a definition of the source's name that takes the receiver and returns it
  updated. Everything a caller supplies (handlers, hooks, injectors, callbacks, token counters,
  providers of tools) is a function on an arbitrary world \<open>'w\<close> that returns the next world, so
  effects and their order are visible. A driver's call is a tree of emitted deltas and a final
  usage and error (\<open>drun\<close>), because the consumer may fail at any delta. Errors are values of \<open>err\<close>
  and fallible code returns \<open>err + 'a\<close>; a Go panic that the code does not recover is \<open>None\<close> where
  it can happen (\<open>Truncate\<close>). Go's \<open>int\<close> and \<open>int64\<close> are \<open>int\<close> with \<open>wrap64\<close> wherever a result can
  leave the range; strings are lists of bytes.

  \<^bold>\<open>What the lemmas show.\<close>
  \<^item> Transcripts: repair returns legal transcripts and keeps what is legal; compaction keeps
    legality and the pinned messages and ends; a run, and every way of driving it by hand, keeps
    the transcript legal or open with the executor that answers exactly its calls; the drivers'
    checks accept exactly the legal transcripts with named calls; what they send answers every
    call of a turn at once.
  \<^item> Effects: denied calls never run, the phases of a tool run happen in order, a failing start
    hook runs nothing, an attempt that delivered a delta is never retried.
  \<^item> Accounting: the run's usage and cost are the sums over its rounds, retries count every
    attempt once, each prompt token is priced once.
  \<^item> Agreement: automatic and manual tool loops agree, whole and streamed replies agree, the
    engine's parameter checks imply the drivers' up to the named gaps.
  \<^item> Codecs and refinement: data URIs, stored reasoning and JSON strings read back; the queue and
    the tool set refine their abstract counterparts through the locales of their theories.
  \<^item> MCP: names fit what providers take and lead back to the server's tool; an ended connection
    reports its end once, its tools no longer reach the server, and under fair scheduling every
    end is announced.
  \<^item> Conformance: every driver refuses a bad transcript before it calls the provider, and the
    scripted driver keeps the stream contract exactly when its script does.

  \<^bold>\<open>Bounds and termination.\<close> No fuel is used. Loops over lists are structural or end by a measure
  on the list's length; the round loop ends because the round counter grows to \<open>maxRounds\<close> and
  the queue's bounded content only shrinks when accepted; the retry loop counts attempts; the
  shrinking loop of truncation decreases \<open>keep\<close>. The end of an MCP connection is a liveness
  statement: each fair goroutine has a rank that its own steps bring down.

  \<^bold>\<open>Interfaces.\<close> The locales state what one component asks of another: the containers behind the
  queue and the tool set, the transcript checks the drivers share, the additive token counters
  compaction relies on, the reporting of API errors, local refusal (what the conformance suite
  asks of a driver), a fairly scheduled worker. Each is interpreted on the code's own
  definitions in the theory of the component that provides them.

  \<^bold>\<open>Not modelled.\<close> Contexts, cancellation and timeouts; log lines; the interleaving of two handlers
  inside one another (a schedule orders whole calls); floating-point rounding (prices and
  sampling parameters are rationals); nil receivers; \<open>onFinish\<close> replacing the response's
  executor; the tokenizer (a parameter with the laws it is used under); the JSON schema library
  and reflection (a parameter of \<open>Structured\<close>); the SDKs' transports (what they answer to a
  request is a parameter), what they make of their options, the MCP SDK (its sessions are
  parameters that may go down at any time), and \<open>SanitizeBaseURL\<close>, which is URL parsing. The manifest lists the
  parts of the repository that are left out and why.
\<close>

end
